(* ===== verification/Prelude.thy ===== *)
theory Prelude
  imports Main "HOL-Library.Char_ord" "HOL-Library.List_Lexorder"
begin

section \<open>Shared vocabulary of the development\<close>

text \<open>
  What every component shares: Python's exceptions as values, results that are either an
  exception or a value, and tables of rows kept in rowid order (a SQLite table that is scanned
  without \<^verbatim>\<open>ORDER BY\<close> is read in that order).

  Strings are Isabelle's \<open>string\<close>: a list of characters, each read as the code point with its
  number, so the model's texts are those whose code points are below 256 (Latin-1).  Everything
  the sources put into a program constant is ASCII.
\<close>

named_theorems res_simps \<open>unfolding results and their binds\<close>
named_theorems tbl_simps \<open>lookups and updates of keyed tables\<close>
named_theorems py_eval \<open>equations that evaluate library functions on literals\<close>

subsection \<open>Exceptions and results\<close>

text \<open>
  One constructor per exception class that the sources raise or catch; the argument is the stable
  reason code or message that the exception carries.
\<close>

datatype exn =
    ValidationError string
  | ValueError string
  | JSONDecodeError
  | UnicodeError
  | TypeError
  | OverflowError
  | AttributeError
  | KeyError
  | DatabaseError
  | OSError
  | FileNotFoundError
  | TimeoutError
  | RuntimeError string
  | WideText
    \<comment> \<open>not an exception of Python: a text with a code point above 255, which the model's
       strings cannot hold\<close>

type_synonym 'a res = "exn + 'a"

fun rbind :: "'a res \<Rightarrow> ('a \<Rightarrow> 'b res) \<Rightarrow> 'b res" where
  "rbind (Inl e) f = Inl e"
| "rbind (Inr a) f = f a"

definition ensure :: "bool \<Rightarrow> exn \<Rightarrow> unit res" where
  "ensure b e = (if b then Inr () else Inl e)"

fun res_ok :: "'a res \<Rightarrow> bool" where
  "res_ok (Inl e) = False"
| "res_ok (Inr a) = True"

fun res_opt :: "'a res \<Rightarrow> 'a option" where
  "res_opt (Inl e) = None"
| "res_opt (Inr a) = Some a"

lemma rbind_Inr_iff [res_simps]: "rbind m f = Inr b \<longleftrightarrow> (\<exists>a. m = Inr a \<and> f a = Inr b)"
  by (cases m) auto

lemma rbind_Inl_iff [res_simps]:
  "rbind m f = Inl e \<longleftrightarrow> m = Inl e \<or> (\<exists>a. m = Inr a \<and> f a = Inl e)"
  by (cases m) auto

lemma rbindE:
  assumes "rbind m f = Inr b"
  obtains a where "m = Inr a" "f a = Inr b"
  using assms by (auto simp: rbind_Inr_iff)

lemma rbind_InlE:
  assumes "rbind m f = Inl e"
  obtains "m = Inl e" | a where "m = Inr a" "f a = Inl e"
  using assms by (auto simp: rbind_Inl_iff)

lemma ensure_Inr_iff [res_simps]: "ensure b e = Inr u \<longleftrightarrow> b"
  by (auto simp: ensure_def)

lemma ensure_Inl_iff [res_simps]: "ensure b e = Inl e' \<longleftrightarrow> \<not> b \<and> e' = e"
  by (auto simp: ensure_def)

lemma ensure_True [simp]: "ensure True e = Inr ()"
  by (simp add: ensure_def)

lemma ensure_False [simp]: "ensure False e = Inl e"
  by (simp add: ensure_def)

lemma res_ok_iff: "res_ok r \<longleftrightarrow> (\<exists>a. r = Inr a)"
  by (cases r) auto

lemma res_opt_Some_iff [res_simps]: "res_opt r = Some a \<longleftrightarrow> r = Inr a"
  by (cases r) auto

lemma res_opt_None_iff [res_simps]: "res_opt r = None \<longleftrightarrow> (\<exists>e. r = Inl e)"
  by (cases r) auto

subsection \<open>Keyed tables in rowid order\<close>

text \<open>
  A table with a primary key is the list of its rows in rowid order together with the function
  that reads a row's key.  \<open>tbl_get\<close> is a \<^verbatim>\<open>SELECT ... WHERE key = ?\<close> with \<open>fetchone\<close>;
  \<open>tbl_upsert\<close> is \<^verbatim>\<open>INSERT ... ON CONFLICT(key) DO UPDATE\<close>: an existing row keeps its place,
  a new one goes to the end.
\<close>

fun tbl_get :: "('r \<Rightarrow> 'k) \<Rightarrow> 'k \<Rightarrow> 'r list \<Rightarrow> 'r option" where
  "tbl_get kf k [] = None"
| "tbl_get kf k (r # rs) = (if kf r = k then Some r else tbl_get kf k rs)"

fun tbl_upsert :: "('r \<Rightarrow> 'k) \<Rightarrow> 'r \<Rightarrow> 'r list \<Rightarrow> 'r list" where
  "tbl_upsert kf x [] = [x]"
| "tbl_upsert kf x (r # rs) = (if kf r = kf x then x # rs else r # tbl_upsert kf x rs)"

text \<open>\<^verbatim>\<open>UPDATE ... SET ... WHERE\<close>: every row that satisfies the condition is rewritten in place.\<close>

definition tbl_update :: "('r \<Rightarrow> bool) \<Rightarrow> ('r \<Rightarrow> 'r) \<Rightarrow> 'r list \<Rightarrow> 'r list" where
  "tbl_update p f rs = map (\<lambda>r. if p r then f r else r) rs"

definition tbl_keys :: "('r \<Rightarrow> 'k) \<Rightarrow> 'r list \<Rightarrow> bool" where
  "tbl_keys kf rs \<longleftrightarrow> distinct (map kf rs)"

lemma tbl_get_Some_in: "tbl_get kf k rs = Some r \<Longrightarrow> r \<in> set rs \<and> kf r = k"
  by (induction rs) (auto split: if_splits)

lemma tbl_get_None_iff: "tbl_get kf k rs = None \<longleftrightarrow> k \<notin> kf ` set rs"
  by (induction rs) auto

lemma tbl_get_upsert [tbl_simps]:
  "tbl_get kf k (tbl_upsert kf x rs) = (if kf x = k then Some x else tbl_get kf k rs)"
  by (induction rs) auto

lemma tbl_get_in: "tbl_keys kf rs \<Longrightarrow> r \<in> set rs \<Longrightarrow> tbl_get kf (kf r) rs = Some r"
  unfolding tbl_keys_def by (induction rs) (auto simp: image_iff)

lemma tbl_get_Some_iff:
  "tbl_keys kf rs \<Longrightarrow> tbl_get kf k rs = Some r \<longleftrightarrow> r \<in> set rs \<and> kf r = k"
  using tbl_get_Some_in tbl_get_in by metis

lemma set_tbl_upsert:
  "set (tbl_upsert kf x rs) \<subseteq> insert x (set rs)"
  by (induction rs) auto

lemma in_tbl_upsert_self [simp]: "x \<in> set (tbl_upsert kf x rs)"
  by (induction rs) auto

lemma keys_tbl_upsert: "kf ` set (tbl_upsert kf x rs) = insert (kf x) (kf ` set rs)"
  by (induction rs) auto

lemma tbl_keys_upsert [tbl_simps]: "tbl_keys kf rs \<Longrightarrow> tbl_keys kf (tbl_upsert kf x rs)"
  unfolding tbl_keys_def
proof (induction rs)
  case Nil
  then show ?case by simp
next
  case (Cons r rs)
  moreover have "kf ` set (tbl_upsert kf x rs) = insert (kf x) (kf ` set rs)"
    by (rule keys_tbl_upsert)
  ultimately show ?case by auto
qed

lemma tbl_get_update:
  assumes "\<And>r. r \<in> set rs \<Longrightarrow> p r \<Longrightarrow> kf (f r) = kf r"
  shows "tbl_get kf k (tbl_update p f rs) =
    map_option (\<lambda>r. if p r then f r else r) (tbl_get kf k rs)"
  using assms unfolding tbl_update_def by (induction rs) auto

lemma tbl_keys_update:
  assumes "\<And>r. r \<in> set rs \<Longrightarrow> p r \<Longrightarrow> kf (f r) = kf r"
  shows "tbl_keys kf (tbl_update p f rs) = tbl_keys kf rs"
proof -
  have "map kf (tbl_update p f rs) = map kf rs"
    using assms by (auto simp: tbl_update_def)
  then show ?thesis by (simp add: tbl_keys_def)
qed

lemma tbl_update_none: "(\<And>r. r \<in> set rs \<Longrightarrow> \<not> p r) \<Longrightarrow> tbl_update p f rs = rs"
  unfolding tbl_update_def by (induction rs) auto

lemma length_tbl_update [simp]: "length (tbl_update p f rs) = length rs"
  by (simp add: tbl_update_def)

lemma set_tbl_update: "set (tbl_update p f rs) = (\<lambda>r. if p r then f r else r) ` set rs"
  by (simp add: tbl_update_def)

lemma tbl_keys_Nil [simp]: "tbl_keys kf []"
  by (simp add: tbl_keys_def)

text \<open>Two tables with the same keys in the same order and the same lookups are the same table.\<close>

lemma tbl_eqI:
  assumes "map kf rs = map kf rs'" and "tbl_keys kf rs"
    and "\<And>k. tbl_get kf k rs = tbl_get kf k rs'"
  shows "rs = rs'"
  using assms
proof (induction rs rs' rule: list_induct2')
  case (4 r rs r' rs')
  have r: "r = r'"
    using "4.prems"(1) "4.prems"(3) [of "kf r"] by simp
  have "tbl_get kf k rs = tbl_get kf k rs'" for k
  proof (cases "k = kf r")
    case True
    then have "k \<notin> kf ` set rs" using "4.prems"(2) by (auto simp: tbl_keys_def)
    moreover have "kf ` set rs' = kf ` set rs"
      using "4.prems"(1) by (metis list.simps(9) list.inject list.set_map)
    ultimately show ?thesis by (simp add: tbl_get_None_iff [THEN iffD2])
  next
    case False
    then show ?thesis using "4.prems"(3) [of k] r by simp
  qed
  with "4.IH" "4.prems" r show ?case by (simp add: tbl_keys_def)
qed simp_all

subsection \<open>The contract of a keyed table\<close>

text \<open>\<^verbatim>\<open>UPDATE ... WHERE key = ?\<close>.\<close>

definition tbl_amend :: "('r \<Rightarrow> 'k) \<Rightarrow> 'k \<Rightarrow> ('r \<Rightarrow> 'r) \<Rightarrow> 'r list \<Rightarrow> 'r list" where
  "tbl_amend kf k f rs = tbl_update (\<lambda>r. kf r = k) f rs"

text \<open>
  What the components rely on when they read and write a table by its primary key: a lookup after
  an upsert or an update of another key is unchanged.  The lemmas cover the loops that write
  several rows.
\<close>

locale keyed_table =
  fixes key :: "'r \<Rightarrow> 'k"
    and get :: "'k \<Rightarrow> 't \<Rightarrow> 'r option"
    and put :: "'r \<Rightarrow> 't \<Rightarrow> 't"
    and amend :: "'k \<Rightarrow> ('r \<Rightarrow> 'r) \<Rightarrow> 't \<Rightarrow> 't"
  assumes get_put: "get k (put r t) = (if key r = k then Some r else get k t)"
    and get_amend: "(\<And>r. key (f r) = key r) \<Longrightarrow>
      get k (amend k' f t) = (if k = k' then map_option f (get k t) else get k t)"
    and get_key: "get k t = Some r \<Longrightarrow> key r = k"
begin

lemma get_put_same: "get (key r) (put r t) = Some r"
  by (simp add: get_put)

lemma get_put_other: "key r \<noteq> k \<Longrightarrow> get k (put r t) = get k t"
  by (simp add: get_put)

lemma get_amends:
  assumes "\<And>r. key (f r) = key r" and "\<And>r. f (f r) = f r"
  shows "get k (fold (\<lambda>k'. amend k' f) ks t) =
    (if k \<in> set ks then map_option f (get k t) else get k t)"
proof (induction ks arbitrary: t)
  case Nil
  then show ?case by simp
next
  case (Cons k' ks)
  have "map_option f (map_option f x) = map_option f x" for x
    by (cases x) (simp_all add: assms(2))
  then show ?case using Cons.IH by (simp add: get_amend [OF assms(1)])
qed

end

lemma tbl_get_amend:
  assumes "\<And>r. kf (f r) = kf r"
  shows "tbl_get kf k (tbl_amend kf k' f rs) =
    (if k = k' then map_option f (tbl_get kf k rs) else tbl_get kf k rs)"
proof -
  have "tbl_get kf k (tbl_amend kf k' f rs) =
      map_option (\<lambda>r. if kf r = k' then f r else r) (tbl_get kf k rs)"
    unfolding tbl_amend_def by (rule tbl_get_update) (simp add: assms)
  then show ?thesis
    by (cases "tbl_get kf k rs") (auto dest: tbl_get_Some_in)
qed

text \<open>The tables of the prelude keep the contract, whatever their key is.\<close>

lemma tbl_keyed_table: "keyed_table kf (tbl_get kf) (tbl_upsert kf) (tbl_amend kf)"
  by unfold_locales (auto simp: tbl_get_upsert tbl_get_amend dest: tbl_get_Some_in)

lemma tbl_keys_amend:
  "(\<And>r. kf (f r) = kf r) \<Longrightarrow> tbl_keys kf (tbl_amend kf k f rs) = tbl_keys kf rs"
  unfolding tbl_amend_def by (rule tbl_keys_update) simp

lemma tbl_keys_amends:
  "(\<And>r. kf (f r) = kf r) \<Longrightarrow>
   tbl_keys kf (fold (\<lambda>k. tbl_amend kf k f) ks rs) = tbl_keys kf rs"
  by (induction ks arbitrary: rs) (simp_all add: tbl_keys_amend)

lemma map_key_amend: "(\<And>r. kf (f r) = kf r) \<Longrightarrow> map kf (tbl_amend kf k f rs) = map kf rs"
  by (auto simp: tbl_amend_def tbl_update_def)

end
