(* ===== verification/PyText.thy ===== *)
theory PyText
  imports Prelude
begin

section \<open>Python's string operations\<close>

text \<open>
  The methods of Python's \<^verbatim>\<open>str\<close> that the sources call, and \<^verbatim>\<open>int(text)\<close>, on texts of
  code points below 256.  The character classes are Unicode's restricted to that range.
\<close>

subsection \<open>Character classes\<close>

definition code :: "char \<Rightarrow> nat" where
  "code c = of_char c"

definition between :: "char \<Rightarrow> char \<Rightarrow> char \<Rightarrow> bool" where
  "between a b c \<longleftrightarrow> code a \<le> code c \<and> code c \<le> code b"

definition is_lower :: "char \<Rightarrow> bool" where
  "is_lower c \<longleftrightarrow> between (CHR ''a'') (CHR ''z'') c"

definition is_upper :: "char \<Rightarrow> bool" where
  "is_upper c \<longleftrightarrow> between (CHR ''A'') (CHR ''Z'') c"

definition is_digit :: "char \<Rightarrow> bool" where
  "is_digit c \<longleftrightarrow> between (CHR ''0'') (CHR ''9'') c"

definition is_alpha :: "char \<Rightarrow> bool" where
  "is_alpha c \<longleftrightarrow> is_lower c \<or> is_upper c"

definition is_alnum :: "char \<Rightarrow> bool" where
  "is_alnum c \<longleftrightarrow> is_alpha c \<or> is_digit c"

definition newline :: char where
  "newline = CHR 0x0A"

definition carriage :: char where
  "carriage = CHR 0x0D"

text \<open>
  \<^verbatim>\<open>str.isspace\<close> and the regular expressions' \<^verbatim>\<open>\s\<close>: tab, line feed, vertical tab, form feed,
  carriage return, the four information separators, space, next line and no-break space.
\<close>

definition is_space :: "char \<Rightarrow> bool" where
  "is_space c \<longleftrightarrow> (let n = code c in (9 \<le> n \<and> n \<le> 13) \<or> (28 \<le> n \<and> n \<le> 32) \<or> n = 133 \<or> n = 160)"

text \<open>
  The regular expressions' \<^verbatim>\<open>\w\<close>: letters, digits and underscore, with the Latin-1 letters
  and the Latin-1 characters of numeric value (superscripts and fractions).
\<close>

definition is_word :: "char \<Rightarrow> bool" where
  "is_word c \<longleftrightarrow> is_alnum c \<or> c = CHR ''_'' \<or>
     (let n = code c in n \<in> {170, 178, 179, 181, 185, 186, 188, 189, 190} \<or>
       (192 \<le> n \<and> n \<noteq> 215 \<and> n \<noteq> 247))"

definition lower :: "char \<Rightarrow> char" where
  "lower c = (if is_upper c then char_of (code c + 32) else c)"

definition is_ascii_text :: "string \<Rightarrow> bool" where
  "is_ascii_text s \<longleftrightarrow> list_all (\<lambda>c. code c < 128) s"

subsection \<open>Searching, splitting, replacing\<close>

fun starts_with :: "string \<Rightarrow> string \<Rightarrow> bool" where
  "starts_with [] s = True"
| "starts_with (p # ps) [] = False"
| "starts_with (p # ps) (c # cs) = (p = c \<and> starts_with ps cs)"

definition ends_with :: "string \<Rightarrow> string \<Rightarrow> bool" where
  "ends_with p s = starts_with (rev p) (rev s)"

fun contains :: "string \<Rightarrow> string \<Rightarrow> bool" where
  "contains p [] = (p = [])"
| "contains p (c # cs) = (starts_with p (c # cs) \<or> contains p cs)"

text \<open>\<^verbatim>\<open>s.replace(old, new)\<close> for a non-empty \<open>old\<close>: leftmost, non-overlapping.\<close>

function replace_all :: "string \<Rightarrow> string \<Rightarrow> string \<Rightarrow> string" where
  "replace_all old new s =
     (if old = [] then s
      else case s of [] \<Rightarrow> []
        | c # cs \<Rightarrow>
            if starts_with old (c # cs)
            then new @ replace_all old new (drop (length old) (c # cs))
            else c # replace_all old new cs)"
  by pat_completeness auto
termination
  by (relation "measure (\<lambda>(old, new, s). length s)") auto

declare replace_all.simps [simp del]

definition lstrip :: "(char \<Rightarrow> bool) \<Rightarrow> string \<Rightarrow> string" where
  "lstrip p s = dropWhile p s"

definition rstrip :: "(char \<Rightarrow> bool) \<Rightarrow> string \<Rightarrow> string" where
  "rstrip p s = rev (dropWhile p (rev s))"

definition strip_chars :: "(char \<Rightarrow> bool) \<Rightarrow> string \<Rightarrow> string" where
  "strip_chars p s = rstrip p (lstrip p s)"

text \<open>\<^verbatim>\<open>s.strip()\<close>, and \<^verbatim>\<open>s.split(sep)\<close> for a one-character separator.\<close>

definition strip :: "string \<Rightarrow> string" where
  "strip s = strip_chars is_space s"

fun split_char :: "char \<Rightarrow> string \<Rightarrow> string list" where
  "split_char d [] = [[]]"
| "split_char d (c # cs) =
     (if c = d then [] # split_char d cs
      else case split_char d cs of [] \<Rightarrow> [[c]] | w # ws \<Rightarrow> (c # w) # ws)"

text \<open>\<^verbatim>\<open>s.split()\<close>: the maximal runs of characters that are not white space.\<close>

function split_ws :: "string \<Rightarrow> string list" where
  "split_ws s =
     (let t = dropWhile is_space s
      in if t = [] then []
         else takeWhile (\<lambda>c. \<not> is_space c) t # split_ws (dropWhile (\<lambda>c. \<not> is_space c) t))"
  by pat_completeness auto
termination
proof (relation "measure length")
  show "wf (measure (length :: string \<Rightarrow> nat))" by simp
next
  fix s t :: string
  assume t: "t = dropWhile is_space s" and ne: "t \<noteq> []"
  have "length t \<le> length s" by (simp add: t length_dropWhile_le)
  moreover have "length (dropWhile (\<lambda>c. \<not> is_space c) t) < length t"
  proof -
    obtain c cs where "t = c # cs" using ne by (cases t) auto
    moreover have "\<not> is_space c"
      using hd_dropWhile [of is_space s] ne t \<open>t = c # cs\<close> by (metis list.sel(1))
    ultimately show ?thesis by (simp add: le_imp_less_Suc length_dropWhile_le)
  qed
  ultimately show "(dropWhile (\<lambda>c. \<not> is_space c) t, s) \<in> measure length" by simp
qed

declare split_ws.simps [simp del]

subsection \<open>Numbers and text\<close>

definition digit_char :: "nat \<Rightarrow> char" where
  "digit_char d = char_of (48 + d)"

fun nat_digits :: "nat \<Rightarrow> string" where
  "nat_digits n = (if n < 10 then [digit_char n] else nat_digits (n div 10) @ [digit_char (n mod 10)])"

declare nat_digits.simps [simp del]

text \<open>\<^verbatim>\<open>str(n)\<close> of an integer.\<close>

definition int_text :: "int \<Rightarrow> string" where
  "int_text n = (if n < 0 then CHR ''-'' # nat_digits (nat (- n)) else nat_digits (nat n))"

text \<open>The value of a digit in bases up to sixteen.\<close>

definition digit_value :: "char \<Rightarrow> nat option" where
  "digit_value c =
     (if is_digit c then Some (code c - 48)
      else if between (CHR ''a'') (CHR ''f'') c then Some (code c - 87)
      else if between (CHR ''A'') (CHR ''F'') c then Some (code c - 55)
      else None)"

text \<open>
  The digits of \<^verbatim>\<open>int(text, base)\<close>: single underscores may stand between digits.  \<open>sep\<close>
  says whether an underscore may come next.
\<close>

fun digits_value :: "nat \<Rightarrow> bool \<Rightarrow> int \<Rightarrow> string \<Rightarrow> int option" where
  "digits_value base sep acc [] = (if sep then Some acc else None)"
| "digits_value base sep acc (c # cs) =
     (if c = CHR ''_'' then (if sep then digits_value base False acc cs else None)
      else case digit_value c of
        None \<Rightarrow> None
      | Some d \<Rightarrow> if d < base then digits_value base True (acc * int base + int d) cs else None)"

text \<open>CPython refuses to convert decimal numbers of more than 4300 digits.\<close>

definition INT_MAX_STR_DIGITS :: nat where
  "INT_MAX_STR_DIGITS = 4300"

definition unsigned_value :: "nat \<Rightarrow> string \<Rightarrow> int option" where
  "unsigned_value base s =
     (if base = 16 \<and> (starts_with ''0x'' s \<or> starts_with ''0X'' s)
      then digits_value base False 0 (if starts_with ''_'' (drop 2 s) then drop 3 s else drop 2 s)
      else if base = 10 \<and> INT_MAX_STR_DIGITS < length (filter is_digit s) then None
      else digits_value base False 0 s)"

text \<open>
  \<^verbatim>\<open>int(text, base)\<close> for the bases 10 and 16: \<open>None\<close> is its \<^verbatim>\<open>ValueError\<close>.  It strips
  fewer characters than \<^verbatim>\<open>str.strip\<close>: not the information separators.
\<close>

definition int_space :: "char \<Rightarrow> bool" where
  "int_space c \<longleftrightarrow> is_space c \<and> \<not> (28 \<le> code c \<and> code c \<le> 31)"

definition int_of_text :: "nat \<Rightarrow> string \<Rightarrow> int option" where
  "int_of_text base s =
     (let t = strip_chars int_space s
      in if starts_with ''-'' t then map_option uminus (unsigned_value base (tl t))
         else if starts_with ''+'' t then unsigned_value base (tl t)
         else unsigned_value base t)"

text \<open>\<^verbatim>\<open>format(n, "0wd")\<close> for a natural number.\<close>

definition zero_pad :: "nat \<Rightarrow> string \<Rightarrow> string" where
  "zero_pad w s = replicate (w - length s) (CHR ''0'') @ s"

fun join :: "string \<Rightarrow> string list \<Rightarrow> string" where
  "join sep [] = []"
| "join sep [s] = s"
| "join sep (s # t # ts) = s @ sep @ join sep (t # ts)"

subsection \<open>Lemmas\<close>

lemma code_less [simp]: "code c < 256"
  by (simp add: code_def)

lemma code_inject [simp]: "code c = code d \<longleftrightarrow> c = d"
  by (simp add: code_def)

lemma code_char_of [simp]: "code (char_of n) = n mod 256"
  by (simp add: code_def)

lemma starts_with_iff: "starts_with p s \<longleftrightarrow> (\<exists>t. s = p @ t)"
  by (induction p s rule: starts_with.induct) auto

lemma starts_with_append [simp]: "starts_with p (p @ t)"
  by (auto simp: starts_with_iff)

lemma contains_iff: "contains p s \<longleftrightarrow> (\<exists>u t. s = u @ p @ t)"
proof (induction p s rule: contains.induct)
  case (1 p)
  then show ?case by auto
next
  case (2 p c cs)
  show ?case
  proof
    assume "contains p (c # cs)"
    then consider "starts_with p (c # cs)" | "contains p cs" by auto
    then show "\<exists>u t. c # cs = u @ p @ t"
    proof cases
      case 1
      then obtain t where "c # cs = p @ t" by (auto simp: starts_with_iff)
      then have "c # cs = [] @ p @ t" by simp
      then show ?thesis by blast
    next
      case 2
      then obtain u t where "cs = u @ p @ t" using "2.IH" by blast
      then have "c # cs = (c # u) @ p @ t" by simp
      then show ?thesis by blast
    qed
  next
    assume "\<exists>u t. c # cs = u @ p @ t"
    then obtain u t where eq: "c # cs = u @ p @ t" by blast
    show "contains p (c # cs)"
    proof (cases u)
      case Nil
      then have "starts_with p (c # cs)" using eq by (auto simp: starts_with_iff)
      then show ?thesis by simp
    next
      case (Cons d u')
      then have "cs = u' @ p @ t" using eq by simp
      then show ?thesis using "2.IH" by auto
    qed
  qed
qed

lemma replace_all_Nil [simp]: "replace_all old new [] = []"
  by (subst replace_all.simps) simp

lemma replace_all_absent:
  assumes "\<not> contains old s"
  shows "replace_all old new s = s"
  using assms
proof (induction s)
  case Nil
  then show ?case by simp
next
  case (Cons c cs)
  then show ?case by (subst replace_all.simps) simp
qed

lemma is_digit_digit_char: "d < 10 \<Longrightarrow> is_digit (digit_char d)"
  by (simp add: is_digit_def between_def digit_char_def) (simp add: code_def)

lemma digit_value_digit_char: "d < 10 \<Longrightarrow> digit_value (digit_char d) = Some d"
  using is_digit_digit_char [of d] by (simp add: digit_value_def digit_char_def)

lemma nat_digits_nonempty [simp]: "nat_digits n \<noteq> []"
  by (subst nat_digits.simps) simp

lemma nat_digits_are_digits: "list_all is_digit (nat_digits n)"
proof (induction n rule: nat_digits.induct)
  case (1 n)
  then show ?case
    by (subst nat_digits.simps) (auto simp: is_digit_digit_char)
qed

lemma digits_value_append:
  assumes "list_all is_digit s" and "s \<noteq> []"
  shows "digits_value 10 sep acc (s @ t) =
    (case digits_value 10 sep acc s of None \<Rightarrow> None | Some v \<Rightarrow> digits_value 10 True v t)"
  using assms
proof (induction s arbitrary: sep acc)
  case Nil
  then show ?case by simp
next
  case (Cons c cs)
  have c: "c \<noteq> CHR ''_''" "digit_value c = Some (code c - 48)" "code c - 48 < 10"
    using Cons.prems by (auto simp: is_digit_def between_def digit_value_def code_def)
  show ?case
  proof (cases "cs = []")
    case True
    then show ?thesis using c by simp
  next
    case False
    then show ?thesis using c Cons.IH Cons.prems by simp
  qed
qed

lemma digits_value_nat_digits: "digits_value 10 sep 0 (nat_digits n) = Some (int n)"
proof (induction n arbitrary: sep rule: nat_digits.induct)
  case (1 n)
  have d: "digit_char m \<noteq> CHR ''_''" if "m < 10" for m
    using is_digit_digit_char [OF that] by (auto simp: is_digit_def between_def code_def)
  show ?case
  proof (cases "n < 10")
    case True
    then show ?thesis
      by (subst nat_digits.simps) (simp add: d digit_value_digit_char)
  next
    case False
    have "digits_value 10 sep 0 (nat_digits (n div 10) @ [digit_char (n mod 10)]) = Some (int n)"
      using "1.IH" [OF False, of sep]
      by (simp add: digits_value_append nat_digits_are_digits d digit_value_digit_char zdiv_int zmod_int)
    then show ?thesis using False by (subst nat_digits.simps) simp
  qed
qed

lemma filter_digits [simp]: "list_all p s \<Longrightarrow> filter p s = s"
  by (induction s) auto

lemma int_space_not_digit: "is_digit c \<Longrightarrow> \<not> int_space c"
  by (auto simp: is_digit_def between_def int_space_def is_space_def Let_def code_def)

lemma strip_chars_ends:
  assumes "s \<noteq> []" and "\<not> p (hd s)" and "\<not> p (last s)"
  shows "strip_chars p s = s"
proof -
  have "dropWhile p s = s" using assms(1,2) by (cases s) auto
  moreover have "dropWhile p (rev s) = rev s"
    using assms(1,3) by (cases s rule: rev_cases) auto
  ultimately show ?thesis by (simp add: strip_chars_def lstrip_def rstrip_def)
qed

text \<open>Printing an integer and reading it back, the round trip of \<^verbatim>\<open>str\<close> and \<^verbatim>\<open>int\<close>.\<close>

lemma digit_not_sign: "is_digit c \<Longrightarrow> c \<noteq> CHR ''-'' \<and> c \<noteq> CHR ''+'' \<and> c \<noteq> CHR ''_''"
  by (auto simp: is_digit_def between_def code_def)

lemma unsigned_value_nat_digits:
  assumes "length (nat_digits n) \<le> INT_MAX_STR_DIGITS"
  shows "unsigned_value 10 (nat_digits n) = Some (int n)"
  using assms by (simp add: unsigned_value_def nat_digits_are_digits digits_value_nat_digits)

lemma nat_digits_Cons:
  obtains c cs where "nat_digits n = c # cs" "is_digit c"
  using nat_digits_nonempty [of n] nat_digits_are_digits [of n]
  by (cases "nat_digits n") auto

lemma last_nat_digits: "is_digit (last (nat_digits n))"
  using nat_digits_are_digits [of n] by (simp add: list_all_iff)

lemma int_of_text_int_text:
  assumes "length (nat_digits (nat \<bar>n\<bar>)) \<le> INT_MAX_STR_DIGITS"
  shows "int_of_text 10 (int_text n) = Some n"
proof (cases "n < 0")
  case True
  have "\<not> int_space (CHR ''-'')" by (simp add: int_space_def is_space_def Let_def code_def)
  then have "strip_chars int_space (CHR ''-'' # nat_digits (nat (- n)))
      = CHR ''-'' # nat_digits (nat (- n))"
    by (intro strip_chars_ends) (simp_all add: int_space_not_digit last_nat_digits)
  moreover have "unsigned_value 10 (nat_digits (nat (- n))) = Some (- n)"
    using assms True by (simp add: unsigned_value_nat_digits)
  ultimately show ?thesis using True by (simp add: int_of_text_def int_text_def)
next
  case False
  obtain c cs where c: "nat_digits (nat n) = c # cs" "is_digit c" by (rule nat_digits_Cons)
  have "strip_chars int_space (nat_digits (nat n)) = nat_digits (nat n)"
    using c last_nat_digits [of "nat n"] by (intro strip_chars_ends) (simp_all add: int_space_not_digit)
  moreover have "unsigned_value 10 (nat_digits (nat n)) = Some n"
    using assms False by (simp add: unsigned_value_nat_digits)
  ultimately show ?thesis using False c digit_not_sign [OF c(2)]
    by (auto simp: int_of_text_def int_text_def Let_def)
qed

subsection \<open>Evaluating characters\<close>

text \<open>
  Code equations that compare the bits of two characters instead of counting up to their code
  points, so that texts can be evaluated in the kernel.
\<close>

fun bits_le :: "bool list \<Rightarrow> bool list \<Rightarrow> bool" where
  "bits_le (a # as) (b # bs) = (if a = b then bits_le as bs else b)"
| "bits_le _ _ = True"

fun bits_val :: "bool list \<Rightarrow> nat" where
  "bits_val [] = 0"
| "bits_val (b # bs) = of_bool b * 2 ^ length bs + bits_val bs"

lemma bits_val_less: "bits_val bs < 2 ^ length bs"
  by (induction bs) auto

lemma bits_le_iff: "length as = length bs \<Longrightarrow> bits_le as bs \<longleftrightarrow> bits_val as \<le> bits_val bs"
proof (induction as bs rule: bits_le.induct)
  case (1 a as b bs)
  then show ?case
    using bits_val_less [of as] bits_val_less [of bs] by (cases a; cases b) auto
qed simp_all

definition char_bits :: "char \<Rightarrow> bool list" where
  "char_bits c = (case c of Char b0 b1 b2 b3 b4 b5 b6 b7 \<Rightarrow> [b7, b6, b5, b4, b3, b2, b1, b0])"

lemma code_bits: "code c = bits_val (char_bits c)"
  by (cases c) (simp add: code_def char_bits_def of_char_def)

lemma length_char_bits [simp]: "length (char_bits c) = 8"
  by (cases c) (simp add: char_bits_def)

lemma code_le_bits: "code c \<le> code d \<longleftrightarrow> bits_le (char_bits c) (char_bits d)"
  by (simp add: code_bits bits_le_iff)

lemma between_code [code]:
  "between a b c \<longleftrightarrow> bits_le (char_bits a) (char_bits c) \<and> bits_le (char_bits c) (char_bits b)"
  by (simp add: between_def code_le_bits)

lemma is_word_code [code]:
  "is_word c \<longleftrightarrow>
    (if bits_le (char_bits c) (char_bits (CHR 0x7F)) then is_alnum c \<or> c = CHR ''_''
     else c \<in> {CHR 0xAA, CHR 0xB2, CHR 0xB3, CHR 0xB5, CHR 0xB9, CHR 0xBA, CHR 0xBC, CHR 0xBD, CHR 0xBE} \<or>
       (between (CHR 0xC0) (CHR 0xFF) c \<and> c \<noteq> CHR 0xD7 \<and> c \<noteq> CHR 0xF7))"
proof -
  have low: "bits_le (char_bits c) (char_bits (CHR 0x7F)) \<longleftrightarrow> code c \<le> 127"
    using code_le_bits [of c "CHR 0x7F"] by (simp add: code_def)
  have alnum: "is_alnum c \<Longrightarrow> code c \<le> 127" "c = CHR ''_'' \<Longrightarrow> code c \<le> 127"
    by (auto simp: is_alnum_def is_alpha_def is_lower_def is_upper_def is_digit_def between_def code_def)
  have "code c = code d \<longleftrightarrow> c = d" for d
    by (rule code_inject)
  from this [of "CHR 0xAA"] this [of "CHR 0xB2"] this [of "CHR 0xB3"] this [of "CHR 0xB5"]
    this [of "CHR 0xB9"] this [of "CHR 0xBA"] this [of "CHR 0xBC"] this [of "CHR 0xBD"]
    this [of "CHR 0xBE"] this [of "CHR 0xD7"] this [of "CHR 0xF7"]
  have eqs: "code c = 170 \<longleftrightarrow> c = CHR 0xAA" "code c = 178 \<longleftrightarrow> c = CHR 0xB2" "code c = 179 \<longleftrightarrow> c = CHR 0xB3"
    "code c = 181 \<longleftrightarrow> c = CHR 0xB5" "code c = 185 \<longleftrightarrow> c = CHR 0xB9" "code c = 186 \<longleftrightarrow> c = CHR 0xBA"
    "code c = 188 \<longleftrightarrow> c = CHR 0xBC" "code c = 189 \<longleftrightarrow> c = CHR 0xBD" "code c = 190 \<longleftrightarrow> c = CHR 0xBE"
    "code c = 215 \<longleftrightarrow> c = CHR 0xD7" "code c = 247 \<longleftrightarrow> c = CHR 0xF7"
    by (simp_all add: code_def)
  have hi: "between (CHR 0xC0) (CHR 0xFF) c \<longleftrightarrow> 192 \<le> code c"
  proof -
    have "code (CHR 0xC0) = 192" "code (CHR 0xFF) = 255" by (simp_all add: code_def)
    then show ?thesis using code_less [of c] by (simp add: between_def del: code_less)
  qed
  show ?thesis
  proof (cases "code c \<le> 127")
    case True
    then have "\<not> 192 \<le> code c" "code c \<notin> {170, 178, 179, 181, 185, 186, 188, 189, 190}" by auto
    with True show ?thesis by (simp only: low is_word_def Let_def simp_thms if_True)
  next
    case False
    then have na: "is_alnum c = False" "(c = CHR ''_'') = False" using alnum by blast+
    show ?thesis
      by (simp only: low is_word_def Let_def insert_iff empty_iff eqs hi na False simp_thms if_False)
  qed
qed

lemma lower_code [code]:
  "lower (Char b0 b1 b2 b3 b4 b5 b6 b7) =
    (if is_upper (Char b0 b1 b2 b3 b4 b5 b6 b7) then Char b0 b1 b2 b3 b4 True b6 b7
     else Char b0 b1 b2 b3 b4 b5 b6 b7)"
proof (cases "is_upper (Char b0 b1 b2 b3 b4 b5 b6 b7)")
  case True
  then have "b7 = False" "b6 = True" "b5 = False"
    by (auto simp: is_upper_def between_code char_bits_def split: if_splits)
  then have "code (Char b0 b1 b2 b3 b4 b5 b6 b7) + 32 = code (Char b0 b1 b2 b3 b4 True b6 b7)"
    by (simp add: code_bits char_bits_def)
  then have "char_of (code (Char b0 b1 b2 b3 b4 b5 b6 b7) + 32) = Char b0 b1 b2 b3 b4 True b6 b7"
    by (metis char_of_char code_def)
  then show ?thesis using True by (simp add: lower_def)
next
  case False
  then show ?thesis by (simp add: lower_def)
qed

lemma is_space_code [code]:
  "is_space c \<longleftrightarrow> between (CHR 0x09) (CHR 0x0D) c \<or> between (CHR 0x1C) (CHR 0x20) c \<or>
     c = CHR 0x85 \<or> c = CHR 0xA0"
proof -
  have "code c = 133 \<longleftrightarrow> c = CHR 0x85" "code c = 160 \<longleftrightarrow> c = CHR 0xA0"
    using code_inject [of c "CHR 0x85"] code_inject [of c "CHR 0xA0"] by (simp_all add: code_def)
  then show ?thesis
    by (simp add: is_space_def Let_def between_def) (simp add: code_def)
qed

lemma length_nat_digits: "n < 10 ^ Suc k \<Longrightarrow> length (nat_digits n) \<le> Suc k"
proof (induction k arbitrary: n)
  case 0
  then show ?case by (subst nat_digits.simps) simp
next
  case (Suc k)
  have "n div 10 < 10 ^ Suc k" using Suc.prems by (simp add: less_mult_imp_div_less mult.commute)
  then have "length (nat_digits (n div 10)) \<le> Suc k" by (rule Suc.IH)
  then show ?case by (subst nat_digits.simps) simp
qed

end
