(* ===== verification/PyValue.thy ===== *)
theory PyValue
  imports PyText
begin

section \<open>Python values and JSON\<close>

text \<open>
  The values that cross the program's boundaries: what \<^verbatim>\<open>json.loads\<close> returns and what callers hand
  to \<^verbatim>\<open>validate_event(payload: object)\<close>.  A float is represented by its \<^verbatim>\<open>repr\<close> (\<^verbatim>\<open>nan\<close>, \<^verbatim>\<open>inf\<close>
  and \<^verbatim>\<open>-inf\<close> for the values JSON has no number for).  A dictionary is the list of its items in
  insertion order; \<open>PProxy\<close> is \<^verbatim>\<open>types.MappingProxyType\<close>, which is a \<^verbatim>\<open>Mapping\<close> that the JSON
  encoder refuses; \<open>POther\<close> is any other object it refuses.
\<close>

subsection \<open>Values\<close>

datatype pykey = KStr string | KInt int | KBool bool | KNone | KFloat string | KOther

datatype pyval =
    PNone
  | PBool bool
  | PInt int
  | PFloat string
  | PStr string
  | PList "pyval list"
  | PTuple "pyval list"
  | PDict "(pykey \<times> pyval) list"
  | PProxy "(pykey \<times> pyval) list"
  | POther

text \<open>\<^verbatim>\<open>isinstance(v, Mapping)\<close>, the items of a mapping, \<^verbatim>\<open>m.get(key)\<close> with its default \<^verbatim>\<open>None\<close>.\<close>

fun is_mapping :: "pyval \<Rightarrow> bool" where
  "is_mapping (PDict kvs) = True"
| "is_mapping (PProxy kvs) = True"
| "is_mapping _ = False"

fun items :: "pyval \<Rightarrow> (pykey \<times> pyval) list" where
  "items (PDict kvs) = kvs"
| "items (PProxy kvs) = kvs"
| "items _ = []"

definition pget :: "pyval \<Rightarrow> string \<Rightarrow> pyval" where
  "pget m k = (case map_of (items m) (KStr k) of None \<Rightarrow> PNone | Some v \<Rightarrow> v)"

definition has_key :: "pyval \<Rightarrow> string \<Rightarrow> bool" where
  "has_key m k \<longleftrightarrow> KStr k \<in> fst ` set (items m)"

text \<open>A dictionary written with string keys, as in the program's own literals.\<close>

definition obj :: "(string \<times> pyval) list \<Rightarrow> pyval" where
  "obj kvs = PDict (map (\<lambda>(k, v). (KStr k, v)) kvs)"

fun str_of :: "pyval \<Rightarrow> string option" where
  "str_of (PStr s) = Some s"
| "str_of _ = None"

fun int_of_val :: "pyval \<Rightarrow> int option" where
  "int_of_val (PInt n) = Some n"
| "int_of_val _ = None"

text \<open>\<^verbatim>\<open>d[k] = v\<close>: an existing key keeps its place.\<close>

fun dict_set :: "pykey \<Rightarrow> pyval \<Rightarrow> (pykey \<times> pyval) list \<Rightarrow> (pykey \<times> pyval) list" where
  "dict_set k v [] = [(k, v)]"
| "dict_set k v ((k', v') # kvs) =
     (if k' = k then (k, v) # kvs else (k', v') # dict_set k v kvs)"

text \<open>\<^verbatim>\<open>str(v)\<close>, where \<open>rp\<close> is the text of a container or a float, and the truth of a value.\<close>

fun py_str :: "(pyval \<Rightarrow> string) \<Rightarrow> pyval \<Rightarrow> string" where
  "py_str rp PNone = ''None''"
| "py_str rp (PBool b) = (if b then ''True'' else ''False'')"
| "py_str rp (PInt n) = int_text n"
| "py_str rp (PStr s) = s"
| "py_str rp v = rp v"

fun truthy :: "pyval \<Rightarrow> bool" where
  "truthy PNone = False"
| "truthy (PBool b) = b"
| "truthy (PInt n) = (n \<noteq> 0)"
| "truthy (PFloat t) = (t \<notin> {''0.0'', ''-0.0''})"
| "truthy (PStr s) = (s \<noteq> [])"
| "truthy (PList vs) = (vs \<noteq> [])"
| "truthy (PTuple vs) = (vs \<noteq> [])"
| "truthy (PDict kvs) = (kvs \<noteq> [])"
| "truthy (PProxy kvs) = (kvs \<noteq> [])"
| "truthy POther = True"

subsection \<open>Encoding: \<^verbatim>\<open>json.dumps\<close> with \<^verbatim>\<open>ensure_ascii=True\<close>\<close>

record json_format =
  item_sep :: string
  key_sep :: string
  allow_nan :: bool

text \<open>\<^verbatim>\<open>separators=(",", ":")\<close> and the default separators.\<close>

definition compact :: json_format where
  "compact = \<lparr>item_sep = '','', key_sep = '':'', allow_nan = True\<rparr>"

definition spaced :: json_format where
  "spaced = \<lparr>item_sep = '', '', key_sep = '': '', allow_nan = True\<rparr>"

definition hex_char :: "nat \<Rightarrow> char" where
  "hex_char d = (if d < 10 then char_of (48 + d) else char_of (87 + d))"

definition escape_char :: "char \<Rightarrow> string" where
  "escape_char c =
     (let n = code c in
      if n = 34 then [CHR 0x5C, CHR 0x22]
      else if n = 92 then [CHR 0x5C, CHR 0x5C]
      else if n = 10 then [CHR 0x5C, CHR ''n'']
      else if n = 13 then [CHR 0x5C, CHR ''r'']
      else if n = 9 then [CHR 0x5C, CHR ''t'']
      else if n = 12 then [CHR 0x5C, CHR ''f'']
      else if n = 8 then [CHR 0x5C, CHR ''b'']
      else if 32 \<le> n \<and> n \<le> 126 then [c]
      else [CHR 0x5C, CHR ''u'', CHR ''0'', CHR ''0'', hex_char (n div 16), hex_char (n mod 16)])"

definition quote :: "string \<Rightarrow> string" where
  "quote s = CHR 0x22 # concat (map escape_char s) @ [CHR 0x22]"

definition dump_float :: "json_format \<Rightarrow> string \<Rightarrow> string res" where
  "dump_float fmt r =
     (if r \<in> {''nan'', ''inf'', ''-inf''}
      then if allow_nan fmt
           then Inr (if r = ''nan'' then ''NaN'' else if r = ''inf'' then ''Infinity'' else ''-Infinity'')
           else Inl (ValueError ''Out of range float values are not JSON compliant'')
      else Inr r)"

definition dump_int :: "int \<Rightarrow> string res" where
  "dump_int n =
     (if INT_MAX_STR_DIGITS < length (nat_digits (nat \<bar>n\<bar>))
      then Inl (ValueError ''Exceeds the limit for integer string conversion'')
      else Inr (int_text n))"

fun dump_key :: "json_format \<Rightarrow> pykey \<Rightarrow> string res" where
  "dump_key fmt (KStr s) = Inr (quote s)"
| "dump_key fmt (KInt n) = rbind (dump_int n) (\<lambda>t. Inr (quote t))"
| "dump_key fmt (KBool b) = Inr (quote (if b then ''true'' else ''false''))"
| "dump_key fmt KNone = Inr (quote ''null'')"
| "dump_key fmt (KFloat r) = rbind (dump_float fmt r) (\<lambda>t. Inr (quote t))"
| "dump_key fmt KOther = Inl TypeError"

function (sequential) dumps :: "json_format \<Rightarrow> pyval \<Rightarrow> string res"
  and dumps_list :: "json_format \<Rightarrow> pyval list \<Rightarrow> string list res"
  and dumps_items :: "json_format \<Rightarrow> (pykey \<times> pyval) list \<Rightarrow> string list res" where
  "dumps fmt PNone = Inr ''null''"
| "dumps fmt (PBool b) = Inr (if b then ''true'' else ''false'')"
| "dumps fmt (PInt n) = dump_int n"
| "dumps fmt (PFloat r) = dump_float fmt r"
| "dumps fmt (PStr s) = Inr (quote s)"
| "dumps fmt (PList vs) =
     rbind (dumps_list fmt vs) (\<lambda>ts. Inr (''['' @ join (item_sep fmt) ts @ '']''))"
| "dumps fmt (PTuple vs) =
     rbind (dumps_list fmt vs) (\<lambda>ts. Inr (''['' @ join (item_sep fmt) ts @ '']''))"
| "dumps fmt (PDict kvs) =
     rbind (dumps_items fmt kvs) (\<lambda>ts. Inr (''{'' @ join (item_sep fmt) ts @ ''}''))"
| "dumps fmt (PProxy kvs) = Inl TypeError"
| "dumps fmt POther = Inl TypeError"
| "dumps_list fmt [] = Inr []"
| "dumps_list fmt (v # vs) =
     rbind (dumps fmt v) (\<lambda>t. rbind (dumps_list fmt vs) (\<lambda>ts. Inr (t # ts)))"
| "dumps_items fmt [] = Inr []"
| "dumps_items fmt ((k, v) # kvs) =
     rbind (dump_key fmt k) (\<lambda>kt. rbind (dumps fmt v) (\<lambda>t.
       rbind (dumps_items fmt kvs) (\<lambda>ts. Inr ((kt @ key_sep fmt @ t) # ts))))"
  by pat_completeness auto
termination
  by (relation "measure (\<lambda>x. case x of
        Inl (_, v) \<Rightarrow> size v
      | Inr (Inl (_, vs)) \<Rightarrow> size_list size vs
      | Inr (Inr (_, kvs)) \<Rightarrow> size_list (size_prod (\<lambda>_. 0) size) kvs)") auto

text \<open>\<^verbatim>\<open>sort_keys=True\<close>: the items of every dictionary in the order of their (text) keys.\<close>

definition key_text :: "pykey \<Rightarrow> string" where
  "key_text k = (case k of KStr s \<Rightarrow> s | _ \<Rightarrow> [])"

fun insert_item :: "pykey \<times> pyval \<Rightarrow> (pykey \<times> pyval) list \<Rightarrow> (pykey \<times> pyval) list" where
  "insert_item x [] = [x]"
| "insert_item x (y # ys) =
     (if key_text (fst x) \<le> key_text (fst y) then x # y # ys else y # insert_item x ys)"

function (sequential) sort_keys :: "pyval \<Rightarrow> pyval"
  and sort_keys_list :: "pyval list \<Rightarrow> pyval list"
  and sort_keys_items :: "(pykey \<times> pyval) list \<Rightarrow> (pykey \<times> pyval) list" where
  "sort_keys (PList vs) = PList (sort_keys_list vs)"
| "sort_keys (PTuple vs) = PTuple (sort_keys_list vs)"
| "sort_keys (PDict kvs) = PDict (sort_keys_items kvs)"
| "sort_keys v = v"
| "sort_keys_list [] = []"
| "sort_keys_list (v # vs) = sort_keys v # sort_keys_list vs"
| "sort_keys_items [] = []"
| "sort_keys_items ((k, v) # kvs) = insert_item (k, sort_keys v) (sort_keys_items kvs)"
  by pat_completeness auto
termination
  by (relation "measure (\<lambda>x. case x of
        Inl v \<Rightarrow> size v
      | Inr (Inl vs) \<Rightarrow> size_list size vs
      | Inr (Inr kvs) \<Rightarrow> size_list (size_prod (\<lambda>_. 0) size) kvs)") auto

subsection \<open>JSON values\<close>

text \<open>
  The values that survive encoding and decoding unchanged: no floats, tuples or other objects,
  string keys that are distinct in every dictionary, integers within the digit limit.
\<close>

function (sequential) json_plain :: "pyval \<Rightarrow> bool"
  and json_plain_list :: "pyval list \<Rightarrow> bool"
  and json_plain_items :: "(pykey \<times> pyval) list \<Rightarrow> bool" where
  "json_plain PNone = True"
| "json_plain (PBool b) = True"
| "json_plain (PInt n) = (length (nat_digits (nat \<bar>n\<bar>)) \<le> INT_MAX_STR_DIGITS)"
| "json_plain (PStr s) = True"
| "json_plain (PList vs) = json_plain_list vs"
| "json_plain (PDict kvs) = (json_plain_items kvs \<and> distinct (map fst kvs))"
| "json_plain _ = False"
| "json_plain_list [] = True"
| "json_plain_list (v # vs) = (json_plain v \<and> json_plain_list vs)"
| "json_plain_items [] = True"
| "json_plain_items ((k, v) # kvs) =
     ((case k of KStr s \<Rightarrow> True | _ \<Rightarrow> False) \<and> json_plain v \<and> json_plain_items kvs)"
  by pat_completeness auto
termination
  by (relation "measure (\<lambda>x. case x of
        Inl v \<Rightarrow> size v
      | Inr (Inl vs) \<Rightarrow> size_list size vs
      | Inr (Inr kvs) \<Rightarrow> size_list (size_prod (\<lambda>_. 0) size) kvs)") auto

text \<open>The text of a plain value, which \<^verbatim>\<open>json.dumps\<close> always produces.\<close>

lemma json_plain_dumps:
  shows "json_plain v \<Longrightarrow> res_ok (dumps fmt v)"
    and "json_plain_list vs \<Longrightarrow> res_ok (dumps_list fmt vs)"
    and "json_plain_items kvs \<Longrightarrow> res_ok (dumps_items fmt kvs)"
  by (induction v and vs and kvs rule: json_plain_json_plain_list_json_plain_items.induct)
     (auto simp: dump_int_def res_ok_iff split: pykey.splits)

text \<open>Sorting the keys keeps a value plain and keeps the items of every dictionary.\<close>

lemma set_insert_item: "set (insert_item x ys) = insert x (set ys)"
  by (induction ys) auto

lemma distinct_insert_item:
  "distinct (map fst (insert_item x ys)) \<longleftrightarrow> fst x \<notin> fst ` set ys \<and> distinct (map fst ys)"
  by (induction ys) (auto simp: set_insert_item)

lemma length_insert_item [simp]: "length (insert_item x ys) = Suc (length ys)"
  by (induction ys) auto

lemma json_plain_items_iff:
  "json_plain_items kvs \<longleftrightarrow> (\<forall>(k, v) \<in> set kvs. (\<exists>s. k = KStr s) \<and> json_plain v)"
  by (induction kvs) (auto split: pykey.splits)

lemma keys_sort_keys_items: "fst ` set (sort_keys_items kvs) = fst ` set kvs"
proof (induction kvs)
  case (Cons p kvs)
  then show ?case by (cases p) (simp add: set_insert_item)
qed simp

lemma distinct_sort_keys_items:
  "distinct (map fst (sort_keys_items kvs)) = distinct (map fst kvs)"
proof (induction kvs)
  case (Cons p kvs)
  then show ?case by (cases p) (simp add: distinct_insert_item keys_sort_keys_items)
qed simp

lemma json_plain_sort_keys:
  shows "json_plain v \<Longrightarrow> json_plain (sort_keys v)"
    and "json_plain_list vs \<Longrightarrow> json_plain_list (sort_keys_list vs)"
    and "json_plain_items kvs \<Longrightarrow> json_plain_items (sort_keys_items kvs)"
  by (induction v and vs and kvs rule: json_plain_json_plain_list_json_plain_items.induct)
     (auto simp: json_plain_items_iff set_insert_item distinct_sort_keys_items)

subsection \<open>Lookups\<close>

lemma has_key_iff: "has_key m k \<longleftrightarrow> (\<exists>v. map_of (items m) (KStr k) = Some v)"
proof -
  have "has_key m k \<longleftrightarrow> KStr k \<in> dom (map_of (items m))"
    by (simp add: has_key_def dom_map_of_conv_image_fst)
  then show ?thesis by (simp add: dom_def)
qed

lemma map_of_obj [simp]: "map_of (items (obj kvs)) (KStr k) = map_of kvs k"
  by (induction kvs) (auto simp: obj_def)

lemma pget_obj [simp]: "pget (obj kvs) k = (case map_of kvs k of None \<Rightarrow> PNone | Some v \<Rightarrow> v)"
  by (simp add: pget_def)

lemma pget_in_items: "pget m k \<noteq> PNone \<Longrightarrow> (KStr k, pget m k) \<in> set (items m)"
  by (auto simp: pget_def map_of_SomeD split: option.splits)

subsection \<open>Evaluating the encoder\<close>

lemma escape_char_code [code]:
  "escape_char c =
    (if c = CHR 0x22 then [CHR 0x5C, CHR 0x22]
     else if c = CHR 0x5C then [CHR 0x5C, CHR 0x5C]
     else if c = CHR 0x0A then [CHR 0x5C, CHR ''n'']
     else if c = CHR 0x0D then [CHR 0x5C, CHR ''r'']
     else if c = CHR 0x09 then [CHR 0x5C, CHR ''t'']
     else if c = CHR 0x0C then [CHR 0x5C, CHR ''f'']
     else if c = CHR 0x08 then [CHR 0x5C, CHR ''b'']
     else if between (CHR 0x20) (CHR 0x7E) c then [c]
     else [CHR 0x5C, CHR ''u'', CHR ''0'', CHR ''0'', hex_char (code c div 16), hex_char (code c mod 16)])"
proof -
  have "code c = code (CHR 0x22) \<longleftrightarrow> c = CHR 0x22" "code c = code (CHR 0x5C) \<longleftrightarrow> c = CHR 0x5C"
    "code c = code (CHR 0x0A) \<longleftrightarrow> c = CHR 0x0A" "code c = code (CHR 0x0D) \<longleftrightarrow> c = CHR 0x0D"
    "code c = code (CHR 0x09) \<longleftrightarrow> c = CHR 0x09" "code c = code (CHR 0x0C) \<longleftrightarrow> c = CHR 0x0C"
    "code c = code (CHR 0x08) \<longleftrightarrow> c = CHR 0x08"
    by (rule code_inject)+
  moreover have "code (CHR 0x22) = 34" "code (CHR 0x5C) = 92" "code (CHR 0x0A) = 10"
    "code (CHR 0x0D) = 13" "code (CHR 0x09) = 9" "code (CHR 0x0C) = 12" "code (CHR 0x08) = 8"
    "code (CHR 0x20) = 32" "code (CHR 0x7E) = 126"
    by (simp_all add: code_def)
  ultimately show ?thesis unfolding escape_char_def Let_def between_def by simp
qed

end
