(* ===== verification/PyTime.thy ===== *)
theory PyTime
  imports PyText
begin

section \<open>Dates and times\<close>

text \<open>
  The part of Python's \<^verbatim>\<open>datetime\<close> that the sources use: \<^verbatim>\<open>fromisoformat\<close> (every format that the
  parser of CPython 3.11 accepts: extended and basic dates, week dates, fractions, offsets),
  \<^verbatim>\<open>astimezone\<close> with its range checks, \<^verbatim>\<open>isoformat\<close>, comparison and subtraction.  A moment is the
  wall time in microseconds since the start of year 1 with the offset from UTC, if it has one,
  in microseconds.
\<close>

subsection \<open>The proleptic Gregorian calendar\<close>

definition is_leap :: "int \<Rightarrow> bool" where
  "is_leap y \<longleftrightarrow> y mod 4 = 0 \<and> (y mod 100 \<noteq> 0 \<or> y mod 400 = 0)"

definition days_before_year :: "int \<Rightarrow> int" where
  "days_before_year y =
     (y - 1) * 365 + (y - 1) div 4 - (y - 1) div 100 + (y - 1) div 400"

definition month_length :: "bool \<Rightarrow> int \<Rightarrow> int" where
  "month_length lp m =
     (if m = 2 then (if lp then 29 else 28) else if m \<in> {4, 6, 9, 11} then 30 else 31)"

definition month_start :: "bool \<Rightarrow> int \<Rightarrow> int" where
  "month_start lp m =
     [0, 0, 31, 59, 90, 120, 151, 181, 212, 243, 273, 304, 334] ! nat m +
     (if 2 < m \<and> lp then 1 else 0)"

definition MAX_ORDINAL :: int where
  "MAX_ORDINAL = 3652059"

text \<open>The ordinal of a date, if there is such a date, and the date of an ordinal.\<close>

definition ymd_to_ord :: "int \<Rightarrow> int \<Rightarrow> int \<Rightarrow> int option" where
  "ymd_to_ord y m d =
     (if 1 \<le> y \<and> y \<le> 9999 \<and> 1 \<le> m \<and> m \<le> 12 \<and> 1 \<le> d \<and> d \<le> month_length (is_leap y) m
      then Some (days_before_year y + month_start (is_leap y) m + d) else None)"

definition month_day :: "bool \<Rightarrow> int \<Rightarrow> int \<times> int" where
  "month_day lp n =
     (let m = (n + 50) div 32; p = month_start lp m
      in if n < p then (m - 1, n - (p - month_length lp (m - 1)) + 1) else (m, n - p + 1))"

definition ord_to_ymd :: "int \<Rightarrow> int \<times> int \<times> int" where
  "ord_to_ymd n =
     (let r = n - 1;
          n400 = r div 146097; r400 = r mod 146097;
          n100 = r400 div 36524; r100 = r400 mod 36524;
          n4 = r100 div 1461; r4 = r100 mod 1461;
          n1 = r4 div 365; r1 = r4 mod 365;
          y = n400 * 400 + 1 + n100 * 100 + n4 * 4 + n1
      in if n1 = 4 \<or> n100 = 4 then (y - 1, 12, 31)
         else (y, month_day (n1 = 3 \<and> (n4 \<noteq> 24 \<or> n100 = 3)) r1))"

text \<open>The ordinal of a day of an ISO week.\<close>

definition week_to_ord :: "int \<Rightarrow> int \<Rightarrow> int \<Rightarrow> int option" where
  "week_to_ord y w d =
     (let first = days_before_year y + 1;
          wd = (first + 6) mod 7;
          monday = first - wd + (if 3 < wd then 7 else 0);
          n = monday + (w - 1) * 7 + d - 1
      in if 1 \<le> y \<and> 1 \<le> d \<and> d \<le> 7 \<and>
            (1 \<le> w \<and> w \<le> 52 \<or> w = 53 \<and> (wd = 3 \<or> wd = 2 \<and> is_leap y)) \<and>
            1 \<le> n \<and> n \<le> MAX_ORDINAL
         then Some n else None)"

subsection \<open>Moments\<close>

record datetime =
  naive :: int
  offset :: "int option"

definition DAY :: int where
  "DAY = 86400000000"

definition in_range :: "int \<Rightarrow> bool" where
  "in_range n \<longleftrightarrow> 0 \<le> n \<and> n < MAX_ORDINAL * DAY"

text \<open>
  The instant of an aware moment; aware moments are compared and subtracted by their instants.
  \<^verbatim>\<open>astimezone\<close> goes through UTC and raises \<open>OverflowError\<close> where the UTC time or the result is
  outside the years 1 to 9999.
\<close>

definition instant :: "datetime \<Rightarrow> int" where
  "instant t = naive t - (case offset t of None \<Rightarrow> 0 | Some f \<Rightarrow> f)"

definition astimezone :: "int \<Rightarrow> datetime \<Rightarrow> datetime res" where
  "astimezone f t =
     (if \<not> in_range (instant t) then Inl OverflowError
      else if \<not> in_range (instant t + f) then Inl OverflowError
      else Inr \<lparr>naive = instant t + f, offset = Some f\<rparr>)"

subsection \<open>Reading ISO 8601\<close>

text \<open>Exactly \<open>k\<close> decimal digits, and the rest.\<close>

fun take_digits :: "nat \<Rightarrow> int \<Rightarrow> string \<Rightarrow> (int \<times> string) option" where
  "take_digits 0 acc s = Some (acc, s)"
| "take_digits (Suc k) acc [] = None"
| "take_digits (Suc k) acc (c # cs) =
     (if is_digit c then take_digits k (acc * 10 + int (code c - 48)) cs else None)"

text \<open>Where the date ends.\<close>

definition separator_location :: "string \<Rightarrow> nat option" where
  "separator_location s =
     (let n = length s in
      if n = 7 then Some 7
      else if s ! 4 = CHR ''-'' then
        (if s ! 5 = CHR ''W'' then
           (if 8 < n \<and> s ! 8 = CHR ''-'' then
              (if n = 9 then None
               else if 10 < n \<and> is_digit (s ! 10) then Some 8 else Some 10)
            else Some 8)
         else Some 10)
      else if s ! 4 = CHR ''W'' then
        (let p = 7 + length (takeWhile is_digit (drop 7 s))
         in if p < 9 then Some p else if p mod 2 = 0 then Some 7 else Some 8)
      else Some 8)"

text \<open>The date: \<open>YYYY-MM-DD\<close>, \<open>YYYYMMDD\<close>, \<open>YYYY-Www[-D]\<close> or \<open>YYYYWww[D]\<close>, as an ordinal.\<close>

definition parse_week_date :: "int \<Rightarrow> bool \<Rightarrow> string \<Rightarrow> int option" where
  "parse_week_date y sep s =
     (case take_digits 2 0 s of None \<Rightarrow> None
      | Some (w, r) \<Rightarrow>
          if r = [] then week_to_ord y w 1
          else if sep \<and> \<not> starts_with ''-'' r then None
          else (case take_digits 1 0 (if sep then tl r else r) of None \<Rightarrow> None
                | Some (d, r') \<Rightarrow> week_to_ord y w d))"

definition parse_month_day :: "int \<Rightarrow> bool \<Rightarrow> string \<Rightarrow> int option" where
  "parse_month_day y sep s =
     (case take_digits 2 0 s of None \<Rightarrow> None
      | Some (m, r) \<Rightarrow>
          if sep \<and> \<not> starts_with ''-'' r then None
          else (case take_digits 2 0 (if sep then tl r else r) of None \<Rightarrow> None
                | Some (d, r') \<Rightarrow> if r' = [] then ymd_to_ord y m d else None))"

definition parse_date :: "string \<Rightarrow> int option" where
  "parse_date s =
     (case take_digits 4 0 s of None \<Rightarrow> None
      | Some (y, r) \<Rightarrow>
          (let sep = starts_with ''-'' r; r' = (if sep then tl r else r)
           in if starts_with ''W'' r' then parse_week_date y sep (tl r')
              else parse_month_day y sep r'))"

text \<open>
  The time of day: hours, minutes, seconds and microseconds.  \<open>fin\<close> says that the text ends
  here; the last component of the result, that the parser reached that end (a time that is
  followed by an offset does not have to).
\<close>

definition parse_fraction :: "string \<Rightarrow> bool \<Rightarrow> (int \<times> bool) option" where
  "parse_fraction s fin =
     (let k = min 6 (length s)
      in case take_digits k 0 s of None \<Rightarrow> None
         | Some (us, r) \<Rightarrow> Some (us * 10 ^ (6 - k), dropWhile is_digit r = [] \<and> fin))"

fun parse_hms :: "nat \<Rightarrow> bool \<Rightarrow> bool \<Rightarrow> string \<Rightarrow> bool \<Rightarrow> (int list \<times> int \<times> bool) option" where
  "parse_hms 0 first sep s fin = None"
| "parse_hms (Suc k) first sep s fin =
     (case take_digits 2 0 s of None \<Rightarrow> None
      | Some (v, []) \<Rightarrow> Some ([v], 0, fin)
      | Some (v, c # t) \<Rightarrow>
          (let sep' = (if first then c = CHR '':'' else sep);
               frac = (\<lambda>u. map_option (\<lambda>(us, e). ([v], us, e)) (parse_fraction u fin));
               more = (\<lambda>u. if k = 0 then frac u
                 else map_option (\<lambda>(vs, us, e). (v # vs, us, e)) (parse_hms k False sep' u fin))
           in if 128 \<le> code c then None
              else if t = [] then Some ([v], 0, False)
              else if sep' \<and> c = CHR '':'' then more t
              else if c = CHR ''.'' \<or> c = CHR '','' then frac t
              else if \<not> sep' then more (c # t)
              else None))"

definition component :: "int list \<Rightarrow> nat \<Rightarrow> int" where
  "component vs i = (if i < length vs then vs ! i else 0)"

definition seconds_of :: "int list \<Rightarrow> int" where
  "seconds_of vs = component vs 0 * 3600 + component vs 1 * 60 + component vs 2"

definition is_zone_mark :: "char \<Rightarrow> bool" where
  "is_zone_mark c \<longleftrightarrow> c = CHR ''+'' \<or> c = CHR ''-'' \<or> c = CHR ''Z''"

text \<open>The offset after the time: \<open>None\<close> is malformed.\<close>

definition parse_zone :: "string \<Rightarrow> int option option" where
  "parse_zone z =
     (if z = [] then Some None
      else if hd z = CHR ''Z'' then (if tl z = [] then Some (Some 0) else None)
      else (case parse_hms 3 True True (tl z) True of
          None \<Rightarrow> None
        | Some (vs, us, e) \<Rightarrow>
            (let f = (if hd z = CHR ''-'' then -1 else 1) * (seconds_of vs * 1000000 + us)
             in if \<not> e then None
                else if seconds_of vs = 0 then Some (Some 0)
                else if \<bar>f\<bar> < DAY then Some (Some f) else None)))"

definition parse_time :: "string \<Rightarrow> (int \<times> int option) option" where
  "parse_time s =
     (let a = takeWhile (\<lambda>c. \<not> is_zone_mark c) s; z = dropWhile (\<lambda>c. \<not> is_zone_mark c) s
      in case parse_hms 3 True True a (z = []) of
          None \<Rightarrow> None
        | Some (vs, us, e) \<Rightarrow>
            if z = [] \<and> \<not> e then None
            else (case parse_zone z of None \<Rightarrow> None
              | Some f \<Rightarrow>
                  if component vs 0 < 24 \<and> component vs 1 < 60 \<and> component vs 2 < 60
                  then Some (seconds_of vs * 1000000 + us, f) else None))"

text \<open>\<^verbatim>\<open>datetime.fromisoformat\<close>; \<open>None\<close> is its \<open>ValueError\<close>.\<close>

definition fromisoformat :: "string \<Rightarrow> datetime option" where
  "fromisoformat s =
     (if length s < 7 then None
      else case separator_location s of None \<Rightarrow> None
        | Some k \<Rightarrow>
            (case parse_date (take k s) of None \<Rightarrow> None
             | Some n \<Rightarrow>
                 (case drop k s of [] \<Rightarrow> Some \<lparr>naive = (n - 1) * DAY, offset = None\<rparr>
                  | c # t \<Rightarrow>
                      (case parse_time t of None \<Rightarrow> None
                       | Some (us, f) \<Rightarrow> Some \<lparr>naive = (n - 1) * DAY + us, offset = f\<rparr>))))"

subsection \<open>Writing ISO 8601\<close>

text \<open>Fixed-width decimal, and \<^verbatim>\<open>isoformat()\<close> of a moment in UTC.\<close>

fun dec :: "nat \<Rightarrow> int \<Rightarrow> string" where
  "dec 0 n = []"
| "dec (Suc w) n = dec w (n div 10) @ [digit_char (nat (n mod 10))]"

definition date_text :: "int \<Rightarrow> string" where
  "date_text n =
     (case ord_to_ymd n of (y, m, d) \<Rightarrow> dec 4 y @ ''-'' @ dec 2 m @ ''-'' @ dec 2 d)"

definition time_text :: "int \<Rightarrow> string" where
  "time_text us =
     (let s = us div 1000000; u = us mod 1000000
      in dec 2 (s div 3600) @ '':'' @ dec 2 (s div 60 mod 60) @ '':'' @ dec 2 (s mod 60) @
         (if u = 0 then [] else ''.'' @ dec 6 u))"

definition isoformat_utc :: "int \<Rightarrow> string" where
  "isoformat_utc n = date_text (n div DAY + 1) @ ''T'' @ time_text (n mod DAY) @ ''+00:00''"

end
