(* ===== verification/PyRegex.thy ===== *)
theory PyRegex
  imports PyText
begin

section \<open>Regular expressions\<close>

text \<open>
  The part of Python's \<^verbatim>\<open>re\<close> that the sources use, as data: each compiled pattern of the program
  is a value of \<open>regex\<close> that reads like the pattern.  \<open>ends\<close> computes every position at which
  a match that starts at a given position can end, so that \<^verbatim>\<open>search\<close>, \<^verbatim>\<open>match\<close> and
  \<^verbatim>\<open>fullmatch\<close> (whose answers do not depend on the order in which the engine tries the
  alternatives) are questions about that list.
\<close>

subsection \<open>Patterns\<close>

datatype regex =
    Eps
  | Cls "char \<Rightarrow> bool"
  | Seq regex regex
  | Alt regex regex
  | Star regex
  | Upto nat regex
  | Bos
  | Eos
  | WordB
  | NotAfter "char \<Rightarrow> bool"

text \<open>A position: the character before it, if any, and the rest of the text.\<close>

type_synonym pos = "char option \<times> string"

text \<open>At most \<open>n\<close> repetitions, each of which makes progress.\<close>

fun iterate :: "nat \<Rightarrow> (pos \<Rightarrow> pos list) \<Rightarrow> pos \<Rightarrow> pos list" where
  "iterate 0 f x = [x]"
| "iterate (Suc n) f x =
     x # concat (map (iterate n f) (filter (\<lambda>y. length (snd y) < length (snd x)) (f x)))"

definition word_at :: "char option \<Rightarrow> bool" where
  "word_at c = (case c of None \<Rightarrow> False | Some d \<Rightarrow> is_word d)"

definition first_char :: "string \<Rightarrow> char option" where
  "first_char s = (case s of [] \<Rightarrow> None | c # cs \<Rightarrow> Some c)"

primrec ends :: "regex \<Rightarrow> pos \<Rightarrow> pos list" where
  "ends Eps x = [x]"
| "ends (Cls p) x = (case snd x of [] \<Rightarrow> [] | c # cs \<Rightarrow> if p c then [(Some c, cs)] else [])"
| "ends (Seq a b) x = concat (map (ends b) (ends a x))"
| "ends (Alt a b) x = ends a x @ ends b x"
| "ends (Star r) x = iterate (length (snd x)) (ends r) x"
| "ends (Upto n r) x = iterate n (ends r) x"
| "ends Bos x = (if fst x = None then [x] else [])"
| "ends Eos x = (if snd x = [] \<or> snd x = [newline] then [x] else [])"
| "ends WordB x = (if word_at (fst x) \<noteq> word_at (first_char (snd x)) then [x] else [])"
| "ends (NotAfter p) x = (case fst x of None \<Rightarrow> [x] | Some c \<Rightarrow> if p c then [] else [x])"

definition fullmatch :: "regex \<Rightarrow> string \<Rightarrow> bool" where
  "fullmatch r s = list_ex (\<lambda>x. snd x = []) (ends r (None, s))"

text \<open>\<^verbatim>\<open>pattern.match\<close>: a match at the start of the text, wherever it ends.\<close>

definition match_start :: "regex \<Rightarrow> string \<Rightarrow> bool" where
  "match_start r s = (ends r (None, s) \<noteq> [])"

fun search_from :: "regex \<Rightarrow> char option \<Rightarrow> string \<Rightarrow> bool" where
  "search_from r prev [] = (ends r (prev, []) \<noteq> [])"
| "search_from r prev (c # cs) = (ends r (prev, c # cs) \<noteq> [] \<or> search_from r (Some c) cs)"

definition search :: "regex \<Rightarrow> string \<Rightarrow> bool" where
  "search r s = search_from r None s"

subsection \<open>Ways to write patterns\<close>

text \<open>
  A literal; a literal under \<^verbatim>\<open>re.IGNORECASE\<close> (given in lower case); alternatives; one
  character of a set; one or more.
\<close>

fun lit :: "string \<Rightarrow> regex" where
  "lit [] = Eps"
| "lit (c # cs) = Seq (Cls (\<lambda>d. d = c)) (lit cs)"

fun ilit :: "string \<Rightarrow> regex" where
  "ilit [] = Eps"
| "ilit (c # cs) = Seq (Cls (\<lambda>d. lower d = c)) (ilit cs)"

fun alts :: "regex list \<Rightarrow> regex" where
  "alts [] = Cls (\<lambda>_. False)"
| "alts [r] = r"
| "alts (r # s # rs) = Alt r (alts (s # rs))"

fun seqs :: "regex list \<Rightarrow> regex" where
  "seqs [] = Eps"
| "seqs [r] = r"
| "seqs (r # s # rs) = Seq r (seqs (s # rs))"

definition one_of :: "string \<Rightarrow> char \<Rightarrow> bool" where
  "one_of cs c = List.member cs c"

definition plus :: "regex \<Rightarrow> regex" where
  "plus r = Seq r (Star r)"

subsection \<open>Lemmas\<close>

text \<open>A class repeated: the match ends after any prefix of characters of the class.\<close>

lemma iterate_Cls_Suc:
  "iterate (Suc n) (ends (Cls p)) (prev, s) = (prev, s) #
    (case s of [] \<Rightarrow> [] | c # cs \<Rightarrow> if p c then iterate n (ends (Cls p)) (Some c, cs) else [])"
  by (cases s) simp_all

lemma iterate_Cls:
  "(prev', rest) \<in> set (iterate n (ends (Cls p)) (prev, s)) \<longleftrightarrow>
   (\<exists>w. s = w @ rest \<and> length w \<le> n \<and> list_all p w \<and>
        prev' = (if w = [] then prev else Some (last w)))"
proof (induction n arbitrary: prev s)
  case 0
  then show ?case by auto
next
  case (Suc n)
  show ?case (is "_ \<longleftrightarrow> (\<exists>w. ?Q w)")
  proof
    assume "(prev', rest) \<in> set (iterate (Suc n) (ends (Cls p)) (prev, s))"
    then consider "prev' = prev" "rest = s"
      | c cs where "s = c # cs" "p c" "(prev', rest) \<in> set (iterate n (ends (Cls p)) (Some c, cs))"
      unfolding iterate_Cls_Suc by (cases s) (auto split: if_splits)
    then show "\<exists>w. ?Q w"
    proof cases
      case 1
      then have "?Q []" by simp
      then show ?thesis ..
    next
      case (2 c cs)
      then obtain w where "cs = w @ rest" "length w \<le> n" "list_all p w"
        "prev' = (if w = [] then Some c else Some (last w))" using Suc.IH by blast
      with 2 have "?Q (c # w)" by simp
      then show ?thesis ..
    qed
  next
    assume "\<exists>w. ?Q w"
    then obtain w where w: "?Q w" ..
    show "(prev', rest) \<in> set (iterate (Suc n) (ends (Cls p)) (prev, s))"
    proof (cases w)
      case Nil
      then show ?thesis using w unfolding iterate_Cls_Suc by simp
    next
      case (Cons c w')
      then have "w' @ rest = w' @ rest \<and> length w' \<le> n \<and> list_all p w' \<and>
        prev' = (if w' = [] then Some c else Some (last w'))" using w by simp
      then have "(prev', rest) \<in> set (iterate n (ends (Cls p)) (Some c, w' @ rest))"
        using Suc.IH [of "Some c" "w' @ rest"] by blast
      then show ?thesis using w Cons unfolding iterate_Cls_Suc by simp
    qed
  qed
qed

lemma fullmatch_iff: "fullmatch r s \<longleftrightarrow> (\<exists>prev. (prev, []) \<in> set (ends r (None, s)))"
  by (force simp: fullmatch_def list_ex_iff)

lemma search_from_iff:
  "search_from r prev s \<longleftrightarrow>
   (\<exists>u v. s = u @ v \<and> ends r (if u = [] then prev else Some (last u), v) \<noteq> [])"
proof (induction s arbitrary: prev)
  case Nil
  then show ?case by simp
next
  case (Cons c cs)
  show ?case (is "_ \<longleftrightarrow> ?R")
  proof
    assume "search_from r prev (c # cs)"
    then consider "ends r (prev, c # cs) \<noteq> []" | "search_from r (Some c) cs" by auto
    then show ?R
    proof cases
      case 1
      then show ?thesis by (intro exI [of _ "[]"] exI [of _ "c # cs"]) simp
    next
      case 2
      then obtain u v where "cs = u @ v"
        "ends r (if u = [] then Some c else Some (last u), v) \<noteq> []"
        using Cons.IH by blast
      then show ?thesis by (intro exI [of _ "c # u"] exI [of _ v]) (auto split: if_splits)
    qed
  next
    assume ?R
    then obtain u v where uv: "c # cs = u @ v"
      "ends r (if u = [] then prev else Some (last u), v) \<noteq> []" by blast
    show "search_from r prev (c # cs)"
    proof (cases u)
      case Nil
      then have "ends r (prev, c # cs) \<noteq> []" using uv by simp
      then show ?thesis by simp
    next
      case (Cons d u')
      then have "cs = u' @ v" "ends r (if u' = [] then Some c else Some (last u'), v) \<noteq> []"
        using uv by (auto split: if_splits)
      then have "search_from r (Some c) cs" using Cons.IH by blast
      then show ?thesis by simp
    qed
  qed
qed

lemma search_iff:
  "search r s \<longleftrightarrow>
   (\<exists>u v. s = u @ v \<and> ends r (if u = [] then None else Some (last u), v) \<noteq> [])"
  by (simp add: search_def search_from_iff)

lemma ends_lit:
  "ends (lit w) (prev, s) =
    (if starts_with w s then [(if w = [] then prev else Some (last w), drop (length w) s)] else [])"
proof (induction w arbitrary: prev s)
  case Nil
  then show ?case by simp
next
  case (Cons c w)
  then show ?case by (cases s) auto
qed

lemma ends_ilit:
  "ends (ilit w) (prev, s) =
    (if starts_with w (map lower s)
     then [(if w = [] then prev else Some (s ! (length w - 1)), drop (length w) s)] else [])"
proof (induction w arbitrary: prev s)
  case Nil
  then show ?case by simp
next
  case (Cons c w)
  show ?case
  proof (cases s)
    case Nil
    then show ?thesis by simp
  next
    case s: (Cons d ds)
    show ?thesis
    proof (cases w)
      case Nil
      then show ?thesis using s by simp
    next
      case (Cons e w')
      then show ?thesis using s Cons.IH [of "Some d" ds] by simp
    qed
  qed
qed

lemma search_Alt: "search (Alt a b) s \<longleftrightarrow> search a s \<or> search b s"
  by (auto simp: search_iff)

lemma search_alts: "rs \<noteq> [] \<Longrightarrow> search (alts rs) s \<longleftrightarrow> (\<exists>r \<in> set rs. search r s)"
proof (induction rs rule: alts.induct)
  case (3 r q rs)
  then show ?case by (simp add: search_Alt)
qed simp_all

lemma searchI: "ends r (if u = [] then None else Some (last u), v) \<noteq> [] \<Longrightarrow> search r (u @ v)"
  unfolding search_iff by blast

lemma iterate_nonempty [simp]: "iterate n f x \<noteq> []"
  by (cases n) simp_all

lemma ends_lit_nonempty: "ends (lit w) x \<noteq> [] \<longleftrightarrow> starts_with w (snd x)"
  by (cases x) (simp add: ends_lit)

lemma ends_ilit_nonempty: "ends (ilit w) x \<noteq> [] \<longleftrightarrow> starts_with w (map lower (snd x))"
  by (cases x) (simp add: ends_ilit)

lemma search_lit: "search (lit w) s \<longleftrightarrow> contains w s"
  unfolding search_iff ends_lit_nonempty by (auto simp: contains_iff starts_with_iff)

lemma search_ilit: "search (ilit w) s \<longleftrightarrow> contains w (map lower s)"
proof -
  have "search (ilit w) s \<longleftrightarrow> (\<exists>u v. s = u @ v \<and> starts_with w (map lower v))"
    unfolding search_iff ends_ilit_nonempty by simp
  also have "\<dots> \<longleftrightarrow> contains w (map lower s)"
  proof
    assume "\<exists>u v. s = u @ v \<and> starts_with w (map lower v)"
    then obtain u v t where "s = u @ v" "map lower v = w @ t" by (auto simp: starts_with_iff)
    then have "map lower s = map lower u @ w @ t" by simp
    then show "contains w (map lower s)" unfolding contains_iff by blast
  next
    assume "contains w (map lower s)"
    then obtain u t where "map lower s = u @ w @ t" unfolding contains_iff by blast
    then obtain s1 s2 where "s = s1 @ s2" "map lower s2 = w @ t"
      by (metis append_eq_map_conv)
    then show "\<exists>u v. s = u @ v \<and> starts_with w (map lower v)" by (auto simp: starts_with_iff)
  qed
  finally show ?thesis .
qed

text \<open>What a repetition consumes, by an argument about one round.\<close>

lemma iterate_consumes:
  assumes "y \<in> set (iterate n f x)"
    and "\<And>x y. y \<in> set (f x) \<Longrightarrow> \<exists>w. snd x = w @ snd y \<and> P w"
    and "P []" and "\<And>u v. P u \<Longrightarrow> P v \<Longrightarrow> P (u @ v)"
  shows "\<exists>w. snd x = w @ snd y \<and> P w"
  using assms(1)
proof (induction n arbitrary: x)
  case 0
  then show ?case using assms(3) by auto
next
  case (Suc n)
  then consider "y = x" | z where "z \<in> set (f x)" "y \<in> set (iterate n f z)" by auto
  then show ?case
  proof cases
    case 1
    then show ?thesis using assms(3) by auto
  next
    case (2 z)
    then obtain u v where "snd x = u @ snd z" "P u" "snd z = v @ snd y" "P v"
      using assms(2) [OF 2(1)] Suc.IH by blast
    then have "snd x = (u @ v) @ snd y \<and> P (u @ v)" using assms(4) by simp
    then show ?thesis by blast
  qed
qed

text \<open>
  The shape of the program's identifiers: a first character of one class and at most \<open>n\<close> more of
  another, between \<^verbatim>\<open>^\<close> and \<^verbatim>\<open>$\<close>.
\<close>

definition token_re :: "(char \<Rightarrow> bool) \<Rightarrow> (char \<Rightarrow> bool) \<Rightarrow> nat \<Rightarrow> regex" where
  "token_re p q n = seqs [Bos, Cls p, Upto n (Cls q), Eos]"

lemma set_ends_token_re:
  "(prev, rest) \<in> set (ends (token_re p q n) (None, s)) \<longleftrightarrow>
   (\<exists>c w. s = c # w @ rest \<and> p c \<and> length w \<le> n \<and> list_all q w \<and>
     prev = Some (last (c # w)) \<and> (rest = [] \<or> rest = [newline]))"
proof (cases s)
  case Nil
  then show ?thesis by (simp add: token_re_def)
next
  case (Cons c cs)
  have "(prev, rest) \<in> set (ends (token_re p q n) (None, s)) \<longleftrightarrow>
     p c \<and> (prev, rest) \<in> set (iterate n (ends (Cls q)) (Some c, cs)) \<and> (rest = [] \<or> rest = [newline])"
    using Cons by (force simp: token_re_def)
  also have "\<dots> \<longleftrightarrow> (\<exists>w. cs = w @ rest \<and> p c \<and> length w \<le> n \<and> list_all q w \<and>
     prev = Some (last (c # w)) \<and> (rest = [] \<or> rest = [newline]))"
    by (auto simp: iterate_Cls)
  finally show ?thesis using Cons by auto
qed

lemma fullmatch_token_re:
  "fullmatch (token_re p q n) s \<longleftrightarrow> s \<noteq> [] \<and> p (hd s) \<and> list_all q (tl s) \<and> length s \<le> Suc n"
proof -
  have "fullmatch (token_re p q n) s \<longleftrightarrow>
      (\<exists>c w. s = c # w \<and> p c \<and> length w \<le> n \<and> list_all q w)"
    by (auto simp: fullmatch_iff set_ends_token_re)
  then show ?thesis by (cases s) auto
qed

text \<open>\<^verbatim>\<open>match\<close> in place of \<^verbatim>\<open>fullmatch\<close> also accepts one newline after the token.\<close>

lemma match_start_token_re:
  "match_start (token_re p q n) s \<longleftrightarrow>
   fullmatch (token_re p q n) s \<or>
   (\<exists>t. s = t @ [newline] \<and> fullmatch (token_re p q n) t)"
proof -
  have "match_start (token_re p q n) s \<longleftrightarrow>
     (\<exists>prev rest. (prev, rest) \<in> set (ends (token_re p q n) (None, s)))"
    unfolding match_start_def by (metis list.set_intros(1) neq_Nil_conv prod.collapse emptyE set_empty)
  also have "\<dots> \<longleftrightarrow> (\<exists>c w rest. s = c # w @ rest \<and> p c \<and> length w \<le> n \<and> list_all q w \<and>
      (rest = [] \<or> rest = [newline]))"
    unfolding set_ends_token_re by blast
  also have "\<dots> \<longleftrightarrow> (\<exists>c w. s = c # w \<and> p c \<and> length w \<le> n \<and> list_all q w) \<or>
      (\<exists>c w. s = (c # w) @ [newline] \<and> p c \<and> length w \<le> n \<and> list_all q w)"
    (is "?L \<longleftrightarrow> ?A \<or> ?B")
  proof
    assume ?L
    then show "?A \<or> ?B" by auto
  next
    assume "?A \<or> ?B"
    then show ?L
    proof
      assume ?A
      then obtain c w where "s = c # w @ []" "p c" "length w \<le> n" "list_all q w" by auto
      then show ?L by blast
    next
      assume ?B
      then obtain c w where "s = c # w @ [newline]" "p c" "length w \<le> n" "list_all q w" by auto
      then show ?L by blast
    qed
  qed
  also have "\<dots> \<longleftrightarrow> fullmatch (token_re p q n) s \<or>
      (\<exists>t. s = t @ [newline] \<and> fullmatch (token_re p q n) t)"
  proof -
    have *: "fullmatch (token_re p q n) t \<longleftrightarrow>
        (\<exists>c w. t = c # w \<and> p c \<and> length w \<le> n \<and> list_all q w)" for t
      by (cases t) (auto simp: fullmatch_token_re)
    show ?thesis unfolding * by blast
  qed
  finally show ?thesis .
qed

end
