(* ===== verification/PyUrl.thy ===== *)
theory PyUrl
  imports PyRegex
begin

section \<open>Network addresses and URLs\<close>

text \<open>
  \<^verbatim>\<open>ipaddress.IPv4Address\<close> and \<^verbatim>\<open>IPv6Address\<close> as far as accepting a text goes, and
  \<^verbatim>\<open>urllib.parse.urlparse\<close> with the attributes of its result that the sources read.  A
  \<^verbatim>\<open>ValueError\<close> of \<^verbatim>\<open>urlparse\<close> (a malformed bracketed host) is an \<open>Inl\<close>.  The check of the
  host under Unicode normalisation never fails on code points below 256 and is left out.
\<close>

subsection \<open>\<^verbatim>\<open>str.partition\<close>, \<^verbatim>\<open>str.rpartition\<close> and \<^verbatim>\<open>str.lower\<close>\<close>

definition partition_at :: "char \<Rightarrow> string \<Rightarrow> string \<times> bool \<times> string" where
  "partition_at d s =
     (takeWhile (\<lambda>c. c \<noteq> d) s, List.member s d, drop 1 (dropWhile (\<lambda>c. c \<noteq> d) s))"

definition rpartition_at :: "char \<Rightarrow> string \<Rightarrow> string \<times> bool \<times> string" where
  "rpartition_at d s =
     (case partition_at d (rev s) of (a, found, b) \<Rightarrow>
        if found then (rev b, True, rev a) else ([], False, s))"

definition before :: "char \<Rightarrow> string \<Rightarrow> string" where
  "before d s = fst (partition_at d s)"

definition after :: "char \<Rightarrow> string \<Rightarrow> string" where
  "after d s = snd (snd (partition_at d s))"

definition lower_char :: "char \<Rightarrow> char" where
  "lower_char c =
     (let n = code c in
      if is_upper c \<or> (192 \<le> n \<and> n \<le> 222 \<and> n \<noteq> 215) then char_of (n + 32) else c)"

definition str_lower :: "string \<Rightarrow> string" where
  "str_lower s = map lower_char s"

subsection \<open>IP addresses\<close>

definition ipv4_octet :: "string \<Rightarrow> int option" where
  "ipv4_octet s =
     (if s = [] \<or> \<not> list_all is_digit s \<or> 3 < length s \<or> (s \<noteq> ''0'' \<and> hd s = CHR ''0'') then None
      else case digits_value 10 False 0 s of None \<Rightarrow> None
        | Some n \<Rightarrow> if 255 < n then None else Some n)"

fun all_some :: "'a option list \<Rightarrow> 'a list option" where
  "all_some [] = Some []"
| "all_some (None # xs) = None"
| "all_some (Some x # xs) = map_option (Cons x) (all_some xs)"

definition ipv4_address :: "string \<Rightarrow> int list option" where
  "ipv4_address s =
     (let os = split_char (CHR ''.'') s
      in if List.member s (CHR ''/'') \<or> length os \<noteq> 4 then None else all_some (map ipv4_octet os))"

definition hextet_ok :: "string \<Rightarrow> bool" where
  "hextet_ok s \<longleftrightarrow> s \<noteq> [] \<and> list_all (\<lambda>c. digit_value c \<noteq> None) s \<and> length s \<le> 4"

text \<open>
  The parts between the colons of an IPv6 address, the indices of the empty ones among the inner
  parts, and the numbers of parts before and after the skipped run.
\<close>

definition skip_indices :: "string list \<Rightarrow> nat list" where
  "skip_indices ps = filter (\<lambda>i. ps ! i = []) [1 ..< length ps - 1]"

definition ipv6_parts_ok :: "string list \<Rightarrow> bool" where
  "ipv6_parts_ok ps =
     (if 9 < length ps then False
      else case skip_indices ps of
        [] \<Rightarrow> length ps = 8 \<and> list_all hextet_ok ps
      | [k] \<Rightarrow>
          (let hi = (if hd ps = [] then k - 1 else k);
               lo = (if last ps = [] then length ps - k - 2 else length ps - k - 1)
           in (hd ps = [] \<longrightarrow> hi = 0) \<and> (last ps = [] \<longrightarrow> lo = 0) \<and> hi + lo < 8 \<and>
              list_all hextet_ok (take hi ps) \<and> list_all hextet_ok (drop (length ps - lo) ps))
      | _ \<Rightarrow> False)"

definition ipv6_address_ok :: "string \<Rightarrow> bool" where
  "ipv6_address_ok s =
     (case partition_at (CHR ''%'') s of (addr, scoped, zone) \<Rightarrow>
        (let ps = split_char (CHR '':'') addr
         in if List.member s (CHR ''/'') \<or> (scoped \<and> (zone = [] \<or> List.member zone (CHR ''%''))) \<or>
               addr = [] \<or> length ps < 3 then False
            else if List.member (last ps) (CHR ''.'')
            then ipv4_address (last ps) \<noteq> None \<and> ipv6_parts_ok (butlast ps @ [''0'', ''0''])
            else ipv6_parts_ok ps))"

subsection \<open>\<^verbatim>\<open>urlparse\<close>\<close>

record url =
  url_scheme :: string
  url_netloc :: string
  url_path :: string
  url_params :: string
  url_query :: string
  url_fragment :: string

definition scheme_char :: "char \<Rightarrow> bool" where
  "scheme_char c \<longleftrightarrow> is_alnum c \<or> one_of ''+-.'' c"

definition uses_params :: "string list" where
  "uses_params = ['''', ''ftp'', ''hdl'', ''prospero'', ''http'', ''imap'', ''https'', ''shttp'', ''rtsp'',
     ''rtsps'', ''rtspu'', ''sip'', ''sips'', ''mms'', ''sftp'', ''tel'']"

definition ip_future_re :: regex where
  "ip_future_re = seqs [lit ''v'', plus (Cls (\<lambda>c. digit_value c \<noteq> None)), lit ''.'',
     plus (Cls (\<lambda>c. c \<noteq> newline))]"

definition bracketed_host_ok :: "string \<Rightarrow> bool" where
  "bracketed_host_ok h =
     (if starts_with ''v'' h then fullmatch ip_future_re h
      else ipv4_address h = None \<and> ipv6_address_ok h)"

definition netloc_ok :: "string \<Rightarrow> bool" where
  "netloc_ok n =
     (let l = List.member n (CHR ''[''); r = List.member n (CHR '']'')
      in l = r \<and> (l \<longrightarrow> bracketed_host_ok (before (CHR '']'') (after (CHR ''['') n))))"

definition split_scheme :: "string \<Rightarrow> string \<times> string" where
  "split_scheme s =
     (case partition_at (CHR '':'') s of (pre, found, post) \<Rightarrow>
        if found \<and> pre \<noteq> [] \<and> is_alpha (hd pre) \<and> list_all scheme_char pre
        then (str_lower pre, post) else ([], s))"

definition split_netloc :: "string \<Rightarrow> string \<times> string" where
  "split_netloc s =
     (if starts_with ''//'' s
      then (takeWhile (\<lambda>c. \<not> one_of ''/?#'' c) (drop 2 s), dropWhile (\<lambda>c. \<not> one_of ''/?#'' c) (drop 2 s))
      else ([], s))"

text \<open>The parameters are those of the last segment of the path only.\<close>

definition split_params :: "string \<Rightarrow> string \<times> string" where
  "split_params p =
     (case rpartition_at (CHR ''/'') p of (dirs, found, seg) \<Rightarrow>
        ((if found then dirs @ ''/'' else []) @ before (CHR '';'') seg, after (CHR '';'') seg))"

definition urlparse :: "string \<Rightarrow> url res" where
  "urlparse s =
     (let u = filter (\<lambda>c. \<not> one_of [CHR 0x09, CHR 0x0A, CHR 0x0D] c) (lstrip (\<lambda>c. code c \<le> 32) s)
      in case split_scheme u of (sch, r) \<Rightarrow>
         case split_netloc r of (net, t) \<Rightarrow>
           (if \<not> netloc_ok net then Inl (ValueError ''Invalid IPv6 URL'')
            else (let frag = after (CHR ''#'') t; t1 = before (CHR ''#'') t;
                      qry = after (CHR ''?'') t1; t2 = before (CHR ''?'') t1
                  in case (if List.member uses_params sch then split_params t2 else (t2, [])) of
                      (pth, prm) \<Rightarrow> Inr \<lparr>url_scheme = sch, url_netloc = net, url_path = pth,
                         url_params = prm, url_query = qry, url_fragment = frag\<rparr>)))"

definition username :: "url \<Rightarrow> string option" where
  "username u =
     (case rpartition_at (CHR ''@'') (url_netloc u) of (info, found, host) \<Rightarrow>
        if found then Some (before (CHR '':'') info) else None)"

definition password :: "url \<Rightarrow> string option" where
  "password u =
     (case rpartition_at (CHR ''@'') (url_netloc u) of (info, found, host) \<Rightarrow>
        if found \<and> List.member info (CHR '':'') then Some (after (CHR '':'') info) else None)"

definition hostname :: "url \<Rightarrow> string option" where
  "hostname u =
     (case rpartition_at (CHR ''@'') (url_netloc u) of (info, found, host) \<Rightarrow>
        (let h = (if List.member host (CHR ''['') then before (CHR '']'') (after (CHR ''['') host)
                  else before (CHR '':'') host)
         in if h = [] then None
            else case partition_at (CHR ''%'') h of (name, scoped, zone) \<Rightarrow>
              Some (str_lower name @ (if scoped then ''%'' @ zone else []))))"

end
