(* ===== verification/Contracts.thy ===== *)
theory Contracts
  imports PyValue PyTime PyUrl
begin

section \<open>The schema-v1 boundary (\<^verbatim>\<open>contracts.py\<close>)\<close>

text \<open>
  \<^verbatim>\<open>validate_event\<close> with all its helpers, each rejection as the value the code raises.  Not
  modelled: the recursion limit that a deeply nested payload can hit.
\<close>

subsection \<open>Constants\<close>

definition SCHEMA_VERSION :: int where
  "SCHEMA_VERSION = 1"

definition MAX_PAYLOAD_BYTES :: nat where
  "MAX_PAYLOAD_BYTES = 16 * 1024"

definition EVENT_TYPES :: "string list" where
  "EVENT_TYPES = [''runner.heartbeat'', ''runner.offline'', ''job.started'', ''job.heartbeat'',
     ''job.finished'', ''job.progress'', ''job.fallback'']"

definition COMMON_FIELDS :: "string list" where
  "COMMON_FIELDS = [''schema_version'', ''event_type'', ''event_id'', ''runner_id'', ''producer_id'',
     ''producer_epoch'', ''producer_sequence'', ''occurred_at'']"

definition JOB_FIELDS :: "string list" where
  "JOB_FIELDS = [''repository'', ''workflow_run_id'', ''run_attempt'', ''job_id'', ''job_name'', ''run_url'']"

definition PROGRESS_FIELDS :: "string list" where
  "PROGRESS_FIELDS = [''stage_id'', ''stage_kind'', ''state'', ''determinate'', ''total'', ''completed'',
     ''failed'', ''pending'', ''fallback_group_count'', ''affected_test_count'', ''attempt'']"

definition FALLBACK_FIELDS :: "string list" where
  "FALLBACK_FIELDS = [''target_stage_id'', ''reason_code'', ''completed_groups'', ''total_groups'',
     ''fallback_group_count'', ''affected_test_count'']"

text \<open>The patterns.\<close>

definition token_char :: "char \<Rightarrow> bool" where
  "token_char c \<longleftrightarrow> is_alnum c \<or> one_of ''_.-'' c"

definition FORBIDDEN_FIELD_FRAGMENT :: regex where
  "FORBIDDEN_FIELD_FRAGMENT = alts
     [ilit ''token'', ilit ''bearer'', ilit ''authorization'', ilit ''password'', ilit ''secret'',
      ilit ''raw_log'', ilit ''environment'', ilit ''command'',
      seqs [Alt Bos (lit ''_''), ilit ''path'', Alt Eos (lit ''_'')],
      Seq (ilit ''pr_'') (Alt (ilit ''title'') (ilit ''body'')),
      ilit ''pull_request'',
      Seq (ilit ''test_'') (Alt (ilit ''name'') (ilit ''id'')),
      Seq (ilit ''group_'') (Alt (ilit ''name'') (ilit ''id'')),
      ilit ''fallback_reason'']"

definition SECRET_VALUE :: regex where
  "SECRET_VALUE = alts
     [seqs [WordB, ilit ''bearer'', plus (Cls is_space), plus (Cls (\<lambda>c. \<not> is_space c))],
      seqs [WordB, ilit ''gh'', Cls (\<lambda>c. one_of ''pousr'' (lower c)), lit ''_'',
            plus (Cls (\<lambda>c. is_alnum c \<or> c = CHR ''_''))],
      seqs [WordB, ilit ''github_pat_'', plus (Cls (\<lambda>c. is_alnum c \<or> c = CHR ''_''))]]"

definition ABSOLUTE_PATH :: regex where
  "ABSOLUTE_PATH = alts
     [seqs [NotAfter is_alnum, Cls is_alpha, lit '':'', Cls (one_of [CHR 0x5C, CHR ''/''])],
      lit [CHR 0x5C, CHR 0x5C],
      seqs [Alt Bos (Cls is_space), lit ''/'']]"

definition IDENTIFIER :: regex where
  "IDENTIFIER = token_re is_alnum token_char 63"

definition REPOSITORY :: regex where
  "REPOSITORY = seqs [Bos, Cls is_alnum, Upto 99 (Cls token_char), lit ''/'',
     Cls is_alnum, Upto 99 (Cls token_char), Eos]"

definition STAGE_ID :: regex where
  "STAGE_ID = token_re is_lower (\<lambda>c. is_lower c \<or> is_digit c \<or> c = CHR ''_'') 63"

definition job_name_char :: "char \<Rightarrow> bool" where
  "job_name_char c \<longleftrightarrow> is_alnum c \<or> one_of '' ._()[]&+,-'' c \<or> c = CHR 0x27"

definition job_name_segment :: regex where
  "job_name_segment = seqs [lit '' / '', Cls is_alnum, Star (Cls job_name_char)]"

definition JOB_NAME :: regex where
  "JOB_NAME = seqs [Bos, Cls is_alnum, Star (Cls job_name_char), Star job_name_segment, Eos]"

definition RUN_PATH :: regex where
  "RUN_PATH = seqs [lit ''/'', plus (Cls token_char), lit ''/'', plus (Cls token_char),
     lit ''/actions/runs/'', Cls (between (CHR ''1'') (CHR ''9'')), Star (Cls is_digit)]"

subsection \<open>The validated event\<close>

record validated_event =
  ev_schema_version :: int
  ev_type :: string
  ev_id :: string
  ev_runner_id :: string
  ev_producer_id :: string
  ev_producer_epoch :: string
  ev_producer_sequence :: int
  ev_occurred_at :: string
  ev_payload :: pyval

abbreviation reject_invalid :: "'a res" where
  "reject_invalid \<equiv> Inl (ValidationError ''invalid_event'')"

definition reject_unless :: "bool \<Rightarrow> unit res" where
  "reject_unless b = ensure b (ValidationError ''invalid_event'')"

lemma reject_unless_Inr [res_simps]: "reject_unless b = Inr u \<longleftrightarrow> b"
  by (simp add: reject_unless_def ensure_def)

lemma reject_unless_Inl [res_simps]:
  "reject_unless b = Inl e \<longleftrightarrow> \<not> b \<and> e = ValidationError ''invalid_event''"
  by (auto simp: reject_unless_def ensure_def)

lemma reject_unless_simps [simp]:
  "reject_unless True = Inr ()" "reject_unless False = reject_invalid"
  by (simp_all add: reject_unless_def)

text \<open>\<^verbatim>\<open>_freeze\<close>, and the plain containers of a frozen value (\<^verbatim>\<open>_thaw\<close> of \<^verbatim>\<open>store.py\<close>).\<close>

function (sequential) freeze :: "pyval \<Rightarrow> pyval"
  and freeze_list :: "pyval list \<Rightarrow> pyval list"
  and freeze_items :: "(pykey \<times> pyval) list \<Rightarrow> (pykey \<times> pyval) list" where
  "freeze (PDict kvs) = PProxy (freeze_items kvs)"
| "freeze (PProxy kvs) = PProxy (freeze_items kvs)"
| "freeze (PList vs) = PTuple (freeze_list vs)"
| "freeze (PTuple vs) = PTuple (freeze_list vs)"
| "freeze v = v"
| "freeze_list [] = []"
| "freeze_list (v # vs) = freeze v # freeze_list vs"
| "freeze_items [] = []"
| "freeze_items ((k, v) # kvs) = (k, freeze v) # freeze_items kvs"
  by pat_completeness auto
termination
  by (relation "measure (\<lambda>x. case x of
        Inl v \<Rightarrow> size v
      | Inr (Inl vs) \<Rightarrow> size_list size vs
      | Inr (Inr kvs) \<Rightarrow> size_list (size_prod (\<lambda>_. 0) size) kvs)") auto

function (sequential) thaw :: "pyval \<Rightarrow> pyval"
  and thaw_list :: "pyval list \<Rightarrow> pyval list"
  and thaw_items :: "(pykey \<times> pyval) list \<Rightarrow> (pykey \<times> pyval) list" where
  "thaw (PDict kvs) = PDict (thaw_items kvs)"
| "thaw (PProxy kvs) = PDict (thaw_items kvs)"
| "thaw (PTuple vs) = PList (thaw_list vs)"
| "thaw v = v"
| "thaw_list [] = []"
| "thaw_list (v # vs) = thaw v # thaw_list vs"
| "thaw_items [] = []"
| "thaw_items ((k, v) # kvs) = (k, thaw v) # thaw_items kvs"
  by pat_completeness auto
termination
  by (relation "measure (\<lambda>x. case x of
        Inl v \<Rightarrow> size v
      | Inr (Inl vs) \<Rightarrow> size_list size vs
      | Inr (Inr kvs) \<Rightarrow> size_list (size_prod (\<lambda>_. 0) size) kvs)") auto

subsection \<open>Whole-payload checks\<close>

definition validate_payload_size :: "pyval \<Rightarrow> unit res" where
  "validate_payload_size p =
     (case dumps (compact\<lparr>allow_nan := False\<rparr>) p of
        Inl e \<Rightarrow> reject_invalid
      | Inr t \<Rightarrow> if MAX_PAYLOAD_BYTES < length t then Inl (ValidationError ''payload_too_large'')
                 else Inr ())"

definition safe_text :: "string \<Rightarrow> bool" where
  "safe_text s \<longleftrightarrow> \<not> search SECRET_VALUE s \<and> \<not> search ABSOLUTE_PATH s"

definition safe_key :: "pykey \<Rightarrow> bool" where
  "safe_key k = (case k of KStr s \<Rightarrow> \<not> search FORBIDDEN_FIELD_FRAGMENT s | _ \<Rightarrow> False)"

text \<open>\<^verbatim>\<open>_validate_no_forbidden_content\<close>: whether it returns (its only rejection is
  \<^verbatim>\<open>invalid_event\<close>).\<close>

function (sequential) content_safe :: "pyval \<Rightarrow> bool"
  and content_safe_list :: "pyval list \<Rightarrow> bool"
  and content_safe_items :: "(pykey \<times> pyval) list \<Rightarrow> bool" where
  "content_safe (PDict kvs) = content_safe_items kvs"
| "content_safe (PProxy kvs) = content_safe_items kvs"
| "content_safe (PList vs) = content_safe_list vs"
| "content_safe (PTuple vs) = content_safe_list vs"
| "content_safe (PStr s) = safe_text s"
| "content_safe v = True"
| "content_safe_list [] = True"
| "content_safe_list (v # vs) = (content_safe v \<and> content_safe_list vs)"
| "content_safe_items [] = True"
| "content_safe_items ((k, v) # kvs) = (safe_key k \<and> content_safe v \<and> content_safe_items kvs)"
  by pat_completeness auto
termination
  by (relation "measure (\<lambda>x. case x of
        Inl v \<Rightarrow> size v
      | Inr (Inl vs) \<Rightarrow> size_list size vs
      | Inr (Inr kvs) \<Rightarrow> size_list (size_prod (\<lambda>_. 0) size) kvs)") auto

definition validate_no_forbidden_content :: "pyval \<Rightarrow> unit res" where
  "validate_no_forbidden_content v = reject_unless (content_safe v)"

text \<open>\<^verbatim>\<open>set(payload) != expected\<close>.\<close>

definition exact_keys :: "pyval \<Rightarrow> string list \<Rightarrow> bool" where
  "exact_keys m expected \<longleftrightarrow>
     list_all (\<lambda>(k, v). List.member (map KStr expected) k) (items m) \<and>
     list_all (\<lambda>e. List.member (map fst (items m)) (KStr e)) expected"

definition validate_exact_keys :: "pyval \<Rightarrow> string list \<Rightarrow> unit res" where
  "validate_exact_keys m expected = reject_unless (exact_keys m expected)"

definition envelope_fields :: "string \<Rightarrow> string list" where
  "envelope_fields ty =
     (if ty \<in> {''job.started'', ''job.heartbeat''} then COMMON_FIELDS @ [''job'']
      else if ty = ''job.finished'' then COMMON_FIELDS @ [''job'', ''outcome'']
      else if ty = ''job.progress'' then COMMON_FIELDS @ [''job'', ''progress'']
      else if ty = ''job.fallback'' then COMMON_FIELDS @ [''job'', ''fallback'']
      else COMMON_FIELDS)"

definition validate_envelope_fields :: "pyval \<Rightarrow> string \<Rightarrow> unit res" where
  "validate_envelope_fields p ty = validate_exact_keys p (envelope_fields ty)"

subsection \<open>Typed fields\<close>

definition required_string :: "pyval \<Rightarrow> string \<Rightarrow> nat \<Rightarrow> string res" where
  "required_string m k maximum =
     (case pget m k of
        PStr s \<Rightarrow> if s = [] \<or> maximum < length s then reject_invalid else Inr s
      | _ \<Rightarrow> reject_invalid)"

text \<open>\<^verbatim>\<open>uuid.UUID(text)\<close>: its value, or \<open>None\<close> for its \<open>ValueError\<close>.\<close>

definition uuid_of_text :: "string \<Rightarrow> int option" where
  "uuid_of_text s =
     (let h = replace_all ''-'' [] (strip_chars (one_of ''{}'')
                (replace_all ''uuid:'' [] (replace_all ''urn:'' [] s)))
      in if length h \<noteq> 32 then None
         else case int_of_text 16 h of None \<Rightarrow> None
           | Some n \<Rightarrow> if 0 \<le> n \<and> n < 2 ^ 128 then Some n else None)"

definition required_uuid :: "pyval \<Rightarrow> string \<Rightarrow> string res" where
  "required_uuid m k =
     rbind (required_string m k 36) (\<lambda>s.
       if uuid_of_text s = None then reject_invalid else Inr s)"

definition required_identifier :: "pyval \<Rightarrow> string \<Rightarrow> string res" where
  "required_identifier m k =
     rbind (required_string m k 64) (\<lambda>s. if fullmatch IDENTIFIER s then Inr s else reject_invalid)"

definition required_stage_id :: "pyval \<Rightarrow> string \<Rightarrow> string res" where
  "required_stage_id m k =
     rbind (required_string m k 64) (\<lambda>s. if fullmatch STAGE_ID s then Inr s else reject_invalid)"

definition required_positive_int :: "pyval \<Rightarrow> string \<Rightarrow> int res" where
  "required_positive_int m k =
     (case pget m k of PInt n \<Rightarrow> if n < 1 then reject_invalid else Inr n | _ \<Rightarrow> reject_invalid)"

definition required_nonnegative_int :: "pyval \<Rightarrow> string \<Rightarrow> int res" where
  "required_nonnegative_int m k =
     (case pget m k of PInt n \<Rightarrow> if n < 0 then reject_invalid else Inr n | _ \<Rightarrow> reject_invalid)"

definition required_timestamp :: "pyval \<Rightarrow> string \<Rightarrow> string res" where
  "required_timestamp m k =
     rbind (required_string m k 35) (\<lambda>s.
       case fromisoformat (replace_all ''Z'' ''+00:00'' s) of
         None \<Rightarrow> reject_invalid
       | Some t \<Rightarrow> if offset t = None then reject_invalid else Inr s)"

definition required_run_url :: "pyval \<Rightarrow> string \<Rightarrow> string res" where
  "required_run_url m k =
     rbind (required_string m k 256) (\<lambda>s.
       rbind (urlparse s) (\<lambda>u.
         if url_scheme u \<noteq> ''https'' \<or> hostname u \<noteq> Some ''github.com'' \<or>
            username u \<noteq> None \<or> password u \<noteq> None \<or> url_query u \<noteq> [] \<or> url_fragment u \<noteq> [] \<or>
            \<not> fullmatch RUN_PATH (url_path u)
         then reject_invalid else Inr s))"

text \<open>\<^verbatim>\<open>for key in keys: check(m, key)\<close>.\<close>

fun for_each :: "('k \<Rightarrow> 'a res) \<Rightarrow> 'k list \<Rightarrow> unit res" where
  "for_each f [] = Inr ()"
| "for_each f (k # ks) = rbind (f k) (\<lambda>_. for_each f ks)"

subsection \<open>Events\<close>

definition validate_progress :: "pyval \<Rightarrow> unit res" where
  "validate_progress p =
     rbind (reject_unless (is_mapping p)) (\<lambda>_.
     rbind (validate_exact_keys p PROGRESS_FIELDS) (\<lambda>_.
     rbind (required_stage_id p ''stage_id'') (\<lambda>_.
     rbind (required_stage_id p ''stage_kind'') (\<lambda>_.
     rbind (required_string p ''state'' 16) (\<lambda>st.
     rbind (reject_unless (List.member [''running'', ''completed'', ''failed'', ''cancelled''] st \<and>
              (case pget p ''determinate'' of PBool b \<Rightarrow> True | _ \<Rightarrow> False))) (\<lambda>_.
     rbind (for_each (required_nonnegative_int p)
              [''total'', ''completed'', ''failed'', ''pending'', ''fallback_group_count'',
               ''affected_test_count'']) (\<lambda>_.
     rbind (required_positive_int p ''attempt'') (\<lambda>_. Inr ()))))))))"

definition validate_fallback :: "pyval \<Rightarrow> unit res" where
  "validate_fallback p =
     rbind (reject_unless (is_mapping p)) (\<lambda>_.
     rbind (validate_exact_keys p FALLBACK_FIELDS) (\<lambda>_.
     rbind (required_stage_id p ''target_stage_id'') (\<lambda>_.
     rbind (required_stage_id p ''reason_code'') (\<lambda>_.
     for_each (required_nonnegative_int p)
       [''completed_groups'', ''total_groups'', ''fallback_group_count'', ''affected_test_count'']))))"

definition validate_job :: "pyval \<Rightarrow> unit res" where
  "validate_job j =
     rbind (reject_unless (is_mapping j)) (\<lambda>_.
     rbind (validate_exact_keys j JOB_FIELDS) (\<lambda>_.
     rbind (required_string j ''repository'' 201) (\<lambda>repo.
     rbind (reject_unless (fullmatch REPOSITORY repo)) (\<lambda>_.
     rbind (for_each (required_positive_int j) [''workflow_run_id'', ''run_attempt'', ''job_id'']) (\<lambda>_.
     rbind (required_string j ''job_name'' 200) (\<lambda>name.
     rbind (reject_unless (fullmatch JOB_NAME name)) (\<lambda>_.
     rbind (required_run_url j ''run_url'') (\<lambda>_. Inr ()))))))))"

definition validate_job_event :: "pyval \<Rightarrow> string \<Rightarrow> unit res" where
  "validate_job_event p ty =
     rbind (validate_job (pget p ''job'')) (\<lambda>_.
       if ty = ''job.finished'' then
         rbind (required_string p ''outcome'' 16) (\<lambda>out.
           reject_unless (List.member [''succeeded'', ''failed'', ''cancelled''] out))
       else if ty = ''job.progress'' then validate_progress (pget p ''progress'')
       else if ty = ''job.fallback'' then validate_fallback (pget p ''fallback'')
       else Inr ())"

definition validate_event :: "pyval \<Rightarrow> validated_event res" where
  "validate_event p =
     rbind (validate_payload_size p) (\<lambda>_.
     rbind (reject_unless (is_mapping p)) (\<lambda>_.
     rbind (validate_no_forbidden_content p) (\<lambda>_.
     rbind (ensure (pget p ''schema_version'' = PInt SCHEMA_VERSION)
              (ValidationError ''unsupported_schema'')) (\<lambda>_.
     rbind (required_string p ''event_type'' 64) (\<lambda>ty.
     rbind (reject_unless (List.member EVENT_TYPES ty)) (\<lambda>_.
     rbind (validate_envelope_fields p ty) (\<lambda>_.
     rbind (required_uuid p ''event_id'') (\<lambda>eid.
     rbind (required_uuid p ''runner_id'') (\<lambda>rid.
     rbind (required_identifier p ''producer_id'') (\<lambda>pid.
     rbind (required_identifier p ''producer_epoch'') (\<lambda>ep.
     rbind (required_positive_int p ''producer_sequence'') (\<lambda>sq.
     rbind (required_timestamp p ''occurred_at'') (\<lambda>at.
     rbind (if List.member [''runner.heartbeat'', ''runner.offline''] ty
            then validate_exact_keys p COMMON_FIELDS else validate_job_event p ty) (\<lambda>_.
     Inr \<lparr>ev_schema_version = SCHEMA_VERSION, ev_type = ty, ev_id = eid, ev_runner_id = rid,
          ev_producer_id = pid, ev_producer_epoch = ep, ev_producer_sequence = sq,
          ev_occurred_at = at, ev_payload = freeze p\<rparr>))))))))))))))"

subsection \<open>What each check establishes\<close>

lemma required_string_Inr [res_simps]:
  "required_string m k n = Inr s \<longleftrightarrow> pget m k = PStr s \<and> s \<noteq> [] \<and> length s \<le> n"
  by (auto simp: required_string_def split: pyval.splits)

lemma required_string_Inl [res_simps]:
  "required_string m k n = Inl e \<longleftrightarrow> e = ValidationError ''invalid_event'' \<and>
     (\<forall>s. pget m k = PStr s \<longrightarrow> s = [] \<or> n < length s)"
  by (auto simp: required_string_def split: pyval.splits)

lemma required_positive_int_Inr [res_simps]:
  "required_positive_int m k = Inr n \<longleftrightarrow> pget m k = PInt n \<and> 1 \<le> n"
  by (auto simp: required_positive_int_def split: pyval.splits)

lemma required_nonnegative_int_Inr [res_simps]:
  "required_nonnegative_int m k = Inr n \<longleftrightarrow> pget m k = PInt n \<and> 0 \<le> n"
  by (auto simp: required_nonnegative_int_def split: pyval.splits)

lemma required_uuid_Inr [res_simps]:
  "required_uuid m k = Inr s \<longleftrightarrow>
     pget m k = PStr s \<and> s \<noteq> [] \<and> length s \<le> 36 \<and> uuid_of_text s \<noteq> None"
  by (auto simp: required_uuid_def res_simps split: if_splits)

lemma required_identifier_Inr [res_simps]:
  "required_identifier m k = Inr s \<longleftrightarrow> pget m k = PStr s \<and> fullmatch IDENTIFIER s"
  by (auto simp: required_identifier_def res_simps IDENTIFIER_def fullmatch_token_re split: if_splits)

lemma required_stage_id_Inr [res_simps]:
  "required_stage_id m k = Inr s \<longleftrightarrow> pget m k = PStr s \<and> fullmatch STAGE_ID s"
  by (auto simp: required_stage_id_def res_simps STAGE_ID_def fullmatch_token_re split: if_splits)

text \<open>A timestamp with an offset, and a link to a workflow run of GitHub.\<close>

definition aware_timestamp :: "string \<Rightarrow> bool" where
  "aware_timestamp s =
     (case fromisoformat (replace_all ''Z'' ''+00:00'' s) of None \<Rightarrow> False
      | Some t \<Rightarrow> offset t \<noteq> None)"

lemma required_timestamp_Inr [res_simps]:
  "required_timestamp m k = Inr s \<longleftrightarrow>
     pget m k = PStr s \<and> s \<noteq> [] \<and> length s \<le> 35 \<and> aware_timestamp s"
  by (auto simp: required_timestamp_def aware_timestamp_def res_simps split: option.splits if_splits)

definition github_run_url :: "string \<Rightarrow> bool" where
  "github_run_url s =
     (case urlparse s of Inl e \<Rightarrow> False
      | Inr u \<Rightarrow> url_scheme u = ''https'' \<and> hostname u = Some ''github.com'' \<and> username u = None \<and>
          password u = None \<and> url_query u = [] \<and> url_fragment u = [] \<and> fullmatch RUN_PATH (url_path u))"

lemma required_run_url_Inr [res_simps]:
  "required_run_url m k = Inr s \<longleftrightarrow>
     pget m k = PStr s \<and> s \<noteq> [] \<and> length s \<le> 256 \<and> github_run_url s"
  by (auto simp: required_run_url_def github_run_url_def res_simps split: if_splits sum.splits)

lemma for_each_Inr [res_simps]: "for_each f ks = Inr u \<longleftrightarrow> list_all (\<lambda>k. res_ok (f k)) ks"
  by (induction ks) (auto simp: res_simps res_ok_iff)

lemma for_each_Inl: "for_each f ks = Inl e \<Longrightarrow> \<exists>k \<in> set ks. f k = Inl e"
  by (induction ks) (auto simp: res_simps)

lemma validate_exact_keys_Inr [res_simps]: "validate_exact_keys m ks = Inr u \<longleftrightarrow> exact_keys m ks"
  by (simp add: validate_exact_keys_def res_simps)

lemma validate_payload_size_Inr [res_simps]:
  "validate_payload_size p = Inr u \<longleftrightarrow>
     (\<exists>t. dumps (compact\<lparr>allow_nan := False\<rparr>) p = Inr t \<and> length t \<le> MAX_PAYLOAD_BYTES)"
  by (auto simp: validate_payload_size_def split: sum.splits)

lemma exact_keys_iff: "exact_keys m ks \<longleftrightarrow> fst ` set (items m) = KStr ` set ks"
proof -
  have 1: "list_all (\<lambda>(k, v). List.member (map KStr ks) k) kvs \<longleftrightarrow> fst ` set kvs \<subseteq> KStr ` set ks"
    for kvs :: "(pykey \<times> pyval) list"
    by (induction kvs) (simp_all add: split_beta)
  have 2: "list_all (\<lambda>e. List.member ys (KStr e)) ks \<longleftrightarrow> KStr ` set ks \<subseteq> set ys" for ys
    by (induction ks) simp_all
  have "exact_keys m ks \<longleftrightarrow>
      fst ` set (items m) \<subseteq> KStr ` set ks \<and> KStr ` set ks \<subseteq> set (map fst (items m))"
    by (simp only: exact_keys_def 1 2)
  then show ?thesis by auto
qed

text \<open>A value inside another: an item of a mapping or an element of a list or tuple, at any depth.\<close>

inductive part_of :: "pyval \<Rightarrow> pyval \<Rightarrow> bool" where
  self: "part_of v v"
| item: "part_of w v \<Longrightarrow> (k, v) \<in> set (items m) \<Longrightarrow> part_of w m"
| elem: "part_of w v \<Longrightarrow> v \<in> set vs \<Longrightarrow> part_of w (PList vs)"
| telem: "part_of w v \<Longrightarrow> v \<in> set vs \<Longrightarrow> part_of w (PTuple vs)"

lemma content_safe_items_iff:
  "content_safe_items kvs \<longleftrightarrow> (\<forall>(k, v) \<in> set kvs. safe_key k \<and> content_safe v)"
  by (induction kvs) auto

lemma content_safe_list_iff: "content_safe_list vs \<longleftrightarrow> (\<forall>v \<in> set vs. content_safe v)"
  by (induction vs) auto

lemma content_safe_mapping:
  "is_mapping m \<Longrightarrow> content_safe m \<longleftrightarrow> content_safe_items (items m)"
  by (cases m) auto

lemma content_safe_items_of: "content_safe m \<Longrightarrow> (k, v) \<in> set (items m) \<Longrightarrow> safe_key k \<and> content_safe v"
  by (cases m) (auto simp: content_safe_items_iff)

lemma content_safe_pget: "content_safe m \<Longrightarrow> content_safe (pget m k)"
  using pget_in_items [of m k] content_safe_items_of [of m] by (cases "pget m k = PNone") auto

lemma content_safe_part: "part_of w v \<Longrightarrow> content_safe v \<Longrightarrow> content_safe w"
  by (induction rule: part_of.induct)
     (auto dest: content_safe_items_of simp: content_safe_list_iff)

subsection \<open>The contract, independent of the order of the checks\<close>

text \<open>The fields of a mapping by type.\<close>

definition text_field :: "pyval \<Rightarrow> string \<Rightarrow> (string \<Rightarrow> bool) \<Rightarrow> bool" where
  "text_field m k P \<longleftrightarrow> (case pget m k of PStr s \<Rightarrow> P s | _ \<Rightarrow> False)"

definition int_field :: "pyval \<Rightarrow> string \<Rightarrow> int \<Rightarrow> bool" where
  "int_field m k low \<longleftrightarrow> (case pget m k of PInt n \<Rightarrow> low \<le> n | _ \<Rightarrow> False)"

definition text_at :: "pyval \<Rightarrow> string \<Rightarrow> string" where
  "text_at m k = (case pget m k of PStr s \<Rightarrow> s | _ \<Rightarrow> [])"

definition int_at :: "pyval \<Rightarrow> string \<Rightarrow> int" where
  "int_at m k = (case pget m k of PInt n \<Rightarrow> n | _ \<Rightarrow> 0)"

definition job_contract :: "pyval \<Rightarrow> bool" where
  "job_contract j \<longleftrightarrow> is_mapping j \<and> exact_keys j JOB_FIELDS \<and>
     text_field j ''repository'' (\<lambda>s. length s \<le> 201 \<and> fullmatch REPOSITORY s) \<and>
     list_all (\<lambda>k. int_field j k 1) [''workflow_run_id'', ''run_attempt'', ''job_id''] \<and>
     text_field j ''job_name'' (\<lambda>s. length s \<le> 200 \<and> fullmatch JOB_NAME s) \<and>
     text_field j ''run_url'' (\<lambda>s. length s \<le> 256 \<and> github_run_url s)"

definition progress_contract :: "pyval \<Rightarrow> bool" where
  "progress_contract p \<longleftrightarrow> is_mapping p \<and> exact_keys p PROGRESS_FIELDS \<and>
     text_field p ''stage_id'' (fullmatch STAGE_ID) \<and> text_field p ''stage_kind'' (fullmatch STAGE_ID) \<and>
     text_field p ''state'' (List.member [''running'', ''completed'', ''failed'', ''cancelled'']) \<and>
     (case pget p ''determinate'' of PBool b \<Rightarrow> True | _ \<Rightarrow> False) \<and>
     list_all (\<lambda>k. int_field p k 0) [''total'', ''completed'', ''failed'', ''pending'',
       ''fallback_group_count'', ''affected_test_count''] \<and>
     int_field p ''attempt'' 1"

definition fallback_contract :: "pyval \<Rightarrow> bool" where
  "fallback_contract p \<longleftrightarrow> is_mapping p \<and> exact_keys p FALLBACK_FIELDS \<and>
     text_field p ''target_stage_id'' (fullmatch STAGE_ID) \<and>
     text_field p ''reason_code'' (fullmatch STAGE_ID) \<and>
     list_all (\<lambda>k. int_field p k 0)
       [''completed_groups'', ''total_groups'', ''fallback_group_count'', ''affected_test_count'']"

text \<open>What an event of each type carries beside the envelope.\<close>

definition body_contract :: "pyval \<Rightarrow> string \<Rightarrow> bool" where
  "body_contract p ty \<longleftrightarrow>
     (if ty \<in> {''runner.heartbeat'', ''runner.offline''} then True
      else job_contract (pget p ''job'') \<and>
        (ty = ''job.finished'' \<longrightarrow>
           text_field p ''outcome'' (List.member [''succeeded'', ''failed'', ''cancelled''])) \<and>
        (ty = ''job.progress'' \<longrightarrow> progress_contract (pget p ''progress'')) \<and>
        (ty = ''job.fallback'' \<longrightarrow> fallback_contract (pget p ''fallback'')))"

definition small_payload :: "pyval \<Rightarrow> bool" where
  "small_payload p \<longleftrightarrow> (case dumps (compact\<lparr>allow_nan := False\<rparr>) p of Inl e \<Rightarrow> False
     | Inr t \<Rightarrow> length t \<le> MAX_PAYLOAD_BYTES)"

definition envelope_contract :: "pyval \<Rightarrow> bool" where
  "envelope_contract p \<longleftrightarrow> pget p ''schema_version'' = PInt 1 \<and>
     text_field p ''event_type'' (List.member EVENT_TYPES) \<and>
     exact_keys p (envelope_fields (text_at p ''event_type'')) \<and>
     text_field p ''event_id'' (\<lambda>s. s \<noteq> [] \<and> length s \<le> 36 \<and> uuid_of_text s \<noteq> None) \<and>
     text_field p ''runner_id'' (\<lambda>s. s \<noteq> [] \<and> length s \<le> 36 \<and> uuid_of_text s \<noteq> None) \<and>
     text_field p ''producer_id'' (fullmatch IDENTIFIER) \<and>
     text_field p ''producer_epoch'' (fullmatch IDENTIFIER) \<and>
     int_field p ''producer_sequence'' 1 \<and>
     text_field p ''occurred_at'' (\<lambda>s. s \<noteq> [] \<and> length s \<le> 35 \<and> aware_timestamp s)"

definition event_contract :: "pyval \<Rightarrow> bool" where
  "event_contract p \<longleftrightarrow> is_mapping p \<and> small_payload p \<and> content_safe p \<and> envelope_contract p \<and>
     body_contract p (text_at p ''event_type'')"

definition event_of :: "pyval \<Rightarrow> validated_event" where
  "event_of p = \<lparr>ev_schema_version = 1, ev_type = text_at p ''event_type'',
     ev_id = text_at p ''event_id'', ev_runner_id = text_at p ''runner_id'',
     ev_producer_id = text_at p ''producer_id'', ev_producer_epoch = text_at p ''producer_epoch'',
     ev_producer_sequence = int_at p ''producer_sequence'',
     ev_occurred_at = text_at p ''occurred_at'', ev_payload = freeze p\<rparr>"

lemma text_field_iff: "text_field m k P \<longleftrightarrow> (\<exists>s. pget m k = PStr s \<and> P s)"
  by (auto simp: text_field_def split: pyval.splits)

lemma int_field_iff: "int_field m k n \<longleftrightarrow> (\<exists>i. pget m k = PInt i \<and> n \<le> i)"
  by (auto simp: int_field_def split: pyval.splits)

lemma text_at_PStr [simp]: "pget m k = PStr s \<Longrightarrow> text_at m k = s"
  by (simp add: text_at_def)

lemma int_at_PInt [simp]: "pget m k = PInt n \<Longrightarrow> int_at m k = n"
  by (simp add: int_at_def)

lemma small_payload_iff: "validate_payload_size p = Inr u \<longleftrightarrow> small_payload p"
  by (auto simp: validate_payload_size_def small_payload_def split: sum.splits)

lemmas contract_iffs = text_field_iff int_field_iff res_ok_iff res_simps

lemma REPOSITORY_nonempty: "fullmatch REPOSITORY s \<Longrightarrow> s \<noteq> []"
  by (cases s) (simp_all add: fullmatch_def REPOSITORY_def)

lemma JOB_NAME_nonempty: "fullmatch JOB_NAME s \<Longrightarrow> s \<noteq> []"
  by (cases s) (simp_all add: fullmatch_def JOB_NAME_def)

lemma github_run_url_nonempty: "github_run_url s \<Longrightarrow> s \<noteq> []"
proof
  assume "github_run_url s" and "s = []"
  moreover have "\<not> github_run_url []" by code_simp
  ultimately show False by simp
qed

lemma validate_progress_iff: "validate_progress p = Inr u \<longleftrightarrow> progress_contract p"
  unfolding validate_progress_def progress_contract_def
  by (auto simp: contract_iffs)

lemma validate_fallback_iff: "validate_fallback p = Inr u \<longleftrightarrow> fallback_contract p"
  unfolding validate_fallback_def fallback_contract_def
  by (auto simp: contract_iffs)

lemma validate_job_iff: "validate_job p = Inr u \<longleftrightarrow> job_contract p"
  unfolding validate_job_def job_contract_def
  by (auto simp: contract_iffs dest: REPOSITORY_nonempty JOB_NAME_nonempty github_run_url_nonempty)

lemma validate_job_event_iff:
  assumes "ty \<notin> {''runner.heartbeat'', ''runner.offline''}"
  shows "validate_job_event p ty = Inr u \<longleftrightarrow> body_contract p ty"
proof -
  have "validate_job_event p ty = Inr u \<longleftrightarrow> job_contract (pget p ''job'') \<and>
      (if ty = ''job.finished'' then
         rbind (required_string p ''outcome'' 16) (\<lambda>out.
           reject_unless (List.member [''succeeded'', ''failed'', ''cancelled''] out))
       else if ty = ''job.progress'' then validate_progress (pget p ''progress'')
       else if ty = ''job.fallback'' then validate_fallback (pget p ''fallback'')
       else Inr ()) = Inr u"
    by (simp add: validate_job_event_def rbind_Inr_iff validate_job_iff)
  moreover have "rbind (required_string p ''outcome'' 16) (\<lambda>out.
        reject_unless (List.member [''succeeded'', ''failed'', ''cancelled''] out)) = Inr u \<longleftrightarrow>
      text_field p ''outcome'' (List.member [''succeeded'', ''failed'', ''cancelled''])"
    by (auto simp: rbind_Inr_iff required_string_Inr reject_unless_Inr text_field_iff)
  ultimately show ?thesis
    using assms by (simp add: body_contract_def validate_progress_iff validate_fallback_iff)
qed

lemma body_iff:
  assumes "ty \<in> set EVENT_TYPES" and "exact_keys p (envelope_fields ty)"
  shows "(if List.member [''runner.heartbeat'', ''runner.offline''] ty
          then validate_exact_keys p COMMON_FIELDS else validate_job_event p ty) = Inr u \<longleftrightarrow>
         body_contract p ty"
proof (cases "ty \<in> {''runner.heartbeat'', ''runner.offline''}")
  case True
  then have "envelope_fields ty = COMMON_FIELDS" by (auto simp: envelope_fields_def)
  with True assms(2) show ?thesis by (auto simp: contract_iffs body_contract_def)
next
  case False
  then show ?thesis using validate_job_event_iff by simp
qed

lemma identifier_text: "fullmatch IDENTIFIER s \<Longrightarrow> s \<noteq> [] \<and> length s \<le> 64"
  by (simp add: IDENTIFIER_def fullmatch_token_re)

lemma EVENT_TYPES_text: "ty \<in> set EVENT_TYPES \<Longrightarrow> ty \<noteq> [] \<and> length ty \<le> 64"
  by (auto simp: EVENT_TYPES_def)

text \<open>Once the envelope is in order, the body decides.\<close>

lemma validate_event_body:
  assumes "small_payload p" "is_mapping p" "content_safe p" "envelope_contract p"
  shows "validate_event p =
    rbind (if List.member [''runner.heartbeat'', ''runner.offline''] (text_at p ''event_type'')
           then validate_exact_keys p COMMON_FIELDS
           else validate_job_event p (text_at p ''event_type'')) (\<lambda>_. Inr (event_of p))"
proof -
  have "validate_payload_size p = Inr ()" using assms(1) small_payload_iff by blast
  moreover have "required_string p ''event_type'' 64 = Inr (text_at p ''event_type'')"
    using assms(4) by (auto simp: envelope_contract_def text_field_iff required_string_Inr EVENT_TYPES_text)
  moreover have "required_uuid p ''event_id'' = Inr (text_at p ''event_id'')"
    "required_uuid p ''runner_id'' = Inr (text_at p ''runner_id'')"
    "required_identifier p ''producer_id'' = Inr (text_at p ''producer_id'')"
    "required_identifier p ''producer_epoch'' = Inr (text_at p ''producer_epoch'')"
    "required_positive_int p ''producer_sequence'' = Inr (int_at p ''producer_sequence'')"
    "required_timestamp p ''occurred_at'' = Inr (text_at p ''occurred_at'')"
    "pget p ''schema_version'' = PInt 1" "text_at p ''event_type'' \<in> set EVENT_TYPES"
    "exact_keys p (envelope_fields (text_at p ''event_type''))"
    using assms(4) by (auto simp: envelope_contract_def text_field_iff int_field_iff res_simps)
  ultimately show ?thesis
    using assms(2,3)
    by (simp add: validate_event_def validate_no_forbidden_content_def validate_envelope_fields_def
        validate_exact_keys_def SCHEMA_VERSION_def event_of_def)
qed

lemma validate_event_iff:
  "validate_event p = Inr e \<longleftrightarrow> event_contract p \<and> e = event_of p"
proof
  assume "validate_event p = Inr e"
  then show "event_contract p \<and> e = event_of p"
    unfolding validate_event_def
  proof (elim rbindE)
    fix u1 u2 u3 u4 ty u5 u6 eid rid pid ep sq at u7
    assume v: "validate_payload_size p = Inr u1" "reject_unless (is_mapping p) = Inr u2"
      "validate_no_forbidden_content p = Inr u3"
      "ensure (pget p ''schema_version'' = PInt SCHEMA_VERSION)
         (ValidationError ''unsupported_schema'') = Inr u4"
      "required_string p ''event_type'' 64 = Inr ty" "reject_unless (List.member EVENT_TYPES ty) = Inr u5"
      "validate_envelope_fields p ty = Inr u6"
      and f: "required_uuid p ''event_id'' = Inr eid" "required_uuid p ''runner_id'' = Inr rid"
      "required_identifier p ''producer_id'' = Inr pid"
      "required_identifier p ''producer_epoch'' = Inr ep"
      "required_positive_int p ''producer_sequence'' = Inr sq"
      "required_timestamp p ''occurred_at'' = Inr at"
      and b: "(if List.member [''runner.heartbeat'', ''runner.offline''] ty
        then validate_exact_keys p COMMON_FIELDS else validate_job_event p ty) = Inr u7"
      and e: "Inr \<lparr>ev_schema_version = SCHEMA_VERSION, ev_type = ty, ev_id = eid, ev_runner_id = rid,
          ev_producer_id = pid, ev_producer_epoch = ep, ev_producer_sequence = sq,
          ev_occurred_at = at, ev_payload = freeze p\<rparr> = (Inr e :: validated_event res)"
    have ty: "pget p ''event_type'' = PStr ty" "ty \<in> set EVENT_TYPES"
      "exact_keys p (envelope_fields ty)"
      using v by (simp_all add: res_simps validate_envelope_fields_def)
    have "body_contract p ty" using body_iff [OF ty(2,3)] b by simp
    moreover have "small_payload p" using v(1) small_payload_iff by blast
    ultimately show ?thesis
      using v f e ty
      by (simp add: event_contract_def envelope_contract_def event_of_def text_field_iff int_field_iff
          res_simps SCHEMA_VERSION_def validate_no_forbidden_content_def)
  qed
next
  assume *: "event_contract p \<and> e = event_of p"
  let ?ty = "text_at p ''event_type''"
  have c: "small_payload p" "is_mapping p" "content_safe p" "envelope_contract p" "body_contract p ?ty"
    using * by (simp_all add: event_contract_def)
  have ty: "?ty \<in> set EVENT_TYPES" "exact_keys p (envelope_fields ?ty)"
    using c(4) by (auto simp: envelope_contract_def text_field_iff)
  have "(if List.member [''runner.heartbeat'', ''runner.offline''] ?ty
      then validate_exact_keys p COMMON_FIELDS else validate_job_event p ?ty) = Inr ()"
    using body_iff [OF ty] c(5) by blast
  then show "validate_event p = Inr e"
    using validate_event_body [OF c(1-4)] * by simp
qed

subsection \<open>Freezing and thawing\<close>

lemma map_of_freeze_items: "map_of (freeze_items kvs) k = map_option freeze (map_of kvs k)"
  by (induction kvs) auto

lemma map_of_thaw_items: "map_of (thaw_items kvs) k = map_option thaw (map_of kvs k)"
  by (induction kvs) auto

lemma items_freeze [simp]: "items (freeze p) = freeze_items (items p)"
  by (cases p) simp_all

lemma items_thaw [simp]: "items (thaw p) = thaw_items (items p)"
  by (cases p) simp_all

lemma is_mapping_freeze [simp]: "is_mapping (freeze p) = is_mapping p"
  by (cases p) simp_all

lemma is_mapping_thaw [simp]: "is_mapping (thaw p) = is_mapping p"
  by (cases p) simp_all

lemma pget_freeze: "pget (freeze p) k = freeze (pget p k)"
  by (simp add: pget_def map_of_freeze_items split: option.splits)

lemma pget_thaw: "pget (thaw p) k = thaw (pget p k)"
  by (simp add: pget_def map_of_thaw_items split: option.splits)

lemma keys_freeze_items: "map fst (freeze_items kvs) = map fst kvs"
  by (induction kvs) auto

lemma keys_thaw_items: "map fst (thaw_items kvs) = map fst kvs"
  by (induction kvs) auto

abbreviation rethaw :: "pyval \<Rightarrow> pyval" where
  "rethaw p \<equiv> thaw (freeze p)"

lemma freeze_rethaw:
  shows "freeze (rethaw p) = freeze p"
    and "freeze_list (thaw_list (freeze_list vs)) = freeze_list vs"
    and "freeze_items (thaw_items (freeze_items kvs)) = freeze_items kvs"
  by (induction p and vs and kvs rule: freeze_freeze_list_freeze_items.induct) simp_all

lemma rethaw_scalar:
  "rethaw v = PStr s \<longleftrightarrow> v = PStr s" "rethaw v = PInt n \<longleftrightarrow> v = PInt n"
  "rethaw v = PBool b \<longleftrightarrow> v = PBool b"
  by (cases v; simp)+

lemma dumps_rethaw:
  shows "dumps fmt p = Inr t \<Longrightarrow> dumps fmt (rethaw p) = Inr t"
    and "dumps_list fmt vs = Inr ts \<Longrightarrow> dumps_list fmt (thaw_list (freeze_list vs)) = Inr ts"
    and "dumps_items fmt kvs = Inr ts \<Longrightarrow> dumps_items fmt (thaw_items (freeze_items kvs)) = Inr ts"
  by (induction fmt p and fmt vs and fmt kvs arbitrary: t and ts and ts
      rule: dumps_dumps_list_dumps_items.induct)
     (auto simp: rbind_Inr_iff)

lemma content_safe_rethaw:
  shows "content_safe (rethaw p) = content_safe p"
    and "content_safe_list (thaw_list (freeze_list vs)) = content_safe_list vs"
    and "content_safe_items (thaw_items (freeze_items kvs)) = content_safe_items kvs"
  by (induction p and vs and kvs rule: content_safe_content_safe_list_content_safe_items.induct)
     simp_all

lemma content_safe_freeze:
  shows "content_safe (freeze p) = content_safe p"
    and "content_safe_list (freeze_list vs) = content_safe_list vs"
    and "content_safe_items (freeze_items kvs) = content_safe_items kvs"
  by (induction p and vs and kvs rule: content_safe_content_safe_list_content_safe_items.induct)
     simp_all

lemma fields_rethaw [simp]:
  "text_field (rethaw p) k P = text_field p k P" "int_field (rethaw p) k n = int_field p k n"
  "exact_keys (rethaw p) ks = exact_keys p ks"
proof -
  show "text_field (rethaw p) k P = text_field p k P" "int_field (rethaw p) k n = int_field p k n"
    by (simp_all add: text_field_iff int_field_iff pget_freeze pget_thaw rethaw_scalar)
  have "map fst (items (rethaw p)) = map fst (items p)"
    by (simp add: keys_freeze_items keys_thaw_items)
  then show "exact_keys (rethaw p) ks = exact_keys p ks"
    unfolding exact_keys_iff by (metis list.set_map)
qed

lemma text_at_rethaw [simp]: "text_at (rethaw p) k = text_at p k"
  by (cases "pget p k") (simp_all add: text_at_def pget_freeze pget_thaw)

lemma int_at_rethaw [simp]: "int_at (rethaw p) k = int_at p k"
  by (cases "pget p k") (simp_all add: int_at_def pget_freeze pget_thaw)

lemma contracts_rethaw:
  "job_contract (rethaw p) = job_contract p" "fallback_contract (rethaw p) = fallback_contract p"
  "progress_contract (rethaw p) = progress_contract p"
proof -
  have d: "(case rethaw v of PBool b \<Rightarrow> True | _ \<Rightarrow> False) = (case v of PBool b \<Rightarrow> True | _ \<Rightarrow> False)" for v
    by (cases v) simp_all
  show "job_contract (rethaw p) = job_contract p" "fallback_contract (rethaw p) = fallback_contract p"
    by (simp_all add: job_contract_def fallback_contract_def)
  show "progress_contract (rethaw p) = progress_contract p"
    by (simp add: progress_contract_def pget_freeze pget_thaw d)
qed

lemma event_contract_rethaw:
  assumes "event_contract p"
  shows "event_contract (rethaw p)"
proof -
  have "small_payload (rethaw p)"
    using assms dumps_rethaw(1) [of _ p]
    by (auto simp: event_contract_def small_payload_def split: sum.splits)
  moreover have "envelope_contract (rethaw p)" "body_contract (rethaw p) (text_at p ''event_type'')"
    using assms
    by (auto simp: event_contract_def envelope_contract_def body_contract_def pget_freeze pget_thaw
        contracts_rethaw)
  ultimately show ?thesis
    using assms by (simp add: event_contract_def content_safe_rethaw)
qed

subsection \<open>What the redaction rules exclude\<close>

lemma safe_key_fragment:
  assumes "safe_key (KStr s)"
    and "f \<in> {''token'', ''bearer'', ''authorization'', ''password'', ''secret'', ''raw_log'',
      ''environment'', ''command'', ''pull_request'', ''fallback_reason''}"
  shows "\<not> contains f (map lower s)"
proof
  assume "contains f (map lower s)"
  then have "search (ilit f) s" by (simp add: search_ilit)
  moreover have "search FORBIDDEN_FIELD_FRAGMENT s \<longleftrightarrow> (\<exists>r \<in> set
     [ilit ''token'', ilit ''bearer'', ilit ''authorization'', ilit ''password'', ilit ''secret'',
      ilit ''raw_log'', ilit ''environment'', ilit ''command'',
      seqs [Alt Bos (lit ''_''), ilit ''path'', Alt Eos (lit ''_'')],
      Seq (ilit ''pr_'') (Alt (ilit ''title'') (ilit ''body'')),
      ilit ''pull_request'',
      Seq (ilit ''test_'') (Alt (ilit ''name'') (ilit ''id'')),
      Seq (ilit ''group_'') (Alt (ilit ''name'') (ilit ''id'')),
      ilit ''fallback_reason'']. search r s)"
    unfolding FORBIDDEN_FIELD_FRAGMENT_def by (rule search_alts) simp
  ultimately have "search FORBIDDEN_FIELD_FRAGMENT s" using assms(2) by fastforce
  then show False using assms(1) by (simp add: safe_key_def)
qed

lemma ABSOLUTE_PATH_search:
  "search ABSOLUTE_PATH s \<longleftrightarrow>
     search (seqs [NotAfter is_alnum, Cls is_alpha, lit '':'', Cls (one_of [CHR 0x5C, CHR ''/''])]) s \<or>
     contains [CHR 0x5C, CHR 0x5C] s \<or> search (seqs [Alt Bos (Cls is_space), lit ''/'']) s"
  unfolding ABSOLUTE_PATH_def by (simp only: alts.simps search_Alt search_lit)

lemma search_rooted: "starts_with ''/'' s \<Longrightarrow> search (seqs [Alt Bos (Cls is_space), lit ''/'']) s"
  by (cases s) (auto simp: search_def)

lemma search_space_slash:
  assumes "contains [c, CHR ''/''] s" and "is_space c"
  shows "search (seqs [Alt Bos (Cls is_space), lit ''/'']) s"
proof -
  obtain u t where "s = u @ c # CHR ''/'' # t" using assms(1) by (auto simp: contains_iff)
  then show ?thesis using assms(2) unfolding search_iff
    by (intro exI [of _ u] exI [of _ "c # CHR ''/'' # t"]) simp
qed

lemma search_drive:
  assumes "s = u @ [d, CHR '':'', c] @ t" and "is_alpha d" and "c = CHR ''/'' \<or> c = CHR 0x5C"
    and "u = [] \<or> \<not> is_alnum (last u)"
  shows "search (seqs [NotAfter is_alnum, Cls is_alpha, lit '':'', Cls (one_of [CHR 0x5C, CHR ''/''])]) s"
  using assms unfolding search_iff
  by (intro exI [of _ u] exI [of _ "[d, CHR '':'', c] @ t"]) (auto simp: one_of_def)

lemma search_token:
  assumes "s = u @ ''gh'' @ [c] @ ''_'' @ [d] @ t" and "one_of ''pousr'' c" and "is_alnum d"
    and "u = [] \<or> \<not> is_word (last u)"
  shows "search SECRET_VALUE s"
proof -
  have lc: "lower c = c" "one_of ''pousr'' c"
    using assms(2) by (auto simp: one_of_def lower_def is_upper_def between_def code_def)
  have h: "lower (CHR ''h'') = CHR ''h''" "lower (CHR ''g'') = CHR ''g''" "is_word (CHR ''g'')"
    by (simp_all add: lower_def is_upper_def between_def code_def is_word_def is_alnum_def is_alpha_def
        is_lower_def)
  let ?r = "seqs [WordB, ilit ''gh'', Cls (\<lambda>c. one_of ''pousr'' (lower c)), lit ''_'',
    plus (Cls (\<lambda>c. is_alnum c \<or> c = CHR ''_''))]"
  have pr: "\<not> word_at (if u = [] then None else Some (last u))"
    using assms(4) by (auto simp: word_at_def)
  have "search ?r (u @ ''gh'' @ [c] @ ''_'' @ [d] @ t)"
    by (rule searchI) (use pr lc h assms(3) in \<open>simp add: plus_def word_at_def first_char_def\<close>)
  then have "search ?r s" using assms(1) by simp
  then show ?thesis by (simp add: SECRET_VALUE_def search_Alt)
qed

text \<open>In plain terms: a text that shows a path of the machine, or a GitHub token.\<close>

definition shows_path :: "string \<Rightarrow> bool" where
  "shows_path s \<longleftrightarrow> starts_with ''/'' s \<or> contains '' /'' s \<or> contains [CHR 0x5C, CHR 0x5C] s \<or>
     (\<exists>u d c t. s = u @ [d, CHR '':'', c] @ t \<and> is_alpha d \<and> (c = CHR ''/'' \<or> c = CHR 0x5C) \<and>
        (u = [] \<or> \<not> is_alnum (last u)))"

definition shows_token :: "string \<Rightarrow> bool" where
  "shows_token s \<longleftrightarrow>
     (\<exists>u c d t. s = u @ ''gh'' @ [c] @ ''_'' @ [d] @ t \<and> one_of ''pousr'' c \<and> is_alnum d \<and>
        (u = [] \<or> \<not> is_word (last u)))"

lemma space_is_space: "is_space (CHR '' '')"
  by (simp add: is_space_code between_code char_bits_def)

lemma safe_text_no_path: "safe_text s \<Longrightarrow> \<not> shows_path s"
  unfolding safe_text_def shows_path_def ABSOLUTE_PATH_search
  using search_rooted search_space_slash [OF _ space_is_space] search_drive by blast

lemma safe_text_no_token: "safe_text s \<Longrightarrow> \<not> shows_token s"
  unfolding safe_text_def shows_token_def using search_token by blast

definition forbidden_fragments :: "string list" where
  "forbidden_fragments = [''token'', ''bearer'', ''authorization'', ''password'', ''secret'', ''raw_log'',
     ''environment'', ''command'', ''pull_request'', ''fallback_reason'']"

lemma safe_key_no_fragment:
  assumes "safe_key k"
  obtains s where "k = KStr s" "\<forall>f \<in> set forbidden_fragments. \<not> contains f (map lower s)"
proof -
  obtain s where "k = KStr s" using assms by (cases k) (auto simp: safe_key_def)
  moreover from this have "\<not> contains f (map lower s)" if "f \<in> set forbidden_fragments" for f
    using safe_key_fragment [of s f] assms that by (simp add: forbidden_fragments_def)
  ultimately show ?thesis using that by blast
qed

text \<open>A slash in a job name stands between two spaces, which reads as an absolute path.\<close>

definition slash_spaced :: "string \<Rightarrow> bool" where
  "slash_spaced w \<longleftrightarrow> (CHR ''/'' \<in> set w \<longrightarrow> contains '' /'' w)"

lemma slash_spaced_Nil: "slash_spaced []"
  by (simp add: slash_spaced_def)

lemma slash_spaced_append: "slash_spaced u \<Longrightarrow> slash_spaced v \<Longrightarrow> slash_spaced (u @ v)"
  unfolding slash_spaced_def contains_iff by (metis append.assoc set_append Un_iff)

lemma job_name_char_slash: "job_name_char c \<Longrightarrow> c \<noteq> CHR ''/''"
  by (auto simp: job_name_char_def is_alnum_def is_alpha_def is_lower_def is_upper_def is_digit_def
      between_def code_def one_of_def)

lemma alnum_slash: "is_alnum c \<Longrightarrow> c \<noteq> CHR ''/''"
  using job_name_char_slash by (auto simp: job_name_char_def)

lemma job_name_run:
  assumes "(prev', rest) \<in> set (iterate n (ends (Cls job_name_char)) (prev, s))"
  shows "\<exists>w. s = w @ rest \<and> CHR ''/'' \<notin> set w"
proof -
  obtain w where "s = w @ rest" "list_all job_name_char w"
    using assms unfolding iterate_Cls by blast
  then show ?thesis using job_name_char_slash by (auto simp: list_all_iff)
qed

lemma job_name_segment_spaced:
  assumes "y \<in> set (ends job_name_segment x)"
  shows "\<exists>w. snd x = w @ snd y \<and> slash_spaced w"
proof -
  obtain prev s where x: "x = (prev, s)" by (cases x)
  obtain prev' rest where y: "y = (prev', rest)" by (cases y)
  from assms x obtain c cs where s: "s = '' / '' @ c # cs" "is_alnum c"
    "y \<in> set (iterate (length cs) (ends (Cls job_name_char)) (Some c, cs))"
    by (auto simp: job_name_segment_def ends_lit starts_with_iff simp del: lit.simps
        split: if_splits list.splits)
  then obtain w where "cs = w @ rest" "CHR ''/'' \<notin> set w"
    using job_name_run y by blast
  then have "s = ('' / '' @ c # w) @ rest" using s by simp
  moreover have "slash_spaced ('' / '' @ c # w)"
    by (simp add: slash_spaced_def)
  ultimately show ?thesis using x y by auto
qed

lemma JOB_NAME_slash_spaced:
  assumes "fullmatch JOB_NAME s"
  shows "slash_spaced s"
proof -
  obtain prev where "(prev, []) \<in> set (ends JOB_NAME (None, s))"
    using assms by (auto simp: fullmatch_iff)
  then obtain c cs p1 r1 where s: "s = c # cs" "is_alnum c"
    "(p1, r1) \<in> set (iterate (length cs) (ends (Cls job_name_char)) (Some c, cs))"
    "(prev, []) \<in> set (iterate (length r1) (ends job_name_segment) (p1, r1))"
    by (cases s) (auto simp: JOB_NAME_def split: if_splits)
  obtain w where w: "cs = w @ r1" "CHR ''/'' \<notin> set w" using job_name_run [OF s(3)] by blast
  have "\<exists>v. snd (p1, r1) = v @ snd (prev, [] :: string) \<and> slash_spaced v"
    by (rule iterate_consumes [OF s(4) job_name_segment_spaced]) (auto intro: slash_spaced_append slash_spaced_Nil)
  then have "slash_spaced r1" by simp
  moreover have "slash_spaced (c # w)" using w(2) alnum_slash [OF s(2)] by (auto simp: slash_spaced_def)
  ultimately show ?thesis using slash_spaced_append [of "c # w" r1] s(1) w(1) by simp
qed

subsection \<open>The reasons of rejection\<close>

definition stable_reason :: "exn \<Rightarrow> bool" where
  "stable_reason e \<longleftrightarrow> e \<in> {ValidationError ''invalid_event'',
     ValidationError ''payload_too_large'', ValidationError ''unsupported_schema''}"

lemma required_Inl [dest]:
  "required_string m k n = Inl e \<Longrightarrow> stable_reason e"
  "required_uuid m k = Inl e \<Longrightarrow> stable_reason e"
  "required_identifier m k = Inl e \<Longrightarrow> stable_reason e"
  "required_stage_id m k = Inl e \<Longrightarrow> stable_reason e"
  "required_positive_int m k = Inl e \<Longrightarrow> stable_reason e"
  "required_nonnegative_int m k = Inl e \<Longrightarrow> stable_reason e"
  "required_timestamp m k = Inl e \<Longrightarrow> stable_reason e"
  "reject_unless b = Inl e \<Longrightarrow> stable_reason e"
  "validate_exact_keys m ks = Inl e \<Longrightarrow> stable_reason e"
  by (auto simp: required_string_def required_uuid_def required_identifier_def required_stage_id_def
      required_positive_int_def required_nonnegative_int_def required_timestamp_def reject_unless_def
      validate_exact_keys_def stable_reason_def ensure_def rbind_Inl_iff
      split: pyval.splits if_splits option.splits)

text \<open>The one exception of \<^verbatim>\<open>validate_event\<close> that is not a rejection: \<^verbatim>\<open>urlparse\<close>'s.\<close>

definition url_failure :: "pyval \<Rightarrow> exn \<Rightarrow> bool" where
  "url_failure p e \<longleftrightarrow> (\<exists>s. pget (pget p ''job'') ''run_url'' = PStr s \<and> urlparse s = Inl e)"

lemma required_run_url_Inl:
  "required_run_url m k = Inl e \<Longrightarrow> stable_reason e \<or> (\<exists>s. pget m k = PStr s \<and> urlparse s = Inl e)"
  by (auto simp: required_run_url_def rbind_Inl_iff required_string_Inr stable_reason_def
      split: if_splits dest!: required_Inl(1))

lemma validate_progress_Inl: "validate_progress p = Inl e \<Longrightarrow> stable_reason e"
  unfolding validate_progress_def by (elim rbind_InlE) (auto elim!: rbind_InlE)

lemma validate_fallback_Inl: "validate_fallback p = Inl e \<Longrightarrow> stable_reason e"
  unfolding validate_fallback_def by (elim rbind_InlE) (auto elim!: rbind_InlE)

lemma validate_job_Inl:
  "validate_job j = Inl e \<Longrightarrow> stable_reason e \<or> (\<exists>s. pget j ''run_url'' = PStr s \<and> urlparse s = Inl e)"
  unfolding validate_job_def
  by (elim rbind_InlE) (auto elim!: rbind_InlE dest!: required_run_url_Inl)

lemma validate_job_event_Inl: "validate_job_event p ty = Inl e \<Longrightarrow> stable_reason e \<or> url_failure p e"
  unfolding validate_job_event_def url_failure_def
  by (elim rbind_InlE)
     (auto split: if_splits elim!: rbind_InlE dest: validate_progress_Inl validate_fallback_Inl
      dest!: validate_job_Inl)

lemma validate_event_Inl: "validate_event p = Inl e \<Longrightarrow> stable_reason e \<or> url_failure p e"
proof -
  have size: "stable_reason x" if "validate_payload_size p = Inl x" for x
    using that by (auto simp: validate_payload_size_def stable_reason_def split: sum.splits if_splits)
  have schema: "stable_reason x" if "ensure b (ValidationError ''unsupported_schema'') = Inl x" for b x
    using that by (simp add: ensure_Inl_iff stable_reason_def)
  assume "validate_event p = Inl e"
  then show ?thesis
    unfolding validate_event_def validate_no_forbidden_content_def validate_envelope_fields_def
    by (elim rbind_InlE)
       (auto split: if_splits dest: size schema dest!: validate_job_event_Inl)
qed

subsection \<open>Encoding what was accepted\<close>

lemma compact_sel [simp]: "item_sep compact = '',''" "key_sep compact = '':''" "allow_nan compact"
  by (simp_all add: compact_def)

lemma dumps_key_nan:
  "dump_key (compact\<lparr>allow_nan := False\<rparr>) k = Inr t \<Longrightarrow> dump_key compact k = Inr t"
  by (cases k) (auto simp: rbind_Inr_iff dump_float_def split: if_splits)

lemma dumps_nan:
  shows "fmt = compact\<lparr>allow_nan := False\<rparr> \<Longrightarrow> dumps fmt p = Inr t \<Longrightarrow> dumps compact p = Inr t"
    and "fmt = compact\<lparr>allow_nan := False\<rparr> \<Longrightarrow> dumps_list fmt vs = Inr ts \<Longrightarrow> dumps_list compact vs = Inr ts"
    and "fmt = compact\<lparr>allow_nan := False\<rparr> \<Longrightarrow> dumps_items fmt kvs = Inr ts \<Longrightarrow> dumps_items compact kvs = Inr ts"
proof (induction fmt p and fmt vs and fmt kvs arbitrary: t and ts and ts
    rule: dumps_dumps_list_dumps_items.induct)
  case (4 fmt r)
  then show ?case by (auto simp: dump_float_def split: if_splits)
next
  case (14 fmt k v kvs)
  then show ?case by (auto simp: rbind_Inr_iff dest!: dumps_key_nan)
qed (auto simp: rbind_Inr_iff)

lemma event_text:
  assumes "event_contract p"
  obtains t where "dumps compact (rethaw p) = Inr t" "length t \<le> MAX_PAYLOAD_BYTES"
proof -
  obtain t where t: "dumps (compact\<lparr>allow_nan := False\<rparr>) p = Inr t" "length t \<le> MAX_PAYLOAD_BYTES"
    using assms by (auto simp: event_contract_def small_payload_def split: sum.splits)
  then have "dumps compact (rethaw p) = Inr t"
    using dumps_nan(1) [OF refl t(1)] dumps_rethaw(1) by blast
  with t(2) show ?thesis using that by blast
qed

subsection \<open>Sample events\<close>

definition sample_job :: pyval where
  "sample_job = obj [(''repository'', PStr ''octo/app''), (''workflow_run_id'', PInt 7),
     (''run_attempt'', PInt 1), (''job_id'', PInt 3), (''job_name'', PStr ''build (linux)''),
     (''run_url'', PStr ''https://github.com/octo/app/actions/runs/7'')]"

definition sample_event :: "string \<Rightarrow> string \<Rightarrow> int \<Rightarrow> (string \<times> pyval) list \<Rightarrow> pyval" where
  "sample_event ty eid sq extra = obj
     ([(''schema_version'', PInt 1), (''event_type'', PStr ty), (''event_id'', PStr eid),
       (''runner_id'', PStr ''0f8fad5b-d9cb-469f-a165-70867728950e''), (''producer_id'', PStr ''agent''),
       (''producer_epoch'', PStr ''epoch-1''), (''producer_sequence'', PInt sq),
       (''occurred_at'', PStr ''2026-09-18T01:02:03Z'')] @ extra)"

definition sample_finished :: pyval where
  "sample_finished = sample_event ''job.finished'' ''7c9e6679-7425-40de-944b-e07fc1f90ae7'' 4
     [(''job'', sample_job), (''outcome'', PStr ''failed'')]"

lemma sample_finished_parts:
  "small_payload sample_finished" "content_safe sample_finished" "envelope_contract sample_finished"
  "body_contract sample_finished (text_at sample_finished ''event_type'')" "is_mapping sample_finished"
  by code_simp+

lemma sample_finished_contract: "event_contract sample_finished"
  unfolding event_contract_def using sample_finished_parts by blast

subsection \<open>Properties\<close>

text \<open>
  C1: \<^verbatim>\<open>validate_event\<close> accepts exactly the payloads that satisfy the contract (a mapping of
  exact keys for its type, typed and bounded fields, at most 16 KiB, no forbidden content) and
  returns the event that those fields spell, with the frozen payload.
\<close>

theorem validate_event_accepts:
  "validate_event p = Inr e \<longleftrightarrow> event_contract p \<and> e = event_of p"
  by (rule validate_event_iff)



text \<open>
  C16: Validation is stable under the store's defence: the thawed payload of an accepted event is
  accepted again and gives the same event, and its compact JSON text is at most 16384 characters.
\<close>

theorem validate_event_again:
  assumes "validate_event p = Inr e"
  shows "validate_event (thaw (ev_payload e)) = Inr e \<and>
    (\<exists>t. dumps compact (thaw (ev_payload e)) = Inr t \<and> length t \<le> 16384)"
proof -
  have c: "event_contract p" and e: "e = event_of p" using assms by (auto simp: validate_event_iff)
  have "event_contract (rethaw p)" using c by (rule event_contract_rethaw)
  moreover have "event_of (rethaw p) = event_of p" by (simp add: event_of_def freeze_rethaw)
  moreover obtain t where "dumps compact (rethaw p) = Inr t" "length t \<le> MAX_PAYLOAD_BYTES"
    using c by (rule event_text)
  ultimately show ?thesis
    using e by (simp add: validate_event_iff) (simp add: event_of_def MAX_PAYLOAD_BYTES_def)
qed

theorem validate_event_again_witness:
  "validate_event (thaw (ev_payload (event_of sample_finished))) = Inr (event_of sample_finished)"
  using validate_event_again [of sample_finished] sample_finished_contract
  by (simp add: validate_event_iff)

text \<open>
  The job name's own pattern allows segments joined by a slash between spaces, but the
  absolute-path rule rejects them all: no accepted job event has a slash in its job name.
\<close>

theorem job_name_never_slash:
  assumes "validate_event p = Inr e" and "pget (pget p ''job'') ''job_name'' = PStr s"
    and "ev_type e \<notin> {''runner.heartbeat'', ''runner.offline''}"
  shows "CHR ''/'' \<notin> set s"
proof
  assume slash: "CHR ''/'' \<in> set s"
  have c: "content_safe p" "job_contract (pget p ''job'')"
    using assms(1,3) by (auto simp: validate_event_iff event_contract_def body_contract_def event_of_def)
  then have "fullmatch JOB_NAME s" using assms(2) by (auto simp: job_contract_def text_field_def)
  then have "contains '' /'' s" using JOB_NAME_slash_spaced slash by (simp add: slash_spaced_def)
  then have "search ABSOLUTE_PATH s"
    using ABSOLUTE_PATH_search search_space_slash [OF _ space_is_space] by blast
  moreover have "content_safe (PStr s)"
    using content_safe_pget [OF content_safe_pget [OF c(1)], of "''job''" "''job_name''"] assms(2) by simp
  ultimately show False by (simp add: safe_text_def)
qed

theorem job_name_never_slash_witness:
  "CHR ''/'' \<notin> set ''build (linux)'' \<and> fullmatch JOB_NAME ''build / test''"
proof -
  have "validate_event sample_finished = Inr (event_of sample_finished)"
    using sample_finished_contract by (simp add: validate_event_iff)
  moreover have "pget (pget sample_finished ''job'') ''job_name'' = PStr ''build (linux)''" by code_simp
  moreover have "ev_type (event_of sample_finished) = ''job.finished''" by code_simp
  moreover have "fullmatch JOB_NAME ''build / test''" by code_simp
  ultimately show ?thesis using job_name_never_slash [of sample_finished] by simp
qed

text \<open>
  C17: Every failure of \<^verbatim>\<open>validate_event\<close> carries one of the three public reason codes, except the
  plain \<^verbatim>\<open>ValueError\<close> that \<^verbatim>\<open>urlparse\<close> raises for a run link with a malformed bracketed host.
\<close>

theorem validate_event_failures:
  assumes "validate_event p = Inl e"
  shows "e \<in> {ValidationError ''invalid_event'', ValidationError ''payload_too_large'',
      ValidationError ''unsupported_schema''} \<or>
    (e = ValueError ''Invalid IPv6 URL'' \<and>
     (\<exists>s. pget (pget p ''job'') ''run_url'' = PStr s \<and> urlparse s = Inl e))"
proof -
  have "e = ValueError ''Invalid IPv6 URL''" if "urlparse s = Inl e" for s
    using that by (auto simp: urlparse_def Let_def split: prod.splits if_splits)
  then show ?thesis
    using validate_event_Inl [OF assms] unfolding stable_reason_def url_failure_def by blast
qed

definition sample_bad_url :: pyval where
  "sample_bad_url = sample_event ''job.started'' ''7c9e6679-7425-40de-944b-e07fc1f90ae7'' 4
     [(''job'', obj [(''repository'', PStr ''octo/app''), (''workflow_run_id'', PInt 7),
        (''run_attempt'', PInt 1), (''job_id'', PInt 3), (''job_name'', PStr ''build''),
        (''run_url'', PStr ''https://[x'')])]"

lemma sample_bad_url_parts:
  "small_payload sample_bad_url" "is_mapping sample_bad_url" "content_safe sample_bad_url"
  "envelope_contract sample_bad_url" "text_at sample_bad_url ''event_type'' = ''job.started''"
  "validate_job_event sample_bad_url ''job.started'' = Inl (ValueError ''Invalid IPv6 URL'')"
  by code_simp+

lemma sample_bad_url_result: "validate_event sample_bad_url = Inl (ValueError ''Invalid IPv6 URL'')"
  using validate_event_body [OF sample_bad_url_parts(1-4)] sample_bad_url_parts(5,6) by simp

theorem validate_event_failures_witness:
  "\<exists>s. pget (pget sample_bad_url ''job'') ''run_url'' = PStr s \<and>
     urlparse s = Inl (ValueError ''Invalid IPv6 URL'')"
  using validate_event_failures [OF sample_bad_url_result] by simp

end
