(* ===== verification/Schema.thy ===== *)
theory Schema
  imports Contracts
begin

section \<open>The monitor's database (\<^verbatim>\<open>store.py\<close>, \<^verbatim>\<open>_migrate\<close>)\<close>

text \<open>
  One record per table, one field per column (a nullable column is an option), and the database as
  the tables in rowid order.  \<^verbatim>\<open>events\<close> and \<^verbatim>\<open>incidents\<close> have an integer primary key, which SQLite
  chooses as one more than the largest one in use.
\<close>

record event_row =
  er_row_id :: int
  er_event_id :: string
  er_event_type :: string
  er_runner_id :: string
  er_producer_id :: string
  er_producer_epoch :: string
  er_producer_sequence :: int
  er_occurred_at :: string
  er_received_at :: string
  er_payload_json :: string
  er_applied :: bool

record runner_row =
  rs_runner_id :: string
  rs_producer_id :: string
  rs_producer_epoch :: string
  rs_producer_sequence :: int
  rs_liveness :: string
  rs_activity :: string
  rs_last_received_at :: string
  rs_last_heartbeat_at :: "string option"
  rs_last_job_outcome :: "string option"
  rs_last_event_id :: string
  rs_offline_reason :: "string option"
  rs_current_repository :: "string option"
  rs_current_workflow_run_id :: "int option"
  rs_current_run_attempt :: "int option"
  rs_current_job_id :: "int option"

type_synonym job_key = "string \<times> int \<times> int \<times> int"

record job_row =
  js_repository :: string
  js_workflow_run_id :: int
  js_run_attempt :: int
  js_job_id :: int
  js_runner_id :: string
  js_job_name :: string
  js_run_url :: string
  js_state :: string
  js_outcome :: "string option"
  js_last_received_at :: string
  js_last_event_id :: string
  js_liveness :: string
  js_last_heartbeat_at :: "string option"
  js_offline_reason :: "string option"

record incident_row =
  in_id :: int
  in_kind :: string
  in_resource :: string
  in_condition :: string
  in_active :: bool
  in_opened_at :: string
  in_closed_at :: "string option"
  in_last_changed_at :: string

record watermark_row =
  wm_runner_id :: string
  wm_producer_id :: string
  wm_producer_epoch :: string
  wm_sequence :: int

record database =
  events :: "event_row list"
  runner_state :: "runner_row list"
  job_state :: "job_row list"
  incidents :: "incident_row list"
  watermarks :: "watermark_row list"
  monitor_meta :: "(string \<times> string) list"

text \<open>The keys.\<close>

definition job_row_key :: "job_row \<Rightarrow> job_key" where
  "job_row_key r = (js_repository r, js_workflow_run_id r, js_run_attempt r, js_job_id r)"

definition incident_key :: "incident_row \<Rightarrow> string \<times> string \<times> string" where
  "incident_key r = (in_kind r, in_resource r, in_condition r)"

definition watermark_key :: "watermark_row \<Rightarrow> string \<times> string \<times> string" where
  "watermark_key r = (wm_runner_id r, wm_producer_id r, wm_producer_epoch r)"

definition next_row_id :: "int list \<Rightarrow> int" where
  "next_row_id ids = (if ids = [] then 1 else Max (set ids) + 1)"

text \<open>A fresh database after \<^verbatim>\<open>_migrate\<close>.\<close>

definition empty_database :: database where
  "empty_database = \<lparr>events = [], runner_state = [], job_state = [], incidents = [], watermarks = [],
     monitor_meta = [(''projection_history_complete'', ''1'')]\<rparr>"

text \<open>The lookups by primary key.\<close>

definition runner_get :: "string \<Rightarrow> database \<Rightarrow> runner_row option" where
  "runner_get rid db = tbl_get rs_runner_id rid (runner_state db)"

definition job_get :: "job_key \<Rightarrow> database \<Rightarrow> job_row option" where
  "job_get k db = tbl_get job_row_key k (job_state db)"

definition watermark_get :: "string \<times> string \<times> string \<Rightarrow> database \<Rightarrow> int option" where
  "watermark_get k db = map_option wm_sequence (tbl_get watermark_key k (watermarks db))"

definition incident_get :: "string \<times> string \<times> string \<Rightarrow> database \<Rightarrow> incident_row option" where
  "incident_get k db = tbl_get incident_key k (incidents db)"

text \<open>Each table is a keyed table.\<close>

interpretation runners: keyed_table rs_runner_id "tbl_get rs_runner_id" "tbl_upsert rs_runner_id"
  "tbl_amend rs_runner_id"
  by (rule tbl_keyed_table)

interpretation jobs: keyed_table job_row_key "tbl_get job_row_key" "tbl_upsert job_row_key"
  "tbl_amend job_row_key"
  by (rule tbl_keyed_table)

interpretation marks: keyed_table watermark_key "tbl_get watermark_key" "tbl_upsert watermark_key"
  "tbl_amend watermark_key"
  by (rule tbl_keyed_table)

interpretation alerts: keyed_table incident_key "tbl_get incident_key" "tbl_upsert incident_key"
  "tbl_amend incident_key"
  by (rule tbl_keyed_table)

interpretation log: keyed_table er_event_id "tbl_get er_event_id" "tbl_upsert er_event_id"
  "tbl_amend er_event_id"
  by (rule tbl_keyed_table)

text \<open>The primary keys and unique columns hold.\<close>

definition keys_ok :: "database \<Rightarrow> bool" where
  "keys_ok db \<longleftrightarrow> tbl_keys er_event_id (events db) \<and> tbl_keys er_row_id (events db) \<and>
     tbl_keys rs_runner_id (runner_state db) \<and> tbl_keys job_row_key (job_state db) \<and>
     tbl_keys incident_key (incidents db) \<and> tbl_keys in_id (incidents db) \<and>
     tbl_keys watermark_key (watermarks db) \<and> tbl_keys fst (monitor_meta db)"

lemma next_row_id_fresh: "r \<in> set ids \<Longrightarrow> r < next_row_id ids"
proof -
  assume "r \<in> set ids"
  then have "r \<le> Max (set ids)" by simp
  then show ?thesis using \<open>r \<in> set ids\<close> by (auto simp: next_row_id_def)
qed

lemma next_row_id_notin: "next_row_id ids \<notin> set ids"
  using next_row_id_fresh by blast

end
