(* ===== verification/Health.thy ===== *)
theory Health
  imports Schema
begin

section \<open>Incidents (\<^verbatim>\<open>health.py\<close>)\<close>

text \<open>
  \<^verbatim>\<open>open_incident\<close> and \<^verbatim>\<open>recover_resource\<close>.  \<^verbatim>\<open>notify_safely\<close> hands an incident to an optional
  callback and swallows what it raises; the components return the list of incidents they hand over.
\<close>

definition open_incident ::
  "database \<Rightarrow> string \<Rightarrow> string \<Rightarrow> string \<Rightarrow> string \<Rightarrow> incident_row option \<times> database" where
  "open_incident db kind resource condition now =
     (case incident_get (kind, resource, condition) db of
        None \<Rightarrow>
          (let db' = db\<lparr>incidents := incidents db @
                 [\<lparr>in_id = next_row_id (map in_id (incidents db)), in_kind = kind,
                   in_resource = resource, in_condition = condition, in_active = True,
                   in_opened_at = now, in_closed_at = None, in_last_changed_at = now\<rparr>]\<rparr>
           in (incident_get (kind, resource, condition) db', db'))
      | Some row \<Rightarrow>
          if in_active row then (None, db)
          else (let db' = db\<lparr>incidents := tbl_amend incident_key (kind, resource, condition)
                       (\<lambda>r. r\<lparr>in_active := True, in_opened_at := now, in_closed_at := None,
                              in_last_changed_at := now\<rparr>) (incidents db)\<rparr>
                in (incident_get (kind, resource, condition) db', db')))"

definition recover_resource :: "database \<Rightarrow> string \<Rightarrow> string \<Rightarrow> string \<Rightarrow> database" where
  "recover_resource db kind resource now =
     db\<lparr>incidents := tbl_update
          (\<lambda>r. in_kind r = kind \<and> in_resource r = resource \<and> in_active r)
          (\<lambda>r. r\<lparr>in_active := False, in_closed_at := Some now, in_last_changed_at := now\<rparr>)
          (incidents db)\<rparr>"

subsection \<open>Lemmas\<close>

text \<open>Whether an incident is open.\<close>

definition is_open :: "database \<Rightarrow> string \<Rightarrow> string \<Rightarrow> string \<Rightarrow> bool" where
  "is_open db kind resource condition \<longleftrightarrow>
     (case incident_get (kind, resource, condition) db of None \<Rightarrow> False | Some r \<Rightarrow> in_active r)"

lemma open_incident_frame [simp]:
  "events (snd (open_incident db k r c now)) = events db"
  "runner_state (snd (open_incident db k r c now)) = runner_state db"
  "job_state (snd (open_incident db k r c now)) = job_state db"
  "watermarks (snd (open_incident db k r c now)) = watermarks db"
  "monitor_meta (snd (open_incident db k r c now)) = monitor_meta db"
  by (simp_all add: open_incident_def Let_def split: option.splits)

lemma recover_resource_frame [simp]:
  "events (recover_resource db k r now) = events db"
  "runner_state (recover_resource db k r now) = runner_state db"
  "job_state (recover_resource db k r now) = job_state db"
  "watermarks (recover_resource db k r now) = watermarks db"
  "monitor_meta (recover_resource db k r now) = monitor_meta db"
  by (simp_all add: recover_resource_def)

lemma tbl_get_snoc:
  "tbl_get kf k (rs @ [x]) =
    (case tbl_get kf k rs of None \<Rightarrow> if kf x = k then Some x else None | Some r \<Rightarrow> Some r)"
  by (induction rs) auto

lemma incident_key_reopen [simp]:
  "incident_key (r\<lparr>in_active := a, in_opened_at := o', in_closed_at := c, in_last_changed_at := l\<rparr>)
    = incident_key r"
  "incident_key (r\<lparr>in_active := a, in_closed_at := c, in_last_changed_at := l\<rparr>) = incident_key r"
  by (simp_all add: incident_key_def)

lemma incident_get_open:
  "incident_get key (snd (open_incident db k r c now)) =
    (if key \<noteq> (k, r, c) \<or> is_open db k r c then incident_get key db
     else Some \<lparr>in_id = (case incident_get key db of None \<Rightarrow> next_row_id (map in_id (incidents db))
                         | Some row \<Rightarrow> in_id row),
       in_kind = k, in_resource = r, in_condition = c, in_active = True, in_opened_at = now,
       in_closed_at = None, in_last_changed_at = now\<rparr>)"
proof (cases "incident_get (k, r, c) db")
  case None
  then show ?thesis
    by (auto simp: open_incident_def Let_def incident_get_def tbl_get_snoc is_open_def incident_key_def
        split: option.splits)
next
  case (Some row)
  then have "incident_key row = (k, r, c)"
    by (simp add: incident_get_def alerts.get_key)
  with Some show ?thesis
    by (auto simp: open_incident_def Let_def incident_get_def is_open_def alerts.get_amend
        incident_key_def intro!: incident_row.equality)
qed

lemma fst_open_incident:
  "fst (open_incident db k r c now) =
    (if is_open db k r c then None else incident_get (k, r, c) (snd (open_incident db k r c now)))"
  by (auto simp: open_incident_def Let_def is_open_def split: option.splits)

lemma is_open_open_incident:
  "is_open (snd (open_incident db k r c now)) k' r' c' \<longleftrightarrow>
     (k', r', c') = (k, r, c) \<or> is_open db k' r' c'"
  by (auto simp: is_open_def incident_get_open split: option.splits)

lemma incident_get_recover:
  "incident_get (k', r', c') (recover_resource db k r now) =
    map_option (\<lambda>row. if k' = k \<and> r' = r \<and> in_active row
       then row\<lparr>in_active := False, in_closed_at := Some now, in_last_changed_at := now\<rparr> else row)
     (incident_get (k', r', c') db)"
proof -
  have "incident_get (k', r', c') (recover_resource db k r now) =
    map_option (\<lambda>row. if in_kind row = k \<and> in_resource row = r \<and> in_active row
       then row\<lparr>in_active := False, in_closed_at := Some now, in_last_changed_at := now\<rparr> else row)
     (incident_get (k', r', c') db)"
    by (simp add: incident_get_def recover_resource_def tbl_get_update)
  then show ?thesis
    by (cases "incident_get (k', r', c') db")
       (auto simp: incident_get_def incident_key_def dest!: alerts.get_key)
qed

lemma is_open_recover:
  "is_open (recover_resource db k r now) k' r' c' \<longleftrightarrow> is_open db k' r' c' \<and> (k', r') \<noteq> (k, r)"
  by (auto simp: is_open_def incident_get_recover split: option.splits)

definition incidents_ok :: "database \<Rightarrow> bool" where
  "incidents_ok db \<longleftrightarrow> tbl_keys incident_key (incidents db) \<and> tbl_keys in_id (incidents db)"

lemma incidents_ok_open:
  assumes "incidents_ok db"
  shows "incidents_ok (snd (open_incident db k r c now))"
proof (cases "incident_get (k, r, c) db")
  case None
  then obtain x where "incidents (snd (open_incident db k r c now)) = incidents db @ [x]"
    "incident_key x = (k, r, c)" "in_id x = next_row_id (map in_id (incidents db))"
    by (auto simp: open_incident_def Let_def incident_key_def)
  moreover have "(k, r, c) \<notin> incident_key ` set (incidents db)"
    using None by (simp add: incident_get_def tbl_get_None_iff)
  ultimately show ?thesis
    using assms next_row_id_notin [of "map in_id (incidents db)"]
    by (simp add: incidents_ok_def tbl_keys_def)
next
  case (Some row)
  with assms show ?thesis
    by (auto simp: open_incident_def Let_def incidents_ok_def tbl_amend_def tbl_keys_update)
qed

lemma incidents_ok_recover: "incidents_ok db \<Longrightarrow> incidents_ok (recover_resource db k r now)"
  by (simp add: incidents_ok_def recover_resource_def tbl_keys_update)

end
