(* ===== verification/Projection.thy ===== *)
theory Projection
  imports Health
begin

section \<open>Projections (\<^verbatim>\<open>projection.py\<close>)\<close>

text \<open>
  \<^verbatim>\<open>apply_event\<close> advances the runner, job and watermark tables by one validated event.  SQLite
  refuses to bind an integer outside 64 bits, which is Python's \<open>OverflowError\<close>.
\<close>

definition fits_int64 :: "int \<Rightarrow> bool" where
  "fits_int64 n \<longleftrightarrow> - (2 ^ 63) \<le> n \<and> n < 2 ^ 63"

definition event_job :: "validated_event \<Rightarrow> pyval" where
  "event_job e = pget (ev_payload e) ''job''"

definition event_job_key :: "validated_event \<Rightarrow> job_key" where
  "event_job_key e = (let j = event_job e in (text_at j ''repository'', int_at j ''workflow_run_id'',
     int_at j ''run_attempt'', int_at j ''job_id''))"

definition job_key_fits :: "job_key \<Rightarrow> bool" where
  "job_key_fits k = (case k of (repo, run, attempt, job) \<Rightarrow>
     fits_int64 run \<and> fits_int64 attempt \<and> fits_int64 job)"

definition watermark_of :: "validated_event \<Rightarrow> string \<times> string \<times> string" where
  "watermark_of e = (ev_runner_id e, ev_producer_id e, ev_producer_epoch e)"

definition job_types :: "string list" where
  "job_types = [''job.started'', ''job.heartbeat'', ''job.finished'']"

subsection \<open>Guards\<close>

definition runner_accepts :: "database \<Rightarrow> validated_event \<Rightarrow> bool" where
  "runner_accepts db e =
     (case watermark_get (watermark_of e) db of None \<Rightarrow> True
      | Some n \<Rightarrow> n < ev_producer_sequence e)"

definition job_accepts :: "database \<Rightarrow> validated_event \<Rightarrow> bool res" where
  "job_accepts db e =
     (if \<not> job_key_fits (event_job_key e) then Inl OverflowError
      else Inr (case job_get (event_job_key e) db of None \<Rightarrow> True
                | Some row \<Rightarrow> js_state row \<noteq> ''finished''))"

definition older_attempt_than_runner_current :: "database \<Rightarrow> validated_event \<Rightarrow> bool" where
  "older_attempt_than_runner_current db e =
     (let j = event_job e in
      case runner_get (ev_runner_id e) db of None \<Rightarrow> False
      | Some row \<Rightarrow>
          rs_current_repository row = Some (text_at j ''repository'') \<and>
          rs_current_workflow_run_id row = Some (int_at j ''workflow_run_id'') \<and>
          (case rs_current_run_attempt row of None \<Rightarrow> False | Some a \<Rightarrow> int_at j ''run_attempt'' < a))"

subsection \<open>Writes\<close>

definition advance_watermark :: "database \<Rightarrow> validated_event \<Rightarrow> database" where
  "advance_watermark db e =
     db\<lparr>watermarks := tbl_upsert watermark_key
          \<lparr>wm_runner_id = ev_runner_id e, wm_producer_id = ev_producer_id e,
           wm_producer_epoch = ev_producer_epoch e, wm_sequence = ev_producer_sequence e\<rparr>
          (watermarks db)\<rparr>"

definition or_else :: "'a option \<Rightarrow> 'a option \<Rightarrow> 'a option" where
  "or_else a b = (case a of None \<Rightarrow> b | Some x \<Rightarrow> Some x)"

text \<open>The values of the \<^verbatim>\<open>INSERT ... ON CONFLICT DO UPDATE\<close> statements.\<close>

definition runner_values ::
  "runner_row option \<Rightarrow> validated_event \<Rightarrow> string \<Rightarrow> string \<Rightarrow> string option \<Rightarrow> string option \<Rightarrow>
   string option \<Rightarrow> string option \<Rightarrow> runner_row" where
  "runner_values existing e received_at liveness activity heartbeat_at terminal_outcome offline_reason =
     (let prior_activity = (case existing of None \<Rightarrow> ''idle'' | Some r \<Rightarrow> rs_activity r);
          prior_heartbeat = (case existing of None \<Rightarrow> None | Some r \<Rightarrow> rs_last_heartbeat_at r);
          prior_outcome = (case existing of None \<Rightarrow> None | Some r \<Rightarrow> rs_last_job_outcome r);
          j = event_job e; is_job = is_mapping j
      in \<lparr>rs_runner_id = ev_runner_id e, rs_producer_id = ev_producer_id e,
          rs_producer_epoch = ev_producer_epoch e, rs_producer_sequence = ev_producer_sequence e,
          rs_liveness = liveness,
          rs_activity = (case activity of None \<Rightarrow> prior_activity | Some a \<Rightarrow> a),
          rs_last_received_at = received_at,
          rs_last_heartbeat_at = or_else heartbeat_at prior_heartbeat,
          rs_last_job_outcome = or_else terminal_outcome prior_outcome,
          rs_last_event_id = ev_id e,
          rs_offline_reason = offline_reason,
          rs_current_repository = (if is_job then Some (text_at j ''repository'')
            else case existing of None \<Rightarrow> None | Some r \<Rightarrow> rs_current_repository r),
          rs_current_workflow_run_id = (if is_job then Some (int_at j ''workflow_run_id'')
            else case existing of None \<Rightarrow> None | Some r \<Rightarrow> rs_current_workflow_run_id r),
          rs_current_run_attempt = (if is_job then Some (int_at j ''run_attempt'')
            else case existing of None \<Rightarrow> None | Some r \<Rightarrow> rs_current_run_attempt r),
          rs_current_job_id = (if is_job then Some (int_at j ''job_id'')
            else case existing of None \<Rightarrow> None | Some r \<Rightarrow> rs_current_job_id r)\<rparr>)"

definition upsert_runner ::
  "database \<Rightarrow> validated_event \<Rightarrow> string \<Rightarrow> string \<Rightarrow> string option \<Rightarrow> string option \<Rightarrow>
   string option \<Rightarrow> string option \<Rightarrow> database" where
  "upsert_runner db e received_at liveness activity heartbeat_at terminal_outcome offline_reason =
     db\<lparr>runner_state := tbl_upsert rs_runner_id
          (runner_values (runner_get (ev_runner_id e) db) e received_at liveness activity heartbeat_at
             terminal_outcome offline_reason) (runner_state db)\<rparr>"

definition job_values :: "validated_event \<Rightarrow> string \<Rightarrow> string \<Rightarrow> string option \<Rightarrow> job_row" where
  "job_values e received_at state outcome =
     (let j = event_job e
      in \<lparr>js_repository = text_at j ''repository'', js_workflow_run_id = int_at j ''workflow_run_id'',
          js_run_attempt = int_at j ''run_attempt'', js_job_id = int_at j ''job_id'',
          js_runner_id = ev_runner_id e, js_job_name = text_at j ''job_name'',
          js_run_url = text_at j ''run_url'', js_state = state, js_outcome = outcome,
          js_last_received_at = received_at, js_last_event_id = ev_id e, js_liveness = ''online'',
          js_last_heartbeat_at = Some received_at, js_offline_reason = None\<rparr>)"

definition upsert_job ::
  "database \<Rightarrow> validated_event \<Rightarrow> string \<Rightarrow> string \<Rightarrow> string option \<Rightarrow> database" where
  "upsert_job db e received_at state outcome =
     db\<lparr>job_state := tbl_upsert job_row_key (job_values e received_at state outcome) (job_state db)\<rparr>"

text \<open>\<^verbatim>\<open>f"{repository}:{workflow_run_id}:{run_attempt}:{job_id}"\<close>.\<close>

definition resource_id_of_key :: "job_key \<Rightarrow> string" where
  "resource_id_of_key k = (case k of (repo, run, attempt, job) \<Rightarrow>
     repo @ '':'' @ int_text run @ '':'' @ int_text attempt @ '':'' @ int_text job)"

definition event_resource_id :: "validated_event \<Rightarrow> string" where
  "event_resource_id e = resource_id_of_key (event_job_key e)"

subsection \<open>One event\<close>

text \<open>The three kinds of event that can be applied, once the guards have passed.\<close>

definition event_outcome :: "validated_event \<Rightarrow> string option" where
  "event_outcome e =
     (if ev_type e = ''job.finished'' then str_of (pget (ev_payload e) ''outcome'') else None)"

definition project ::
  "bool \<Rightarrow> bool \<Rightarrow> database \<Rightarrow> validated_event \<Rightarrow> string \<Rightarrow> bool \<times> database" where
  "project manage_incidents manage_watermarks db e received_at =
     (let advance = (\<lambda>d. if manage_watermarks then advance_watermark d e else d) in
      if ev_type e = ''runner.heartbeat'' then
        (let d1 = upsert_runner db e received_at ''online'' None (Some received_at) None None;
             d2 = (if manage_incidents then recover_resource d1 ''runner'' (ev_runner_id e) received_at
                   else d1)
         in (True, advance d2))
      else if ev_type e = ''runner.offline'' then
        (True, advance (upsert_runner db e received_at ''offline'' None None None
                          (Some ''explicit_shutdown'')))
      else if ev_type e \<notin> set job_types then (False, db)
      else
        (let finished = (ev_type e = ''job.finished'');
             outcome = event_outcome e;
             d1 = upsert_runner db e received_at ''online''
                    (Some (if finished then ''idle'' else ''running'')) None outcome None;
             d2 = upsert_job d1 e received_at (if finished then ''finished'' else ''running'') outcome;
             d3 = (if manage_incidents
                   then recover_resource (recover_resource d2 ''runner'' (ev_runner_id e) received_at)
                          ''job'' (event_resource_id e) received_at
                   else d2)
         in (True, advance d3)))"

definition apply_event ::
  "bool \<Rightarrow> bool \<Rightarrow> database \<Rightarrow> validated_event \<Rightarrow> string \<Rightarrow> (bool \<times> database) res" where
  "apply_event manage_incidents manage_watermarks db e received_at =
     (if manage_watermarks \<and> \<not> runner_accepts db e then Inr (False, db)
      else if ev_type e \<in> set job_types then
        rbind (job_accepts db e) (\<lambda>ok.
          if \<not> ok \<or> older_attempt_than_runner_current db e then Inr (False, db)
          else Inr (project manage_incidents manage_watermarks db e received_at))
      else Inr (project manage_incidents manage_watermarks db e received_at))"

subsection \<open>Lookups after each write\<close>

lemma watermark_get_advance:
  "watermark_get k (advance_watermark db e) =
    (if k = watermark_of e then Some (ev_producer_sequence e) else watermark_get k db)"
  by (auto simp: watermark_get_def advance_watermark_def marks.get_put watermark_of_def watermark_key_def)

lemma advance_watermark_frame [simp]:
  "events (advance_watermark db e) = events db" "incidents (advance_watermark db e) = incidents db"
  "runner_state (advance_watermark db e) = runner_state db"
  "job_state (advance_watermark db e) = job_state db"
  "monitor_meta (advance_watermark db e) = monitor_meta db"
  by (simp_all add: advance_watermark_def)

lemma upsert_runner_frame [simp]:
  "events (upsert_runner db e a b c d f g) = events db"
  "incidents (upsert_runner db e a b c d f g) = incidents db"
  "watermarks (upsert_runner db e a b c d f g) = watermarks db"
  "job_state (upsert_runner db e a b c d f g) = job_state db"
  "monitor_meta (upsert_runner db e a b c d f g) = monitor_meta db"
  by (simp_all add: upsert_runner_def)

lemma upsert_job_frame [simp]:
  "events (upsert_job db e a b c) = events db" "incidents (upsert_job db e a b c) = incidents db"
  "watermarks (upsert_job db e a b c) = watermarks db"
  "runner_state (upsert_job db e a b c) = runner_state db"
  "monitor_meta (upsert_job db e a b c) = monitor_meta db"
  by (simp_all add: upsert_job_def)

lemma runner_values_sel [simp]:
  "rs_runner_id (runner_values x e a l ac h t r) = ev_runner_id e"
  "rs_liveness (runner_values x e a l ac h t r) = l"
  "rs_offline_reason (runner_values x e a l ac h t r) = r"
  "rs_last_received_at (runner_values x e a l ac h t r) = a"
  by (simp_all add: runner_values_def Let_def)

lemma job_values_sel [simp]:
  "job_row_key (job_values e a st out) = event_job_key e"
  "js_state (job_values e a st out) = st" "js_outcome (job_values e a st out) = out"
  "js_liveness (job_values e a st out) = ''online''" "js_offline_reason (job_values e a st out) = None"
  "js_last_heartbeat_at (job_values e a st out) = Some a"
  by (simp_all add: job_values_def job_row_key_def event_job_key_def Let_def)

lemma runner_get_upsert_runner:
  "runner_get rid (upsert_runner db e a l ac h t r) =
    (if rid = ev_runner_id e then Some (runner_values (runner_get rid db) e a l ac h t r)
     else runner_get rid db)"
  by (auto simp: runner_get_def upsert_runner_def runners.get_put)

lemma job_get_upsert_job:
  "job_get k (upsert_job db e a st out) =
    (if k = event_job_key e then Some (job_values e a st out) else job_get k db)"
  by (auto simp: job_get_def upsert_job_def jobs.get_put)

text \<open>Which tables a lookup reads.\<close>

lemma runner_get_cong: "runner_state d = runner_state d' \<Longrightarrow> runner_get rid d = runner_get rid d'"
  by (simp add: runner_get_def)

lemma job_get_cong: "job_state d = job_state d' \<Longrightarrow> job_get k d = job_get k d'"
  by (simp add: job_get_def)

lemma watermark_get_cong: "watermarks d = watermarks d' \<Longrightarrow> watermark_get k d = watermark_get k d'"
  by (simp add: watermark_get_def)

lemma frame_gets [simp]:
  "runner_get rid (advance_watermark db e) = runner_get rid db"
  "job_get k (advance_watermark db e) = job_get k db"
  "job_get k (upsert_runner db e a b c d f g) = job_get k db"
  "watermark_get w (upsert_runner db e a b c d f g) = watermark_get w db"
  "runner_get rid (upsert_job db e a b2 c2) = runner_get rid db"
  "watermark_get w (upsert_job db e a b2 c2) = watermark_get w db"
  "runner_get rid (recover_resource db kd rc now) = runner_get rid db"
  "job_get k (recover_resource db kd rc now) = job_get k db"
  "watermark_get w (recover_resource db kd rc now) = watermark_get w db"
  by (auto intro: runner_get_cong job_get_cong watermark_get_cong)

subsection \<open>One event, table by table\<close>

definition lifecycle_types :: "string list" where
  "lifecycle_types = [''runner.heartbeat'', ''runner.offline''] @ job_types"

lemma fst_project: "fst (project mi mw db e at) \<longleftrightarrow> ev_type e \<in> set lifecycle_types"
  by (auto simp: project_def lifecycle_types_def Let_def)

lemma project_other: "ev_type e \<notin> set lifecycle_types \<Longrightarrow> project mi mw db e at = (False, db)"
  by (auto simp: project_def lifecycle_types_def Let_def)

lemma project_log [simp]:
  "events (snd (project mi mw db e at)) = events db"
  "monitor_meta (snd (project mi mw db e at)) = monitor_meta db"
  by (auto simp: project_def Let_def)

lemma watermark_get_project:
  "watermark_get k (snd (project mi mw db e at)) =
    (if mw \<and> k = watermark_of e \<and> ev_type e \<in> set lifecycle_types then Some (ev_producer_sequence e)
     else watermark_get k db)"
  by (auto simp: project_def Let_def watermark_get_advance lifecycle_types_def)

text \<open>The row that an applied event writes for its runner.\<close>

definition runner_after :: "runner_row option \<Rightarrow> validated_event \<Rightarrow> string \<Rightarrow> runner_row" where
  "runner_after existing e at =
     (if ev_type e = ''runner.heartbeat'' then
        runner_values existing e at ''online'' None (Some at) None None
      else if ev_type e = ''runner.offline'' then
        runner_values existing e at ''offline'' None None None (Some ''explicit_shutdown'')
      else runner_values existing e at ''online''
        (Some (if ev_type e = ''job.finished'' then ''idle'' else ''running'')) None (event_outcome e) None)"

lemma runner_get_project:
  "runner_get rid (snd (project mi mw db e at)) =
    (if rid = ev_runner_id e \<and> ev_type e \<in> set lifecycle_types
     then Some (runner_after (runner_get rid db) e at) else runner_get rid db)"
  by (auto simp: project_def Let_def runner_get_upsert_runner lifecycle_types_def runner_after_def)

definition job_after :: "validated_event \<Rightarrow> string \<Rightarrow> job_row" where
  "job_after e at = job_values e at (if ev_type e = ''job.finished'' then ''finished'' else ''running'')
     (event_outcome e)"

lemma job_get_project:
  "job_get k (snd (project mi mw db e at)) =
    (if k = event_job_key e \<and> ev_type e \<in> set job_types then Some (job_after e at) else job_get k db)"
  by (auto simp: project_def Let_def job_get_upsert_job job_types_def job_after_def)

lemma project_incidents_unmanaged: "incidents (snd (project False mw db e at)) = incidents db"
  by (auto simp: project_def Let_def)

lemma is_open_project:
  "is_open (snd (project True mw db e at)) k r c \<longleftrightarrow> is_open db k r c \<and>
     \<not> (ev_type e \<in> {''runner.heartbeat''} \<union> set job_types \<and> k = ''runner'' \<and> r = ev_runner_id e) \<and>
     \<not> (ev_type e \<in> set job_types \<and> k = ''job'' \<and> r = event_resource_id e)"
proof -
  have cong: "incidents d = incidents d' \<Longrightarrow> is_open d k r c = is_open d' k r c" for d d'
    by (simp add: is_open_def incident_get_def)
  have adv: "is_open (advance_watermark d e) k r c = is_open d k r c" for d
    by (rule cong) simp
  have upr: "is_open (upsert_runner d e a1 a2 a3 a4 a5 a6) k r c = is_open d k r c"
    for d a1 a2 a3 a4 a5 a6
    by (rule cong) simp
  have upj: "is_open (upsert_job d e a1 a2 a3) k r c = is_open d k r c" for d a1 a2 a3
    by (rule cong) simp
  show ?thesis
    by (auto simp: project_def Let_def adv upr upj is_open_recover job_types_def)
qed

lemma incidents_ok_cong: "incidents d = incidents d' \<Longrightarrow> incidents_ok d = incidents_ok d'"
  by (simp add: incidents_ok_def)

lemma incidents_ok_project:
  assumes "incidents_ok db"
  shows "incidents_ok (snd (project mi mw db e at))"
proof -
  have frame: "incidents_ok (advance_watermark d e) = incidents_ok d"
    "incidents_ok (upsert_runner d e a1 a2 a3 a4 a5 a6) = incidents_ok d"
    "incidents_ok (upsert_job d e b1 b2 b3) = incidents_ok d" for d a1 a2 a3 a4 a5 a6 b1 b2 b3
    by (rule incidents_ok_cong, simp)+
  show ?thesis
    using assms by (auto simp: project_def Let_def frame intro!: incidents_ok_recover)
qed

subsection \<open>The whole of \<open>apply_event\<close>\<close>

lemma apply_event_cases:
  assumes "apply_event mi mw db e at = Inr (b, db')"
  obtains (rejected) "\<not> b" "db' = db"
  | (applied) "b" "db' = snd (project mi mw db e at)" "ev_type e \<in> set lifecycle_types"
      "mw \<longrightarrow> runner_accepts db e"
      "ev_type e \<in> set job_types \<longrightarrow> job_key_fits (event_job_key e) \<and>
         job_accepts db e = Inr True \<and> \<not> older_attempt_than_runner_current db e"
proof (cases "ev_type e \<in> set lifecycle_types")
  case False
  then have "ev_type e \<notin> set job_types" by (simp add: lifecycle_types_def)
  then show ?thesis
    using assms False rejected by (auto simp: apply_event_def project_other split: if_splits)
next
  case True
  then have pr: "project mi mw db e at = (True, snd (project mi mw db e at))"
    using fst_project [of mi mw db e at] by (cases "project mi mw db e at") simp
  show ?thesis
  proof (cases "mw \<and> \<not> runner_accepts db e")
    case True
    then show ?thesis using assms rejected by (auto simp: apply_event_def)
  next
    case acc: False
    show ?thesis
    proof (cases "ev_type e \<in> set job_types")
      case False
      then have "(b, db') = project mi mw db e at" using assms acc by (simp add: apply_event_def)
      with pr have "b" "db' = snd (project mi mw db e at)" by (metis fst_conv snd_conv)+
      then show ?thesis using applied \<open>ev_type e \<in> set lifecycle_types\<close> acc False by blast
    next
      case job: True
      with assms acc obtain ok where ok: "job_accepts db e = Inr ok"
        "Inr (b, db') = (if \<not> ok \<or> older_attempt_than_runner_current db e then Inr (False, db)
          else Inr (project mi mw db e at) :: (bool \<times> database) res)"
        by (auto simp: apply_event_def rbind_Inr_iff)
      have fits: "job_key_fits (event_job_key e)"
        using ok(1) by (simp add: job_accepts_def split: if_splits)
      show ?thesis
      proof (cases "\<not> ok \<or> older_attempt_than_runner_current db e")
        case True
        then show ?thesis using ok(2) rejected by simp
      next
        case False
        then have "(b, db') = project mi mw db e at" using ok(2) by simp
        with pr have "b" "db' = snd (project mi mw db e at)" by (metis fst_conv snd_conv)+
        then show ?thesis
          using applied \<open>ev_type e \<in> set lifecycle_types\<close> acc False ok(1) fits by simp
      qed
    qed
  qed
qed

text \<open>A rejected event changes no table.\<close>

lemma apply_event_rejected: "apply_event mi mw db e at = Inr (False, db') \<Longrightarrow> db' = db"
  by (erule apply_event_cases) auto

lemma apply_event_log:
  "apply_event mi mw db e at = Inr (b, db') \<Longrightarrow> events db' = events db \<and> monitor_meta db' = monitor_meta db"
  by (erule apply_event_cases) auto

text \<open>\<^verbatim>\<open>apply_event\<close> fails only when a job key does not fit SQLite's integers.\<close>

lemma apply_event_Inl:
  "apply_event mi mw db e at = Inl x \<Longrightarrow>
     x = OverflowError \<and> ev_type e \<in> set job_types \<and> \<not> job_key_fits (event_job_key e)"
  by (auto simp: apply_event_def rbind_Inl_iff job_accepts_def split: if_splits)

text \<open>A watermark never goes back, and an applied event is newer than its watermark.\<close>

definition watermark_le :: "int option \<Rightarrow> int option \<Rightarrow> bool" where
  "watermark_le a b \<longleftrightarrow> (case a of None \<Rightarrow> True | Some n \<Rightarrow> (case b of None \<Rightarrow> False | Some m \<Rightarrow> n \<le> m))"

lemma watermark_le_refl [simp]: "watermark_le a a"
  by (simp add: watermark_le_def split: option.splits)

lemma watermark_le_trans: "watermark_le a b \<Longrightarrow> watermark_le b c \<Longrightarrow> watermark_le a c"
  by (auto simp: watermark_le_def split: option.splits)

lemma apply_event_watermark:
  assumes "apply_event mi True db e at = Inr (b, db')"
  shows "watermark_le (watermark_get k db) (watermark_get k db')"
  using assms
  by (cases rule: apply_event_cases)
     (auto simp: watermark_get_project watermark_le_def runner_accepts_def split: option.splits)

lemma apply_event_newer:
  assumes "apply_event mi True db e at = Inr (True, db')"
  shows "watermark_get (watermark_of e) db' = Some (ev_producer_sequence e)"
    and "watermark_get (watermark_of e) db = Some n \<Longrightarrow> n < ev_producer_sequence e"
  using assms
  by (cases rule: apply_event_cases;
      simp add: watermark_get_project runner_accepts_def)+

text \<open>A finished job stays as it is.\<close>

lemma apply_event_finished:
  assumes "apply_event mi mw db e at = Inr (b, db')" and "job_get k db = Some row"
    and "js_state row = ''finished''"
  shows "job_get k db' = Some row"
  using assms(1)
proof (cases rule: apply_event_cases)
  case rejected
  then show ?thesis using assms(2) by simp
next
  case applied
  then show ?thesis using assms(2,3) by (auto simp: job_get_project job_accepts_def)
qed

subsection \<open>Keys stay unique\<close>

definition tables_ok :: "database \<Rightarrow> bool" where
  "tables_ok db \<longleftrightarrow> tbl_keys rs_runner_id (runner_state db) \<and> tbl_keys job_row_key (job_state db) \<and>
     tbl_keys watermark_key (watermarks db) \<and> incidents_ok db"

lemma keys_ok_split:
  "keys_ok db \<longleftrightarrow> tables_ok db \<and> tbl_keys er_event_id (events db) \<and> tbl_keys er_row_id (events db) \<and>
     tbl_keys fst (monitor_meta db)"
  by (auto simp: keys_ok_def tables_ok_def incidents_ok_def)

lemma tables_ok_writes:
  "tables_ok db \<Longrightarrow> tables_ok (advance_watermark db e)"
  "tables_ok db \<Longrightarrow> tables_ok (upsert_runner db e a b c d f g)"
  "tables_ok db \<Longrightarrow> tables_ok (upsert_job db e a b2 c2)"
  "tables_ok db \<Longrightarrow> tables_ok (recover_resource db k r now)"
  "tables_ok db \<Longrightarrow> tables_ok (snd (open_incident db k r c3 now))"
  by (simp_all add: tables_ok_def advance_watermark_def upsert_runner_def upsert_job_def
      tbl_keys_upsert incidents_ok_recover incidents_ok_open) (simp_all add: incidents_ok_def)

lemma tables_ok_project: "tables_ok db \<Longrightarrow> tables_ok (snd (project mi mw db e at))"
  by (auto simp: project_def Let_def intro!: tables_ok_writes)

lemma tables_ok_apply_event: "apply_event mi mw db e at = Inr (b, db') \<Longrightarrow> tables_ok db \<Longrightarrow> tables_ok db'"
  by (erule apply_event_cases) (auto intro: tables_ok_project)

end
