(* ===== verification/Store.thy ===== *)
theory Store
  imports Projection
begin

section \<open>The event store (\<^verbatim>\<open>store.py\<close>): ingestion and liveness\<close>

text \<open>
  A store is its database and the set of its degraded reasons (a list without duplicates).  An
  operation inside \<^verbatim>\<open>with self._connection\<close> that raises leaves the database as it was; the
  operations below return the exception together with the unchanged store.  The notifier is a
  callback: what is handed to it is part of an operation's result.
\<close>

subsection \<open>Time stamps\<close>

datatype received = AtText string | AtMoment datetime | AtOther

definition invalid_received_at :: exn where
  "invalid_received_at = ValueError ''invalid_received_at''"

definition normalise_moment :: "datetime \<Rightarrow> string res" where
  "normalise_moment t =
     (if offset t = None then Inl invalid_received_at
      else rbind (astimezone 0 t) (\<lambda>u. Inr (replace_all ''+00:00'' ''Z'' (isoformat_utc (naive u)))))"

definition normalise_received_at :: "received \<Rightarrow> string res" where
  "normalise_received_at r =
     (case r of
        AtMoment t \<Rightarrow> normalise_moment t
      | AtText s \<Rightarrow>
          (case fromisoformat (replace_all ''Z'' ''+00:00'' s) of
             None \<Rightarrow> Inl invalid_received_at | Some t \<Rightarrow> normalise_moment t)
      | AtOther \<Rightarrow> Inl TypeError)"

definition parse_received_at :: "string \<Rightarrow> datetime res" where
  "parse_received_at s =
     (case fromisoformat (replace_all ''Z'' ''+00:00'' s) of
        None \<Rightarrow> Inl (ValueError ''Invalid isoformat string'') | Some t \<Rightarrow> Inr t)"

text \<open>\<^verbatim>\<open>a < b\<close> of two moments, and \<^verbatim>\<open>t - timedelta\<close>.\<close>

definition moment_less :: "datetime \<Rightarrow> datetime \<Rightarrow> bool res" where
  "moment_less a b =
     (if (offset a = None) \<noteq> (offset b = None) then Inl TypeError else Inr (instant a < instant b))"

definition moment_minus :: "datetime \<Rightarrow> int \<Rightarrow> datetime res" where
  "moment_minus t us =
     (if in_range (naive t - us) then Inr (t\<lparr>naive := naive t - us\<rparr>) else Inl OverflowError)"

definition LIVENESS_TIMEOUT_SECONDS :: int where
  "LIVENESS_TIMEOUT_SECONDS = 10 * 60"

definition RETENTION_DAYS :: int where
  "RETENTION_DAYS = 7"

fun filter_res :: "('a \<Rightarrow> bool res) \<Rightarrow> 'a list \<Rightarrow> 'a list res" where
  "filter_res p [] = Inr []"
| "filter_res p (x # xs) =
     rbind (p x) (\<lambda>b. rbind (filter_res p xs) (\<lambda>ys. Inr (if b then x # ys else ys)))"

subsection \<open>State\<close>

record store =
  db :: database
  degraded_reasons :: "string list"

record ingest_result =
  ir_event_id :: string
  ir_accepted :: bool
  ir_duplicate :: bool
  ir_projection_applied :: bool
  ir_producer_watermark :: "int option"

definition add_reason :: "string \<Rightarrow> store \<Rightarrow> store" where
  "add_reason r s = s\<lparr>degraded_reasons :=
     (if r \<in> set (degraded_reasons s) then degraded_reasons s else degraded_reasons s @ [r])\<rparr>"

definition discard_reason :: "string \<Rightarrow> store \<Rightarrow> store" where
  "discard_reason r s = s\<lparr>degraded_reasons := removeAll r (degraded_reasons s)\<rparr>"

definition degraded :: "store \<Rightarrow> bool" where
  "degraded s \<longleftrightarrow> degraded_reasons s \<noteq> []"

subsection \<open>Ingestion\<close>

definition revalidated :: "validated_event \<Rightarrow> validated_event res" where
  "revalidated e = validate_event (thaw (ev_payload e))"

definition producer_watermark :: "database \<Rightarrow> validated_event \<Rightarrow> int option" where
  "producer_watermark d e = watermark_get (watermark_of e) d"

definition event_values :: "int \<Rightarrow> validated_event \<Rightarrow> string \<Rightarrow> string \<Rightarrow> event_row" where
  "event_values row_id e received_at payload_json =
     \<lparr>er_row_id = row_id, er_event_id = ev_id e, er_event_type = ev_type e,
      er_runner_id = ev_runner_id e, er_producer_id = ev_producer_id e,
      er_producer_epoch = ev_producer_epoch e, er_producer_sequence = ev_producer_sequence e,
      er_occurred_at = ev_occurred_at e, er_received_at = received_at,
      er_payload_json = payload_json, er_applied = False\<rparr>"

definition insert_event :: "database \<Rightarrow> validated_event \<Rightarrow> string \<Rightarrow> database res" where
  "insert_event d e received_at =
     rbind (dumps compact (thaw (ev_payload e))) (\<lambda>text.
       if \<not> fits_int64 (ev_producer_sequence e) then Inl OverflowError
       else Inr (d\<lparr>events := events d @
              [event_values (next_row_id (map er_row_id (events d))) e received_at text]\<rparr>))"

definition set_applied :: "database \<Rightarrow> string \<Rightarrow> bool \<Rightarrow> database" where
  "set_applied d eid b = d\<lparr>events := tbl_amend er_event_id eid (\<lambda>r. r\<lparr>er_applied := b\<rparr>) (events d)\<rparr>"

text \<open>The body of the transaction for a new event: whether it was applied, the incidents to notify.\<close>

definition ingest_new ::
  "database \<Rightarrow> validated_event \<Rightarrow> string \<Rightarrow> (bool \<times> incident_row list \<times> database) res" where
  "ingest_new d e received_at =
     rbind (insert_event d e received_at) (\<lambda>d1.
     rbind (apply_event True True d1 e received_at) (\<lambda>(applied, d2).
       let d3 = set_applied d2 (ev_id e) applied
       in if applied \<and> ev_type e = ''runner.offline'' then
            (case open_incident d3 ''runner'' (ev_runner_id e) ''explicit_shutdown'' received_at of
               (created, d4) \<Rightarrow> Inr (True, (case created of None \<Rightarrow> [] | Some i \<Rightarrow> [i]), d4))
          else Inr (applied, [], d3)))"

definition ingest ::
  "store \<Rightarrow> validated_event \<Rightarrow> received \<Rightarrow> (ingest_result \<times> incident_row list) res \<times> store" where
  "ingest s event received_at =
     (case rbind (revalidated event) (\<lambda>e. rbind (normalise_received_at received_at) (\<lambda>at. Inr (e, at))) of
        Inl x \<Rightarrow> (Inl x, s)
      | Inr (e, at) \<Rightarrow>
          (case tbl_get er_event_id (ev_id e) (events (db s)) of
             Some row \<Rightarrow>
               (Inr (\<lparr>ir_event_id = ev_id e, ir_accepted = True, ir_duplicate = True,
                      ir_projection_applied = er_applied row,
                      ir_producer_watermark = producer_watermark (db s) e\<rparr>, []), s)
           | None \<Rightarrow>
               (case ingest_new (db s) e at of
                  Inl x \<Rightarrow> (Inl x, s)
                | Inr (applied, notified, d) \<Rightarrow>
                    (Inr (\<lparr>ir_event_id = ev_id e, ir_accepted = True, ir_duplicate = False,
                           ir_projection_applied = applied,
                           ir_producer_watermark = producer_watermark d e\<rparr>, notified),
                     s\<lparr>db := d\<rparr>))))"

subsection \<open>Liveness\<close>

definition stale :: "datetime \<Rightarrow> string \<Rightarrow> bool res" where
  "stale cutoff text = rbind (parse_received_at text) (\<lambda>t. moment_less t cutoff)"

definition mark_runner :: "runner_row \<Rightarrow> runner_row" where
  "mark_runner r = r\<lparr>rs_liveness := ''offline'', rs_offline_reason := Some ''heartbeat_timeout''\<rparr>"

definition mark_job :: "job_row \<Rightarrow> job_row" where
  "mark_job r = r\<lparr>js_liveness := ''offline'', js_offline_reason := Some ''heartbeat_timeout''\<rparr>"

fun mark_runners :: "string \<Rightarrow> string list \<Rightarrow> database \<Rightarrow> incident_row list \<times> database" where
  "mark_runners now [] d = ([], d)"
| "mark_runners now (rid # rids) d =
     (let d1 = d\<lparr>runner_state := tbl_amend rs_runner_id rid mark_runner (runner_state d)\<rparr>;
          (created, d2) = open_incident d1 ''runner'' rid ''heartbeat_timeout'' now;
          (more, d3) = mark_runners now rids d2
      in ((case created of None \<Rightarrow> more | Some i \<Rightarrow> i # more), d3))"

fun mark_jobs :: "string \<Rightarrow> job_key list \<Rightarrow> database \<Rightarrow> incident_row list \<times> database" where
  "mark_jobs now [] d = ([], d)"
| "mark_jobs now (k # ks) d =
     (let d1 = d\<lparr>job_state := tbl_amend job_row_key k mark_job (job_state d)\<rparr>;
          (created, d2) = open_incident d1 ''job'' (resource_id_of_key k) ''heartbeat_timeout'' now;
          (more, d3) = mark_jobs now ks d2
      in ((case created of None \<Rightarrow> more | Some i \<Rightarrow> i # more), d3))"

definition stale_runners :: "datetime \<Rightarrow> database \<Rightarrow> runner_row list res" where
  "stale_runners cutoff d =
     filter_res (\<lambda>r. stale cutoff (rs_last_received_at r))
       (filter (\<lambda>r. rs_liveness r = ''online'') (runner_state d))"

definition stale_jobs :: "datetime \<Rightarrow> database \<Rightarrow> job_row list res" where
  "stale_jobs cutoff d =
     filter_res (\<lambda>r. case js_last_heartbeat_at r of None \<Rightarrow> Inl AttributeError | Some t \<Rightarrow> stale cutoff t)
       (filter (\<lambda>r. js_state r = ''running'' \<and> js_liveness r = ''online'') (job_state d))"

definition refresh_liveness :: "store \<Rightarrow> received \<Rightarrow> incident_row list res \<times> store" where
  "refresh_liveness s now =
     (case rbind (normalise_received_at now) (\<lambda>current.
           rbind (parse_received_at current) (\<lambda>t.
           rbind (moment_minus t (LIVENESS_TIMEOUT_SECONDS * 1000000)) (\<lambda>cutoff.
           rbind (stale_runners cutoff (db s)) (\<lambda>rs.
             case mark_runners current (map rs_runner_id rs) (db s) of (n1, d1) \<Rightarrow>
           rbind (stale_jobs cutoff d1) (\<lambda>js.
             case mark_jobs current (map job_row_key js) d1 of (n2, d2) \<Rightarrow> Inr (n1 @ n2, d2)))))) of
        Inl x \<Rightarrow> (Inl x, s)
      | Inr (notified, d) \<Rightarrow> (Inr notified, s\<lparr>db := d\<rparr>))"

subsection \<open>Ingestion, step by step\<close>

lemma insert_event_Inr:
  "insert_event d e at = Inr d' \<longleftrightarrow> (\<exists>text. dumps compact (thaw (ev_payload e)) = Inr text \<and>
     fits_int64 (ev_producer_sequence e) \<and>
     d' = d\<lparr>events := events d @
       [event_values (next_row_id (map er_row_id (events d))) e at text]\<rparr>)"
  by (auto simp: insert_event_def rbind_Inr_iff split: if_splits)

lemma set_applied_frame [simp]:
  "runner_state (set_applied d i b) = runner_state d" "job_state (set_applied d i b) = job_state d"
  "incidents (set_applied d i b) = incidents d" "watermarks (set_applied d i b) = watermarks d"
  "monitor_meta (set_applied d i b) = monitor_meta d"
  by (simp_all add: set_applied_def)

lemma tbl_amend_snoc:
  "tbl_get kf (kf x) rs = None \<Longrightarrow> tbl_amend kf (kf x) f (rs @ [x]) = rs @ [f x]"
  by (auto simp: tbl_amend_def tbl_update_def tbl_get_None_iff intro!: map_idI) (metis imageI)

lemma event_values_sel [simp]:
  "er_event_id (event_values i e at t) = ev_id e" "er_row_id (event_values i e at t) = i"
  "er_received_at (event_values i e at t) = at" "er_payload_json (event_values i e at t) = t"
  by (simp_all add: event_values_def)

text \<open>The new row of the log, and the tables after the transaction.\<close>

definition logged :: "database \<Rightarrow> validated_event \<Rightarrow> string \<Rightarrow> string \<Rightarrow> bool \<Rightarrow> event_row" where
  "logged d e at text b =
     (event_values (next_row_id (map er_row_id (events d))) e at text)\<lparr>er_applied := b\<rparr>"

lemma if_snd_open_events:
  "events (if b then snd (open_incident d k r c now) else d) = events d"
  by simp

lemma ingest_new_cases:
  assumes "ingest_new d e at = Inr (applied, notified, d')"
    and fresh: "tbl_get er_event_id (ev_id e) (events d) = None"
  obtains body d1 d2 where
    "dumps compact (thaw (ev_payload e)) = Inr body" "fits_int64 (ev_producer_sequence e)"
    "d1 = d\<lparr>events := events d @ [event_values (next_row_id (map er_row_id (events d))) e at body]\<rparr>"
    "apply_event True True d1 e at = Inr (applied, d2)"
    "events d' = events d @ [logged d e at body applied]"
    "d' = (if applied \<and> ev_type e = ''runner.offline''
           then snd (open_incident (set_applied d2 (ev_id e) applied) ''runner'' (ev_runner_id e)
                       ''explicit_shutdown'' at)
           else set_applied d2 (ev_id e) applied)"
    "notified = (if applied \<and> ev_type e = ''runner.offline''
           then (case fst (open_incident (set_applied d2 (ev_id e) applied) ''runner''
                   (ev_runner_id e) ''explicit_shutdown'' at) of None \<Rightarrow> [] | Some i \<Rightarrow> [i])
           else [])"
proof -
  from assms(1) obtain d1 d2 where ins: "insert_event d e at = Inr d1"
    and app: "apply_event True True d1 e at = Inr (applied, d2)"
    and fin: "d' = (if applied \<and> ev_type e = ''runner.offline''
           then snd (open_incident (set_applied d2 (ev_id e) applied) ''runner'' (ev_runner_id e)
                       ''explicit_shutdown'' at)
           else set_applied d2 (ev_id e) applied)"
      "notified = (if applied \<and> ev_type e = ''runner.offline''
           then (case fst (open_incident (set_applied d2 (ev_id e) applied) ''runner''
                   (ev_runner_id e) ''explicit_shutdown'' at) of None \<Rightarrow> [] | Some i \<Rightarrow> [i])
           else [])"
    unfolding ingest_new_def by (elim rbindE) (auto simp: Let_def split: if_splits prod.splits)
  obtain body where body: "dumps compact (thaw (ev_payload e)) = Inr body"
    "fits_int64 (ev_producer_sequence e)"
    and d1: "d1 = d\<lparr>events := events d @
       [event_values (next_row_id (map er_row_id (events d))) e at body]\<rparr>"
    using ins unfolding insert_event_Inr by blast
  have "events d2 = events d1" using apply_event_log [OF app] by simp
  then have "events (set_applied d2 (ev_id e) applied) = events d @ [logged d e at body applied]"
    using fresh d1 tbl_amend_snoc [of er_event_id "event_values (next_row_id (map er_row_id (events d))) e at body"]
    by (simp add: set_applied_def logged_def)
  then have "events d' = events d @ [logged d e at body applied]"
    unfolding fin(1) by (simp only: if_snd_open_events)
  then show ?thesis using that body d1 app fin by blast
qed

text \<open>What \<open>ingest\<close> returns: an exception, a duplicate, or a new event.\<close>

lemma ingest_cases:
  assumes "ingest s event at0 = (res, s')"
  obtains (failed) x where "res = Inl x" "s' = s"
  | (duplicate) e at row where "validate_event (thaw (ev_payload event)) = Inr e"
      "normalise_received_at at0 = Inr at"
      "tbl_get er_event_id (ev_id e) (events (db s)) = Some row" "s' = s"
      "res = Inr (\<lparr>ir_event_id = ev_id e, ir_accepted = True, ir_duplicate = True,
         ir_projection_applied = er_applied row,
         ir_producer_watermark = producer_watermark (db s) e\<rparr>, [])"
  | (new) e at applied notified d where "validate_event (thaw (ev_payload event)) = Inr e"
      "normalise_received_at at0 = Inr at"
      "tbl_get er_event_id (ev_id e) (events (db s)) = None"
      "ingest_new (db s) e at = Inr (applied, notified, d)" "s' = s\<lparr>db := d\<rparr>"
      "res = Inr (\<lparr>ir_event_id = ev_id e, ir_accepted = True, ir_duplicate = False,
         ir_projection_applied = applied,
         ir_producer_watermark = producer_watermark d e\<rparr>, notified)"
proof (cases "rbind (revalidated event) (\<lambda>e. rbind (normalise_received_at at0) (\<lambda>at. Inr (e, at)))")
  case (Inl x)
  then have "res = Inl x" "s' = s" using assms by (auto simp: ingest_def)
  then show ?thesis by (rule failed)
next
  case (Inr p)
  note rb = Inr
  obtain e at where p: "p = (e, at)" and v: "validate_event (thaw (ev_payload event)) = Inr e"
    and n: "normalise_received_at at0 = Inr at"
    using rb by (auto simp: rbind_Inr_iff revalidated_def)
  show ?thesis
  proof (cases "tbl_get er_event_id (ev_id e) (events (db s))")
    case (Some row)
    have "res = Inr (\<lparr>ir_event_id = ev_id e, ir_accepted = True, ir_duplicate = True,
         ir_projection_applied = er_applied row,
         ir_producer_watermark = producer_watermark (db s) e\<rparr>, [])" "s' = s"
      using assms by (auto simp: ingest_def rb p Some)
    then show ?thesis using duplicate v n Some by simp
  next
    case None
    show ?thesis
    proof (cases "ingest_new (db s) e at")
      case (Inl x)
      have "res = Inl x" "s' = s" using assms by (auto simp: ingest_def rb p None Inl)
      then show ?thesis by (rule failed)
    next
      case (Inr q)
      obtain applied notified d where q: "q = (applied, notified, d)" by (cases q)
      have "res = Inr (\<lparr>ir_event_id = ev_id e, ir_accepted = True, ir_duplicate = False,
         ir_projection_applied = applied,
         ir_producer_watermark = producer_watermark d e\<rparr>, notified)" "s' = s\<lparr>db := d\<rparr>"
        using assms by (auto simp: ingest_def rb p None Inr q)
      then show ?thesis using new v n None Inr q by simp
    qed
  qed
qed

text \<open>The lookups of the database after a new event are those of \<open>apply_event\<close>.\<close>

lemma ingest_new_gets:
  assumes "ingest_new d e at = Inr (applied, notified, d')"
    and "tbl_get er_event_id (ev_id e) (events d) = None"
  obtains d1 d2 where "apply_event True True d1 e at = Inr (applied, d2)"
    "runner_state d1 = runner_state d" "job_state d1 = job_state d" "watermarks d1 = watermarks d"
    "incidents d1 = incidents d" "monitor_meta d1 = monitor_meta d"
    "runner_state d' = runner_state d2" "job_state d' = job_state d2" "watermarks d' = watermarks d2"
    "monitor_meta d' = monitor_meta d2"
proof (rule ingest_new_cases [OF assms])
  fix body d1 d2
  assume "d1 = d\<lparr>events := events d @
      [event_values (next_row_id (map er_row_id (events d))) e at body]\<rparr>"
    and "apply_event True True d1 e at = Inr (applied, d2)"
    and d': "d' = (if applied \<and> ev_type e = ''runner.offline''
         then snd (open_incident (set_applied d2 (ev_id e) applied) ''runner'' (ev_runner_id e)
                     ''explicit_shutdown'' at)
         else set_applied d2 (ev_id e) applied)"
  moreover have "runner_state d' = runner_state d2" "job_state d' = job_state d2"
    "watermarks d' = watermarks d2" "monitor_meta d' = monitor_meta d2"
    unfolding d' by (cases "applied \<and> ev_type e = ''runner.offline''"; simp)+
  ultimately show thesis by (intro that [of d1 d2]) simp_all
qed

lemma ingest_new_watermark:
  assumes "ingest_new d e at = Inr (applied, notified, d')"
    and "tbl_get er_event_id (ev_id e) (events d) = None"
  shows "watermark_le (watermark_get k d) (watermark_get k d')"
  using assms
proof (elim ingest_new_gets)
  fix d1 d2
  assume a: "apply_event True True d1 e at = Inr (applied, d2)" "watermarks d1 = watermarks d"
    "watermarks d' = watermarks d2"
  then show ?thesis
    using apply_event_watermark [OF a(1), of k] watermark_get_cong [OF a(2), of k]
      watermark_get_cong [OF a(3), of k] by simp
qed

lemma ingest_new_finished:
  assumes "ingest_new d e at = Inr (applied, notified, d')"
    and "tbl_get er_event_id (ev_id e) (events d) = None"
    and "job_get k d = Some row" "js_state row = ''finished''"
  shows "job_get k d' = Some row"
  using assms(1,2)
proof (elim ingest_new_gets)
  fix d1 d2
  assume a: "apply_event True True d1 e at = Inr (applied, d2)" "job_state d1 = job_state d"
    "job_state d' = job_state d2"
  then show ?thesis
    using apply_event_finished [OF a(1), of k row] job_get_cong [OF a(2), of k]
      job_get_cong [OF a(3), of k] assms(3,4) by simp
qed

subsection \<open>Marking stale rows\<close>

lemma filter_res_Inr:
  "filter_res p xs = Inr ys \<longleftrightarrow>
     (\<forall>x \<in> set xs. \<exists>b. p x = Inr b) \<and> ys = filter (\<lambda>x. p x = Inr True) xs"
proof (induction xs arbitrary: ys)
  case (Cons x xs)
  then show ?case
    by (cases "p x"; cases "filter_res p xs") (auto split: if_splits)
qed auto

lemma mark_runner_sel [simp]:
  "rs_runner_id (mark_runner r) = rs_runner_id r" "rs_liveness (mark_runner r) = ''offline''"
  by (simp_all add: mark_runner_def)

lemma mark_runner_twice [simp]: "mark_runner (mark_runner r) = mark_runner r"
  by (cases r) (simp add: mark_runner_def)

lemma mark_job_sel [simp]:
  "job_row_key (mark_job j) = job_row_key j" "js_liveness (mark_job j) = ''offline''"
  "js_state (mark_job j) = js_state j"
  by (simp_all add: mark_job_def job_row_key_def)

lemma mark_job_twice [simp]: "mark_job (mark_job j) = mark_job j"
  by (cases j) (simp add: mark_job_def)

text \<open>One round of each loop.\<close>

definition mark_runner_step :: "string \<Rightarrow> string \<Rightarrow> database \<Rightarrow> incident_row option \<times> database" where
  "mark_runner_step now rid d =
     open_incident (d\<lparr>runner_state := tbl_amend rs_runner_id rid mark_runner (runner_state d)\<rparr>)
       ''runner'' rid ''heartbeat_timeout'' now"

definition mark_job_step :: "string \<Rightarrow> job_key \<Rightarrow> database \<Rightarrow> incident_row option \<times> database" where
  "mark_job_step now k d =
     open_incident (d\<lparr>job_state := tbl_amend job_row_key k mark_job (job_state d)\<rparr>)
       ''job'' (resource_id_of_key k) ''heartbeat_timeout'' now"

lemma mark_runners_Cons:
  "snd (mark_runners now (rid # rids) d) = snd (mark_runners now rids (snd (mark_runner_step now rid d)))"
  "set (fst (mark_runners now (rid # rids) d)) =
     set_option (fst (mark_runner_step now rid d)) \<union>
     set (fst (mark_runners now rids (snd (mark_runner_step now rid d))))"
  by (auto simp: mark_runner_step_def Let_def split_beta split: option.splits)

lemma mark_jobs_Cons:
  "snd (mark_jobs now (k # ks) d) = snd (mark_jobs now ks (snd (mark_job_step now k d)))"
  "set (fst (mark_jobs now (k # ks) d)) =
     set_option (fst (mark_job_step now k d)) \<union>
     set (fst (mark_jobs now ks (snd (mark_job_step now k d))))"
  by (auto simp: mark_job_step_def Let_def split_beta split: option.splits)

declare mark_runners.simps(2) [simp del] mark_jobs.simps(2) [simp del]

lemma mark_step_tables [simp]:
  "runner_state (snd (mark_runner_step now rid d)) = tbl_amend rs_runner_id rid mark_runner (runner_state d)"
  "events (snd (mark_runner_step now rid d)) = events d"
  "job_state (snd (mark_runner_step now rid d)) = job_state d"
  "watermarks (snd (mark_runner_step now rid d)) = watermarks d"
  "monitor_meta (snd (mark_runner_step now rid d)) = monitor_meta d"
  "job_state (snd (mark_job_step now k d)) = tbl_amend job_row_key k mark_job (job_state d)"
  "events (snd (mark_job_step now k d)) = events d"
  "runner_state (snd (mark_job_step now k d)) = runner_state d"
  "watermarks (snd (mark_job_step now k d)) = watermarks d"
  "monitor_meta (snd (mark_job_step now k d)) = monitor_meta d"
  by (simp_all add: mark_runner_step_def mark_job_step_def)

lemma mark_runners_tables [simp]:
  "runner_state (snd (mark_runners now rids d)) =
     fold (\<lambda>k. tbl_amend rs_runner_id k mark_runner) rids (runner_state d)"
  "events (snd (mark_runners now rids d)) = events d"
  "job_state (snd (mark_runners now rids d)) = job_state d"
  "watermarks (snd (mark_runners now rids d)) = watermarks d"
  "monitor_meta (snd (mark_runners now rids d)) = monitor_meta d"
  by (induction rids arbitrary: d) (simp_all add: mark_runners_Cons)

lemma mark_jobs_tables [simp]:
  "job_state (snd (mark_jobs now ks d)) = fold (\<lambda>k. tbl_amend job_row_key k mark_job) ks (job_state d)"
  "events (snd (mark_jobs now ks d)) = events d"
  "runner_state (snd (mark_jobs now ks d)) = runner_state d"
  "watermarks (snd (mark_jobs now ks d)) = watermarks d"
  "monitor_meta (snd (mark_jobs now ks d)) = monitor_meta d"
  by (induction ks arbitrary: d) (simp_all add: mark_jobs_Cons)

lemma is_open_cong: "incidents d = incidents d' \<Longrightarrow> is_open d k r c = is_open d' k r c"
  by (simp add: is_open_def incident_get_def)

lemma is_open_mark_step:
  "is_open (snd (mark_runner_step now rid d)) k r c \<longleftrightarrow>
     (k, r, c) = (''runner'', rid, ''heartbeat_timeout'') \<or> is_open d k r c"
  "is_open (snd (mark_job_step now x d)) k r c \<longleftrightarrow>
     (k, r, c) = (''job'', resource_id_of_key x, ''heartbeat_timeout'') \<or> is_open d k r c"
  unfolding mark_runner_step_def mark_job_step_def is_open_open_incident
  by (simp_all add: is_open_def incident_get_def)

lemma is_open_mark_runners:
  "is_open (snd (mark_runners now rids d)) k r c \<longleftrightarrow>
     is_open d k r c \<or> (k = ''runner'' \<and> r \<in> set rids \<and> c = ''heartbeat_timeout'')"
  by (induction rids arbitrary: d) (auto simp: mark_runners_Cons is_open_mark_step)

lemma is_open_mark_jobs:
  "is_open (snd (mark_jobs now ks d)) k r c \<longleftrightarrow>
     is_open d k r c \<or> (k = ''job'' \<and> r \<in> resource_id_of_key ` set ks \<and> c = ''heartbeat_timeout'')"
  by (induction ks arbitrary: d) (auto simp: mark_jobs_Cons is_open_mark_step)

text \<open>Edges: what is handed to the notifier was closed before and is open in the database after.\<close>

definition opened :: "database \<Rightarrow> database \<Rightarrow> incident_row \<Rightarrow> bool" where
  "opened d d' i \<longleftrightarrow> in_active i \<and> \<not> is_open d (in_kind i) (in_resource i) (in_condition i) \<and>
     is_open d' (in_kind i) (in_resource i) (in_condition i)"

lemma open_incident_opened:
  assumes "fst (open_incident d k r c now) = Some i"
  shows "in_kind i = k \<and> in_resource i = r \<and> in_condition i = c \<and> in_active i \<and> \<not> is_open d k r c"
  using assms by (auto simp: fst_open_incident incident_get_open split: if_splits)

lemma mark_step_opened:
  "fst (mark_runner_step now rid d) = Some i \<Longrightarrow> in_kind i = ''runner'' \<and> in_resource i = rid \<and>
     in_condition i = ''heartbeat_timeout'' \<and> in_active i \<and> \<not> is_open d ''runner'' rid ''heartbeat_timeout''"
  "fst (mark_job_step now k d) = Some i \<Longrightarrow> in_kind i = ''job'' \<and> in_resource i = resource_id_of_key k \<and>
     in_condition i = ''heartbeat_timeout'' \<and> in_active i \<and>
     \<not> is_open d ''job'' (resource_id_of_key k) ''heartbeat_timeout''"
  unfolding mark_runner_step_def mark_job_step_def
  by (drule open_incident_opened, simp add: is_open_def incident_get_def)+

lemma mark_runners_opened:
  "i \<in> set (fst (mark_runners now rids d)) \<Longrightarrow> opened d (snd (mark_runners now rids d)) i"
proof (induction rids arbitrary: d)
  case (Cons rid rids)
  then consider "fst (mark_runner_step now rid d) = Some i"
    | "i \<in> set (fst (mark_runners now rids (snd (mark_runner_step now rid d))))"
    by (auto simp: mark_runners_Cons)
  then show ?case
  proof cases
    case 1
    then show ?thesis
      using mark_step_opened(1) [OF 1]
      by (auto simp: opened_def mark_runners_Cons is_open_mark_runners is_open_mark_step)
  next
    case 2
    then show ?thesis
      using Cons.IH [OF 2] by (auto simp: opened_def mark_runners_Cons is_open_mark_step)
  qed
qed simp

lemma mark_jobs_opened:
  "i \<in> set (fst (mark_jobs now ks d)) \<Longrightarrow> opened d (snd (mark_jobs now ks d)) i"
proof (induction ks arbitrary: d)
  case (Cons k ks)
  then consider "fst (mark_job_step now k d) = Some i"
    | "i \<in> set (fst (mark_jobs now ks (snd (mark_job_step now k d))))"
    by (auto simp: mark_jobs_Cons)
  then show ?case
  proof cases
    case 1
    then show ?thesis
      using mark_step_opened(2) [OF 1]
      by (auto simp: opened_def mark_jobs_Cons is_open_mark_jobs is_open_mark_step)
  next
    case 2
    then show ?thesis
      using Cons.IH [OF 2] by (auto simp: opened_def mark_jobs_Cons is_open_mark_step)
  qed
qed simp

subsection \<open>Refreshing\<close>

text \<open>A time stamp more than ten minutes before a moment.\<close>

definition too_old :: "datetime \<Rightarrow> string \<Rightarrow> bool" where
  "too_old t body \<longleftrightarrow>
     (case parse_received_at body of Inl x \<Rightarrow> False | Inr u \<Rightarrow> instant u < instant t - 600000000)"

lemma stale_too_old:
  assumes "moment_minus t (LIVENESS_TIMEOUT_SECONDS * 1000000) = Inr cutoff" and "stale cutoff body = Inr b"
  shows "b = too_old t body"
proof -
  have "instant cutoff = instant t - 600000000"
    using assms(1) by (auto simp: moment_minus_def instant_def LIVENESS_TIMEOUT_SECONDS_def
        split: if_splits option.splits)
  then show ?thesis
    using assms(2)
    by (auto simp: stale_def too_old_def rbind_Inr_iff moment_less_def split: if_splits)
qed

lemma refresh_cases:
  assumes "refresh_liveness s now = (Inr notified, s')"
  obtains current t cutoff rs js n1 n2 d1 d2 where
    "normalise_received_at now = Inr current" "parse_received_at current = Inr t"
    "moment_minus t (LIVENESS_TIMEOUT_SECONDS * 1000000) = Inr cutoff"
    "stale_runners cutoff (db s) = Inr rs" "mark_runners current (map rs_runner_id rs) (db s) = (n1, d1)"
    "stale_jobs cutoff d1 = Inr js" "mark_jobs current (map job_row_key js) d1 = (n2, d2)"
    "notified = n1 @ n2" "s' = s\<lparr>db := d2\<rparr>"
proof -
  from assms obtain d where d: "rbind (normalise_received_at now) (\<lambda>current.
           rbind (parse_received_at current) (\<lambda>t.
           rbind (moment_minus t (LIVENESS_TIMEOUT_SECONDS * 1000000)) (\<lambda>cutoff.
           rbind (stale_runners cutoff (db s)) (\<lambda>rs.
             case mark_runners current (map rs_runner_id rs) (db s) of (n1, d1) \<Rightarrow>
           rbind (stale_jobs cutoff d1) (\<lambda>js.
             case mark_jobs current (map job_row_key js) d1 of (n2, d2) \<Rightarrow> Inr (n1 @ n2, d2)))))) =
        Inr (notified, d)" "s' = s\<lparr>db := d\<rparr>"
    unfolding refresh_liveness_def by (auto split: sum.splits)
  then show ?thesis
    by (elim rbindE) (auto split: prod.splits elim!: rbindE intro: that)
qed

lemma refresh_failed: "refresh_liveness s now = (Inl x, s') \<Longrightarrow> s' = s"
  by (auto simp: refresh_liveness_def split: sum.splits)

text \<open>Which rows are marked.\<close>

definition runner_stale :: "datetime \<Rightarrow> runner_row \<Rightarrow> bool" where
  "runner_stale t r \<longleftrightarrow> rs_liveness r = ''online'' \<and> too_old t (rs_last_received_at r)"

definition job_stale :: "datetime \<Rightarrow> job_row \<Rightarrow> bool" where
  "job_stale t r \<longleftrightarrow> js_state r = ''running'' \<and> js_liveness r = ''online'' \<and>
     (case js_last_heartbeat_at r of None \<Rightarrow> False | Some at \<Rightarrow> too_old t at)"

lemma stale_runners_set:
  assumes "moment_minus t (LIVENESS_TIMEOUT_SECONDS * 1000000) = Inr cutoff"
    and "stale_runners cutoff d = Inr rs"
  shows "rs = filter (runner_stale t) (runner_state d)"
proof -
  from assms(2) have all: "\<forall>r \<in> set (filter (\<lambda>r. rs_liveness r = ''online'') (runner_state d)).
      \<exists>b. stale cutoff (rs_last_received_at r) = Inr b"
    and rs: "rs = filter (\<lambda>r. stale cutoff (rs_last_received_at r) = Inr True)
      (filter (\<lambda>r. rs_liveness r = ''online'') (runner_state d))"
    unfolding stale_runners_def filter_res_Inr by blast+
  have "runner_stale t r \<longleftrightarrow> stale cutoff (rs_last_received_at r) = Inr True \<and> rs_liveness r = ''online''"
    if "r \<in> set (runner_state d)" for r
    using all that stale_too_old [OF assms(1), of "rs_last_received_at r"]
    by (auto simp: runner_stale_def)
  then show ?thesis unfolding rs filter_filter by (intro filter_cong) auto
qed

lemma stale_jobs_set:
  assumes "moment_minus t (LIVENESS_TIMEOUT_SECONDS * 1000000) = Inr cutoff"
    and "stale_jobs cutoff d = Inr js"
  shows "js = filter (job_stale t) (job_state d)"
proof -
  let ?p = "\<lambda>r. case js_last_heartbeat_at r of None \<Rightarrow> Inl AttributeError | Some t \<Rightarrow> stale cutoff t"
  from assms(2) have all: "\<forall>r \<in> set (filter (\<lambda>r. js_state r = ''running'' \<and> js_liveness r = ''online'') (job_state d)).
      \<exists>b. ?p r = Inr b"
    and js: "js = filter (\<lambda>r. ?p r = Inr True)
      (filter (\<lambda>r. js_state r = ''running'' \<and> js_liveness r = ''online'') (job_state d))"
    unfolding stale_jobs_def filter_res_Inr by blast+
  have "job_stale t r \<longleftrightarrow> ?p r = Inr True \<and> js_state r = ''running'' \<and> js_liveness r = ''online''"
    if "r \<in> set (job_state d)" for r
  proof (cases "js_state r = ''running'' \<and> js_liveness r = ''online''")
    case True
    with all that obtain b where "?p r = Inr b" by auto
    then show ?thesis
      using True stale_too_old [OF assms(1)] by (auto simp: job_stale_def split: option.splits)
  qed (auto simp: job_stale_def)
  then show ?thesis unfolding js filter_filter by (intro filter_cong) auto
qed

lemma get_marked:
  assumes "keyed_table key get put amend" and "\<And>r. key (f r) = key r" and "\<And>r. f (f r) = f r"
    and "\<And>k r. get k t = Some r \<Longrightarrow> k \<in> set ks \<longleftrightarrow> p r"
  shows "get k (fold (\<lambda>k. amend k f) ks t) = map_option (\<lambda>r. if p r then f r else r) (get k t)"
  using keyed_table.get_amends [OF assms(1), of f k ks t] assms(2-4)
  by (cases "get k t") auto

text \<open>The effect of a successful refresh, row by row.\<close>

lemma refresh_gets:
  assumes "refresh_liveness s now = (Inr notified, s')" and "keys_ok (db s)"
  obtains current t where "normalise_received_at now = Inr current" "parse_received_at current = Inr t"
    "\<And>rid. runner_get rid (db s') =
       map_option (\<lambda>r. if runner_stale t r then mark_runner r else r) (runner_get rid (db s))"
    "\<And>k. job_get k (db s') = map_option (\<lambda>r. if job_stale t r then mark_job r else r) (job_get k (db s))"
    "events (db s') = events (db s)" "watermarks (db s') = watermarks (db s)"
    "monitor_meta (db s') = monitor_meta (db s)" "degraded_reasons s' = degraded_reasons s"
    "\<And>i. i \<in> set notified \<Longrightarrow> opened (db s) (db s') i"
proof (rule refresh_cases [OF assms(1)])
  fix current t cutoff rs js n1 n2 d1 d2
  assume h: "normalise_received_at now = Inr current" "parse_received_at current = Inr t"
    "moment_minus t (LIVENESS_TIMEOUT_SECONDS * 1000000) = Inr cutoff"
    "stale_runners cutoff (db s) = Inr rs" "mark_runners current (map rs_runner_id rs) (db s) = (n1, d1)"
    "stale_jobs cutoff d1 = Inr js" "mark_jobs current (map job_row_key js) d1 = (n2, d2)"
    "notified = n1 @ n2" "s' = s\<lparr>db := d2\<rparr>"
  have d1: "d1 = snd (mark_runners current (map rs_runner_id rs) (db s))"
    and d2: "d2 = snd (mark_jobs current (map job_row_key js) d1)" using h(5,7) by simp_all
  have rs: "rs = filter (runner_stale t) (runner_state (db s))" using stale_runners_set h(3,4) by blast
  have js: "js = filter (job_stale t) (job_state (db s))"
    using stale_jobs_set [OF h(3,6)] d1 by simp
  have keys: "tbl_keys rs_runner_id (runner_state (db s))" "tbl_keys job_row_key (job_state (db s))"
    using assms(2) by (simp_all add: keys_ok_def)
  have "runner_get rid (db s') =
      map_option (\<lambda>r. if runner_stale t r then mark_runner r else r) (runner_get rid (db s))" for rid
  proof -
    have "rid \<in> set (map rs_runner_id rs) \<longleftrightarrow> runner_stale t r"
      if "tbl_get rs_runner_id rid (runner_state (db s)) = Some r" for rid r
      using that keys(1) by (auto simp: rs tbl_get_Some_iff tbl_keys_def distinct_map inj_on_def)
    then show ?thesis
      using get_marked [OF tbl_keyed_table, of rs_runner_id mark_runner "runner_state (db s)"
          "map rs_runner_id rs" "runner_stale t" rid]
      by (simp add: runner_get_def h(9) d2 d1)
  qed
  moreover have "job_get k (db s') =
      map_option (\<lambda>r. if job_stale t r then mark_job r else r) (job_get k (db s))" for k
  proof -
    have "k \<in> set (map job_row_key js) \<longleftrightarrow> job_stale t r"
      if "tbl_get job_row_key k (job_state (db s)) = Some r" for k r
      using that keys(2) by (auto simp: js tbl_get_Some_iff tbl_keys_def distinct_map inj_on_def)
    then show ?thesis
      using get_marked [OF tbl_keyed_table, of job_row_key mark_job "job_state (db s)"
          "map job_row_key js" "job_stale t" k]
      by (simp add: job_get_def h(9) d2 d1)
  qed
  moreover have "opened (db s) (db s') i" if "i \<in> set notified" for i
  proof -
    from that h(8) consider "i \<in> set n1" | "i \<in> set n2" by auto
    then show ?thesis
    proof cases
      case 1
      then have "opened (db s) d1 i" using mark_runners_opened h(5) by (metis fst_conv snd_conv)
      then show ?thesis by (auto simp: opened_def h(9) d2 is_open_mark_jobs)
    next
      case 2
      then have "opened d1 d2 i" using mark_jobs_opened h(7) by (metis fst_conv snd_conv)
      then show ?thesis by (auto simp: opened_def h(9) d1 is_open_mark_runners)
    qed
  qed
  ultimately show thesis using that [OF h(1,2)] by (simp add: h(9) d2 d1)
qed

subsection \<open>The invariant of the store\<close>

lemma tables_ok_cong:
  "runner_state d = runner_state d' \<Longrightarrow> job_state d = job_state d' \<Longrightarrow> watermarks d = watermarks d' \<Longrightarrow>
   incidents d = incidents d' \<Longrightarrow> tables_ok d = tables_ok d'"
  by (simp add: tables_ok_def incidents_ok_def)

lemma keys_ok_ingest_new:
  assumes "ingest_new d e at = Inr (applied, notified, d')"
    and "tbl_get er_event_id (ev_id e) (events d) = None" and "keys_ok d"
  shows "keys_ok d'"
proof (rule ingest_new_cases [OF assms(1,2)])
  fix body d1 d2
  assume h: "d1 = d\<lparr>events := events d @ [event_values (next_row_id (map er_row_id (events d))) e at body]\<rparr>"
    "apply_event True True d1 e at = Inr (applied, d2)"
    "events d' = events d @ [logged d e at body applied]"
    and d': "d' = (if applied \<and> ev_type e = ''runner.offline''
           then snd (open_incident (set_applied d2 (ev_id e) applied) ''runner'' (ev_runner_id e)
                       ''explicit_shutdown'' at)
           else set_applied d2 (ev_id e) applied)"
  have "tables_ok d1" using assms(3) tables_ok_cong [of d1 d] by (simp add: keys_ok_split h(1))
  then have "tables_ok d2" using tables_ok_apply_event h(2) by blast
  then have "tables_ok (set_applied d2 (ev_id e) applied)"
    using tables_ok_cong [of "set_applied d2 (ev_id e) applied" d2] by simp
  then have "tables_ok d'" unfolding d' by (auto intro: tables_ok_writes)
  moreover have "monitor_meta d' = monitor_meta d"
    using apply_event_log [OF h(2)] h(1) unfolding d' by (cases "applied \<and> ev_type e = ''runner.offline''") auto
  moreover have "ev_id e \<notin> er_event_id ` set (events d)" using assms(2) by (simp add: tbl_get_None_iff)
  moreover have "next_row_id (map er_row_id (events d)) \<notin> er_row_id ` set (events d)"
    using next_row_id_notin [of "map er_row_id (events d)"] by simp
  ultimately show ?thesis
    using assms(3) by (simp add: keys_ok_split h(3) tbl_keys_def logged_def)
qed

lemma tables_ok_mark_runners: "tables_ok d \<Longrightarrow> tables_ok (snd (mark_runners now rids d))"
proof (induction rids arbitrary: d)
  case (Cons rid rids)
  have "tables_ok (d\<lparr>runner_state := tbl_amend rs_runner_id rid mark_runner (runner_state d)\<rparr>)"
    using Cons.prems by (simp add: tables_ok_def tbl_keys_amend incidents_ok_def)
  then have "tables_ok (snd (mark_runner_step now rid d))"
    unfolding mark_runner_step_def by (rule tables_ok_writes)
  then show ?case using Cons.IH by (simp add: mark_runners_Cons)
qed simp

lemma tables_ok_mark_jobs: "tables_ok d \<Longrightarrow> tables_ok (snd (mark_jobs now ks d))"
proof (induction ks arbitrary: d)
  case (Cons k ks)
  have "tables_ok (d\<lparr>job_state := tbl_amend job_row_key k mark_job (job_state d)\<rparr>)"
    using Cons.prems by (simp add: tables_ok_def tbl_keys_amend incidents_ok_def)
  then have "tables_ok (snd (mark_job_step now k d))"
    unfolding mark_job_step_def by (rule tables_ok_writes)
  then show ?case using Cons.IH by (simp add: mark_jobs_Cons)
qed simp

lemma keys_ok_refresh:
  assumes "refresh_liveness s now = (res, s')" and "keys_ok (db s)"
  shows "keys_ok (db s')"
proof (cases res)
  case (Inl x)
  then show ?thesis using assms refresh_failed [of s now x s'] by simp
next
  case (Inr notified)
  show ?thesis
  proof (rule refresh_cases [OF assms(1) [unfolded Inr]])
    fix current t cutoff rs js n1 n2 d1 d2
    assume "mark_runners current (map rs_runner_id rs) (db s) = (n1, d1)"
      "mark_jobs current (map job_row_key js) d1 = (n2, d2)" "s' = s\<lparr>db := d2\<rparr>"
    then have d: "db s' = snd (mark_jobs current (map job_row_key js)
        (snd (mark_runners current (map rs_runner_id rs) (db s))))" by simp
    have "tables_ok (db s')"
      using assms(2) unfolding d keys_ok_split
      by (intro tables_ok_mark_jobs tables_ok_mark_runners) simp
    then show ?thesis using assms(2) d by (simp add: keys_ok_split)
  qed
qed

lemma keys_ok_ingest:
  assumes "ingest s event at0 = (res, s')" and "keys_ok (db s)"
  shows "keys_ok (db s')"
  using assms(1) by (cases rule: ingest_cases) (auto intro: keys_ok_ingest_new assms(2) simp: assms(2))

end
