(* ===== verification/PyJson.thy ===== *)
theory PyJson
  imports PyValue
begin

section \<open>Decoding JSON: \<^verbatim>\<open>json.loads\<close>\<close>

text \<open>
  CPython's scanner on a text: white space, literals (with \<^verbatim>\<open>NaN\<close> and the infinities), numbers,
  strings in strict mode, arrays and objects, where a repeated key keeps the last value.  The
  parameter \<open>fr\<close> gives the \<^verbatim>\<open>repr\<close> of the float that a number with a fraction or an exponent
  denotes (that conversion is C code of the interpreter).  Integers of more than 4300 digits are
  a plain \<open>ValueError\<close>, as in CPython.  The recursion limit of the interpreter is not modelled.
\<close>

definition json_space :: "char \<Rightarrow> bool" where
  "json_space c \<longleftrightarrow> (let n = code c in n = 32 \<or> n = 9 \<or> n = 10 \<or> n = 13)"

definition skip_ws :: "string \<Rightarrow> string" where
  "skip_ws s = dropWhile json_space s"

subsection \<open>Strings and numbers\<close>

definition hex4 :: "string \<Rightarrow> nat option" where
  "hex4 s = (if length s < 4 then None else
     case map digit_value (take 4 s) of
       [Some a, Some b, Some c, Some d] \<Rightarrow> Some (((a * 16 + b) * 16 + c) * 16 + d)
     | _ \<Rightarrow> None)"

definition simple_escape :: "char \<Rightarrow> char option" where
  "simple_escape e =
     (if e = CHR 0x22 \<or> e = CHR 0x5C \<or> e = CHR ''/'' then Some e
      else if e = CHR ''b'' then Some (CHR 0x08)
      else if e = CHR ''f'' then Some (CHR 0x0C)
      else if e = CHR ''n'' then Some newline
      else if e = CHR ''r'' then Some carriage
      else if e = CHR ''t'' then Some (CHR 0x09)
      else None)"

text \<open>The characters of a string after its opening quote: the text and what follows it.\<close>

function parse_chars :: "string \<Rightarrow> (string \<times> string) res" where
  "parse_chars s =
     (case s of [] \<Rightarrow> Inl JSONDecodeError
      | c # cs \<Rightarrow>
          if c = CHR 0x22 then Inr ([], cs)
          else if c = CHR 0x5C then
            (case cs of [] \<Rightarrow> Inl JSONDecodeError
             | e # es \<Rightarrow>
                 if e = CHR ''u'' then
                   (case hex4 es of None \<Rightarrow> Inl JSONDecodeError
                    | Some n \<Rightarrow>
                        if 255 < n then Inl WideText
                        else (case parse_chars (drop 4 es) of Inl x \<Rightarrow> Inl x
                              | Inr (t, r) \<Rightarrow> Inr (char_of n # t, r)))
                 else
                   (case simple_escape e of None \<Rightarrow> Inl JSONDecodeError
                    | Some d \<Rightarrow>
                        (case parse_chars es of Inl x \<Rightarrow> Inl x
                         | Inr (t, r) \<Rightarrow> Inr (d # t, r))))
          else if code c < 32 then Inl JSONDecodeError
          else (case parse_chars cs of Inl x \<Rightarrow> Inl x | Inr (t, r) \<Rightarrow> Inr (c # t, r)))"
  by pat_completeness auto
termination
  by (relation "measure length") auto

declare parse_chars.simps [simp del]

definition json_frac :: "string \<Rightarrow> string \<times> string" where
  "json_frac s =
     (case s of c # d # t \<Rightarrow>
        if c = CHR ''.'' \<and> is_digit d
        then (c # takeWhile is_digit (d # t), dropWhile is_digit (d # t)) else ([], s)
      | _ \<Rightarrow> ([], s))"

definition json_exp :: "string \<Rightarrow> string \<times> string" where
  "json_exp s =
     (case s of [] \<Rightarrow> ([], s)
      | c # t \<Rightarrow>
          if c = CHR ''e'' \<or> c = CHR ''E'' then
            (let sg = (if starts_with ''+'' t \<or> starts_with ''-'' t then take 1 t else []);
                 u = drop (length sg) t
             in if u \<noteq> [] \<and> is_digit (hd u)
                then (c # sg @ takeWhile is_digit u, dropWhile is_digit u) else ([], s))
          else ([], s))"

definition number_sign :: "string \<Rightarrow> string" where
  "number_sign s = (if starts_with ''-'' s then ''-'' else [])"

definition number_int :: "string \<Rightarrow> string" where
  "number_int t = (if starts_with ''0'' t then ''0'' else takeWhile is_digit t)"

definition parse_number :: "(string \<Rightarrow> string) \<Rightarrow> string \<Rightarrow> (pyval \<times> string) res" where
  "parse_number fr s =
     (let sg = number_sign s;
          t = drop (length sg) s;
          ip = number_int t;
          fx = json_frac (drop (length ip) t);
          ex = json_exp (snd fx)
      in if ip = [] then Inl JSONDecodeError
         else if fst fx = [] \<and> fst ex = [] then
           (case int_of_text 10 (sg @ ip) of
              None \<Rightarrow> Inl (ValueError ''Exceeds the limit for integer string conversion'')
            | Some n \<Rightarrow> Inr (PInt n, snd ex))
         else Inr (PFloat (fr (sg @ ip @ fst fx @ fst ex)), snd ex))"

subsection \<open>Values\<close>

function parse_value :: "(string \<Rightarrow> string) \<Rightarrow> string \<Rightarrow> (pyval \<times> string) res"
  and parse_elements :: "(string \<Rightarrow> string) \<Rightarrow> string \<Rightarrow> (pyval list \<times> string) res"
  and parse_members ::
    "(string \<Rightarrow> string) \<Rightarrow> (pykey \<times> pyval) list \<Rightarrow> string \<Rightarrow> (pyval \<times> string) res" where
  "parse_value fr s =
     (case s of [] \<Rightarrow> Inl JSONDecodeError
      | c # cs \<Rightarrow>
          if c = CHR 0x22 then
            (case parse_chars cs of Inl e \<Rightarrow> Inl e | Inr (t, r) \<Rightarrow> Inr (PStr t, r))
          else if c = CHR ''{'' then
            (let u = skip_ws cs
             in if starts_with ''}'' u then Inr (PDict [], tl u) else parse_members fr [] u)
          else if c = CHR ''['' then
            (let u = skip_ws cs
             in if starts_with '']'' u then Inr (PList [], tl u)
                else (case parse_elements fr u of Inl e \<Rightarrow> Inl e
                      | Inr (vs, r) \<Rightarrow> Inr (PList vs, r)))
          else if starts_with ''null'' s then Inr (PNone, drop 4 s)
          else if starts_with ''true'' s then Inr (PBool True, drop 4 s)
          else if starts_with ''false'' s then Inr (PBool False, drop 5 s)
          else if starts_with ''NaN'' s then Inr (PFloat ''nan'', drop 3 s)
          else if starts_with ''Infinity'' s then Inr (PFloat ''inf'', drop 8 s)
          else if starts_with ''-Infinity'' s then Inr (PFloat ''-inf'', drop 9 s)
          else parse_number fr s)"
| "parse_elements fr s =
     (case parse_value fr s of Inl e \<Rightarrow> Inl e
      | Inr (v, r) \<Rightarrow>
          (case skip_ws r of [] \<Rightarrow> Inl JSONDecodeError
           | c # t \<Rightarrow>
               if c = CHR '']'' then Inr ([v], t)
               else if c = CHR '','' then
                 (let w = skip_ws t
                  in if length w < length s
                     then (case parse_elements fr w of Inl e \<Rightarrow> Inl e
                           | Inr (vs, r') \<Rightarrow> Inr (v # vs, r'))
                     else Inl JSONDecodeError)
               else Inl JSONDecodeError))"
| "parse_members fr acc s =
     (case s of [] \<Rightarrow> Inl JSONDecodeError
      | c # cs \<Rightarrow>
          if c \<noteq> CHR 0x22 then Inl JSONDecodeError
          else
            (case parse_chars cs of Inl e \<Rightarrow> Inl e
             | Inr (k, r) \<Rightarrow>
                 (case skip_ws r of [] \<Rightarrow> Inl JSONDecodeError
                  | d # t \<Rightarrow>
                      if d \<noteq> CHR '':'' then Inl JSONDecodeError
                      else
                        (let w = skip_ws t
                         in if length w < length s then
                              (case parse_value fr w of Inl e \<Rightarrow> Inl e
                               | Inr (v, r2) \<Rightarrow>
                                   (case skip_ws r2 of [] \<Rightarrow> Inl JSONDecodeError
                                    | d2 # t2 \<Rightarrow>
                                        if d2 = CHR ''}'' then Inr (PDict (dict_set (KStr k) v acc), t2)
                                        else if d2 = CHR '','' then
                                          (let w2 = skip_ws t2
                                           in if length w2 < length s
                                              then parse_members fr (dict_set (KStr k) v acc) w2
                                              else Inl JSONDecodeError)
                                        else Inl JSONDecodeError))
                            else Inl JSONDecodeError))))"
  by pat_completeness auto
termination
proof (relation "measure (\<lambda>x. case x of
        Inl (_, s) \<Rightarrow> 2 * length s
      | Inr (Inl (_, s)) \<Rightarrow> 2 * length s + 1
      | Inr (Inr (_, _, s)) \<Rightarrow> 2 * length s + 1)", goal_cases)
  case 1
  then show ?case by simp
next
  case (2 fr s c cs u)
  then show ?case using length_dropWhile_le [of json_space cs] by (simp add: skip_ws_def)
next
  case (3 fr s c cs u)
  then show ?case using length_dropWhile_le [of json_space cs] by (simp add: skip_ws_def)
qed auto

declare parse_value.simps [simp del] parse_elements.simps [simp del] parse_members.simps [simp del]

definition json_loads :: "(string \<Rightarrow> string) \<Rightarrow> string \<Rightarrow> pyval res" where
  "json_loads fr s =
     (case parse_value fr (skip_ws s) of Inl e \<Rightarrow> Inl e
      | Inr (v, r) \<Rightarrow> if skip_ws r = [] then Inr v else Inl JSONDecodeError)"

lemma skip_ws_le: "length (skip_ws s) \<le> length s"
  by (simp add: skip_ws_def length_dropWhile_le)

text \<open>
  The guards on lengths above only make the recursion visibly terminate: a value takes at least
  one character, so they never fail.
\<close>

lemma parse_chars_shorter: "parse_chars s = Inr (t, r) \<Longrightarrow> length r < length s"
proof (induction s arbitrary: t r rule: length_induct)
  case (1 s)
  note IH = "1.IH" [rule_format]
  show ?case
  proof (cases s)
    case Nil
    then show ?thesis using "1.prems" by (simp add: parse_chars.simps)
  next
    case (Cons c cs)
    have shorter: "length r' < length u" if "parse_chars u = Inr (t', r')" "length u \<le> length cs" for u t' r'
      using IH [of u t' r'] that Cons by simp
    show ?thesis
    proof (cases "c = CHR 0x5C")
      case False
      then show ?thesis using "1.prems" Cons shorter [of cs]
        by (subst (asm) parse_chars.simps) (force split: if_splits sum.splits)
    next
      case True
      show ?thesis
      proof (cases cs)
        case Nil
        then show ?thesis using "1.prems" Cons True by (subst (asm) parse_chars.simps) simp
      next
        case (Cons e es)
        have "length r \<le> length es"
          using "1.prems" \<open>s = c # cs\<close> True Cons shorter [of es] shorter [of "drop 4 es"]
          by (subst (asm) parse_chars.simps) (force split: if_splits sum.splits option.splits)
        then show ?thesis using \<open>s = c # cs\<close> Cons by simp
      qed
    qed
  qed
qed

lemma json_frac_le: "length (snd (json_frac u)) \<le> length u"
  by (auto simp: json_frac_def length_dropWhile_le le_SucI split: list.splits)

lemma json_exp_le: "length (snd (json_exp u)) \<le> length u"
proof -
  have "length (dropWhile is_digit (drop n w)) \<le> Suc (length w)" for n w
    using length_dropWhile_le [of is_digit "drop n w"] by simp
  then show ?thesis by (auto simp: json_exp_def Let_def split: list.splits)
qed

lemma number_int_le: "length (number_int t) \<le> length t"
  by (auto simp: number_int_def starts_with_iff length_takeWhile_le)

lemma parse_number_shorter:
  assumes "parse_number fr s = Inr (v, r)"
  shows "length r < length s"
proof -
  define t where "t = drop (length (number_sign s)) s"
  define ip where "ip = number_int t"
  have "ip \<noteq> []" and r: "r = snd (json_exp (snd (json_frac (drop (length ip) t))))"
    using assms
    by (auto simp: parse_number_def Let_def t_def [symmetric] ip_def [symmetric]
             split: if_splits option.splits)
  have "length r \<le> length (drop (length ip) t)"
    unfolding r using json_exp_le json_frac_le le_trans by metis
  then have "length r \<le> length t - length ip" by simp
  moreover have "length ip \<le> length t" by (simp add: ip_def number_int_le)
  moreover have "0 < length ip" using \<open>ip \<noteq> []\<close> by simp
  moreover have "length t \<le> length s" by (simp add: t_def)
  ultimately show ?thesis by linarith
qed

lemma parse_elements_value:
  assumes "\<And>v r. parse_value fr s = Inr (v, r) \<Longrightarrow> length r < length s"
    and "\<And>w vs r. length w < length s \<Longrightarrow> parse_elements fr w = Inr (vs, r) \<Longrightarrow> length r < length w"
    and "parse_elements fr s = Inr (vs, r)"
  shows "length r < length s"
proof -
  obtain v r1 where v: "parse_value fr s = Inr (v, r1)"
    using assms(3) by (subst (asm) parse_elements.simps) (auto split: sum.splits)
  obtain c t where c: "skip_ws r1 = c # t"
    using assms(3) v by (subst (asm) parse_elements.simps) (auto split: list.splits)
  have "length (c # t) < length s"
    using assms(1) [OF v] skip_ws_le [of r1] c by simp
  moreover have "r = t \<or> (\<exists>vs'. parse_elements fr (skip_ws t) = Inr (vs', r))"
    using assms(3) v c by (subst (asm) parse_elements.simps) (auto simp: Let_def split: if_splits sum.splits)
  ultimately show ?thesis
    using assms(2) [of "skip_ws t"] skip_ws_le [of t] by force
qed

lemma parse_members_value:
  assumes "\<And>w v r. length w < length s \<Longrightarrow> parse_value fr w = Inr (v, r) \<Longrightarrow> length r < length w"
    and "\<And>acc w v r. length w < length s \<Longrightarrow> parse_members fr acc w = Inr (v, r) \<Longrightarrow> length r < length w"
    and "parse_members fr acc s = Inr (v, r)"
  shows "length r < length s"
proof -
  obtain cs where s: "s = CHR 0x22 # cs"
    using assms(3) by (subst (asm) parse_members.simps) (auto simp: Let_def split: list.splits if_splits)
  obtain k r0 where k: "parse_chars cs = Inr (k, r0)"
    using assms(3) s by (subst (asm) parse_members.simps) (auto split: sum.splits)
  obtain t where t: "skip_ws r0 = CHR '':'' # t"
    using assms(3) s k by (subst (asm) parse_members.simps) (auto simp: Let_def split: list.splits if_splits)
  have lt: "length t < length cs"
    using parse_chars_shorter [OF k] skip_ws_le [of r0] t by simp
  obtain v' r2 where v': "parse_value fr (skip_ws t) = Inr (v', r2)"
    using assms(3) s k t by (subst (asm) parse_members.simps) (auto simp: Let_def split: sum.splits if_splits)
  have l2: "length r2 < length (skip_ws t)"
    using assms(1) [OF _ v'] lt skip_ws_le [of t] s by simp
  obtain d t2 where d: "skip_ws r2 = d # t2"
    using assms(3) s k t v'
    by (subst (asm) parse_members.simps) (auto simp: Let_def split: list.splits if_splits)
  have "length t2 < length r2" using skip_ws_le [of r2] d by simp
  moreover have "r = t2 \<or> (\<exists>acc'. parse_members fr acc' (skip_ws t2) = Inr (v, r))"
    using assms(3) s k t v' d
    by (subst (asm) parse_members.simps) (auto simp: Let_def split: if_splits)
  ultimately show ?thesis
    using assms(2) [of "skip_ws t2"] skip_ws_le [of t2] skip_ws_le [of t] lt l2 s by fastforce
qed

lemma parse_value_shorter:
  "(\<forall>v r. parse_value fr s = Inr (v, r) \<longrightarrow> length r < length s) \<and>
   (\<forall>vs r. parse_elements fr s = Inr (vs, r) \<longrightarrow> length r < length s) \<and>
   (\<forall>acc v r. parse_members fr acc s = Inr (v, r) \<longrightarrow> length r < length s)"
proof (induction s rule: length_induct)
  case (1 s)
  then have IHv: "\<And>w v r. length w < length s \<Longrightarrow> parse_value fr w = Inr (v, r) \<Longrightarrow> length r < length w"
    and IHe: "\<And>w vs r. length w < length s \<Longrightarrow> parse_elements fr w = Inr (vs, r) \<Longrightarrow> length r < length w"
    and IHm: "\<And>acc w v r. length w < length s \<Longrightarrow> parse_members fr acc w = Inr (v, r) \<Longrightarrow> length r < length w"
    by blast+
  have val: "length r < length s" if v: "parse_value fr s = Inr (v, r)" for v r
  proof (cases s)
    case Nil
    then show ?thesis using v by (simp add: parse_value.simps)
  next
    case (Cons c cs)
    have ws: "length (skip_ws cs) < length s" using skip_ws_le [of cs] Cons by simp
    have str: "length r' < length cs" if "parse_chars cs = Inr (t, r')" for t r'
      using parse_chars_shorter that by blast
    have *: "(if c = CHR 0x22 then
            (case parse_chars cs of Inl e \<Rightarrow> Inl e | Inr (t, r) \<Rightarrow> Inr (PStr t, r))
          else if c = CHR ''{'' then
            (let u = skip_ws cs
             in if starts_with ''}'' u then Inr (PDict [], tl u) else parse_members fr [] u)
          else if c = CHR ''['' then
            (let u = skip_ws cs
             in if starts_with '']'' u then Inr (PList [], tl u)
                else (case parse_elements fr u of Inl e \<Rightarrow> Inl e
                      | Inr (vs, r) \<Rightarrow> Inr (PList vs, r)))
          else if starts_with ''null'' s then Inr (PNone, drop 4 s)
          else if starts_with ''true'' s then Inr (PBool True, drop 4 s)
          else if starts_with ''false'' s then Inr (PBool False, drop 5 s)
          else if starts_with ''NaN'' s then Inr (PFloat ''nan'', drop 3 s)
          else if starts_with ''Infinity'' s then Inr (PFloat ''inf'', drop 8 s)
          else if starts_with ''-Infinity'' s then Inr (PFloat ''-inf'', drop 9 s)
          else parse_number fr s) = Inr (v, r)"
      using v unfolding parse_value.simps [of fr s] unfolding Cons by simp
    have drop: "length (drop (Suc n) s) < length s" for n using Cons by simp
    consider "c = CHR 0x22" | "c = CHR ''{''" | "c = CHR ''[''"
      | "c \<noteq> CHR 0x22" "c \<noteq> CHR ''{''" "c \<noteq> CHR ''[''" by blast
    then show ?thesis
    proof cases
      case 1
      with * show ?thesis using str Cons by (auto split: sum.splits simp: less_SucI)
    next
      case 2
      with * show ?thesis using ws IHm [OF ws]
        by (auto simp: Let_def split: if_splits) (meson less_trans)
    next
      case 3
      with * show ?thesis using ws IHe [OF ws]
        by (auto simp: Let_def split: if_splits sum.splits) (meson less_trans)?
    next
      case 4
      with * have "parse_number fr s = Inr (v, r) \<or> (\<exists>n. r = drop (Suc n) s)"
        by (auto split: if_splits simp: numeral_eq_Suc)
      then show ?thesis using parse_number_shorter drop by blast
    qed
  qed
  have elems: "length r < length s" if "parse_elements fr s = Inr (vs, r)" for vs r
    by (rule parse_elements_value [OF _ _ that]) (fact val, fact IHe)
  have membs: "length r < length s" if "parse_members fr acc s = Inr (v, r)" for acc v r
    by (rule parse_members_value [OF _ _ that]) (fact IHv, fact IHm)
  show ?case using val elems membs by blast
qed

subsection \<open>The round trip\<close>

text \<open>Characters: an escape sequence reads back as the character it stands for.\<close>

lemma digit_value_hex_char: "d < 16 \<Longrightarrow> digit_value (hex_char d) = Some d"
  by (auto simp: hex_char_def digit_value_def is_digit_def between_def)
     (auto simp: code_def)

lemma hex4_escape:
  assumes "a < 16" and "b < 16"
  shows "hex4 (CHR ''0'' # CHR ''0'' # hex_char a # hex_char b # t) = Some (a * 16 + b)"
  using assms
  by (simp add: hex4_def digit_value_hex_char)
     (simp add: digit_value_def is_digit_def between_def code_def)

lemma char_of_code [simp]: "char_of (code c) = c"
  by (simp add: code_def)

lemma code_eqD:
  "code c = 34 \<Longrightarrow> c = CHR 0x22" "code c = 92 \<Longrightarrow> c = CHR 0x5C" "code c = 10 \<Longrightarrow> c = CHR 0x0A"
  "code c = 13 \<Longrightarrow> c = CHR 0x0D" "code c = 9 \<Longrightarrow> c = CHR 0x09" "code c = 12 \<Longrightarrow> c = CHR 0x0C"
  "code c = 8 \<Longrightarrow> c = CHR 0x08"
  by (rule code_inject [THEN iffD1]; simp add: code_def)+

lemma parse_escape_char:
  "parse_chars (escape_char c @ s) =
     (case parse_chars s of Inl e \<Rightarrow> Inl e | Inr (t, r) \<Rightarrow> Inr (c # t, r))"
proof -
  consider "code c = 34" | "code c = 92" | "code c = 10" | "code c = 13" | "code c = 9"
    | "code c = 12" | "code c = 8"
    | "code c \<notin> {34, 92, 10, 13, 9, 12, 8}" "32 \<le> code c" "code c \<le> 126"
    | "code c \<notin> {34, 92, 10, 13, 9, 12, 8}" "\<not> (32 \<le> code c \<and> code c \<le> 126)"
    by auto
  then show ?thesis
  proof cases
    case 8
    then have "c \<noteq> CHR 0x22" "c \<noteq> CHR 0x5C" by (auto simp: code_def)
    with 8 show ?thesis
      by (subst parse_chars.simps) (simp add: escape_char_def Let_def)
  next
    case 9
    have "code c div 16 < 16" using code_less [of c] by (simp add: less_mult_imp_div_less)
    moreover have "code c mod 16 < 16" by simp
    ultimately have "hex4 (CHR ''0'' # CHR ''0'' # hex_char (code c div 16) # hex_char (code c mod 16) # s)
        = Some (code c)"
      by (simp add: hex4_escape)
    moreover have "escape_char c = [CHR 0x5C, CHR ''u'', CHR ''0'', CHR ''0'',
        hex_char (code c div 16), hex_char (code c mod 16)]"
      using 9 by (simp add: escape_char_def Let_def)
    moreover have "\<not> 255 < code c" using code_less [of c] by linarith
    ultimately show ?thesis
      by (subst parse_chars.simps) (simp split: sum.split)
  qed (auto simp: escape_char_def simple_escape_def newline_def carriage_def parse_chars.simps [of "CHR 0x5C # _"]
         split: sum.split dest!: code_eqD)
qed

lemma parse_chars_quoted:
  "parse_chars (concat (map escape_char s) @ CHR 0x22 # rest) = Inr (s, rest)"
proof (induction s)
  case Nil
  then show ?case by (simp add: parse_chars.simps)
next
  case (Cons c s)
  then show ?case by (simp add: parse_escape_char)
qed

text \<open>A number is followed by something that cannot continue it.\<close>

definition ends_number :: "string \<Rightarrow> bool" where
  "ends_number s \<longleftrightarrow> (case s of [] \<Rightarrow> True
     | c # cs \<Rightarrow> \<not> is_digit c \<and> c \<noteq> CHR ''.'' \<and> c \<noteq> CHR ''e'' \<and> c \<noteq> CHR ''E'')"

lemma takeWhile_digits:
  assumes "list_all is_digit ds" and "ends_number rest"
  shows "takeWhile is_digit (ds @ rest) = ds"
  using assms by (induction ds) (auto simp: ends_number_def split: list.splits)

lemma nat_digits_zero_head:
  assumes "nat_digits n = CHR ''0'' # cs"
  shows "cs = []"
  using assms
proof (induction n arbitrary: cs rule: nat_digits.induct)
  case (1 n)
  show ?case
  proof (cases "n < 10")
    case True
    then show ?thesis using "1.prems" by (subst (asm) nat_digits.simps) simp
  next
    case False
    then have eq: "nat_digits (n div 10) @ [digit_char (n mod 10)] = CHR ''0'' # cs"
      using "1.prems" by (subst (asm) nat_digits.simps) simp
    then obtain ds where ds: "nat_digits (n div 10) = CHR ''0'' # ds"
      by (cases "nat_digits (n div 10)") auto
    with "1.IH" [OF False] have "ds = []" by blast
    then have "digits_value 10 True 0 (nat_digits (n div 10)) = Some 0"
      using ds by (simp add: digit_value_def is_digit_def between_def code_def)
    then have "n div 10 = 0" by (simp add: digits_value_nat_digits)
    then show ?thesis using False by simp
  qed
qed

lemma number_int_digits:
  assumes "ends_number rest"
  shows "number_int (nat_digits n @ rest) = nat_digits n"
proof -
  obtain c cs where c: "nat_digits n = c # cs" by (rule nat_digits_Cons)
  show ?thesis
  proof (cases "c = CHR ''0''")
    case True
    then show ?thesis using c nat_digits_zero_head [of n cs] by (simp add: number_int_def)
  next
    case False
    then have "\<not> starts_with ''0'' (nat_digits n @ rest)" using c by simp
    then show ?thesis
      using takeWhile_digits [OF nat_digits_are_digits assms] by (simp add: number_int_def)
  qed
qed

lemma json_frac_none: "ends_number rest \<Longrightarrow> json_frac rest = ([], rest)"
  by (auto simp: json_frac_def ends_number_def split: list.splits)

lemma json_exp_none: "ends_number rest \<Longrightarrow> json_exp rest = ([], rest)"
  by (auto simp: json_exp_def ends_number_def split: list.splits)

lemma parse_number_int_text:
  assumes "length (nat_digits (nat \<bar>n\<bar>)) \<le> INT_MAX_STR_DIGITS" and "ends_number rest"
  shows "parse_number fr (int_text n @ rest) = Inr (PInt n, rest)"
proof -
  have "number_sign (int_text n @ rest) = (if n < 0 then ''-'' else [])"
  proof -
    obtain c cs where "nat_digits (nat n) = c # cs" "is_digit c" by (rule nat_digits_Cons)
    then show ?thesis using digit_not_sign [of c]
      by (auto simp: number_sign_def int_text_def)
  qed
  then show ?thesis
    using int_of_text_int_text [OF assms(1)] assms(2)
    by (auto simp: parse_number_def Let_def int_text_def number_int_digits json_frac_none json_exp_none
             split: if_splits)
qed

text \<open>
  The texts that the encoder produces, with either of the two layouts the program uses, read back
  as the value they were made from.
\<close>

definition std_layout :: "json_format \<Rightarrow> bool" where
  "std_layout fmt \<longleftrightarrow> item_sep fmt \<in> {'','', '', ''} \<and> key_sep fmt \<in> {'':'', '': ''}"

lemma std_layout_compact [simp]: "std_layout compact" "std_layout (compact\<lparr>allow_nan := b\<rparr>)"
  by (simp_all add: std_layout_def compact_def)

lemma std_layout_spaced [simp]: "std_layout spaced"
  by (simp add: std_layout_def spaced_def)

text \<open>No value's text starts with white space, so skipping it changes nothing.\<close>

lemma json_space_chars: "json_space (CHR '' '')" "\<not> json_space (CHR '','')" "\<not> json_space (CHR '':'')"
  "\<not> json_space (CHR '']'')" "\<not> json_space (CHR ''}'')" "\<not> json_space (CHR 0x22)"
  by (simp_all add: json_space_def Let_def code_def)

definition solid :: "string \<Rightarrow> bool" where
  "solid s \<longleftrightarrow> s \<noteq> [] \<and> \<not> json_space (hd s) \<and> hd s \<noteq> CHR '']'' \<and> hd s \<noteq> CHR ''}''"

lemma skip_ws_solid: "solid s \<Longrightarrow> skip_ws (s @ t) = s @ t"
  by (cases s) (auto simp: solid_def skip_ws_def)

lemma solid_not_closer: "solid s \<Longrightarrow> \<not> starts_with '']'' s \<and> \<not> starts_with ''}'' s"
  by (cases s) (auto simp: solid_def)

lemma solid_append: "solid s \<Longrightarrow> solid (s @ t)"
  by (cases s) (auto simp: solid_def)

lemma solid_int_text: "solid (int_text n)"
proof -
  obtain c cs where "nat_digits (nat n) = c # cs" "is_digit c" by (rule nat_digits_Cons)
  then show ?thesis
    by (auto simp: solid_def int_text_def json_space_def Let_def is_digit_def between_def code_def)
qed

lemma solid_dumps: "json_plain v \<Longrightarrow> dumps fmt v = Inr t \<Longrightarrow> solid t"
  by (cases v) (auto simp: dump_int_def solid_int_text quote_def res_simps split: if_splits,
      auto simp: solid_def json_space_def code_def)

lemma join_Cons: "ts \<noteq> [] \<Longrightarrow> join sep (t # ts) = t @ sep @ join sep ts"
  by (cases ts) simp_all

lemma dumps_list_Nil_iff: "dumps_list fmt vs = Inr [] \<longleftrightarrow> vs = []"
  by (cases vs) (auto simp: res_simps)

lemma dumps_items_Nil_iff: "dumps_items fmt kvs = Inr [] \<longleftrightarrow> kvs = []"
  by (cases kvs) (auto simp: res_simps)

lemma skip_ws_sep:
  assumes "std_layout fmt" and "solid s"
  shows "skip_ws (item_sep fmt @ s) = CHR '','' # tl (item_sep fmt @ s)"
    and "skip_ws (tl (item_sep fmt @ s)) = s"
    and "skip_ws (key_sep fmt @ s) = CHR '':'' # tl (key_sep fmt @ s)"
    and "skip_ws (tl (key_sep fmt @ s)) = s"
  using assms skip_ws_solid [OF assms(2), of "[]"]
  by (auto simp: std_layout_def skip_ws_def json_space_chars)

lemma int_text_Cons: "\<exists>c cs. int_text n = c # cs \<and> (is_digit c \<or> c = CHR ''-'')"
proof -
  obtain c cs where "nat_digits (nat n) = c # cs" "is_digit c" by (rule nat_digits_Cons)
  then show ?thesis by (auto simp: int_text_def)
qed

lemma first_chars:
  "is_digit c \<or> c = CHR ''-'' \<Longrightarrow> c \<noteq> CHR 0x22 \<and> c \<noteq> CHR ''{'' \<and> c \<noteq> CHR ''['' \<and> c \<noteq> CHR ''n'' \<and>
    CHR ''n'' \<noteq> c \<and> CHR ''t'' \<noteq> c \<and> CHR ''f'' \<noteq> c \<and> CHR ''N'' \<noteq> c \<and> CHR ''I'' \<noteq> c"
  by (elim disjE) (auto simp: is_digit_def between_def code_def)

lemma dict_set_new: "k \<notin> fst ` set acc \<Longrightarrow> dict_set k v acc = acc @ [(k, v)]"
  by (induction acc) auto

lemma ends_number_closers [simp]:
  "ends_number []" "ends_number (CHR '']'' # s)" "ends_number (CHR ''}'' # s)" "ends_number (CHR '','' # s)"
  by (simp_all add: ends_number_def is_digit_def between_def code_def)

lemma ends_number_item_sep: "std_layout fmt \<Longrightarrow> ends_number (item_sep fmt @ s)"
  by (auto simp: std_layout_def)

lemma solid_join:
  assumes "json_plain_list vs" and "dumps_list fmt vs = Inr ts" and "vs \<noteq> []"
  shows "ts \<noteq> []" and "solid (join sep ts @ s)"
proof -
  obtain v vs' t ts' where "vs = v # vs'" "ts = t # ts'" "dumps fmt v = Inr t"
    using assms(2,3) by (cases vs) (auto simp: res_simps)
  then show "ts \<noteq> []" "solid (join sep ts @ s)"
    using assms(1) solid_dumps [of v fmt t] by (cases ts'; auto simp: solid_append)+
qed

lemma quote_solid: "solid (quote k @ s)"
  by (simp add: solid_def quote_def json_space_chars)

lemma solid_join_items:
  assumes "json_plain_items kvs" and "dumps_items fmt kvs = Inr ts" and "kvs \<noteq> []"
  shows "ts \<noteq> []" and "solid (join sep ts @ s)"
proof -
  obtain p kvs' where p: "kvs = p # kvs'" using assms(3) by (cases kvs) auto
  obtain k v where kv: "p = (KStr k, v)"
    using assms(1) p by (cases p) (auto split: pykey.splits)
  obtain u ts' where "ts = (quote k @ u) # ts'"
    using assms(2) p kv by (auto simp: res_simps)
  then show "ts \<noteq> []" "solid (join sep ts @ s)"
    using quote_solid by (cases ts'; simp)+
qed

lemma parse_elements_last:
  assumes "parse_value fr (t @ '']'' @ rest) = Inr (v, '']'' @ rest)"
  shows "parse_elements fr (t @ '']'' @ rest) = Inr ([v], rest)"
  using assms by (subst parse_elements.simps) (simp add: skip_ws_def json_space_chars)

lemma parse_elements_more:
  assumes "std_layout fmt" and "solid s" and "t \<noteq> []"
    and "parse_value fr (t @ item_sep fmt @ s) = Inr (v, item_sep fmt @ s)"
    and "parse_elements fr s = Inr (vs, rest)"
  shows "parse_elements fr (t @ item_sep fmt @ s) = Inr (v # vs, rest)"
proof -
  have "length s < length (t @ item_sep fmt @ s)" using assms(3) by simp
  then show ?thesis
    using assms skip_ws_sep(1,2) [OF assms(1,2)]
    by (subst parse_elements.simps) (simp add: Let_def)
qed

lemma parse_members_value_step:
  assumes "std_layout fmt" and "solid t" and "k \<notin> fst ` set acc"
    and "k = KStr kt"
    and "parse_value fr (t @ u) = Inr (v, u)"
  shows "parse_members fr acc (quote kt @ key_sep fmt @ t @ u) =
    (case skip_ws u of [] \<Rightarrow> Inl JSONDecodeError
     | d # w \<Rightarrow>
        if d = CHR ''}'' then Inr (PDict (acc @ [(k, v)]), w)
        else if d = CHR '','' then
          (if length (skip_ws w) < length (quote kt @ key_sep fmt @ t @ u)
           then parse_members fr (acc @ [(k, v)]) (skip_ws w) else Inl JSONDecodeError)
        else Inl JSONDecodeError)"
proof -
  have solid: "solid (t @ u)" using assms(2) by (rule solid_append)
  define K where "K = key_sep fmt @ t @ u"
  have K: "skip_ws K = CHR '':'' # tl K" "skip_ws (tl K) = t @ u"
    using skip_ws_sep(3,4) [OF assms(1) solid] by (simp_all add: K_def)
  have "length (t @ u) \<le> length K" by (simp add: K_def)
  then have len: "length (t @ u) < length (CHR 0x22 # concat (map escape_char kt) @ CHR 0x22 # K)"
    by simp
  have eq: "quote kt @ K = CHR 0x22 # concat (map escape_char kt) @ CHR 0x22 # K"
    by (simp add: quote_def)
  show ?thesis
    unfolding K_def [symmetric] eq
    using assms(3-5) K len
    by (subst parse_members.simps) (simp add: parse_chars_quoted Let_def dict_set_new split: list.split)
qed

lemma parse_roundtrip:
  shows "json_plain v \<Longrightarrow> std_layout fmt \<Longrightarrow> dumps fmt v = Inr t \<Longrightarrow> ends_number rest \<Longrightarrow>
      parse_value fr (t @ rest) = Inr (v, rest)"
    and "json_plain_list vs \<Longrightarrow> std_layout fmt \<Longrightarrow> dumps_list fmt vs = Inr ts \<Longrightarrow> vs \<noteq> [] \<Longrightarrow>
      parse_elements fr (join (item_sep fmt) ts @ '']'' @ rest) = Inr (vs, rest)"
    and "json_plain_items kvs \<Longrightarrow> std_layout fmt \<Longrightarrow> dumps_items fmt kvs = Inr ts' \<Longrightarrow> kvs \<noteq> [] \<Longrightarrow>
      distinct (map fst kvs) \<Longrightarrow> fst ` set kvs \<inter> fst ` set acc = {} \<Longrightarrow>
      parse_members fr acc (join (item_sep fmt) ts' @ ''}'' @ rest) = Inr (PDict (acc @ kvs), rest)"
proof (induction v and vs and kvs arbitrary: t rest and ts rest and ts' rest acc
         rule: json_plain_json_plain_list_json_plain_items.induct)
  case 1
  then show ?case by (auto simp: parse_value.simps)
next
  case (2 b)
  then show ?case by (cases b) (auto simp: parse_value.simps)
next
  case (3 n)
  then have t: "t = int_text n" by (simp add: dump_int_def)
  obtain c cs where c: "int_text n = c # cs" "is_digit c \<or> c = CHR ''-''" 
    using int_text_Cons by blast
  have "\<not> starts_with ''-Infinity'' (int_text n @ rest)"
  proof -
    obtain d ds where d: "nat_digits (nat (- n)) = d # ds" "is_digit d" by (rule nat_digits_Cons)
    obtain e es where e: "nat_digits (nat n) = e # es" "is_digit e" by (rule nat_digits_Cons)
    have "d \<noteq> CHR ''I''" using d(2) by (auto simp: is_digit_def between_def code_def)
    then show ?thesis using d e digit_not_sign [OF e(2)] by (auto simp: int_text_def)
  qed
  then have "parse_value fr (int_text n @ rest) = parse_number fr (int_text n @ rest)"
    using c(1) first_chars [OF c(2)] by (subst parse_value.simps) auto
  then show ?case using 3 t parse_number_int_text by simp
next
  case (4 s)
  then show ?case
    using parse_chars_quoted [of s rest] by (auto simp: quote_def parse_value.simps)
next
  case (5 vs)
  then obtain ts where ts: "dumps_list fmt vs = Inr ts" "t = ''['' @ join (item_sep fmt) ts @ '']''"
    by (auto simp: res_simps)
  show ?case
  proof (cases "vs = []")
    case True
    then show ?thesis using ts by (simp add: parse_value.simps skip_ws_def json_space_chars)
  next
    case False
    have "json_plain_list vs" using "5.prems"(1) by simp
    then have s: "solid (join (item_sep fmt) ts @ '']'' @ rest)"
      using solid_join(2) ts(1) False by blast
    then show ?thesis
      using "5.IH" [OF _ "5.prems"(2) ts(1) False, of rest] "5.prems"(1) ts(2)
        skip_ws_solid [OF s, of "[]"] solid_not_closer [OF s]
      by (subst parse_value.simps) (auto simp: Let_def)
  qed
next
  case (6 kvs)
  then obtain ts where ts: "dumps_items fmt kvs = Inr ts" "t = ''{'' @ join (item_sep fmt) ts @ ''}''"
    by (auto simp: res_simps)
  show ?case
  proof (cases "kvs = []")
    case True
    then show ?thesis using ts by (simp add: parse_value.simps skip_ws_def json_space_chars)
  next
    case False
    have pl: "json_plain_items kvs" "distinct (map fst kvs)" using "6.prems"(1) by simp_all
    then have s: "solid (join (item_sep fmt) ts @ ''}'' @ rest)"
      using solid_join_items(2) ts(1) False by blast
    then show ?thesis
      using "6.IH" [OF pl(1) "6.prems"(2) ts(1) False pl(2), of "[]" rest] ts(2)
        skip_ws_solid [OF s, of "[]"] solid_not_closer [OF s]
      by (subst parse_value.simps) (auto simp: Let_def)
  qed
next
  case (9 v vs)
  then obtain t ts1 where t: "dumps fmt v = Inr t" "dumps_list fmt vs = Inr ts1" "ts = t # ts1"
    by (auto simp: res_simps)
  have "t \<noteq> []" using solid_dumps [OF _ t(1)] "9.prems"(1) by (auto simp: solid_def)
  show ?case
  proof (cases "vs = []")
    case True
    then show ?thesis
      using t "9.IH"(1) [OF _ "9.prems"(2) t(1), of "'']'' @ rest"] "9.prems"(1)
      using parse_elements_last [of fr t rest v] by simp
  next
    case False
    note ts1 = solid_join [OF _ t(2) False]
    have "parse_elements fr (t @ item_sep fmt @ (join (item_sep fmt) ts1 @ '']'' @ rest)) = Inr (v # vs, rest)"
      using "9.prems"(1,2) t False ts1(2) \<open>t \<noteq> []\<close>
        "9.IH"(1) [OF _ "9.prems"(2) t(1) ends_number_item_sep] "9.IH"(2) [OF _ "9.prems"(2) t(2) False, of rest]
      by (intro parse_elements_more) auto
    then show ?thesis using t(3) ts1(1) "9.prems"(1) by (simp add: join_Cons)
  qed
next
  case (11 k v kvs)
  obtain kt where k: "k = KStr kt" using "11.prems"(1) by (cases k) auto
  obtain t ts1 where t: "dumps fmt v = Inr t" "dumps_items fmt kvs = Inr ts1"
      "ts' = (quote kt @ key_sep fmt @ t) # ts1"
    using "11.prems"(3) k by (auto simp: res_simps)
  have pl: "json_plain v" "json_plain_items kvs" using "11.prems"(1) by auto
  have solid_t: "solid t" using solid_dumps [OF pl(1) t(1)] .
  have fresh: "k \<notin> fst ` set acc" using "11.prems"(6) by auto
  note IHv = "11.IH"(1) [OF pl(1) "11.prems"(2) t(1)]
  note step = parse_members_value_step [OF "11.prems"(2) solid_t fresh k IHv]
  show ?case
  proof (cases "kvs = []")
    case True
    then show ?thesis
      using t(2,3) step [of "''}'' @ rest"] by (simp add: skip_ws_def json_space_chars)
  next
    case False
    note ts1 = solid_join_items [OF pl(2) t(2) False]
    define J where "J = join (item_sep fmt) ts1 @ ''}'' @ rest"
    have solid_J: "solid J" using ts1(2) by (simp add: J_def)
    have "parse_members fr (acc @ [(k, v)]) J = Inr (PDict ((acc @ [(k, v)]) @ kvs), rest)"
      unfolding J_def using "11.prems"(2,5,6) False
      by (intro "11.IH"(2) [OF pl(2) _ t(2)]) auto
    then have "parse_members fr acc (quote kt @ key_sep fmt @ t @ item_sep fmt @ J) =
        Inr (PDict (acc @ (k, v) # kvs), rest)"
      using step [OF ends_number_item_sep [OF "11.prems"(2)], of J]
        skip_ws_sep(1,2) [OF "11.prems"(2) solid_J]
      by (simp add: quote_def)
    then show ?thesis using t(3) ts1(1) by (simp add: join_Cons J_def)
  qed
qed auto

text \<open>Decoding inverts encoding on plain values.\<close>

theorem json_loads_dumps:
  assumes "json_plain v" and "std_layout fmt" and "dumps fmt v = Inr t"
  shows "json_loads fr t = Inr v"
proof -
  have "skip_ws t = t" using skip_ws_solid [OF solid_dumps [OF assms(1,3)], of "[]"] by simp
  moreover have "parse_value fr (t @ []) = Inr (v, [])"
    using parse_roundtrip(1) [OF assms, where rest = "[]" and fr = fr] by simp
  ultimately show ?thesis by (simp add: json_loads_def skip_ws_def)
qed

text \<open>The program's files end their JSON text with a newline.\<close>

lemma json_loads_dumps_newline:
  assumes "json_plain v" and "std_layout fmt" and "dumps fmt v = Inr t"
  shows "json_loads fr (t @ [newline]) = Inr v"
proof -
  have "skip_ws (t @ [newline]) = t @ [newline]"
    by (rule skip_ws_solid [OF solid_dumps [OF assms(1,3)]])
  moreover have "ends_number [newline]"
    by (simp add: ends_number_def newline_def is_digit_def between_def code_def)
  then have "parse_value fr (t @ [newline]) = Inr (v, [newline])"
    using parse_roundtrip(1) [OF assms, where rest = "[newline]" and fr = fr] by simp
  moreover have "skip_ws [newline] = []"
    by (simp add: skip_ws_def json_space_def newline_def code_def Let_def)
  ultimately show ?thesis by (simp add: json_loads_def)
qed

end
