(* ===== verification/EventLog.thy ===== *)
theory EventLog
  imports Projection PyJson
begin

section \<open>What the log stores\<close>

text \<open>
  The payload of a validated event, as JSON text, decodes to the payload again: its dictionaries
  have distinct text keys and its values are texts, integers, booleans or such dictionaries.
  \<open>py_dicts\<close> is the invariant of Python's dictionaries, that keys are distinct.
\<close>

subsection \<open>Dictionaries\<close>

function (sequential) py_dicts :: "pyval \<Rightarrow> bool"
  and py_dicts_list :: "pyval list \<Rightarrow> bool"
  and py_dicts_items :: "(pykey \<times> pyval) list \<Rightarrow> bool" where
  "py_dicts (PDict kvs) = (distinct (map fst kvs) \<and> py_dicts_items kvs)"
| "py_dicts (PProxy kvs) = (distinct (map fst kvs) \<and> py_dicts_items kvs)"
| "py_dicts (PList vs) = py_dicts_list vs"
| "py_dicts (PTuple vs) = py_dicts_list vs"
| "py_dicts v = True"
| "py_dicts_list [] = True"
| "py_dicts_list (v # vs) = (py_dicts v \<and> py_dicts_list vs)"
| "py_dicts_items [] = True"
| "py_dicts_items ((k, v) # kvs) = (py_dicts v \<and> py_dicts_items kvs)"
  by pat_completeness auto
termination
  by (relation "measure (\<lambda>x. case x of
        Inl v \<Rightarrow> size v
      | Inr (Inl vs) \<Rightarrow> size_list size vs
      | Inr (Inr kvs) \<Rightarrow> size_list (size_prod (\<lambda>_. 0) size) kvs)") auto

lemma py_dicts_thaw:
  shows "py_dicts (thaw v) = py_dicts v"
    and "py_dicts_list (thaw_list vs) = py_dicts_list vs"
    and "py_dicts_items (thaw_items kvs) = py_dicts_items kvs"
  by (induction v and vs and kvs rule: py_dicts_py_dicts_list_py_dicts_items.induct)
     (simp_all add: keys_thaw_items)

lemma py_dicts_freeze:
  shows "py_dicts (freeze v) = py_dicts v"
    and "py_dicts_list (freeze_list vs) = py_dicts_list vs"
    and "py_dicts_items (freeze_items kvs) = py_dicts_items kvs"
  by (induction v and vs and kvs rule: py_dicts_py_dicts_list_py_dicts_items.induct)
     (simp_all add: keys_freeze_items)

lemma py_dicts_items_iff: "py_dicts_items kvs \<longleftrightarrow> (\<forall>(k, v) \<in> set kvs. py_dicts v)"
  by (induction kvs) auto

lemma py_dicts_mapping: "py_dicts m \<Longrightarrow> distinct (map fst (items m)) \<and> py_dicts_items (items m)"
  by (cases m) auto

lemma py_dicts_pget: "py_dicts m \<Longrightarrow> py_dicts (pget m k)"
  using py_dicts_mapping [of m] pget_in_items [of m k]
  by (cases "pget m k = PNone") (auto simp: py_dicts_items_iff)

subsection \<open>Accepted payloads are plain JSON\<close>

lemma dumps_items_Inr:
  "dumps_items fmt kvs = Inr ts \<Longrightarrow> (k, v) \<in> set kvs \<Longrightarrow> \<exists>t. dumps fmt v = Inr t"
  by (induction kvs arbitrary: ts) (auto simp: rbind_Inr_iff)

text \<open>A field that holds a text, an integer or a boolean.\<close>

definition scalar :: "pyval \<Rightarrow> bool" where
  "scalar v \<longleftrightarrow> (case v of PStr s \<Rightarrow> True | PInt n \<Rightarrow> True | PBool b \<Rightarrow> True | _ \<Rightarrow> False)"

lemma scalar_plain: "scalar v \<Longrightarrow> dumps fmt v = Inr t \<Longrightarrow> json_plain v"
  by (cases v) (auto simp: scalar_def dump_int_def split: if_splits)

lemma mapping_plain:
  assumes "is_mapping m" and "exact_keys m fs" and "py_dicts m" and "dumps fmt m = Inr t"
    and "\<And>f t. f \<in> set fs \<Longrightarrow> dumps fmt (pget m f) = Inr t \<Longrightarrow> json_plain (pget m f)"
  shows "json_plain m"
proof -
  obtain kvs where m: "m = PDict kvs" using assms(1,4) by (cases m) auto
  have keys: "fst ` set kvs = KStr ` set fs" using assms(2) by (simp add: exact_keys_iff m)
  have dist: "distinct (map fst kvs)" using assms(3) m by simp
  obtain ts where ts: "dumps_items fmt kvs = Inr ts" using assms(4) m by (auto simp: rbind_Inr_iff)
  have "(\<exists>s. k = KStr s) \<and> json_plain v" if kv: "(k, v) \<in> set kvs" for k v
  proof -
    have "k \<in> fst ` set kvs" using kv by (rule rev_image_eqI) simp
    then obtain f where f: "k = KStr f" "f \<in> set fs" unfolding keys by blast
    have "pget m f = v" using kv dist f(1) by (simp add: pget_def m map_of_is_SomeI)
    then show ?thesis using f dumps_items_Inr [OF ts kv] assms(5) by blast
  qed
  then show ?thesis using dist by (auto simp: m json_plain_items_iff)
qed

lemma fields_plain:
  assumes "is_mapping m" and "exact_keys m fs" and "py_dicts m" and "dumps fmt m = Inr t"
    and "list_all (\<lambda>f. scalar (pget m f)) fs"
  shows "json_plain m"
  using assms(1-4) by (rule mapping_plain) (use assms(5) scalar_plain in \<open>auto simp: list_all_iff\<close>)

lemma field_scalar:
  "text_field m k P \<Longrightarrow> scalar (pget m k)" "int_field m k n \<Longrightarrow> scalar (pget m k)"
  "(case pget m k of PBool b \<Rightarrow> True | _ \<Rightarrow> False) \<Longrightarrow> scalar (pget m k)"
  by (simp_all add: text_field_def int_field_def scalar_def split: pyval.splits)

lemma job_plain:
  assumes "job_contract j" and "py_dicts j" and "dumps fmt j = Inr t"
  shows "json_plain j"
proof (rule fields_plain)
  show "is_mapping j" "exact_keys j JOB_FIELDS" using assms(1) by (simp_all add: job_contract_def)
  show "list_all (\<lambda>f. scalar (pget j f)) JOB_FIELDS"
    using assms(1) unfolding job_contract_def JOB_FIELDS_def by (auto intro: field_scalar)
qed (rule assms)+

lemma progress_plain:
  assumes "progress_contract j" and "py_dicts j" and "dumps fmt j = Inr t"
  shows "json_plain j"
proof (rule fields_plain)
  show "is_mapping j" "exact_keys j PROGRESS_FIELDS"
    using assms(1) by (simp_all add: progress_contract_def)
  show "list_all (\<lambda>f. scalar (pget j f)) PROGRESS_FIELDS"
    using assms(1) unfolding progress_contract_def PROGRESS_FIELDS_def by (auto intro: field_scalar)
qed (rule assms)+

lemma fallback_plain:
  assumes "fallback_contract j" and "py_dicts j" and "dumps fmt j = Inr t"
  shows "json_plain j"
proof (rule fields_plain)
  show "is_mapping j" "exact_keys j FALLBACK_FIELDS"
    using assms(1) by (simp_all add: fallback_contract_def)
  show "list_all (\<lambda>f. scalar (pget j f)) FALLBACK_FIELDS"
    using assms(1) unfolding fallback_contract_def FALLBACK_FIELDS_def by (auto intro: field_scalar)
qed (rule assms)+

lemma envelope_scalars:
  assumes "envelope_contract p" and "f \<in> set COMMON_FIELDS"
  shows "scalar (pget p f)"
proof -
  have "scalar (pget p ''schema_version'')" using assms(1) by (simp add: envelope_contract_def scalar_def)
  then have "list_all (\<lambda>f. scalar (pget p f)) COMMON_FIELDS"
    using assms(1) unfolding envelope_contract_def COMMON_FIELDS_def by (auto intro: field_scalar)
  then show ?thesis using assms(2) by (simp add: list_all_iff)
qed

lemma event_plain:
  assumes "event_contract p" and "py_dicts p" and "dumps fmt p = Inr t"
  shows "json_plain p"
proof -
  let ?ty = "text_at p ''event_type''"
  have c: "is_mapping p" "envelope_contract p" "body_contract p ?ty"
    "exact_keys p (envelope_fields ?ty)"
    using assms(1) by (auto simp: event_contract_def envelope_contract_def)
  have sub: "py_dicts (pget p f)" for f using assms(2) by (rule py_dicts_pget)
  show ?thesis using c(1,4) assms(2,3)
  proof (rule mapping_plain)
    fix f t
    assume f: "f \<in> set (envelope_fields ?ty)" and t: "dumps fmt (pget p f) = Inr t"
    consider "f \<in> set COMMON_FIELDS" | "f = ''job''" "?ty \<notin> {''runner.heartbeat'', ''runner.offline''}"
      | "f = ''outcome''" "?ty = ''job.finished''" | "f = ''progress''" "?ty = ''job.progress''"
      | "f = ''fallback''" "?ty = ''job.fallback''"
      using f by (auto simp: envelope_fields_def split: if_splits)
    then show "json_plain (pget p f)"
    proof cases
      case 1
      then show ?thesis using envelope_scalars c(2) scalar_plain t by blast
    next
      case 2
      then show ?thesis using c(3) job_plain sub t by (auto simp: body_contract_def)
    next
      case 3
      then have "scalar (pget p f)" using c(3) by (auto simp: body_contract_def text_field_iff scalar_def)
      then show ?thesis using scalar_plain t by blast
    next
      case 4
      then show ?thesis using c(3) progress_plain sub t by (auto simp: body_contract_def)
    next
      case 5
      then show ?thesis using c(3) fallback_plain sub t by (auto simp: body_contract_def)
    qed
  qed
qed

text \<open>An accepted payload is plain, so its text exists.\<close>

lemma event_contract_dumps:
  assumes "event_contract p" and "py_dicts p"
  shows "json_plain p" and "\<exists>t. dumps fmt p = Inr t"
proof -
  obtain t where "dumps (compact\<lparr>allow_nan := False\<rparr>) p = Inr t"
    using assms(1) by (auto simp: event_contract_def small_payload_def split: sum.splits)
  then show "json_plain p" using event_plain assms by blast
  then show "\<exists>t. dumps fmt p = Inr t" using json_plain_dumps(1) by (simp add: res_ok_iff)
qed

subsection \<open>Stored rows\<close>

text \<open>A row of the log that stores the event \<open>e\<close>.\<close>

definition stores :: "event_row \<Rightarrow> validated_event \<Rightarrow> bool" where
  "stores row e \<longleftrightarrow> er_event_id row = ev_id e \<and> event_contract (thaw (ev_payload e)) \<and>
     e = event_of (thaw (ev_payload e)) \<and> py_dicts (thaw (ev_payload e)) \<and>
     dumps compact (thaw (ev_payload e)) = Inr (er_payload_json row)"

lemma stores_decodes:
  assumes "stores row e"
  shows "json_loads fr (er_payload_json row) = Inr (thaw (ev_payload e))"
    and "validate_event (thaw (ev_payload e)) = Inr e"
proof -
  have "json_plain (thaw (ev_payload e))"
    using assms event_plain unfolding stores_def by blast
  moreover have "std_layout compact" by simp
  ultimately show "json_loads fr (er_payload_json row) = Inr (thaw (ev_payload e))"
    using assms json_loads_dumps unfolding stores_def by blast
  show "validate_event (thaw (ev_payload e)) = Inr e"
    using assms unfolding stores_def validate_event_iff by blast
qed

text \<open>Every event that the store accepts is stored so.\<close>

lemma accepted_stores:
  assumes "validate_event (thaw p) = Inr e" and "py_dicts p"
    and "dumps compact (thaw (ev_payload e)) = Inr (er_payload_json row)" and "er_event_id row = ev_id e"
  shows "stores row e"
proof -
  have c: "event_contract (thaw p)" and e: "e = event_of (thaw p)"
    using assms(1) by (auto simp: validate_event_iff)
  then have pl: "thaw (ev_payload e) = rethaw (thaw p)" by (simp add: event_of_def)
  moreover have "event_of (rethaw (thaw p)) = e" using e by (simp add: event_of_def freeze_rethaw)
  moreover have "event_contract (rethaw (thaw p))" using c by (rule event_contract_rethaw)
  moreover have "py_dicts (rethaw (thaw p))" using assms(2) by (simp add: py_dicts_thaw py_dicts_freeze)
  ultimately show ?thesis using assms(3,4) by (simp add: stores_def)
qed

end
