(* ===== verification/StoreReplay.thy ===== *)
theory StoreReplay
  imports Store EventLog
begin

section \<open>The event store (\<^verbatim>\<open>store.py\<close>): replay, retention, integrity, opening\<close>

text \<open>
  \<open>fr\<close> is the text of a parsed floating-point number (\<^verbatim>\<open>float.__repr__\<close> after \<^verbatim>\<open>float(text)\<close>), which no
  accepted event has.  SQLite's own failures are parameters: whether the cleanup statement
  raises, what the integrity pragma returns, how many variables a statement may have.
\<close>

subsection \<open>Small parts\<close>

definition history_is_complete :: "database \<Rightarrow> bool" where
  "history_is_complete d =
     (case map_of (monitor_meta d) ''projection_history_complete'' of None \<Rightarrow> True | Some v \<Rightarrow> v = ''1'')"

text \<open>\<^verbatim>\<open>(ValueError, TypeError, JSONDecodeError, DatabaseError)\<close> with their subclasses.\<close>

fun replay_catches :: "exn \<Rightarrow> bool" where
  "replay_catches (ValidationError r) = True"
| "replay_catches (ValueError r) = True"
| "replay_catches JSONDecodeError = True"
| "replay_catches UnicodeError = True"
| "replay_catches TypeError = True"
| "replay_catches DatabaseError = True"
| "replay_catches _ = False"

definition parse_job_resource_id :: "string \<Rightarrow> job_key option" where
  "parse_job_resource_id rid =
     (let parts = split_char (CHR '':'') rid
      in if length parts \<noteq> 4 then None
         else case (int_of_text 10 (parts ! 1), int_of_text 10 (parts ! 2), int_of_text 10 (parts ! 3)) of
             (Some run, Some attempt, Some job) \<Rightarrow> Some (parts ! 0, run, attempt, job)
           | _ \<Rightarrow> None)"

definition set_runner_offline :: "string \<Rightarrow> string option \<Rightarrow> database \<Rightarrow> database" where
  "set_runner_offline rid reason d =
     d\<lparr>runner_state := tbl_amend rs_runner_id rid
         (\<lambda>r. r\<lparr>rs_liveness := ''offline'', rs_offline_reason := reason\<rparr>) (runner_state d)\<rparr>"

definition set_job_offline :: "job_key \<Rightarrow> string option \<Rightarrow> database \<Rightarrow> database" where
  "set_job_offline k reason d =
     d\<lparr>job_state := tbl_amend job_row_key k
         (\<lambda>r. r\<lparr>js_liveness := ''offline'', js_offline_reason := reason\<rparr>) (job_state d)\<rparr>"

text \<open>
  Keys read back from an incident can be integers that SQLite refuses to bind.
\<close>

fun restore_incident :: "incident_row \<Rightarrow> database \<Rightarrow> database res" where
  "restore_incident i d =
     (if in_kind i = ''runner'' then Inr (set_runner_offline (in_resource i) (Some (in_condition i)) d)
      else if in_kind i = ''job'' \<and> in_condition i = ''heartbeat_timeout'' then
        (case parse_job_resource_id (in_resource i) of
           None \<Rightarrow> Inr d
         | Some k \<Rightarrow> if job_key_fits k then Inr (set_job_offline k (Some ''heartbeat_timeout'') d)
                     else Inl OverflowError)
      else Inr d)"

fun restore_offline_incident_liveness :: "incident_row list \<Rightarrow> database \<Rightarrow> database res" where
  "restore_offline_incident_liveness [] d = Inr d"
| "restore_offline_incident_liveness (i # is) d =
     rbind (restore_incident i d) (restore_offline_incident_liveness is)"

subsection \<open>Replay\<close>

text \<open>One row of the log, and the log in the order of its row ids.\<close>

definition replay_row :: "(string \<Rightarrow> string) \<Rightarrow> event_row \<Rightarrow> database \<Rightarrow> database res" where
  "replay_row fr row d =
     rbind (json_loads fr (er_payload_json row)) (\<lambda>p.
     rbind (validate_event p) (\<lambda>e.
     rbind (apply_event False True d e (er_received_at row)) (\<lambda>(applied, d').
       Inr (set_applied d' (er_event_id row) applied))))"

fun replay_rows :: "(string \<Rightarrow> string) \<Rightarrow> event_row list \<Rightarrow> database \<Rightarrow> database res" where
  "replay_rows fr [] d = Inr d"
| "replay_rows fr (row # rows) d = rbind (replay_row fr row d) (replay_rows fr rows)"

definition rebuild :: "(string \<Rightarrow> string) \<Rightarrow> database \<Rightarrow> database res" where
  "rebuild fr d =
     (let rows = sort_key er_row_id (events d);
          offline_runners = filter (\<lambda>r. rs_liveness r = ''offline'') (runner_state d);
          offline_jobs = filter (\<lambda>r. js_liveness r = ''offline'') (job_state d);
          active_incidents = filter in_active (incidents d);
          cleared = d\<lparr>runner_state := [], job_state := [], watermarks := []\<rparr>
      in rbind (replay_rows fr rows cleared) (\<lambda>d1.
         let d2 = fold (\<lambda>r. set_runner_offline (rs_runner_id r) (rs_offline_reason r)) offline_runners d1;
             d3 = fold (\<lambda>r. set_job_offline (job_row_key r) (js_offline_reason r)) offline_jobs d2
         in restore_offline_incident_liveness active_incidents d3))"

definition replay :: "(string \<Rightarrow> string) \<Rightarrow> store \<Rightarrow> bool res \<times> store" where
  "replay fr s =
     (if \<not> history_is_complete (db s) then (Inr False, add_reason ''replay_incomplete_history'' s)
      else case rebuild fr (db s) of
        Inl x \<Rightarrow> if replay_catches x then (Inr False, add_reason ''replay_failed'' s) else (Inl x, s)
      | Inr d \<Rightarrow> (Inr True, discard_reason ''replay_incomplete_history''
                  (discard_reason ''replay_failed'' (s\<lparr>db := d\<rparr>))))"

subsection \<open>Retention\<close>

definition set_meta :: "string \<Rightarrow> string \<Rightarrow> database \<Rightarrow> database" where
  "set_meta k v d = d\<lparr>monitor_meta := tbl_upsert fst (k, v) (monitor_meta d)\<rparr>"

definition expired_ids :: "datetime \<Rightarrow> database \<Rightarrow> int list res" where
  "expired_ids cutoff d =
     rbind (filter_res (\<lambda>r. stale cutoff (er_received_at r)) (events d)) (\<lambda>rows. Inr (map er_row_id rows))"

text \<open>\<open>fault\<close>: a statement of the cleanup raises a \<^verbatim>\<open>DatabaseError\<close>; \<open>max_vars\<close>: SQLite's limit on
  the variables of one statement.\<close>

definition prune_history :: "nat \<Rightarrow> bool \<Rightarrow> store \<Rightarrow> received \<Rightarrow> nat res \<times> store" where
  "prune_history max_vars fault s now =
     (case rbind (normalise_received_at now) (\<lambda>cur. rbind (parse_received_at cur) (\<lambda>t.
             moment_minus t (RETENTION_DAYS * DAY))) of
        Inl x \<Rightarrow> (Inl x, s)
      | Inr cutoff \<Rightarrow>
          (if fault then (Inr 0, add_reason ''cleanup_failed'' s)
           else case expired_ids cutoff (db s) of
             Inl x \<Rightarrow> (Inl x, s)
           | Inr ids \<Rightarrow>
               if ids = [] then (Inr 0, discard_reason ''cleanup_failed'' s)
               else if max_vars < length ids then (Inr 0, add_reason ''cleanup_failed'' s)
               else (Inr (length (filter (\<lambda>r. er_row_id r \<in> set ids) (events (db s)))),
                     discard_reason ''cleanup_failed''
                       (s\<lparr>db := set_meta ''projection_history_complete'' ''0''
                            ((db s)\<lparr>events := filter (\<lambda>r. er_row_id r \<notin> set ids) (events (db s))\<rparr>)\<rparr>))))"

subsection \<open>Integrity and opening\<close>

definition check_integrity :: "string list res \<Rightarrow> store \<Rightarrow> bool \<times> store" where
  "check_integrity pragma s =
     (if pragma = Inr [''ok''] then (True, discard_reason ''integrity_check_failed'' s)
      else (False, add_reason ''integrity_check_failed'' s))"

definition replay_if_projections_are_missing ::
  "(string \<Rightarrow> string) \<Rightarrow> bool \<Rightarrow> store \<Rightarrow> unit res \<times> store" where
  "replay_if_projections_are_missing fr fault s =
     (if fault then (Inr (), add_reason ''projection_check_failed'' s)
      else if events (db s) \<noteq> [] then
        (case replay fr s of (Inl x, s') \<Rightarrow> (Inl x, s') | (Inr b, s') \<Rightarrow> (Inr (), s'))
      else (Inr (), s))"

text \<open>
  \<^verbatim>\<open>_migrate\<close> on a database that has this version's tables only adds the completeness marker
  where it is missing.
\<close>

definition migrate :: "database \<Rightarrow> database" where
  "migrate d = (case map_of (monitor_meta d) ''projection_history_complete'' of
       None \<Rightarrow> d\<lparr>monitor_meta := monitor_meta d @ [(''projection_history_complete'', ''1'')]\<rparr>
     | Some v \<Rightarrow> d)"

definition open_store :: "(string \<Rightarrow> string) \<Rightarrow> string list res \<Rightarrow> bool \<Rightarrow> database \<Rightarrow> store res" where
  "open_store fr pragma fault d =
     (let s0 = \<lparr>db = migrate d, degraded_reasons = []\<rparr>;
          s1 = snd (check_integrity pragma s0)
      in case replay_if_projections_are_missing fr fault s1 of
           (Inl x, s2) \<Rightarrow> Inl x | (Inr u, s2) \<Rightarrow> Inr s2)"

end
