(* ===== verification/Monitor.thy ===== *)
theory Monitor
  imports StoreReplay
begin

section \<open>The monitor's state over time\<close>

text \<open>
  The steps of a store (ingestion, liveness refresh, replay, retention, reopening), the states
  they reach, and the invariant of those states.  Its heart is that, as long as no event has been
  pruned, the current tables are the projection of the log, up to the liveness that
  \<^verbatim>\<open>refresh_liveness\<close> has written since.
\<close>

subsection \<open>Projections of a log\<close>

definition blank :: database where
  "blank = \<lparr>events = [], runner_state = [], job_state = [], incidents = [], watermarks = [],
     monitor_meta = []\<rparr>"

text \<open>\<open>projects rows d d'\<close>: the rows store events, and applying them in order takes \<open>d\<close> to \<open>d'\<close>
  with the decisions that the rows record.\<close>

inductive projects :: "event_row list \<Rightarrow> database \<Rightarrow> database \<Rightarrow> bool" where
  projects_Nil: "projects [] d d"
| projects_Cons: "stores row e \<Longrightarrow>
     apply_event False True d e (er_received_at row) = Inr (er_applied row, d') \<Longrightarrow>
     projects rows d' d'' \<Longrightarrow> projects (row # rows) d d''"

inductive_cases projects_NilE: "projects [] d d'"
inductive_cases projects_ConsE: "projects (row # rows) d d'"

lemma projects_snoc:
  assumes "projects rows d d'" and "stores row e"
    and "apply_event False True d' e (er_received_at row) = Inr (er_applied row, d'')"
  shows "projects (rows @ [row]) d d''"
  using assms by (induction rule: projects.induct) (auto intro: projects.intros)

lemma projects_stores: "projects rows d d' \<Longrightarrow> row \<in> set rows \<Longrightarrow> \<exists>e. stores row e"
  by (induction rule: projects.induct) auto

subsection \<open>What a projection reads and writes\<close>

definition same_tables :: "database \<Rightarrow> database \<Rightarrow> bool" where
  "same_tables d d' \<longleftrightarrow> runner_state d = runner_state d' \<and> job_state d = job_state d' \<and>
     watermarks d = watermarks d'"

lemma same_tables_gets:
  assumes "same_tables d d'"
  shows "runner_get rid d = runner_get rid d'" "job_get k d = job_get k d'"
    "watermark_get w d = watermark_get w d'"
  using assms by (simp_all add: same_tables_def runner_get_def job_get_def watermark_get_def)

lemma same_tables_project:
  "same_tables d d' \<Longrightarrow> same_tables (snd (project False True d e at)) (snd (project False True d' e at))"
  using same_tables_gets(1) [of d d' "ev_runner_id e"]
  by (auto simp: same_tables_def project_def Let_def upsert_runner_def upsert_job_def
      advance_watermark_def)

lemma apply_event_same_tables:
  assumes "same_tables d d'" and "apply_event False True d e at = Inr (b, d1)"
  obtains d1' where "apply_event False True d' e at = Inr (b, d1')" "same_tables d1 d1'"
    "events d1' = events d'" "incidents d1' = incidents d'" "monitor_meta d1' = monitor_meta d'"
proof -
  note gets = same_tables_gets [OF assms(1)]
  have guards: "runner_accepts d e = runner_accepts d' e" "job_accepts d e = job_accepts d' e"
    "older_attempt_than_runner_current d e = older_attempt_than_runner_current d' e"
    by (simp_all add: runner_accepts_def job_accepts_def older_attempt_than_runner_current_def gets)
  have fst: "fst (project False True d e at) = fst (project False True d' e at)"
    by (simp add: fst_project)
  show ?thesis
  proof (cases "apply_event False True d' e at")
    case (Inl x)
    then show ?thesis using assms(2) by (auto simp: apply_event_def guards rbind_Inl_iff split: if_splits)
  next
    case (Inr p)
    obtain b' d1' where p: "p = (b', d1')" by (cases p)
    from assms(2) show ?thesis
    proof (cases rule: apply_event_cases)
      case rejected
      then have "apply_event False True d' e at = Inr (False, d')"
        using assms(2) Inr p
        by (auto simp: apply_event_def guards rbind_Inr_iff fst_project project_def Let_def
            split: if_splits)
      then show ?thesis using that rejected assms(1) by simp
    next
      case applied
      then have "apply_event False True d' e at = Inr (project False True d' e at)"
        by (auto simp: apply_event_def guards)
      moreover have "fst (project False True d' e at)" using applied(3) by (simp add: fst_project)
      ultimately show ?thesis
        using that [of "snd (project False True d' e at)"] applied same_tables_project [OF assms(1)]
          project_incidents_unmanaged
        by (metis (full_types) prod.collapse project_log)
    qed
  qed
qed

subsection \<open>Equal up to refreshed liveness\<close>

definition erase_runner :: "runner_row \<Rightarrow> runner_row" where
  "erase_runner r = r\<lparr>rs_liveness := [], rs_offline_reason := None\<rparr>"

definition erase_job :: "job_row \<Rightarrow> job_row" where
  "erase_job r = r\<lparr>js_liveness := [], js_offline_reason := None\<rparr>"

text \<open>The left row may have been marked offline since the right one was projected.\<close>

definition runner_agrees :: "runner_row \<Rightarrow> runner_row \<Rightarrow> bool" where
  "runner_agrees r r' \<longleftrightarrow> erase_runner r = erase_runner r' \<and> (rs_liveness r \<noteq> ''offline'' \<longrightarrow> r = r')"

definition job_agrees :: "job_row \<Rightarrow> job_row \<Rightarrow> bool" where
  "job_agrees r r' \<longleftrightarrow> erase_job r = erase_job r' \<and> (js_liveness r \<noteq> ''offline'' \<longrightarrow> r = r')"

definition tables_agree :: "database \<Rightarrow> database \<Rightarrow> bool" where
  "tables_agree d d' \<longleftrightarrow> list_all2 runner_agrees (runner_state d) (runner_state d') \<and>
     list_all2 job_agrees (job_state d) (job_state d') \<and> watermarks d = watermarks d'"

lemma erase_runner_eqD:
  assumes "erase_runner r = erase_runner r'"
  shows "rs_runner_id r = rs_runner_id r'" "rs_activity r = rs_activity r'"
    "rs_last_heartbeat_at r = rs_last_heartbeat_at r'" "rs_last_job_outcome r = rs_last_job_outcome r'"
    "rs_current_repository r = rs_current_repository r'"
    "rs_current_workflow_run_id r = rs_current_workflow_run_id r'"
    "rs_current_run_attempt r = rs_current_run_attempt r'" "rs_current_job_id r = rs_current_job_id r'"
  using assms by (cases r; cases r'; simp add: erase_runner_def)+

lemma erase_job_eqD:
  assumes "erase_job r = erase_job r'"
  shows "job_row_key r = job_row_key r'" "js_state r = js_state r'"
  using assms by (cases r; cases r'; simp add: erase_job_def job_row_key_def)+

lemma runner_agrees_refl [simp]: "runner_agrees r r"
  by (simp add: runner_agrees_def)

lemma job_agrees_refl [simp]: "job_agrees r r"
  by (simp add: job_agrees_def)

lemma agrees_key:
  "runner_agrees r r' \<Longrightarrow> rs_runner_id r = rs_runner_id r'"
  "job_agrees j j' \<Longrightarrow> job_row_key j = job_row_key j'"
  unfolding runner_agrees_def job_agrees_def using erase_runner_eqD(1) erase_job_eqD(1) by blast+

lemma agrees_online:
  "runner_agrees r r' \<Longrightarrow> rs_liveness r \<noteq> ''offline'' \<Longrightarrow> r' = r"
  "job_agrees j j' \<Longrightarrow> js_liveness j \<noteq> ''offline'' \<Longrightarrow> j' = j"
  by (simp_all add: runner_agrees_def job_agrees_def)

lemma runner_values_agree:
  assumes "rel_option runner_agrees x x'"
  shows "runner_values x e at l ac h t r = runner_values x' e at l ac h t r"
proof (cases x)
  case None
  then show ?thesis using assms by simp
next
  case (Some y)
  then obtain y' where x': "x' = Some y'" and e: "erase_runner y = erase_runner y'"
    using assms by (cases x') (auto simp: runner_agrees_def)
  show ?thesis by (simp add: Some x' runner_values_def Let_def erase_runner_eqD [OF e])
qed

lemma list_all2_get:
  assumes "list_all2 R rs rs'" and "\<And>r r'. R r r' \<Longrightarrow> kf r = kf r'"
  shows "rel_option R (tbl_get kf k rs) (tbl_get kf k rs')"
  using assms(1) by (induction rule: list_all2_induct) (auto dest: assms(2))

lemma list_all2_upsert:
  assumes "list_all2 R rs rs'" and "\<And>r r'. R r r' \<Longrightarrow> kf r = kf r'" and "R x x'"
  shows "list_all2 R (tbl_upsert kf x rs) (tbl_upsert kf x' rs')"
  using assms(1)
proof (induction rule: list_all2_induct)
  case Nil
  then show ?case by (simp add: assms(3))
next
  case (Cons r rs r' rs')
  have "kf r = kf r'" "kf x = kf x'" using assms(2) assms(3) Cons.hyps by blast+
  then show ?case using Cons assms(3) by simp
qed

lemma list_all2_amend:
  assumes "list_all2 R rs rs'" and "\<And>r r'. R r r' \<Longrightarrow> R (f r) r'"
  shows "list_all2 R (tbl_amend kf k f rs) rs'"
  using assms(1) by (induction rule: list_all2_induct) (auto simp: tbl_amend_def tbl_update_def assms(2))

lemma agree_gets:
  assumes "tables_agree d d'"
  shows "rel_option runner_agrees (runner_get rid d) (runner_get rid d')"
    "rel_option job_agrees (job_get k d) (job_get k d')" "watermark_get w d = watermark_get w d'"
  using assms list_all2_get [of runner_agrees "runner_state d" "runner_state d'" rs_runner_id rid]
    list_all2_get [of job_agrees "job_state d" "job_state d'" job_row_key k]
  by (auto simp: tables_agree_def runner_get_def job_get_def watermark_get_def agrees_key)

lemma agree_guards:
  assumes "tables_agree d d'"
  shows "runner_accepts d e = runner_accepts d' e" "job_accepts d e = job_accepts d' e"
    "older_attempt_than_runner_current d e = older_attempt_than_runner_current d' e"
proof -
  note g = agree_gets [OF assms]
  show "runner_accepts d e = runner_accepts d' e" by (simp add: runner_accepts_def g(3))
  show "job_accepts d e = job_accepts d' e"
  proof (cases "job_get (event_job_key e) d")
    case None
    then show ?thesis using g(2) [of "event_job_key e"] by (simp add: job_accepts_def)
  next
    case (Some r)
    then obtain r' where r': "job_get (event_job_key e) d' = Some r'" "erase_job r = erase_job r'"
      using g(2) [of "event_job_key e"]
      by (cases "job_get (event_job_key e) d'") (auto simp: job_agrees_def)
    show ?thesis by (simp add: job_accepts_def Some r'(1) erase_job_eqD(2) [OF r'(2)])
  qed
  show "older_attempt_than_runner_current d e = older_attempt_than_runner_current d' e"
  proof (cases "runner_get (ev_runner_id e) d")
    case None
    then show ?thesis using g(1) [of "ev_runner_id e"] by (simp add: older_attempt_than_runner_current_def)
  next
    case (Some r)
    then obtain r' where r': "runner_get (ev_runner_id e) d' = Some r'" "erase_runner r = erase_runner r'"
      using g(1) [of "ev_runner_id e"]
      by (cases "runner_get (ev_runner_id e) d'") (auto simp: runner_agrees_def)
    show ?thesis
      by (simp add: older_attempt_than_runner_current_def Some r'(1) erase_runner_eqD [OF r'(2)])
  qed
qed

lemma agree_upsert_runner:
  assumes "tables_agree d d'"
  shows "tables_agree (upsert_runner d e at l ac h t r) (upsert_runner d' e at l ac h t r)"
  using assms runner_values_agree [OF agree_gets(1) [OF assms]]
  by (auto simp: tables_agree_def upsert_runner_def intro!: list_all2_upsert dest: agrees_key)

lemma agree_upsert_job:
  assumes "tables_agree d d'"
  shows "tables_agree (upsert_job d e at st out) (upsert_job d' e at st out)"
  using assms by (auto simp: tables_agree_def upsert_job_def intro!: list_all2_upsert dest: agrees_key)

lemma agree_advance:
  "tables_agree d d' \<Longrightarrow> tables_agree (advance_watermark d e) (advance_watermark d' e)"
  by (simp add: tables_agree_def advance_watermark_def)

lemma agree_cong:
  "same_tables d e \<Longrightarrow> same_tables d' e' \<Longrightarrow> tables_agree d d' = tables_agree e e'"
  by (simp add: tables_agree_def same_tables_def)

lemma agree_recover: "tables_agree d d' \<Longrightarrow> tables_agree (recover_resource d k r now) d'"
  by (simp add: tables_agree_def)

lemma agree_project:
  assumes "tables_agree d d'"
  shows "tables_agree (snd (project True True d e at)) (snd (project False True d' e at))"
  using assms unfolding project_def Let_def
  by (auto intro!: agree_upsert_runner agree_upsert_job agree_advance agree_recover)

lemma apply_event_agree:
  assumes "tables_agree d d'" and "apply_event True True d e at = Inr (b, d1)"
  obtains d1' where "apply_event False True d' e at = Inr (b, d1')" "tables_agree d1 d1'"
proof -
  note guards = agree_guards [OF assms(1)]
  from assms(2) show ?thesis
  proof (cases rule: apply_event_cases)
    case rejected
    then have "apply_event False True d' e at = Inr (False, d')"
      using assms(2)
      by (auto simp: apply_event_def guards rbind_Inr_iff project_def Let_def split: if_splits)
    then show ?thesis using that rejected assms(1) by simp
  next
    case applied
    then have "apply_event False True d' e at = Inr (project False True d' e at)"
      by (auto simp: apply_event_def guards)
    moreover have "project False True d' e at = (True, snd (project False True d' e at))"
      using applied(3) fst_project by (metis prod.collapse)
    ultimately show ?thesis
      using that [of "snd (project False True d' e at)"] applied(1,2) agree_project [OF assms(1)] by simp
  qed
qed

lemma mark_agrees:
  "runner_agrees r r' \<Longrightarrow> runner_agrees (mark_runner r) r'"
  "job_agrees j j' \<Longrightarrow> job_agrees (mark_job j) j'"
  by (simp_all add: runner_agrees_def job_agrees_def erase_runner_def erase_job_def mark_runner_def
      mark_job_def)

lemma list_all2_amends:
  assumes "list_all2 R rs rs'" and "\<And>r r'. R r r' \<Longrightarrow> R (f r) r'"
  shows "list_all2 R (fold (\<lambda>k. tbl_amend kf k f) ks rs) rs'"
  using assms(1) by (induction ks arbitrary: rs) (simp_all add: list_all2_amend assms(2))

subsection \<open>Resource ids\<close>

text \<open>Keys of job rows: a repository without a colon, integers that SQLite stores.\<close>

definition job_key_ok :: "job_key \<Rightarrow> bool" where
  "job_key_ok k = (CHR '':'' \<notin> set (fst k) \<and> job_key_fits k)"

lemma split_char_append:
  "d \<notin> set a \<Longrightarrow> split_char d (a @ d # b) = a # split_char d b"
  by (induction a) auto

lemma split_char_single: "d \<notin> set a \<Longrightarrow> split_char d a = [a]"
  by (induction a) auto

lemma int_text_no_colon: "CHR '':'' \<notin> set (int_text n)"
proof -
  have "\<not> is_digit (CHR '':'')" by (simp add: is_digit_def between_def code_def)
  then have "CHR '':'' \<notin> set (nat_digits m)" for m
    using nat_digits_are_digits [of m] by (auto simp: list_all_iff)
  then show ?thesis by (simp add: int_text_def)
qed

lemma fits_digits: "fits_int64 n \<Longrightarrow> int_of_text 10 (int_text n) = Some n"
proof (rule int_of_text_int_text)
  assume "fits_int64 n"
  then have "\<bar>n\<bar> < 10000000000000000000" unfolding fits_int64_def by simp linarith
  then have "nat \<bar>n\<bar> < 10 ^ Suc 18" by (simp add: nat_less_iff)
  then have "length (nat_digits (nat \<bar>n\<bar>)) \<le> Suc 18" by (rule length_nat_digits)
  then show "length (nat_digits (nat \<bar>n\<bar>)) \<le> INT_MAX_STR_DIGITS" by (simp add: INT_MAX_STR_DIGITS_def)
qed

lemma parse_resource_id:
  assumes "job_key_ok k"
  shows "parse_job_resource_id (resource_id_of_key k) = Some k"
proof -
  obtain repo run att job where k: "k = (repo, run, att, job)" by (cases k) auto
  have "split_char (CHR '':'') (resource_id_of_key k) =
      [repo, int_text run, int_text att, int_text job]"
    using assms by (simp add: k resource_id_of_key_def job_key_ok_def split_char_append split_char_single
        int_text_no_colon)
  moreover have "fits_int64 run" "fits_int64 att" "fits_int64 job"
    using assms by (simp_all add: k job_key_ok_def job_key_fits_def)
  ultimately show ?thesis by (simp add: parse_job_resource_id_def fits_digits k)
qed

lemma REPOSITORY_no_colon:
  assumes "fullmatch REPOSITORY s"
  shows "CHR '':'' \<notin> set s"
proof -
  have tc: "\<not> token_char (CHR '':'')" "\<not> is_alnum (CHR '':'')"
    by (simp_all add: token_char_def is_alnum_def is_alpha_def is_lower_def is_upper_def is_digit_def
        between_def code_def one_of_def)
  obtain prev where "(prev, []) \<in> set (ends REPOSITORY (None, s))"
    using assms by (auto simp: fullmatch_iff)
  then obtain c cs p1 d r1 where s: "s = c # cs" "is_alnum c" "is_alnum d"
    "(p1, CHR ''/'' # d # r1) \<in> set (iterate 99 (ends (Cls token_char)) (Some c, cs))"
    "(prev, []) \<in> set (iterate 99 (ends (Cls token_char)) (Some d, r1)) \<or>
     (prev, [newline]) \<in> set (iterate 99 (ends (Cls token_char)) (Some d, r1))"
    by (cases s) (auto simp: REPOSITORY_def split: if_splits list.splits)
  then obtain w1 w2 where "cs = w1 @ CHR ''/'' # d # r1" "list_all token_char w1"
    "r1 = w2 \<or> r1 = w2 @ [newline]" "list_all token_char w2"
    unfolding iterate_Cls by auto
  then show ?thesis using s(1-3) tc by (auto simp: list_all_iff newline_def)
qed

lemma text_at_freeze: "text_at (freeze m) k = text_at m k"
  by (cases "pget m k") (simp_all add: text_at_def pget_freeze)

lemma valid_job_key:
  assumes "event_contract p" and "ev_type (event_of p) \<in> set job_types"
    and "job_key_fits (event_job_key (event_of p))"
  shows "job_key_ok (event_job_key (event_of p))"
proof -
  have "job_contract (pget p ''job'')"
    using assms(1,2) by (auto simp: event_contract_def body_contract_def event_of_def job_types_def)
  then have "fullmatch REPOSITORY (text_at (pget p ''job'') ''repository'')"
    by (auto simp: job_contract_def text_field_iff)
  then have "CHR '':'' \<notin> set (fst (event_job_key (event_of p)))"
    using REPOSITORY_no_colon
    by (simp add: event_job_key_def event_job_def Let_def event_of_def pget_freeze text_at_freeze)
  then show ?thesis using assms(3) by (simp add: job_key_ok_def)
qed

subsection \<open>Incidents and rows\<close>

text \<open>
  An open incident of a runner or job belongs to a row that is offline, and the keys of the job
  rows can be written into an incident and read back.
\<close>

definition incidents_inv :: "database \<Rightarrow> bool" where
  "incidents_inv d \<longleftrightarrow>
     (\<forall>r c. is_open d ''runner'' r c \<longrightarrow>
        (\<exists>row. runner_get r d = Some row \<and> rs_liveness row = ''offline'')) \<and>
     (\<forall>r c. is_open d ''job'' r c \<longrightarrow> c = ''heartbeat_timeout'' \<and>
        (\<exists>k row. r = resource_id_of_key k \<and> job_get k d = Some row \<and> js_liveness row = ''offline'' \<and>
           js_offline_reason row = Some ''heartbeat_timeout'')) \<and>
     (\<forall>k row. job_get k d = Some row \<longrightarrow> job_key_ok k)"

lemma incidents_invI:
  assumes "\<And>r c. is_open d ''runner'' r c \<Longrightarrow>
      \<exists>row. runner_get r d = Some row \<and> rs_liveness row = ''offline''"
    and "\<And>r c. is_open d ''job'' r c \<Longrightarrow> c = ''heartbeat_timeout'' \<and>
        (\<exists>k row. r = resource_id_of_key k \<and> job_get k d = Some row \<and> js_liveness row = ''offline'' \<and>
           js_offline_reason row = Some ''heartbeat_timeout'')"
    and "\<And>k row. job_get k d = Some row \<Longrightarrow> job_key_ok k"
  shows "incidents_inv d"
  using assms unfolding incidents_inv_def by blast

lemma incidents_inv_key: "incidents_inv d \<Longrightarrow> job_get k d = Some row \<Longrightarrow> job_key_ok k"
  unfolding incidents_inv_def by blast

lemma incidents_inv_cong:
  assumes "same_tables d d'" and "incidents d = incidents d'"
  shows "incidents_inv d = incidents_inv d'"
  unfolding incidents_inv_def same_tables_gets [OF assms(1)]
  using is_open_cong [OF assms(2)] by simp

lemma incidents_inv_project:
  assumes inv: "incidents_inv d" and lt: "ev_type e \<in> set lifecycle_types"
    and key: "ev_type e \<in> set job_types \<Longrightarrow> job_key_ok (event_job_key e)"
  shows "incidents_inv (snd (project True True d e at))"
proof (rule incidents_invI)
  fix r c assume o': "is_open (snd (project True True d e at)) ''runner'' r c"
  then have "is_open d ''runner'' r c"
    and nr: "\<not> (ev_type e \<in> {''runner.heartbeat''} \<union> set job_types \<and> r = ev_runner_id e)"
    by (auto simp: is_open_project)
  then obtain row where row: "runner_get r d = Some row" "rs_liveness row = ''offline''"
    using inv by (auto simp: incidents_inv_def)
  show "\<exists>row. runner_get r (snd (project True True d e at)) = Some row \<and> rs_liveness row = ''offline''"
  proof (cases "r = ev_runner_id e")
    case True
    then have "ev_type e = ''runner.offline''" using nr lt by (auto simp: lifecycle_types_def)
    then show ?thesis using True lt by (simp add: runner_get_project runner_after_def)
  next
    case False
    then show ?thesis using row by (simp add: runner_get_project)
  qed
next
  fix r c assume "is_open (snd (project True True d e at)) ''job'' r c"
  then have o': "is_open d ''job'' r c" and nj: "\<not> (ev_type e \<in> set job_types \<and> r = event_resource_id e)"
    by (auto simp: is_open_project)
  then obtain k row where k: "c = ''heartbeat_timeout''" "r = resource_id_of_key k" "job_get k d = Some row"
    "js_liveness row = ''offline''" "js_offline_reason row = Some ''heartbeat_timeout''"
    using inv unfolding incidents_inv_def by blast
  then have "\<not> (k = event_job_key e \<and> ev_type e \<in> set job_types)"
    using nj by (auto simp: event_resource_id_def)
  then have "job_get k (snd (project True True d e at)) = Some row" using k by (auto simp: job_get_project)
  then show "c = ''heartbeat_timeout'' \<and> (\<exists>k row. r = resource_id_of_key k \<and>
      job_get k (snd (project True True d e at)) = Some row \<and> js_liveness row = ''offline'' \<and>
      js_offline_reason row = Some ''heartbeat_timeout'')" using k by blast
next
  fix k row assume "job_get k (snd (project True True d e at)) = Some row"
  then show "job_key_ok k"
    using incidents_inv_key [OF inv] key by (auto simp: job_get_project split: if_splits)
qed

lemma incidents_inv_open_runner:
  assumes "incidents_inv d" and "runner_get rid d = Some row" "rs_liveness row = ''offline''"
  shows "incidents_inv (snd (open_incident d ''runner'' rid c now))"
proof -
  have g: "runner_get r (snd (open_incident d ''runner'' rid c now)) = runner_get r d"
    "job_get k (snd (open_incident d ''runner'' rid c now)) = job_get k d" for r k
    by (simp_all add: runner_get_def job_get_def)
  show ?thesis using assms unfolding incidents_inv_def g is_open_open_incident by auto
qed

lemma incidents_inv_mark_runner:
  assumes "incidents_inv d" and "runner_get rid d \<noteq> None"
  shows "incidents_inv (snd (mark_runner_step now rid d))"
proof (rule incidents_invI)
  have rg: "runner_get r (snd (mark_runner_step now rid d)) =
      (if r = rid then map_option mark_runner (runner_get r d) else runner_get r d)" for r
    by (simp add: runner_get_def runners.get_amend)
  have jg: "job_get k (snd (mark_runner_step now rid d)) = job_get k d" for k
    by (rule job_get_cong) simp
  fix r c assume "is_open (snd (mark_runner_step now rid d)) ''runner'' r c"
  then consider "r = rid" | "is_open d ''runner'' r c" by (auto simp: is_open_mark_step)
  then show "\<exists>row. runner_get r (snd (mark_runner_step now rid d)) = Some row \<and> rs_liveness row = ''offline''"
    using assms by cases (auto simp: rg incidents_inv_def)
next
  have jg: "job_get k (snd (mark_runner_step now rid d)) = job_get k d" for k
    by (rule job_get_cong) simp
  fix r c assume "is_open (snd (mark_runner_step now rid d)) ''job'' r c"
  then have "is_open d ''job'' r c" by (auto simp: is_open_mark_step)
  then show "c = ''heartbeat_timeout'' \<and> (\<exists>k row. r = resource_id_of_key k \<and>
      job_get k (snd (mark_runner_step now rid d)) = Some row \<and> js_liveness row = ''offline'' \<and>
      js_offline_reason row = Some ''heartbeat_timeout'')"
    using assms(1) unfolding jg incidents_inv_def by blast
next
  have jg: "job_get k (snd (mark_runner_step now rid d)) = job_get k d" for k
    by (rule job_get_cong) simp
  fix k row assume "job_get k (snd (mark_runner_step now rid d)) = Some row"
  then show "job_key_ok k" using assms(1) unfolding jg incidents_inv_def by blast
qed

lemma incidents_inv_mark_job:
  assumes "incidents_inv d" and "job_get k d \<noteq> None"
  shows "incidents_inv (snd (mark_job_step now k d))"
proof -
  have jg: "job_get k' (snd (mark_job_step now k d)) =
      (if k' = k then map_option mark_job (job_get k' d) else job_get k' d)" for k'
    by (simp add: job_get_def jobs.get_amend)
  have rg: "runner_get r (snd (mark_job_step now k d)) = runner_get r d" for r
    by (rule runner_get_cong) simp
  have marked: "\<exists>row'. job_get k' (snd (mark_job_step now k d)) = Some row' \<and> js_liveness row' = ''offline'' \<and>
      js_offline_reason row' = Some ''heartbeat_timeout''"
    if "k' = k \<or> (\<exists>row. job_get k' d = Some row \<and> js_liveness row = ''offline'' \<and>
      js_offline_reason row = Some ''heartbeat_timeout'')" for k'
    using that assms(2) by (cases "k' = k") (auto simp: jg mark_job_def)
  show ?thesis
  proof (rule incidents_invI)
    fix r c assume "is_open (snd (mark_job_step now k d)) ''runner'' r c"
    then have "is_open d ''runner'' r c" by (auto simp: is_open_mark_step)
    then show "\<exists>row. runner_get r (snd (mark_job_step now k d)) = Some row \<and> rs_liveness row = ''offline''"
      using assms(1) unfolding rg incidents_inv_def by blast
  next
    fix r c assume "is_open (snd (mark_job_step now k d)) ''job'' r c"
    then consider "r = resource_id_of_key k" "c = ''heartbeat_timeout''" | "is_open d ''job'' r c"
      by (auto simp: is_open_mark_step)
    then show "c = ''heartbeat_timeout'' \<and> (\<exists>k' row. r = resource_id_of_key k' \<and>
        job_get k' (snd (mark_job_step now k d)) = Some row \<and> js_liveness row = ''offline'' \<and>
        js_offline_reason row = Some ''heartbeat_timeout'')"
    proof cases
      case 1
      then show ?thesis using marked [of k] by blast
    next
      case 2
      then obtain k' row where "c = ''heartbeat_timeout''" "r = resource_id_of_key k'"
        "job_get k' d = Some row" "js_liveness row = ''offline''"
        "js_offline_reason row = Some ''heartbeat_timeout''"
        using assms(1) unfolding incidents_inv_def by blast
      then show ?thesis using marked [of k'] by blast
    qed
  next
    fix k' row assume "job_get k' (snd (mark_job_step now k d)) = Some row"
    then have "\<exists>row. job_get k' d = Some row" by (auto simp: jg split: if_splits)
    then show "job_key_ok k'" using assms(1) unfolding incidents_inv_def by blast
  qed
qed

lemma incidents_inv_mark_runners:
  "incidents_inv d \<Longrightarrow> \<forall>rid \<in> set rids. runner_get rid d \<noteq> None \<Longrightarrow>
   incidents_inv (snd (mark_runners now rids d))"
proof (induction rids arbitrary: d)
  case (Cons rid rids)
  have "runner_get r (snd (mark_runner_step now rid d)) \<noteq> None" if "runner_get r d \<noteq> None" for r
    using that by (auto simp: runner_get_def runners.get_amend)
  then show ?case using Cons incidents_inv_mark_runner by (simp add: mark_runners_Cons)
qed simp

lemma incidents_inv_mark_jobs:
  "incidents_inv d \<Longrightarrow> \<forall>k \<in> set ks. job_get k d \<noteq> None \<Longrightarrow> incidents_inv (snd (mark_jobs now ks d))"
proof (induction ks arbitrary: d)
  case (Cons k ks)
  have "job_get k' (snd (mark_job_step now k d)) \<noteq> None" if "job_get k' d \<noteq> None" for k'
    using that by (auto simp: job_get_def jobs.get_amend)
  then show ?case using Cons incidents_inv_mark_job by (simp add: mark_jobs_Cons)
qed simp

subsection \<open>Replaying a log\<close>

lemma set_applied_same:
  assumes "row \<in> set (events d)" and "tbl_keys er_event_id (events d)"
  shows "set_applied d (er_event_id row) (er_applied row) = d"
proof -
  have "r\<lparr>er_applied := er_applied row\<rparr> = r" if "r \<in> set (events d)" "er_event_id r = er_event_id row" for r
  proof -
    have "r = row" using that assms by (auto simp: tbl_keys_def distinct_map inj_on_def)
    then show ?thesis by simp
  qed
  then have "tbl_amend er_event_id (er_event_id row) (\<lambda>r. r\<lparr>er_applied := er_applied row\<rparr>) (events d) = events d"
    by (auto simp: tbl_amend_def tbl_update_def intro: map_idI)
  then show ?thesis by (simp add: set_applied_def)
qed

lemma replay_rows_projects:
  assumes "projects rows d d'" and "same_tables d D" and "set rows \<subseteq> set (events D)"
    and "tbl_keys er_event_id (events D)"
  obtains D' where "replay_rows fr rows D = Inr D'" "same_tables d' D'" "events D' = events D"
    "incidents D' = incidents D" "monitor_meta D' = monitor_meta D"
proof -
  have "\<exists>D'. replay_rows fr rows D = Inr D' \<and> same_tables d' D' \<and> events D' = events D \<and>
    incidents D' = incidents D \<and> monitor_meta D' = monitor_meta D"
    using assms
  proof (induction arbitrary: D rule: projects.induct)
    case (projects_Nil d)
    then show ?case by simp
  next
    case (projects_Cons row e d d' rows d'')
    obtain D1 where D1: "apply_event False True D e (er_received_at row) = Inr (er_applied row, D1)"
      "same_tables d' D1" "events D1 = events D" "incidents D1 = incidents D"
      "monitor_meta D1 = monitor_meta D"
      using apply_event_same_tables [OF projects_Cons.prems(1) projects_Cons.hyps(2)] by blast
    have "row \<in> set (events D1)" "tbl_keys er_event_id (events D1)"
      using projects_Cons.prems D1(3) by auto
    then have "set_applied D1 (er_event_id row) (er_applied row) = D1" by (rule set_applied_same)
    then have "replay_row fr row D = Inr D1"
      using stores_decodes [OF projects_Cons.hyps(1)] D1(1) by (simp add: replay_row_def)
    then show ?case using projects_Cons.IH [of D1] projects_Cons.prems D1 by simp
  qed
  then show ?thesis using that by blast
qed

subsection \<open>Restoring the liveness\<close>

lemma get_fold_amends:
  assumes "\<And>r x. kf (g r x) = kf x" and "distinct (map kf rs)"
  shows "tbl_get kf k (fold (\<lambda>r. tbl_amend kf (kf r) (g r)) rs t) =
    (case tbl_get kf k rs of None \<Rightarrow> tbl_get kf k t | Some r \<Rightarrow> map_option (g r) (tbl_get kf k t))"
  using assms(2)
proof (induction rs arbitrary: t)
  case (Cons r rs)
  have "tbl_get kf (kf r) rs = None" using Cons.prems by (auto simp: tbl_get_None_iff)
  then show ?case using Cons by (auto simp: tbl_get_amend assms(1) split: option.splits)
qed simp

lemma map_key_fold_amends:
  assumes "\<And>r x. kf (g r x) = kf x"
  shows "map kf (fold (\<lambda>r. tbl_amend kf (kf r) (g r)) rs t) = map kf t"
  by (induction rs arbitrary: t) (simp_all add: map_key_amend assms)

lemma tbl_get_filter:
  "tbl_keys kf rs \<Longrightarrow> tbl_get kf k (filter p rs) =
    (case tbl_get kf k rs of None \<Rightarrow> None | Some r \<Rightarrow> if p r then Some r else None)"
proof (induction rs)
  case (Cons a rs)
  then have IH: "tbl_get kf k (filter p rs) =
      (case tbl_get kf k rs of None \<Rightarrow> None | Some r \<Rightarrow> if p r then Some r else None)"
    and "kf a \<notin> kf ` set rs" by (simp_all add: tbl_keys_def)
  then have "kf a = k \<Longrightarrow> tbl_get kf k rs = None" by (simp add: tbl_get_None_iff)
  then show ?case using IH by auto
qed simp

text \<open>A table that agrees with a saved one becomes it when the offline rows are restored.\<close>

lemma restore_rows:
  assumes agree: "list_all2 R rs rs'" and key: "\<And>r r'. R r r' \<Longrightarrow> kf r = kf r'"
    and keys: "tbl_keys kf rs" and gkey: "\<And>r x. kf (g r x) = kf x"
    and offline: "\<And>r r'. R r r' \<Longrightarrow> p r \<Longrightarrow> g r r' = r" and online: "\<And>r r'. R r r' \<Longrightarrow> \<not> p r \<Longrightarrow> r' = r"
  shows "fold (\<lambda>r. tbl_amend kf (kf r) (g r)) (filter p rs) rs' = rs"
proof (rule tbl_eqI)
  have maps: "map kf rs' = map kf rs" using agree by (induction rule: list_all2_induct) (auto dest: key)
  then show "map kf (fold (\<lambda>r. tbl_amend kf (kf r) (g r)) (filter p rs) rs') = map kf rs"
    by (simp add: map_key_fold_amends gkey)
  then show "tbl_keys kf (fold (\<lambda>r. tbl_amend kf (kf r) (g r)) (filter p rs) rs')"
    using keys by (simp add: tbl_keys_def)
  fix k
  have dist: "distinct (map kf (filter p rs))" using keys by (simp add: tbl_keys_def distinct_map_filter)
  have rel: "rel_option R (tbl_get kf k rs) (tbl_get kf k rs')"
    using agree key by (rule list_all2_get)
  have get: "tbl_get kf k (fold (\<lambda>r. tbl_amend kf (kf r) (g r)) (filter p rs) rs') =
      (case tbl_get kf k (filter p rs) of None \<Rightarrow> tbl_get kf k rs'
       | Some r \<Rightarrow> map_option (g r) (tbl_get kf k rs'))"
    using gkey dist by (rule get_fold_amends)
  show "tbl_get kf k (fold (\<lambda>r. tbl_amend kf (kf r) (g r)) (filter p rs) rs') = tbl_get kf k rs"
  proof (cases "tbl_get kf k rs")
    case None
    then show ?thesis using rel get keys by (simp add: tbl_get_filter)
  next
    case (Some r)
    then obtain r' where r': "tbl_get kf k rs' = Some r'" "R r r'"
      using rel by (cases "tbl_get kf k rs'") auto
    show ?thesis
    proof (cases "p r")
      case True
      then show ?thesis using Some r' offline [OF r'(2)] keys by (simp add: get tbl_get_filter)
    next
      case False
      then show ?thesis using Some r' online [OF r'(2)] keys by (simp add: get tbl_get_filter)
    qed
  qed
qed

lemma list_all2_amend_right:
  assumes "list_all2 R rs rs'" and "\<And>r r'. r \<in> set rs \<Longrightarrow> R r r' \<Longrightarrow> kf r' = k \<Longrightarrow> R r (f r')"
  shows "list_all2 R rs (tbl_amend kf k f rs')"
  using assms by (induction rule: list_all2_induct) (auto simp: tbl_amend_def tbl_update_def)

lemma fold_set_runner_offline:
  "runner_state (fold (\<lambda>r. set_runner_offline (rs_runner_id r) (rs_offline_reason r)) rs d) =
     fold (\<lambda>r. tbl_amend rs_runner_id (rs_runner_id r)
       (\<lambda>x. x\<lparr>rs_liveness := ''offline'', rs_offline_reason := rs_offline_reason r\<rparr>)) rs (runner_state d)"
  "job_state (fold (\<lambda>r. set_runner_offline (rs_runner_id r) (rs_offline_reason r)) rs d) = job_state d"
  "events (fold (\<lambda>r. set_runner_offline (rs_runner_id r) (rs_offline_reason r)) rs d) = events d"
  "incidents (fold (\<lambda>r. set_runner_offline (rs_runner_id r) (rs_offline_reason r)) rs d) = incidents d"
  "watermarks (fold (\<lambda>r. set_runner_offline (rs_runner_id r) (rs_offline_reason r)) rs d) = watermarks d"
  "monitor_meta (fold (\<lambda>r. set_runner_offline (rs_runner_id r) (rs_offline_reason r)) rs d) = monitor_meta d"
  by (induction rs arbitrary: d) (simp_all add: set_runner_offline_def)

lemma fold_set_job_offline:
  "job_state (fold (\<lambda>r. set_job_offline (job_row_key r) (js_offline_reason r)) rs d) =
     fold (\<lambda>r. tbl_amend job_row_key (job_row_key r)
       (\<lambda>x. x\<lparr>js_liveness := ''offline'', js_offline_reason := js_offline_reason r\<rparr>)) rs (job_state d)"
  "runner_state (fold (\<lambda>r. set_job_offline (job_row_key r) (js_offline_reason r)) rs d) = runner_state d"
  "events (fold (\<lambda>r. set_job_offline (job_row_key r) (js_offline_reason r)) rs d) = events d"
  "incidents (fold (\<lambda>r. set_job_offline (job_row_key r) (js_offline_reason r)) rs d) = incidents d"
  "watermarks (fold (\<lambda>r. set_job_offline (job_row_key r) (js_offline_reason r)) rs d) = watermarks d"
  "monitor_meta (fold (\<lambda>r. set_job_offline (job_row_key r) (js_offline_reason r)) rs d) = monitor_meta d"
  by (induction rs arbitrary: d) (simp_all add: set_job_offline_def)

lemma restored_row:
  "runner_agrees r r' \<Longrightarrow> rs_liveness r = ''offline'' \<Longrightarrow>
     r'\<lparr>rs_liveness := ''offline'', rs_offline_reason := rs_offline_reason r\<rparr> = r"
  "job_agrees j j' \<Longrightarrow> js_liveness j = ''offline'' \<Longrightarrow>
     j'\<lparr>js_liveness := ''offline'', js_offline_reason := js_offline_reason j\<rparr> = j"
  by (cases r; cases r'; simp add: runner_agrees_def erase_runner_def)
     (cases j; cases j'; simp add: job_agrees_def erase_job_def)

lemma restore_runner_rows:
  assumes "tables_agree d D" and "keys_ok d"
  shows "runner_state (fold (\<lambda>r. set_runner_offline (rs_runner_id r) (rs_offline_reason r))
    (filter (\<lambda>r. rs_liveness r = ''offline'') (runner_state d)) D) = runner_state d"
  unfolding fold_set_runner_offline
proof (rule restore_rows)
  show "list_all2 runner_agrees (runner_state d) (runner_state D)"
    using assms(1) by (simp add: tables_agree_def)
  show "tbl_keys rs_runner_id (runner_state d)" using assms(2) by (simp add: keys_ok_def)
qed (auto simp: agrees_key restored_row dest: agrees_online)

lemma restore_job_rows:
  assumes "tables_agree d D" and "keys_ok d"
  shows "job_state (fold (\<lambda>r. set_job_offline (job_row_key r) (js_offline_reason r))
    (filter (\<lambda>r. js_liveness r = ''offline'') (job_state d)) D) = job_state d"
  unfolding fold_set_job_offline
proof (rule restore_rows)
  show "list_all2 job_agrees (job_state d) (job_state D)"
    using assms(1) by (simp add: tables_agree_def)
  show "tbl_keys job_row_key (job_state d)" using assms(2) by (simp add: keys_ok_def)
  show "\<And>r x. job_row_key (x\<lparr>js_liveness := ''offline'', js_offline_reason := js_offline_reason r\<rparr>) =
      job_row_key x"
    by (simp add: job_row_key_def)
qed (auto simp: agrees_key restored_row dest: agrees_online)

subsection \<open>Restoring what the open incidents say\<close>

text \<open>
  A replayed runner row is the old row, or, if the runner has an open incident, the old row
  with that incident's condition as the reason.
\<close>

definition reason_of_incident :: "database \<Rightarrow> runner_row \<Rightarrow> runner_row \<Rightarrow> bool" where
  "reason_of_incident d r r' \<longleftrightarrow> r' = r \<or>
     (rs_liveness r = ''offline'' \<and>
      (\<exists>c. is_open d ''runner'' (rs_runner_id r) c \<and> r' = r\<lparr>rs_offline_reason := Some c\<rparr>))"

lemma reason_of_incident_sel:
  "reason_of_incident d r r' \<Longrightarrow> rs_runner_id r' = rs_runner_id r \<and> rs_liveness r' = rs_liveness r"
  by (auto simp: reason_of_incident_def)

lemma set_job_offline_same:
  assumes "tbl_keys job_row_key (job_state D)" and "job_get k D = Some row" and "js_liveness row = ''offline''"
    and "js_offline_reason row = reason"
  shows "set_job_offline k reason D = D"
proof -
  have "r\<lparr>js_liveness := ''offline'', js_offline_reason := reason\<rparr> = r"
    if "r \<in> set (job_state D)" "job_row_key r = k" for r
  proof -
    have "tbl_get job_row_key k (job_state D) = Some r" using tbl_get_in [OF assms(1) that(1)] that(2) by simp
    then have "r = row" using assms(2) by (simp add: job_get_def)
    then show ?thesis using assms(3,4) by (cases row) simp
  qed
  then have "tbl_amend job_row_key k (\<lambda>r. r\<lparr>js_liveness := ''offline'', js_offline_reason := reason\<rparr>)
      (job_state D) = job_state D"
    by (auto simp: tbl_amend_def tbl_update_def intro: map_idI)
  then show ?thesis by (simp add: set_job_offline_def)
qed

text \<open>The state while the open incidents are gone through.\<close>

definition restoring :: "database \<Rightarrow> database \<Rightarrow> bool" where
  "restoring d D \<longleftrightarrow> events D = events d \<and> watermarks D = watermarks d \<and> job_state D = job_state d \<and>
     incidents D = incidents d \<and> monitor_meta D = monitor_meta d \<and>
     list_all2 (reason_of_incident d) (runner_state d) (runner_state D)"

lemma restore_incident_restoring:
  assumes inv: "incidents_inv d" and keys: "keys_ok d" and D: "restoring d D"
    and i: "is_open d (in_kind i) (in_resource i) (in_condition i)"
  obtains D' where "restore_incident i D = Inr D'" "restoring d D'"
proof -
  consider (runner) "in_kind i = ''runner''" | (job) "in_kind i = ''job''"
    | (other) "in_kind i \<noteq> ''runner''" "in_kind i \<noteq> ''job''" by blast
  then show ?thesis
  proof cases
    case runner
    let ?f = "\<lambda>r. r\<lparr>rs_liveness := ''offline'', rs_offline_reason := Some (in_condition i)\<rparr>"
    have "reason_of_incident d r (?f r')"
      if r: "r \<in> set (runner_state d)" and rr: "reason_of_incident d r r'" and id: "rs_runner_id r' = in_resource i"
      for r r'
    proof -
      have rid: "rs_runner_id r = in_resource i" using reason_of_incident_sel [OF rr] id by simp
      then have "runner_get (in_resource i) d = Some r"
        using r keys tbl_get_in [of rs_runner_id "runner_state d" r]
        by (simp add: runner_get_def keys_ok_def)
      moreover obtain row where "runner_get (in_resource i) d = Some row" "rs_liveness row = ''offline''"
        using inv i runner unfolding incidents_inv_def by metis
      ultimately have off: "rs_liveness r = ''offline''" by simp
      have "?f r' = r\<lparr>rs_offline_reason := Some (in_condition i)\<rparr>"
        using rr off by (cases r) (auto simp: reason_of_incident_def)
      then show ?thesis using off i runner rid by (auto simp: reason_of_incident_def)
    qed
    then have "list_all2 (reason_of_incident d) (runner_state d)
        (tbl_amend rs_runner_id (in_resource i) ?f (runner_state D))"
      using D by (intro list_all2_amend_right) (auto simp: restoring_def)
    then have "restoring d (set_runner_offline (in_resource i) (Some (in_condition i)) D)"
      using D by (simp add: restoring_def set_runner_offline_def)
    then show ?thesis using that runner by simp
  next
    case job
    then obtain k row where k: "in_condition i = ''heartbeat_timeout''" "in_resource i = resource_id_of_key k"
      "job_get k d = Some row" "js_liveness row = ''offline''"
      "js_offline_reason row = Some ''heartbeat_timeout''"
      using inv i unfolding incidents_inv_def by metis
    have ok: "job_key_ok k" using incidents_inv_key [OF inv k(3)] .
    have "tbl_keys job_row_key (job_state D)" "job_get k D = Some row"
      using D k(3) keys by (simp_all add: restoring_def keys_ok_def job_get_def)
    then have "set_job_offline k (Some ''heartbeat_timeout'') D = D"
      using set_job_offline_same k(4,5) by blast
    moreover have "job_key_fits k" using ok by (simp add: job_key_ok_def)
    ultimately have "restore_incident i D = Inr D"
      using job k(1,2) parse_resource_id [OF ok] by simp
    then show ?thesis using that D by blast
  next
    case other
    then show ?thesis using that D by simp
  qed
qed

lemma restore_all_restoring:
  assumes "incidents_inv d" and "keys_ok d" and "restoring d D"
    and "\<forall>i \<in> set is. is_open d (in_kind i) (in_resource i) (in_condition i)"
  obtains D' where "restore_offline_incident_liveness is D = Inr D'" "restoring d D'"
proof -
  have "\<exists>D'. restore_offline_incident_liveness is D = Inr D' \<and> restoring d D'"
    using assms(3,4)
  proof (induction "is" arbitrary: D)
    case (Cons i "is")
    obtain D1 where "restore_incident i D = Inr D1" "restoring d D1"
      using restore_incident_restoring [OF assms(1,2) Cons.prems(1), of i] Cons.prems(2) by auto
    then show ?case using Cons by (simp del: restore_incident.simps)
  qed simp
  then show ?thesis using that by blast
qed

lemma active_is_open:
  assumes "keys_ok d" and "i \<in> set (filter in_active (incidents d))"
  shows "is_open d (in_kind i) (in_resource i) (in_condition i)"
proof -
  have "tbl_get incident_key (incident_key i) (incidents d) = Some i"
    using assms by (intro tbl_get_in) (auto simp: keys_ok_def)
  then show ?thesis using assms(2) by (simp add: is_open_def incident_get_def incident_key_def)
qed

subsection \<open>The invariant of the store\<close>

definition log_inv :: "database \<Rightarrow> bool" where
  "log_inv d \<longleftrightarrow> (history_is_complete d \<longrightarrow> (\<exists>d1. projects (events d) blank d1 \<and> tables_agree d d1))"

definition store_inv :: "database \<Rightarrow> bool" where
  "store_inv d \<longleftrightarrow> keys_ok d \<and> sorted_wrt (<) (map er_row_id (events d)) \<and> incidents_inv d \<and> log_inv d \<and>
     (\<forall>row \<in> set (events d). \<exists>e. stores row e) \<and>
     map_of (monitor_meta d) ''projection_history_complete'' \<noteq> None"

lemma rebuild_restoring:
  assumes inv: "store_inv d" and complete: "history_is_complete d"
  obtains D where "rebuild fr d = Inr D" "restoring d D"
proof -
  have keys: "keys_ok d" and sorted: "sorted_wrt (<) (map er_row_id (events d))" and ii: "incidents_inv d"
    using inv by (simp_all add: store_inv_def)
  obtain d1 where pr: "projects (events d) blank d1" and ag: "tables_agree d d1"
    using inv complete by (auto simp: store_inv_def log_inv_def)
  let ?cleared = "d\<lparr>runner_state := [], job_state := [], watermarks := []\<rparr>"
  have "sorted (map er_row_id (events d))" using sorted by (rule strict_sorted_imp_sorted)
  then have sorted_rows: "sort_key er_row_id (events d) = events d" by (rule sort_key_id_if_sorted)
  obtain D1 where D1: "replay_rows fr (events d) ?cleared = Inr D1" "same_tables d1 D1"
    "events D1 = events d" "incidents D1 = incidents d" "monitor_meta D1 = monitor_meta d"
  proof (rule replay_rows_projects [OF pr])
    show "same_tables blank ?cleared" by (simp add: same_tables_def blank_def)
    show "tbl_keys er_event_id (events ?cleared)" using keys by (simp add: keys_ok_def)
  qed (use that in auto)
  let ?d2 = "fold (\<lambda>r. set_runner_offline (rs_runner_id r) (rs_offline_reason r))
      (filter (\<lambda>r. rs_liveness r = ''offline'') (runner_state d)) D1"
  let ?d3 = "fold (\<lambda>r. set_job_offline (job_row_key r) (js_offline_reason r))
      (filter (\<lambda>r. js_liveness r = ''offline'') (job_state d)) ?d2"
  have ag1: "tables_agree d D1" using ag D1(2) by (simp add: tables_agree_def same_tables_def)
  have "job_state ?d2 = job_state D1" "watermarks ?d2 = watermarks D1" "runner_state ?d2 = runner_state d"
    using restore_runner_rows [OF ag1 keys] by (simp_all add: fold_set_runner_offline)
  then have "tables_agree d ?d2" using ag1 by (simp add: tables_agree_def list_all2_refl)
  then have "job_state ?d3 = job_state d" using keys by (rule restore_job_rows)
  moreover have "runner_state ?d3 = runner_state d" "watermarks ?d3 = watermarks d"
    using \<open>runner_state ?d2 = runner_state d\<close> ag1
    by (simp_all add: fold_set_job_offline fold_set_runner_offline tables_agree_def)
  moreover have "events ?d3 = events d" "incidents ?d3 = incidents d" "monitor_meta ?d3 = monitor_meta d"
    by (simp_all add: fold_set_job_offline fold_set_runner_offline D1)
  ultimately have "restoring d ?d3"
    by (simp add: restoring_def list_all2_refl reason_of_incident_def)
  then obtain D where "restore_offline_incident_liveness (filter in_active (incidents d)) ?d3 = Inr D"
    "restoring d D"
    using restore_all_restoring [OF ii keys, of ?d3 "filter in_active (incidents d)"]
      active_is_open [OF keys] by blast
  moreover have "rebuild fr d = restore_offline_incident_liveness (filter in_active (incidents d)) ?d3"
    by (simp add: rebuild_def Let_def sorted_rows D1(1))
  ultimately show ?thesis using that by simp
qed

subsection \<open>Steps\<close>

text \<open>
  What happens to a store over time.  Payloads come from Python dictionaries, whose keys are
  distinct; the other inputs are arbitrary.
\<close>

inductive monitor_step :: "(string \<Rightarrow> string) \<Rightarrow> store \<Rightarrow> store \<Rightarrow> bool" for fr where
  step_ingest: "py_dicts (ev_payload event) \<Longrightarrow> ingest s event at = (res, s') \<Longrightarrow> monitor_step fr s s'"
| step_refresh: "refresh_liveness s now = (inc, s') \<Longrightarrow> monitor_step fr s s'"
| step_replay: "replay fr s = (ok, s') \<Longrightarrow> monitor_step fr s s'"
| step_prune: "prune_history max_vars fault s now = (n, s') \<Longrightarrow> monitor_step fr s s'"
| step_reopen: "open_store fr pragma fault (db s) = Inr s' \<Longrightarrow> monitor_step fr s s'"

inductive monitor_steps :: "(string \<Rightarrow> string) \<Rightarrow> store \<Rightarrow> store \<Rightarrow> bool" for fr where
  steps_refl: "monitor_steps fr s s"
| steps_step: "monitor_steps fr s s' \<Longrightarrow> monitor_step fr s' s'' \<Longrightarrow> monitor_steps fr s s''"

definition fresh_store :: store where
  "fresh_store = \<lparr>db = empty_database, degraded_reasons = []\<rparr>"

definition reachable :: "(string \<Rightarrow> string) \<Rightarrow> store \<Rightarrow> bool" where
  "reachable fr s \<longleftrightarrow> monitor_steps fr fresh_store s"

lemma history_is_complete_cong: "monitor_meta d = monitor_meta d' \<Longrightarrow> history_is_complete d = history_is_complete d'"
  by (simp add: history_is_complete_def)

text \<open>Ingestion keeps the invariant.\<close>

lemma store_inv_ingest_new:
  assumes inv: "store_inv d" and valid: "validate_event (thaw p) = Inr e" "py_dicts p"
    and new: "ingest_new d e at = Inr (applied, notified, d')"
    and fresh: "tbl_get er_event_id (ev_id e) (events d) = None"
  shows "store_inv d'"
proof (rule ingest_new_cases [OF new fresh])
  fix body d1 d2
  assume body: "dumps compact (thaw (ev_payload e)) = Inr body"
    and d1: "d1 = d\<lparr>events := events d @ [event_values (next_row_id (map er_row_id (events d))) e at body]\<rparr>"
    and app: "apply_event True True d1 e at = Inr (applied, d2)"
    and log: "events d' = events d @ [logged d e at body applied]"
    and d': "d' = (if applied \<and> ev_type e = ''runner.offline''
           then snd (open_incident (set_applied d2 (ev_id e) applied) ''runner'' (ev_runner_id e)
                       ''explicit_shutdown'' at)
           else set_applied d2 (ev_id e) applied)"
  let ?row = "logged d e at body applied"
  have keys: "keys_ok d'" using keys_ok_ingest_new [OF new fresh] inv by (simp add: store_inv_def)
  have c: "event_contract (thaw p)" and e: "e = event_of (thaw p)"
    using valid(1) by (auto simp: validate_event_iff)
  have st: "stores ?row e"
    by (rule accepted_stores [OF valid]) (simp_all add: logged_def body)
  have tabs: "same_tables d2 d'" unfolding d' by (auto simp: same_tables_def)
  have meta: "monitor_meta d' = monitor_meta d"
    using apply_event_log [OF app] d1 unfolding d' by auto
  have same1: "same_tables d d1" "incidents d = incidents d1" by (simp_all add: d1 same_tables_def)
  have "incidents_inv d1" using inv incidents_inv_cong [OF same1] by (simp add: store_inv_def)
  have i2: "incidents_inv d2"
    using app
  proof (cases rule: apply_event_cases)
    case rejected
    then show ?thesis using \<open>incidents_inv d1\<close> by simp
  next
    case applied
    then show ?thesis
      using incidents_inv_project [OF \<open>incidents_inv d1\<close> applied(3)] valid_job_key [OF c] e by simp
  qed
  have i3: "incidents_inv (set_applied d2 (ev_id e) applied)"
    using i2 incidents_inv_cong [of "set_applied d2 (ev_id e) applied" d2] by (simp add: same_tables_def)
  have "incidents_inv d'"
  proof (cases "applied \<and> ev_type e = ''runner.offline''")
    case True
    then have "d2 = snd (project True True d1 e at)" "ev_type e = ''runner.offline''"
      using app by (auto elim: apply_event_cases)
    then have "runner_get (ev_runner_id e) d2 = Some (runner_after (runner_get (ev_runner_id e) d1) e at)"
      by (simp add: runner_get_project lifecycle_types_def)
    moreover have "runner_get (ev_runner_id e) (set_applied d2 (ev_id e) applied) = runner_get (ev_runner_id e) d2"
      by (rule runner_get_cong) simp
    ultimately show ?thesis
      using True incidents_inv_open_runner [OF i3] unfolding d' by (simp add: runner_after_def)
  next
    case False
    then show ?thesis unfolding d' if_not_P [OF False] by (intro i3)
  qed
  moreover have "log_inv d'"
    unfolding log_inv_def
  proof
    assume "history_is_complete d'"
    then obtain dp where dp: "projects (events d) blank dp" "tables_agree d dp"
      using inv history_is_complete_cong [OF meta] by (auto simp: store_inv_def log_inv_def)
    then have "tables_agree d1 dp" using same1(1) by (simp add: tables_agree_def same_tables_def)
    then obtain dp' where "apply_event False True dp e at = Inr (applied, dp')" "tables_agree d2 dp'"
      using apply_event_agree app by blast
    then have "projects (events d') blank dp'" "tables_agree d' dp'"
      using projects_snoc [OF dp(1) st] tabs by (auto simp: log logged_def tables_agree_def same_tables_def)
    then show "\<exists>d1. projects (events d') blank d1 \<and> tables_agree d' d1" by blast
  qed
  moreover have "sorted_wrt (<) (map er_row_id (events d'))"
    using inv next_row_id_fresh [of _ "map er_row_id (events d)"]
    by (auto simp: store_inv_def log logged_def sorted_wrt_append)
  moreover have "\<forall>row \<in> set (events d'). \<exists>e. stores row e"
    using inv st by (auto simp: store_inv_def log)
  ultimately show ?thesis using keys inv meta by (simp add: store_inv_def)
qed

lemma store_inv_refresh:
  assumes "refresh_liveness s now = (res, s')" and inv: "store_inv (db s)"
  shows "store_inv (db s')"
proof (cases res)
  case (Inl x)
  then show ?thesis using assms refresh_failed [of s now x s'] by simp
next
  case (Inr notified)
  have keys: "keys_ok (db s')" using keys_ok_refresh [OF assms(1)] inv by (simp add: store_inv_def)
  show ?thesis
  proof (rule refresh_cases [OF assms(1) [unfolded Inr]])
    fix current t cutoff rs js n1 n2 d1 d2
    assume h: "moment_minus t (LIVENESS_TIMEOUT_SECONDS * 1000000) = Inr cutoff"
      "stale_runners cutoff (db s) = Inr rs" "mark_runners current (map rs_runner_id rs) (db s) = (n1, d1)"
      "stale_jobs cutoff d1 = Inr js" "mark_jobs current (map job_row_key js) d1 = (n2, d2)"
      "s' = s\<lparr>db := d2\<rparr>"
    have d1: "d1 = snd (mark_runners current (map rs_runner_id rs) (db s))"
      and d2: "d2 = snd (mark_jobs current (map job_row_key js) d1)" using h(3,5) by simp_all
    have "set rs \<subseteq> set (runner_state (db s))" using stale_runners_set [OF h(1,2)] by auto
    then have "\<forall>rid \<in> set (map rs_runner_id rs). runner_get rid (db s) \<noteq> None"
      by (auto simp: runner_get_def tbl_get_None_iff)
    then have i1: "incidents_inv d1"
      using inv incidents_inv_mark_runners unfolding d1 store_inv_def by blast
    have "set js \<subseteq> set (job_state d1)" using stale_jobs_set [OF h(1,4)] by auto
    then have "\<forall>k \<in> set (map job_row_key js). job_get k d1 \<noteq> None"
      by (auto simp: job_get_def tbl_get_None_iff)
    then have i2: "incidents_inv d2" using i1 incidents_inv_mark_jobs unfolding d2 by blast
    have same: "events d2 = events (db s)" "monitor_meta d2 = monitor_meta (db s)" by (simp_all add: d2 d1)
    have agree: "tables_agree d2 dp" if "tables_agree (db s) dp" for dp
      using that by (simp add: tables_agree_def d2 d1 list_all2_amends mark_agrees)
    have "log_inv d2"
      using inv agree history_is_complete_cong [OF same(2)] unfolding store_inv_def log_inv_def same by blast
    then show ?thesis using keys i2 inv same by (simp add: store_inv_def h(6))
  qed
qed

text \<open>Replay puts the old state back, with the reasons of open incidents.\<close>

lemma list_all2_reason_agrees:
  assumes "list_all2 (reason_of_incident d) rs rs'" and "list_all2 runner_agrees rs qs"
  shows "list_all2 runner_agrees rs' qs"
proof -
  have "runner_agrees r' q" if "reason_of_incident d r r'" "runner_agrees r q" for r r' q
    using that by (auto simp: reason_of_incident_def runner_agrees_def erase_runner_def)
  then show ?thesis
    using assms by (auto simp: list_all2_conv_all_nth)
qed

lemma incidents_inv_restoring:
  assumes "incidents_inv d" and "restoring d D" and "keys_ok d"
  shows "incidents_inv D"
proof -
  have open': "is_open D k r c = is_open d k r c" for k r c
    using assms(2) by (intro is_open_cong) (simp add: restoring_def)
  have jobs: "job_get k D = job_get k d" for k
    using assms(2) by (intro job_get_cong) (simp add: restoring_def)
  have rows: "rel_option (reason_of_incident d) (runner_get rid d) (runner_get rid D)" for rid
    unfolding runner_get_def
    by (rule list_all2_get) (use assms(2) reason_of_incident_sel in \<open>auto simp: restoring_def\<close>)
  show ?thesis
  proof (rule incidents_invI)
    fix r c assume "is_open D ''runner'' r c"
    then obtain row where "runner_get r d = Some row" "rs_liveness row = ''offline''"
      using assms(1) open' unfolding incidents_inv_def by blast
    then show "\<exists>row. runner_get r D = Some row \<and> rs_liveness row = ''offline''"
      using rows [of r] reason_of_incident_sel by (cases "runner_get r D") auto
  qed (use assms(1) in \<open>unfold incidents_inv_def open' jobs, blast+\<close>)
qed

lemma store_inv_restoring:
  assumes inv: "store_inv d" and D: "restoring d D"
  shows "store_inv D"
proof -
  have keys: "keys_ok d" using inv by (simp add: store_inv_def)
  have maps: "map rs_runner_id (runner_state D) = map rs_runner_id (runner_state d)"
    using D reason_of_incident_sel
    by (auto simp: restoring_def list_all2_conv_all_nth intro!: nth_equalityI)
  have "keys_ok D" using keys D maps by (simp add: keys_ok_def restoring_def tbl_keys_def)
  moreover have "log_inv D"
    unfolding log_inv_def
  proof
    assume "history_is_complete D"
    then obtain dp where "projects (events d) blank dp" "tables_agree d dp"
      using inv D history_is_complete_cong [of D d] by (auto simp: store_inv_def log_inv_def restoring_def)
    then show "\<exists>d1. projects (events D) blank d1 \<and> tables_agree D d1"
      using D list_all2_reason_agrees [of d "runner_state d" "runner_state D" "runner_state dp"]
      by (auto simp: restoring_def tables_agree_def)
  qed
  ultimately show ?thesis
    using inv D incidents_inv_restoring [OF _ D keys] by (simp add: store_inv_def restoring_def)
qed

lemma reason_frame [simp]:
  "db (add_reason r s) = db s" "db (discard_reason r s) = db s"
  by (simp_all add: add_reason_def discard_reason_def)

lemma replay_restoring:
  assumes "store_inv (db s)" and "history_is_complete (db s)"
  obtains s' where "replay fr s = (Inr True, s')" "restoring (db s) (db s')"
    "degraded_reasons s' = removeAll ''replay_incomplete_history'' (removeAll ''replay_failed'' (degraded_reasons s))"
proof -
  obtain D where "rebuild fr (db s) = Inr D" "restoring (db s) D"
    using rebuild_restoring [OF assms] by blast
  then show ?thesis
    using that [of "discard_reason ''replay_incomplete_history''
        (discard_reason ''replay_failed'' (s\<lparr>db := D\<rparr>))"] assms(2)
    by (simp add: replay_def) (simp add: discard_reason_def)
qed

lemma store_inv_replay:
  assumes "store_inv (db s)" and "replay fr s = (ok, s')"
  shows "store_inv (db s')"
proof (cases "history_is_complete (db s)")
  case True
  then show ?thesis
    using replay_restoring [OF assms(1), of fr] store_inv_restoring [OF assms(1)] assms(2) by (metis prod.inject)
next
  case False
  then show ?thesis using assms by (auto simp: replay_def)
qed

lemma map_of_upsert:
  "map_of (tbl_upsert fst (k, v) m) k' = (if k' = k then Some v else map_of m k')"
  by (induction m) auto

lemma store_inv_prune:
  assumes inv: "store_inv (db s)" and "prune_history max_vars fault s now = (n, s')"
  shows "store_inv (db s')"
proof -
  have inv_pruned: "store_inv (set_meta ''projection_history_complete'' ''0''
      ((db s)\<lparr>events := filter p (events (db s))\<rparr>))" (is "store_inv ?d") for p
  proof -
    have tabs: "same_tables ?d (db s)" "incidents ?d = incidents (db s)"
      by (simp_all add: set_meta_def same_tables_def)
    have "keys_ok ?d"
      using inv by (auto simp: store_inv_def keys_ok_def set_meta_def tbl_keys_upsert)
        (auto simp: tbl_keys_def distinct_map_filter)
    moreover have "\<not> history_is_complete ?d"
      by (simp add: history_is_complete_def set_meta_def map_of_upsert)
    moreover have "incidents_inv ?d" using inv incidents_inv_cong [OF tabs] by (simp add: store_inv_def)
    moreover have "sorted_wrt (<) (map er_row_id (events ?d))"
      using inv by (simp add: store_inv_def set_meta_def sorted_wrt_map sorted_wrt_filter)
    ultimately show ?thesis
      using inv by (auto simp: store_inv_def log_inv_def set_meta_def map_of_upsert)
  qed
  show ?thesis
    using assms(2) inv inv_pruned by (auto simp: prune_history_def split: sum.splits if_splits)
qed

lemma store_inv_migrate: "store_inv d \<Longrightarrow> migrate d = d"
  by (auto simp: store_inv_def migrate_def)

lemma check_integrity_db [simp]: "db (snd (check_integrity pragma s)) = db s"
  by (simp add: check_integrity_def)

lemma store_inv_reopen:
  assumes inv: "store_inv (db s)" and "open_store fr pragma fault (db s) = Inr s'"
  shows "store_inv (db s')"
proof -
  let ?s1 = "snd (check_integrity pragma \<lparr>db = migrate (db s), degraded_reasons = []\<rparr>)"
  have d1: "db ?s1 = db s" using store_inv_migrate [OF inv] by simp
  obtain u where "replay_if_projections_are_missing fr fault ?s1 = (Inr u, s')"
    using assms(2) by (auto simp: open_store_def Let_def split: prod.splits sum.splits)
  then consider "db s' = db ?s1" | ok where "replay fr ?s1 = (ok, s')"
    by (auto simp: replay_if_projections_are_missing_def split: if_splits prod.splits sum.splits)
  then show ?thesis using inv store_inv_replay [of ?s1] d1 by cases auto
qed

lemma store_inv_fresh: "store_inv (db fresh_store)"
proof -
  have "projects [] blank blank" by (rule projects_Nil)
  moreover have "tables_agree empty_database blank"
    by (simp add: tables_agree_def empty_database_def blank_def)
  moreover have "incidents_inv empty_database"
    by (simp add: incidents_inv_def is_open_def incident_get_def job_get_def empty_database_def)
  ultimately show ?thesis
    by (auto simp: store_inv_def fresh_store_def log_inv_def keys_ok_def)
       (auto simp: empty_database_def tbl_keys_def)
qed

lemma store_inv_step: "monitor_step fr s s' \<Longrightarrow> store_inv (db s) \<Longrightarrow> store_inv (db s')"
proof (induction rule: monitor_step.induct)
  case (step_ingest event s at res s')
  from step_ingest(2) show ?case
    by (cases rule: ingest_cases)
       (use step_ingest in \<open>auto intro: store_inv_ingest_new\<close>)
qed (auto intro: store_inv_refresh store_inv_replay store_inv_prune store_inv_reopen)

lemma store_inv_steps: "monitor_steps fr s s' \<Longrightarrow> store_inv (db s) \<Longrightarrow> store_inv (db s')"
  by (induction rule: monitor_steps.induct) (auto intro: store_inv_step)

lemma reachable_inv: "reachable fr s \<Longrightarrow> store_inv (db s)"
  unfolding reachable_def using store_inv_steps store_inv_fresh by blast

end
