(* ===== verification/StoreSteps.thy ===== *)
theory StoreSteps
  imports Monitor
begin

section \<open>Steps of the store\<close>

text \<open>
  The properties of ingestion, liveness, replay and retention, each with a witness on the sample
  store that has ingested the end of a job and the start of another.
\<close>

subsection \<open>Sample states\<close>

definition sample_started :: pyval where
  "sample_started = sample_event ''job.started'' ''9b2f9c1e-7425-40de-944b-e07fc1f90ae8'' 5
     [(''job'', obj [(''repository'', PStr ''octo/app''), (''workflow_run_id'', PInt 8),
     (''run_attempt'', PInt 1), (''job_id'', PInt 4), (''job_name'', PStr ''test''),
     (''run_url'', PStr ''https://github.com/octo/app/actions/runs/8'')])]"

lemma sample_started_parts:
  "small_payload sample_started" "content_safe sample_started" "envelope_contract sample_started"
  "body_contract sample_started (text_at sample_started ''event_type'')" "is_mapping sample_started"
  by code_simp+

lemma sample_started_contract: "event_contract sample_started"
  unfolding event_contract_def using sample_started_parts by blast

lemma sample_dicts: "py_dicts sample_finished" "py_dicts sample_started"
  by code_simp+

definition finished_event :: validated_event where
  "finished_event = event_of sample_finished"

definition started_event :: validated_event where
  "started_event = event_of sample_started"

lemma event_payload_dicts: "py_dicts p \<Longrightarrow> py_dicts (ev_payload (event_of p))"
  by (simp add: event_of_def py_dicts_freeze)

lemma revalidated_event_of: "event_contract p \<Longrightarrow> validate_event (thaw (ev_payload (event_of p))) = Inr (event_of p)"
  using event_contract_rethaw [of p]
  by (simp add: validate_event_iff) (simp add: event_of_def freeze_rethaw)

lemma sample_valid:
  "validate_event (thaw (ev_payload finished_event)) = Inr finished_event"
  "validate_event (thaw (ev_payload started_event)) = Inr started_event"
  unfolding finished_event_def started_event_def
  by (rule revalidated_event_of, rule sample_finished_contract sample_started_contract)+

definition sample_time :: received where
  "sample_time = AtText ''2026-09-18T09:30:00+08:00''"

lemma sample_time_text: "normalise_received_at sample_time = Inr ''2026-09-18T01:30:00Z''"
  by code_simp

definition store1 :: store where
  "store1 = snd (ingest fresh_store finished_event sample_time)"

definition store2 :: store where
  "store2 = snd (ingest store1 started_event sample_time)"

text \<open>What the two ingestions evaluate to.\<close>

lemma ingest1_eval:
  "(case ingest_new empty_database finished_event ''2026-09-18T01:30:00Z'' of
      Inl x \<Rightarrow> False
    | Inr (applied, notified, d) \<Rightarrow> applied \<and> notified = [] \<and>
        map er_event_id (events d) = [ev_id finished_event] \<and>
        map job_row_key (job_state d) = [(''octo/app'', 7, 1, 3)] \<and>
        map js_state (job_state d) = [''finished''] \<and> map rs_liveness (runner_state d) = [''online''])"
  by code_simp

lemma ingest2_eval:
  "(case ingest_new empty_database finished_event ''2026-09-18T01:30:00Z'' of
      Inl x \<Rightarrow> False
    | Inr (_, _, d0) \<Rightarrow> (case ingest_new d0 started_event ''2026-09-18T01:30:00Z'' of
      Inl x \<Rightarrow> False
    | Inr (applied, notified, d) \<Rightarrow> applied \<and> notified = [] \<and>
        length (events d) = 2 \<and> map js_state (job_state d) = [''finished'', ''running'']))"
  by code_simp

lemma ingest_new_result:
  assumes "validate_event (thaw (ev_payload e)) = Inr e" and "normalise_received_at at0 = Inr at"
    and "tbl_get er_event_id (ev_id e) (events (db s)) = None"
    and "ingest_new (db s) e at = Inr (applied, notified, d)"
  shows "ingest s e at0 = (Inr (\<lparr>ir_event_id = ev_id e, ir_accepted = True, ir_duplicate = False,
     ir_projection_applied = applied, ir_producer_watermark = producer_watermark d e\<rparr>, notified),
     s\<lparr>db := d\<rparr>)"
  using assms by (simp add: ingest_def revalidated_def)

lemma store1_facts:
  "map er_event_id (events (db store1)) = [ev_id finished_event]"
  "map job_row_key (job_state (db store1)) = [(''octo/app'', 7, 1, 3)]"
  "map js_state (job_state (db store1)) = [''finished'']"
  "map rs_liveness (runner_state (db store1)) = [''online'']"
  "ingest_new empty_database finished_event ''2026-09-18T01:30:00Z'' = Inr (True, [], db store1)"
  "ingest fresh_store finished_event sample_time =
     (Inr (\<lparr>ir_event_id = ev_id finished_event, ir_accepted = True, ir_duplicate = False,
       ir_projection_applied = True, ir_producer_watermark = producer_watermark (db store1) finished_event\<rparr>, []),
      store1)"
proof -
  obtain d where d: "ingest_new empty_database finished_event ''2026-09-18T01:30:00Z'' = Inr (True, [], d)"
    "map er_event_id (events d) = [ev_id finished_event]"
    "map job_row_key (job_state d) = [(''octo/app'', 7, 1, 3)]"
    "map js_state (job_state d) = [''finished'']" "map rs_liveness (runner_state d) = [''online'']"
    using ingest1_eval by (auto split: sum.splits prod.splits)
  have i: "ingest fresh_store finished_event sample_time =
     (Inr (\<lparr>ir_event_id = ev_id finished_event, ir_accepted = True, ir_duplicate = False,
       ir_projection_applied = True, ir_producer_watermark = producer_watermark d finished_event\<rparr>, []),
      fresh_store\<lparr>db := d\<rparr>)"
    by (rule ingest_new_result [OF sample_valid(1) sample_time_text])
       (simp_all add: fresh_store_def empty_database_def d(1) [unfolded empty_database_def])
  then have s1: "db store1 = d" "store1 = fresh_store\<lparr>db := d\<rparr>" by (simp_all add: store1_def)
  show "map er_event_id (events (db store1)) = [ev_id finished_event]"
    "map job_row_key (job_state (db store1)) = [(''octo/app'', 7, 1, 3)]"
    "map js_state (job_state (db store1)) = [''finished'']"
    "map rs_liveness (runner_state (db store1)) = [''online'']"
    "ingest_new empty_database finished_event ''2026-09-18T01:30:00Z'' = Inr (True, [], db store1)"
    using d s1 by simp_all
  show "ingest fresh_store finished_event sample_time =
     (Inr (\<lparr>ir_event_id = ev_id finished_event, ir_accepted = True, ir_duplicate = False,
       ir_projection_applied = True, ir_producer_watermark = producer_watermark (db store1) finished_event\<rparr>, []),
      store1)"
    using i s1 by simp
qed

lemma sample_ids: "ev_id finished_event \<noteq> ev_id started_event"
  by code_simp

lemma store2_facts:
  "length (events (db store2)) = 2" "map js_state (job_state (db store2)) = [''finished'', ''running'']"
  "ingest store1 started_event sample_time =
     (Inr (\<lparr>ir_event_id = ev_id started_event, ir_accepted = True, ir_duplicate = False,
       ir_projection_applied = True, ir_producer_watermark = producer_watermark (db store2) started_event\<rparr>, []),
      store2)"
proof -
  obtain d where d: "ingest_new (db store1) started_event ''2026-09-18T01:30:00Z'' = Inr (True, [], d)"
    "length (events d) = 2" "map js_state (job_state d) = [''finished'', ''running'']"
    using ingest2_eval unfolding store1_facts(5) by (auto split: sum.splits prod.splits)
  have "ev_id started_event \<notin> set (map er_event_id (events (db store1)))"
    unfolding store1_facts(1) using sample_ids by auto
  then have "tbl_get er_event_id (ev_id started_event) (events (db store1)) = None"
    by (simp add: tbl_get_None_iff)
  then have i: "ingest store1 started_event sample_time =
     (Inr (\<lparr>ir_event_id = ev_id started_event, ir_accepted = True, ir_duplicate = False,
       ir_projection_applied = True, ir_producer_watermark = producer_watermark d started_event\<rparr>, []),
      store1\<lparr>db := d\<rparr>)"
    by (rule ingest_new_result [OF sample_valid(2) sample_time_text]) (rule d(1))
  then have s2: "db store2 = d" "store2 = store1\<lparr>db := d\<rparr>" by (simp_all add: store2_def)
  show "length (events (db store2)) = 2" "map js_state (job_state (db store2)) = [''finished'', ''running'']"
    using d s2 by simp_all
  show "ingest store1 started_event sample_time =
     (Inr (\<lparr>ir_event_id = ev_id started_event, ir_accepted = True, ir_duplicate = False,
       ir_projection_applied = True, ir_producer_watermark = producer_watermark (db store2) started_event\<rparr>, []),
      store2)"
    using i s2 by simp
qed

lemma sample_steps:
  "monitor_step fr fresh_store store1" "monitor_step fr store1 store2" "reachable fr store1" "reachable fr store2"
proof -
  have dicts: "py_dicts (ev_payload finished_event)" "py_dicts (ev_payload started_event)"
    unfolding finished_event_def started_event_def by (rule event_payload_dicts, rule sample_dicts)+
  show s1: "monitor_step fr fresh_store store1" by (rule step_ingest [OF dicts(1) store1_facts(6)])
  show s2: "monitor_step fr store1 store2" by (rule step_ingest [OF dicts(2) store2_facts(3)])
  show "reachable fr store1" using steps_step [OF steps_refl s1] by (simp add: reachable_def)
  then show "reachable fr store2" using steps_step [OF _ s2] by (simp add: reachable_def)
qed

lemma ingest_meta: "ingest s e at = (res, s') \<Longrightarrow> monitor_meta (db s') = monitor_meta (db s)"
  by (cases rule: ingest_cases) (auto elim!: ingest_new_gets dest!: apply_event_log)

lemma store2_complete: "history_is_complete (db store2)"
  using ingest_meta [OF store2_facts(3)] ingest_meta [OF store1_facts(6)]
  by (simp add: history_is_complete_def fresh_store_def empty_database_def)

subsection \<open>Lemmas about single operations\<close>

lemma replay_result:
  assumes "store_inv (db s)" and "replay fr s = (ok, s')"
  obtains (1) "restoring (db s) (db s')" | (2) "db s' = db s"
proof (cases "history_is_complete (db s)")
  case True
  obtain s'' where "replay fr s = (Inr True, s'')" "restoring (db s) (db s'')"
    using replay_restoring [OF assms(1) True] by blast
  then show ?thesis using assms(2) 1 by simp
next
  case False
  then show ?thesis using assms(2) 2 by (auto simp: replay_def)
qed

lemma monitor_step_db:
  assumes "monitor_step fr s s'" and "store_inv (db s)"
  obtains (ingested) event at0 res where "ingest s event at0 = (res, s')"
  | (refreshed) now inc where "refresh_liveness s now = (inc, s')"
  | (replayed) "restoring (db s) (db s')"
  | (pruned) ids where "db s' = set_meta ''projection_history_complete'' ''0''
      ((db s)\<lparr>events := filter (\<lambda>r. er_row_id r \<notin> set ids) (events (db s))\<rparr>)"
  | (same) "db s' = db s"
  using assms(1)
proof (cases rule: monitor_step.cases)
  case (step_replay ok)
  show ?thesis
  proof (cases rule: replay_result [OF assms(2) step_replay])
    case 1
    then show ?thesis using replayed by blast
  next
    case 2
    then show ?thesis using same by blast
  qed
next
  case (step_prune mv fault now n)
  then show ?thesis
    using pruned same by (auto simp: prune_history_def split: sum.splits if_splits)
next
  case (step_reopen pragma fault)
  let ?s1 = "snd (check_integrity pragma \<lparr>db = migrate (db s), degraded_reasons = []\<rparr>)"
  have d1: "db ?s1 = db s" using store_inv_migrate [OF assms(2)] by simp
  obtain u where "replay_if_projections_are_missing fr fault ?s1 = (Inr u, s')"
    using step_reopen by (auto simp: open_store_def Let_def split: prod.splits sum.splits)
  then consider "db s' = db ?s1" | ok where "replay fr ?s1 = (ok, s')"
    by (auto simp: replay_if_projections_are_missing_def split: if_splits prod.splits sum.splits)
  then show ?thesis
  proof cases
    case 1
    then show ?thesis using same d1 by simp
  next
    case 2
    have "store_inv (db ?s1)" unfolding d1 by (rule assms(2))
    then show ?thesis
      using 2
    proof (cases rule: replay_result)
      case 1
      then show ?thesis using replayed unfolding d1 by blast
    next
      case 2
      then show ?thesis using same unfolding d1 by blast
    qed
  qed
qed blast+

lemma ingest_watermark:
  assumes "ingest s event at0 = (res, s')"
  shows "watermark_le (watermark_get k (db s)) (watermark_get k (db s'))"
  using assms by (cases rule: ingest_cases) (auto intro: ingest_new_watermark)

lemma ingest_finished:
  assumes "ingest s event at0 = (res, s')" and "job_get k (db s) = Some row" "js_state row = ''finished''"
  shows "job_get k (db s') = Some row"
  using assms(1) by (cases rule: ingest_cases) (use assms(2,3) in \<open>auto intro: ingest_new_finished\<close>)

lemma refresh_tables:
  assumes "refresh_liveness s now = (res, s')" and "keys_ok (db s)"
  shows "watermark_get k (db s') = watermark_get k (db s)" "events (db s') = events (db s)"
    "job_get j (db s) = Some row \<Longrightarrow> js_state row = ''finished'' \<Longrightarrow> job_get j (db s') = Some row"
proof -
  have "watermark_get k (db s') = watermark_get k (db s) \<and> events (db s') = events (db s) \<and>
    (job_get j (db s) = Some row \<longrightarrow> js_state row = ''finished'' \<longrightarrow> job_get j (db s') = Some row)"
  proof (cases res)
    case (Inl x)
    then show ?thesis using refresh_failed assms(1) by blast
  next
    case (Inr n)
    show ?thesis
      by (rule refresh_gets [OF assms(1) [unfolded Inr] assms(2)]) (auto simp: watermark_get_def job_stale_def)
  qed
  then show "watermark_get k (db s') = watermark_get k (db s)" "events (db s') = events (db s)"
    "job_get j (db s) = Some row \<Longrightarrow> js_state row = ''finished'' \<Longrightarrow> job_get j (db s') = Some row"
    by blast+
qed

lemma restoring_gets:
  "restoring d D \<Longrightarrow> watermark_get k D = watermark_get k d" "restoring d D \<Longrightarrow> job_get j D = job_get j d"
  by (simp_all add: restoring_def watermark_get_def job_get_def)

lemma pruned_gets:
  "watermark_get k (set_meta m v (d\<lparr>events := es\<rparr>)) = watermark_get k d"
  "job_get j (set_meta m v (d\<lparr>events := es\<rparr>)) = job_get j d"
  "runner_get r (set_meta m v (d\<lparr>events := es\<rparr>)) = runner_get r d"
  by (simp_all add: watermark_get_def job_get_def runner_get_def set_meta_def)

lemma same_gets:
  "db s = db s' \<Longrightarrow> watermark_get k (db s) = watermark_get k (db s')"
  "db s = db s' \<Longrightarrow> job_get j (db s) = job_get j (db s')"
  by simp_all

lemma step_watermark:
  assumes "monitor_step fr s s'" and "store_inv (db s)"
  shows "watermark_le (watermark_get k (db s)) (watermark_get k (db s'))"
  using assms
proof (cases rule: monitor_step_db)
  case (ingested event at0 res)
  then show ?thesis by (rule ingest_watermark)
next
  case (refreshed now inc)
  then show ?thesis using refresh_tables(1) assms(2) by (simp add: store_inv_def)
qed (simp_all add: restoring_gets(1) pruned_gets(1))

lemma step_finished:
  assumes "monitor_step fr s s'" and "store_inv (db s)"
    and "job_get k (db s) = Some row" "js_state row = ''finished''"
  shows "job_get k (db s') = Some row"
  using assms(1,2)
proof (cases rule: monitor_step_db)
  case (ingested event at0 res)
  then show ?thesis using assms(3,4) by (rule ingest_finished)
next
  case (refreshed now inc)
  then show ?thesis using refresh_tables(3) assms by (simp add: store_inv_def)
qed (simp_all add: restoring_gets(2) pruned_gets(2) assms(3))

end
