(* ===== verification/PyTimeText.thy ===== *)
theory PyTimeText
  imports PyTime
begin

section \<open>Reading a written moment back\<close>

text \<open>
  \<^verbatim>\<open>fromisoformat\<close> reads back what \<^verbatim>\<open>isoformat\<close> writes for a moment in UTC: the calendar of
  \<^verbatim>\<open>datetime\<close> is a bijection between ordinals and dates, and the parser takes the fixed-width
  decimals that the printer puts there.
\<close>

subsection \<open>The calendar\<close>

definition month_day_ok :: "bool \<Rightarrow> int \<Rightarrow> bool" where
  "month_day_ok lp n \<longleftrightarrow> (case month_day lp n of (m, d) \<Rightarrow>
     1 \<le> m \<and> m \<le> 12 \<and> 1 \<le> d \<and> d \<le> month_length lp m \<and> month_start lp m + d = n + 1)"

lemma month_days: "list_all (month_day_ok False) [0..364]" "list_all (month_day_ok True) [0..365]"
  by code_simp+

lemma month_day_ok: "0 \<le> n \<Longrightarrow> n < 365 \<Longrightarrow> month_day_ok lp n"
  using month_days by (cases lp) (auto simp: list_all_iff)

lemma days_before_year_parts:
  assumes "0 \<le> b" "b \<le> 3" "0 \<le> c" "c \<le> 24" "0 \<le> e" "e \<le> (3::int)"
  shows "days_before_year (400 * a + 100 * b + 4 * c + e + 1) =
      146097 * a + 36524 * b + 1461 * c + 365 * e"
    and "is_leap (400 * a + 100 * b + 4 * c + e + 1) \<longleftrightarrow> e = 3 \<and> (c \<noteq> 24 \<or> b = 3)"
proof -
  let ?y = "400 * a + 100 * b + 4 * c + e"
  have "?y div 4 = 100 * a + 25 * b + c" using assms by linarith
  moreover have "?y div 100 = 4 * a + b" using assms by linarith
  moreover have "?y div 400 = a" using assms by linarith
  ultimately show "days_before_year (?y + 1) = 146097 * a + 36524 * b + 1461 * c + 365 * e"
    by (simp add: days_before_year_def)
  have edge: "(k + w * q) mod w = 0 \<longleftrightarrow> k = w" if "0 < k" "k \<le> w" for k w q :: int
    using that by (cases "k = w") simp_all
  have "(?y + 1) mod 4 = 0 \<longleftrightarrow> e = 3"
    using edge [of "e + 1" 4 "100 * a + 25 * b + c"] assms by (simp add: algebra_simps)
  moreover have "(?y + 1) mod 100 = 0 \<longleftrightarrow> 4 * c + e = 99"
    using edge [of "4 * c + e + 1" 100 "4 * a + b"] assms by (simp add: algebra_simps)
  moreover have "(?y + 1) mod 400 = 0 \<longleftrightarrow> 100 * b + 4 * c + e = 399"
    using edge [of "100 * b + 4 * c + e + 1" 400 a] assms by (simp add: algebra_simps)
  ultimately show "is_leap (?y + 1) \<longleftrightarrow> e = 3 \<and> (c \<noteq> 24 \<or> b = 3)"
    unfolding is_leap_def using assms by linarith
qed

lemma ord_to_ymd_valid:
  assumes "1 \<le> n" "n \<le> MAX_ORDINAL" and "ord_to_ymd n = (y, m, d)"
  shows "ymd_to_ord y m d = Some n"
proof -
  define a where "a = (n - 1) div 146097"
  define r400 where "r400 = (n - 1) mod 146097"
  define b where "b = r400 div 36524"
  define r100 where "r100 = r400 mod 36524"
  define c where "c = r100 div 1461"
  define r4 where "r4 = r100 mod 1461"
  define e where "e = r4 div 365"
  define r1 where "r1 = r4 mod 365"
  note parts = a_def r400_def b_def r100_def c_def r4_def e_def r1_def
  have eqs: "n - 1 = 146097 * a + r400" "r400 = 36524 * b + r100" "r100 = 1461 * c + r4" "r4 = 365 * e + r1"
    by (simp_all add: parts)
  have rng: "0 \<le> r400" "r400 < 146097" "0 \<le> r100" "r100 < 36524" "0 \<le> r4" "r4 < 1461" "0 \<le> r1" "r1 < 365"
    by (simp_all add: parts)
  have lo: "0 \<le> a" "0 \<le> b" "0 \<le> c" "0 \<le> e"
    using assms(1) rng(1,3,5) by (simp_all add: parts pos_imp_zdiv_nonneg_iff)
  have hi: "b \<le> 4" "c \<le> 24" "e \<le> 4" using eqs rng lo by linarith+
  have y: "(y, m, d) = (if e = 4 \<or> b = 4 then (a * 400 + 1 + b * 100 + c * 4 + e - 1, 12, 31)
      else (a * 400 + 1 + b * 100 + c * 4 + e, month_day (e = 3 \<and> (c \<noteq> 24 \<or> b = 3)) r1))"
    using assms(3) unfolding ord_to_ymd_def Let_def parts [symmetric] by (rule sym)
  show ?thesis
  proof (cases "e = 4 \<or> b = 4")
    case False
    then have be: "b \<le> 3" "e \<le> 3" using hi by linarith+
    define lp where "lp = (e = 3 \<and> (c \<noteq> 24 \<or> b = 3))"
    have yy: "y = 400 * a + 100 * b + 4 * c + e + 1" "(m, d) = month_day lp r1"
      using y False by (simp_all add: lp_def)
    have ok: "month_day_ok lp r1" using month_day_ok rng by simp
    note dby = days_before_year_parts [OF lo(2) be(1) lo(3) hi(2) lo(4) be(2), of a]
    have "y \<le> 9999"
      using assms(2) eqs rng lo hi be yy(1) unfolding MAX_ORDINAL_def by linarith
    then show ?thesis
      using ok yy lo dby eqs unfolding lp_def
      by (auto simp: month_day_ok_def ymd_to_ord_def split: prod.splits)
  next
    case True
    show ?thesis
    proof (cases "b = 4")
      case b4: True
      then have z: "c = 0" "e = 0" "r1 = 0" using eqs rng lo by linarith+
      have yy: "y = 400 * a + 100 * 3 + 4 * 24 + 3 + 1" "m = 12" "d = 31" using y True b4 z by simp_all
      have "y \<le> 9999" using assms(2) eqs b4 z yy unfolding MAX_ORDINAL_def by linarith
      then show ?thesis
        using days_before_year_parts [of 3 24 3 a] yy lo eqs b4 z
        by (simp add: ymd_to_ord_def month_length_def month_start_def)
    next
      case b3: False
      then have e4: "e = 4" "b \<le> 3" "r1 = 0" "c \<le> 23" using True eqs rng lo hi by linarith+
      have yy: "y = 400 * a + 100 * b + 4 * c + 3 + 1" "m = 12" "d = 31" using y True e4 by simp_all
      have "y \<le> 9999" using assms(2) eqs e4 lo yy unfolding MAX_ORDINAL_def by linarith
      then show ?thesis
        using days_before_year_parts [of b c 3 a] yy lo eqs e4
        by (simp add: ymd_to_ord_def month_length_def month_start_def)
    qed
  qed
qed

subsection \<open>Fixed-width decimals\<close>

lemma take_digits_Suc:
  "take_digits (Suc k) acc s = (case take_digits k acc s of None \<Rightarrow> None | Some (a, r) \<Rightarrow> take_digits 1 a r)"
  by (induction k acc s rule: take_digits.induct) auto

lemma length_dec [simp]: "length (dec w n) = w"
  by (induction w n rule: dec.induct) simp_all

lemma digit_char_digit: "m < 10 \<Longrightarrow> is_digit (digit_char m) \<and> code (digit_char m) = 48 + m"
  by (simp add: digit_char_def is_digit_def between_def code_def)

lemma dec_digits: "list_all is_digit (dec w n)"
  by (induction w n rule: dec.induct) (simp_all add: digit_char_digit)

lemma take_digits_dec:
  assumes "0 \<le> n" "n < 10 ^ w"
  shows "take_digits w acc (dec w n @ rest) = Some (acc * 10 ^ w + n, rest)"
  using assms
proof (induction w arbitrary: n acc rest)
  case (Suc w)
  have m: "nat (n mod 10) < 10" by simp
  have "take_digits w acc (dec w (n div 10) @ digit_char (nat (n mod 10)) # rest) =
      Some (acc * 10 ^ w + n div 10, digit_char (nat (n mod 10)) # rest)"
    using Suc.prems by (intro Suc.IH) auto
  moreover have "take_digits 1 (acc * 10 ^ w + n div 10) (digit_char (nat (n mod 10)) # rest) =
      Some ((acc * 10 ^ w + n div 10) * 10 + n mod 10, rest)"
    using digit_char_digit [OF m] by simp
  moreover have "(acc * 10 ^ w + n div 10) * 10 + n mod 10 = acc * 10 ^ Suc w + n"
    using div_mult_mod_eq [of n 10] by (simp add: algebra_simps)
  moreover have "dec (Suc w) n @ rest = dec w (n div 10) @ digit_char (nat (n mod 10)) # rest" by simp
  ultimately show ?case unfolding take_digits_Suc by (simp only: option.case prod.case)
qed simp

lemma dec_nth: "i < w \<Longrightarrow> is_digit (dec w n ! i)"
  using dec_digits [of w n] by (simp add: list_all_length)

lemma digit_not: "is_digit c \<Longrightarrow> c \<noteq> CHR ''W'' \<and> c \<noteq> CHR ''-'' \<and> c \<noteq> CHR ''+'' \<and> c \<noteq> CHR ''Z'' \<and> c \<noteq> CHR '':'' \<and> c \<noteq> CHR ''.''"
  by (auto simp: is_digit_def between_def code_def)

subsection \<open>The date\<close>

lemma date_text_parts:
  assumes "1 \<le> n" "n \<le> MAX_ORDINAL"
  obtains y m d where "date_text n = dec 4 y @ ''-'' @ dec 2 m @ ''-'' @ dec 2 d"
    "ymd_to_ord y m d = Some n" "0 \<le> y" "y < 10000" "0 \<le> m" "m < 100" "0 \<le> d" "d < 100"
proof -
  obtain y m d where o: "ord_to_ymd n = (y, m, d)" by (cases "ord_to_ymd n") auto
  have v: "ymd_to_ord y m d = Some n" using ord_to_ymd_valid [OF assms o] .
  then have "1 \<le> y" "y \<le> 9999" "1 \<le> m" "m \<le> 12" "1 \<le> d" "d \<le> 31"
    by (auto simp: ymd_to_ord_def month_length_def split: if_splits)
  then show ?thesis using that [of y m d] o v by (simp add: date_text_def)
qed

lemma parse_date_text:
  assumes "1 \<le> n" "n \<le> MAX_ORDINAL"
  shows "parse_date (date_text n) = Some n" "length (date_text n) = 10"
    "date_text n ! 4 = CHR ''-''" "date_text n ! 5 \<noteq> CHR ''W''"
proof -
  obtain y m d where p: "date_text n = dec 4 y @ ''-'' @ dec 2 m @ ''-'' @ dec 2 d"
    "ymd_to_ord y m d = Some n" "0 \<le> y" "y < 10000" "0 \<le> m" "m < 100" "0 \<le> d" "d < 100"
    by (rule date_text_parts [OF assms])
  obtain c cs where dm: "dec 2 m = c # cs" "is_digit c" using dec_digits [of 2 m] length_dec [of 2 m] by (cases "dec 2 m") auto
  have y: "take_digits 4 0 (date_text n) = Some (y, ''-'' @ dec 2 m @ ''-'' @ dec 2 d)"
    using take_digits_dec [of y 4 0] p by simp
  have m: "take_digits 2 0 (dec 2 m @ ''-'' @ dec 2 d) = Some (m, ''-'' @ dec 2 d)"
    using take_digits_dec [of m 2 0] p by simp
  have d: "take_digits 2 0 (dec 2 d) = Some (d, [])"
    using take_digits_dec [of d 2 0 "[]"] p by simp
  have W: "\<not> starts_with ''W'' (dec 2 m @ r)" for r using dm digit_not by auto
  show "parse_date (date_text n) = Some n"
    using y m d W p(2) by (simp add: parse_date_def parse_month_day_def del: dec.simps)
  show "length (date_text n) = 10" using p by simp
  show "date_text n ! 4 = CHR ''-''" "date_text n ! 5 \<noteq> CHR ''W''"
    using digit_not [OF dm(2)] by (simp_all add: p nth_append dm(1) del: dec.simps)
qed

subsection \<open>The time of day\<close>

lemma parse_hms_step:
  assumes "0 \<le> v" "v < 100" "r \<noteq> []" "0 < k"
  shows "parse_hms (Suc k) first True (dec 2 v @ '':'' @ r) fin =
       map_option (\<lambda>(vs, us, e). (v # vs, us, e)) (parse_hms k False True r fin)"
proof -
  have "take_digits 2 0 (dec 2 v @ '':'' @ r) = Some (v, '':'' @ r)"
    using take_digits_dec [of v 2 0] assms by simp
  then show ?thesis using assms(3,4) by (simp add: code_def)
qed

lemma parse_hms_last:
  assumes "0 \<le> v" "v < 100" "0 \<le> u" "u < 1000000"
  shows "parse_hms (Suc k) False True (dec 2 v @ (if u = 0 then [] else ''.'' @ dec 6 u)) False = Some ([v], u, False)"
proof (cases "u = 0")
  case True
  then show ?thesis using take_digits_dec [of v 2 0 "[]"] assms by simp
next
  case False
  have "take_digits 2 0 (dec 2 v @ ''.'' @ dec 6 u) = Some (v, ''.'' @ dec 6 u)"
    using take_digits_dec [of v 2 0] assms by simp
  moreover have "parse_fraction (dec 6 u) False = Some (u, False)"
    using take_digits_dec [of u 6 0 "[]"] assms by (simp add: parse_fraction_def)
  moreover have "dec 6 u \<noteq> []" by (metis length_dec list.size(3) zero_neq_numeral)
  ultimately show ?thesis using False by (simp add: code_def)
qed

lemma dec_nonempty: "dec 2 n @ r \<noteq> []"
  using length_dec [of 2 n] by fastforce

lemma time_text_chars:
  assumes "c \<in> set (time_text us)"
  shows "is_digit c \<or> c = CHR '':'' \<or> c = CHR ''.''"
  using assms dec_digits [unfolded list_all_iff]
  by (auto simp: time_text_def Let_def simp del: dec.simps split: if_splits)

lemma seconds_of_parts: "seconds_of [x div 3600, x div 60 mod 60, x mod 60] = x"
proof -
  have "x div 3600 = x div 60 div 60" by (simp add: zdiv_zmult2_eq [symmetric])
  moreover have "x div 60 div 60 * 3600 + x div 60 mod 60 * 60 + x mod 60 = x"
    using div_mult_mod_eq [of "x div 60" 60] div_mult_mod_eq [of x 60] by linarith
  ultimately show ?thesis by (simp add: seconds_of_def component_def)
qed

lemma parse_time_text:
  assumes "0 \<le> us" "us < DAY"
  shows "parse_time (time_text us @ ''+00:00'') = Some (us, Some 0)"
proof -
  define sec where "sec = us div 1000000"
  define u where "u = us mod 1000000"
  let ?h = "sec div 3600" and ?m = "sec div 60 mod 60" and ?s = "sec mod 60"
  let ?f = "if u = 0 then [] else ''.'' @ dec 6 u"
  have sec: "0 \<le> sec" "sec < 86400" using assms by (auto simp: sec_def DAY_def)
  then have h: "0 \<le> ?h" "?h < 24" by auto
  have u: "0 \<le> u" "u < 1000000" by (simp_all add: u_def)
  have tt: "time_text us = dec 2 ?h @ '':'' @ dec 2 ?m @ '':'' @ dec 2 ?s @ ?f"
    by (simp add: time_text_def Let_def sec_def u_def)
  have suc: "Suc 2 = 3" "Suc 1 = 2" "Suc 0 = 1" by simp_all
  have "parse_hms (Suc 2) True True (time_text us) False =
      map_option (\<lambda>(vs, us, e). (?h # vs, us, e))
        (parse_hms 2 False True (dec 2 ?m @ '':'' @ dec 2 ?s @ ?f) False)"
    unfolding tt by (rule parse_hms_step) (use h dec_nonempty in auto)
  moreover have "parse_hms (Suc 1) False True (dec 2 ?m @ '':'' @ dec 2 ?s @ ?f) False =
      map_option (\<lambda>(vs, us, e). (?m # vs, us, e)) (parse_hms 1 False True (dec 2 ?s @ ?f) False)"
    by (rule parse_hms_step) (use dec_nonempty in auto)
  moreover have "parse_hms (Suc 0) False True (dec 2 ?s @ ?f) False = Some ([?s], u, False)"
    by (rule parse_hms_last) (use u pos_mod_bound [of 60 sec] in auto)
  ultimately have hms: "parse_hms 3 True True (time_text us) False = Some ([?h, ?m, ?s], u, False)"
    unfolding suc by simp
  have nz: "\<forall>c \<in> set (time_text us). \<not> is_zone_mark c"
    using time_text_chars [of _ us] digit_not by (fastforce simp: is_zone_mark_def)
  have parts: "takeWhile (\<lambda>c. \<not> is_zone_mark c) (time_text us @ ''+00:00'') = time_text us"
    "dropWhile (\<lambda>c. \<not> is_zone_mark c) (time_text us @ ''+00:00'') = ''+00:00''"
    using nz by (simp_all add: takeWhile_append2 dropWhile_append2 is_zone_mark_def)
  have zone: "parse_zone ''+00:00'' = Some (Some 0)" by code_simp
  have whole: "seconds_of [?h, ?m, ?s] * 1000000 + u = us"
    unfolding seconds_of_parts by (simp add: sec_def u_def)
  have small: "component [?h, ?m, ?s] 0 < 24" "component [?h, ?m, ?s] 1 < 60" "component [?h, ?m, ?s] 2 < 60"
    using h by (simp_all add: component_def)
  have "(''+00:00'' = []) = False" by simp
  then show ?thesis
    unfolding parse_time_def Let_def parts by (simp only: hms zone option.case prod.case whole small) simp
qed

subsection \<open>The whole text\<close>

lemma in_range_parts:
  assumes "in_range n"
  shows "1 \<le> n div DAY + 1" "n div DAY + 1 \<le> MAX_ORDINAL" "0 \<le> n mod DAY" "n mod DAY < DAY"
proof -
  have "0 \<le> n" "n < 3652059 * 86400000000" using assms by (simp_all add: in_range_def DAY_def MAX_ORDINAL_def)
  then show "1 \<le> n div DAY + 1" "n div DAY + 1 \<le> MAX_ORDINAL" unfolding DAY_def MAX_ORDINAL_def by linarith+
qed (simp_all add: DAY_def)

theorem fromisoformat_isoformat:
  assumes "in_range n"
  shows "fromisoformat (isoformat_utc n) = Some \<lparr>naive = n, offset = Some 0\<rparr>"
proof -
  let ?d = "date_text (n div DAY + 1)" and ?t = "time_text (n mod DAY) @ ''+00:00''"
  note r = in_range_parts [OF assms]
  note d = parse_date_text [OF r(1,2)]
  have iso: "isoformat_utc n = ?d @ CHR ''T'' # ?t" by (simp add: isoformat_utc_def)
  have len: "10 < length (isoformat_utc n)" unfolding iso using d(2) by simp
  have sep: "separator_location (isoformat_utc n) = Some 10"
    using len d by (simp add: separator_location_def iso nth_append Let_def)
  have "take 10 (isoformat_utc n) = ?d" "drop 10 (isoformat_utc n) = CHR ''T'' # ?t"
    using d(2) by (simp_all add: iso)
  then show ?thesis
    using len sep d(1) parse_time_text [OF r(3,4)] by (simp add: fromisoformat_def mult.commute)
qed

lemma date_text_chars: "c \<in> set (date_text n) \<Longrightarrow> is_digit c \<or> c = CHR ''-''"
  using dec_digits [unfolded list_all_iff]
  by (auto simp: date_text_def simp del: dec.simps split: prod.splits)

lemma replace_all_last:
  assumes "old = c # cs" and "c \<notin> set x"
  shows "replace_all old new (x @ old) = x @ new"
  using assms(2)
proof (induction x)
  case Nil
  have "starts_with old old" for old by (induction old) auto
  then show ?case using assms(1) by (subst replace_all.simps) simp
next
  case (Cons a x)
  then have "\<not> starts_with old (a # x @ old)" using assms(1) by auto
  then show ?case using Cons assms(1) by (subst replace_all.simps) simp
qed

lemma isoformat_Z:
  obtains x where "replace_all ''+00:00'' ''Z'' (isoformat_utc n) = x @ ''Z''" "isoformat_utc n = x @ ''+00:00''"
    "replace_all ''Z'' ''+00:00'' (x @ ''Z'') = isoformat_utc n"
proof -
  let ?x = "date_text (n div DAY + 1) @ ''T'' @ time_text (n mod DAY)"
  have nd: "\<not> is_digit (CHR ''+'')" "\<not> is_digit (CHR ''Z'')" using digit_not by blast+
  then have no: "CHR ''+'' \<notin> set ?x" "CHR ''Z'' \<notin> set ?x"
    using nd by (auto dest!: date_text_chars time_text_chars)
  show ?thesis
    using that [of ?x] replace_all_last [OF _ no(1), of "''+00:00''"] replace_all_last [OF _ no(2), of "''Z''"]
    by (simp add: isoformat_utc_def)
qed

end
