(* ===== verification/StoreProperties.thy ===== *)
theory StoreProperties
  imports StoreSteps PyTimeText
begin

section \<open>Properties of the store\<close>

text \<open>
  What ingestion, the liveness refresh, replay and retention promise, each stated over the model
  of \<^verbatim>\<open>store.py\<close> and applied to the sample stores of \<^verbatim>\<open>StoreSteps\<close>.
\<close>

lemma stores_id: "stores row e \<Longrightarrow> ev_id e = er_event_id row"
  by (simp only: stores_def)

lemma store_inv_log:
  assumes "store_inv d"
  shows "distinct (map er_event_id (events d))" "sorted_wrt (<) (map er_row_id (events d))"
    "row \<in> set (events d) \<Longrightarrow> \<exists>e. stores row e"
  using assms unfolding store_inv_def keys_ok_def tbl_keys_def by blast+

text \<open>The tables after marking have no stale row left.\<close>

lemma fold_amend_map:
  assumes "\<And>r. kf (f r) = kf r" and "\<And>r. f (f r) = f r"
  shows "fold (\<lambda>k. tbl_amend kf k f) ks t = map (\<lambda>r. if kf r \<in> set ks then f r else r) t"
proof (induction ks arbitrary: t)
  case (Cons k ks)
  show ?case
    unfolding fold_Cons comp_apply Cons.IH
    by (simp add: tbl_amend_def tbl_update_def assms)
qed simp

lemma filter_res_none: "\<forall>x \<in> set xs. p x = Inr False \<Longrightarrow> filter_res p xs = Inr []"
  by (induction xs) auto

lemma filter_res_again:
  assumes "filter_res p (filter q t) = Inr xs" and "\<And>r. \<not> q (f r)"
    and "\<And>r. kf (f r) = kf r" and "\<And>r. f (f r) = f r"
  shows "filter_res p (filter q (fold (\<lambda>k. tbl_amend kf k f) (map kf xs) t)) = Inr []"
proof (rule filter_res_none, rule ballI)
  fix x
  assume "x \<in> set (filter q (fold (\<lambda>k. tbl_amend kf k f) (map kf xs) t))"
  then have x: "x \<in> set t" "q x" "kf x \<notin> set (map kf xs)"
    using assms(2) by (auto simp: fold_amend_map assms(3,4) split: if_splits)
  then have "x \<notin> set xs" by auto
  then show "p x = Inr False"
    using x(1,2) assms(1) by (auto simp: filter_res_Inr)
qed

subsection \<open>Replay\<close>

text \<open>
  C2: In every reachable state whose history is complete, \<^verbatim>\<open>replay()\<close> succeeds and rebuilds, from
  the stored payloads alone, exactly the job rows, watermarks, log and incidents that incremental
  ingestion had produced; the runner rows are the same but for the reason of an offline runner,
  which is taken from an open incident of the runner.
\<close>

theorem replay_restores_projections:
  assumes "reachable fr s" and "history_is_complete (db s)"
  shows "\<exists>s'. replay fr s = (Inr True, s') \<and> events (db s') = events (db s) \<and>
     job_state (db s') = job_state (db s) \<and> watermarks (db s') = watermarks (db s) \<and>
     incidents (db s') = incidents (db s) \<and>
     list_all2 (\<lambda>r r'. r' = r \<or> rs_liveness r = ''offline'' \<and>
         (\<exists>c. is_open (db s) ''runner'' (rs_runner_id r) c \<and> r' = r\<lparr>rs_offline_reason := Some c\<rparr>))
       (runner_state (db s)) (runner_state (db s'))"
proof -
  obtain s' where "replay fr s = (Inr True, s')" "restoring (db s) (db s')"
    using replay_restoring [OF reachable_inv [OF assms(1)] assms(2)] by blast
  then show ?thesis unfolding restoring_def reason_of_incident_def by blast
qed

theorem replay_restores_projections_witness:
  "\<exists>s'. replay (\<lambda>x. x) store2 = (Inr True, s') \<and> map js_state (job_state (db s')) = [''finished'', ''running'']"
  using replay_restores_projections [OF sample_steps(4) store2_complete] store2_facts(2) by metis

subsection \<open>Ingestion\<close>

text \<open>
  C8: Ingestion is idempotent: delivering an accepted event again, at whatever time, changes
  nothing, notifies nobody and answers what the first delivery answered, marked as a duplicate.
\<close>

theorem ingest_idempotent:
  assumes "ingest s event at = (Inr (r, notified), s')" and "normalise_received_at at2 = Inr t2"
  shows "ingest s' event at2 = (Inr (r\<lparr>ir_duplicate := True\<rparr>, []), s')"
  using assms(1)
proof (cases rule: ingest_cases)
  case (duplicate e at' row)
  then show ?thesis using assms(2) by (simp add: ingest_def revalidated_def)
next
  case (new e at' applied notified' d)
  obtain body where "events d = events (db s) @ [logged (db s) e at' body applied]"
    by (rule ingest_new_cases [OF new(4,3)]) blast
  then have "tbl_get er_event_id (ev_id e) (events d) = Some (logged (db s) e at' body applied)"
    using new(3) by (simp add: tbl_get_snoc logged_def)
  then show ?thesis using new assms(2) by (simp add: ingest_def revalidated_def logged_def)
qed simp

theorem ingest_idempotent_witness:
  "\<exists>r. ingest store1 finished_event sample_time = (Inr (r, []), store1) \<and> ir_duplicate r"
  using ingest_idempotent [OF store1_facts(6) sample_time_text] by (intro exI conjI) (assumption | simp)+



text \<open>
  C19: In every reachable state the log is well formed: event ids are unique, row ids grow, and each
  row's payload text parses back to an event that validates and carries the row's event id.
\<close>

theorem stored_events_decode:
  assumes "reachable fr s"
  shows "distinct (map er_event_id (events (db s))) \<and> sorted_wrt (<) (map er_row_id (events (db s))) \<and>
    (\<forall>row \<in> set (events (db s)). \<exists>p e. json_loads fr (er_payload_json row) = Inr p \<and>
       validate_event p = Inr e \<and> ev_id e = er_event_id row)"
proof -
  have inv: "store_inv (db s)" by (rule reachable_inv [OF assms])
  show ?thesis
  proof (intro conjI ballI)
    fix row assume "row \<in> set (events (db s))"
    then obtain e where "stores row e" using store_inv_log(3) [OF inv] by blast
    then show "\<exists>p e. json_loads fr (er_payload_json row) = Inr p \<and> validate_event p = Inr e \<and>
        ev_id e = er_event_id row"
      by (intro exI conjI) (rule stores_decodes stores_id, assumption)+
  qed (rule store_inv_log [OF inv])+
qed

theorem stored_events_decode_witness:
  "length (events (db store2)) = 2 \<and> distinct (map er_event_id (events (db store2)))"
  using stored_events_decode [OF sample_steps(4)] store2_facts(1) by blast

subsection \<open>Order\<close>

lemma steps_watermark:
  "monitor_steps fr s s' \<Longrightarrow> store_inv (db s) \<Longrightarrow>
     watermark_le (watermark_get k (db s)) (watermark_get k (db s'))"
proof (induction rule: monitor_steps.induct)
  case (steps_step s s' s'')
  have "store_inv (db s')" using store_inv_steps steps_step by blast
  then show ?case using steps_step step_watermark watermark_le_trans by blast
qed simp

lemma steps_finished:
  "monitor_steps fr s s' \<Longrightarrow> store_inv (db s) \<Longrightarrow> job_get k (db s) = Some row \<Longrightarrow>
     js_state row = ''finished'' \<Longrightarrow> job_get k (db s') = Some row"
proof (induction rule: monitor_steps.induct)
  case (steps_step s s' s'')
  have "store_inv (db s')" using store_inv_steps steps_step by blast
  then show ?case using steps_step step_finished by blast
qed simp

text \<open>
  C7: Whatever a store does from a reachable state on (ingestion, liveness refresh, replay,
  retention, reopening, in any order), no producer's watermark ever goes back.
\<close>

theorem watermark_monotone:
  assumes "reachable fr s" and "monitor_steps fr s s'" and "watermark_get k (db s) = Some n"
  shows "\<exists>m. watermark_get k (db s') = Some m \<and> n \<le> m"
  using steps_watermark [OF assms(2) reachable_inv [OF assms(1)], of k] assms(3)
  by (auto simp: watermark_le_def split: option.splits)

lemma store1_to_store2: "monitor_steps fr store1 store2"
  by (rule steps_step [OF steps_refl sample_steps(2)])

lemma store1_watermark: "watermark_get (watermark_of finished_event) (db store1) = Some (ev_producer_sequence finished_event)"
proof -
  obtain d1 d2 where a: "apply_event True True d1 finished_event ''2026-09-18T01:30:00Z'' = Inr (True, d2)"
    and w: "watermarks (db store1) = watermarks d2"
    by (rule ingest_new_gets [OF store1_facts(5)]) (simp add: empty_database_def, blast)
  show ?thesis using apply_event_newer(1) [OF a] watermark_get_cong [OF w] by simp
qed

theorem watermark_monotone_witness:
  "\<exists>m. watermark_get (watermark_of finished_event) (db store2) = Some m \<and> ev_producer_sequence finished_event \<le> m"
  by (rule watermark_monotone [OF sample_steps(3) store1_to_store2 store1_watermark])

text \<open>
  C6: A finished job is final: once a job's row says that it finished, the row never changes again,
  whatever events, refreshes, replays, prunings and reopenings follow.
\<close>

theorem finished_job_final:
  assumes "reachable fr s" and "monitor_steps fr s s'"
    and "job_get k (db s) = Some row" and "js_state row = ''finished''"
  shows "job_get k (db s') = Some row"
  using steps_finished [OF assms(2) reachable_inv [OF assms(1)] assms(3,4)] .

lemma store1_finished:
  obtains row where "job_get (''octo/app'', 7, 1, 3) (db store1) = Some row" "js_state row = ''finished''"
proof -
  obtain row where "job_state (db store1) = [row]" using store1_facts(2) by (cases "job_state (db store1)") auto
  then show ?thesis using that [of row] store1_facts(2,3) by (simp add: job_get_def)
qed

theorem finished_job_final_witness:
  "\<exists>row. job_get (''octo/app'', 7, 1, 3) (db store1) = Some row \<and> js_state row = ''finished'' \<and>
     job_get (''octo/app'', 7, 1, 3) (db store2) = Some row"
proof -
  obtain row where row: "job_get (''octo/app'', 7, 1, 3) (db store1) = Some row" "js_state row = ''finished''"
    by (rule store1_finished)
  show ?thesis
    using finished_job_final [OF sample_steps(3) store1_to_store2 row] row by blast
qed

text \<open>
  An event that reports an older attempt of the workflow run a runner is currently working on
  is logged but never applied: the projections stay as they were.
\<close>

lemma older_attempt_only_logged:
  assumes "ingest s event at = (Inr (r, notified), s')" and "\<not> ir_duplicate r"
    and "validate_event (thaw (ev_payload event)) = Inr e" and "ev_type e \<in> set job_types"
    and "runner_get (ev_runner_id e) (db s) = Some row"
    and "rs_current_repository row = Some (text_at (event_job e) ''repository'')"
    and "rs_current_workflow_run_id row = Some (int_at (event_job e) ''workflow_run_id'')"
    and "rs_current_run_attempt row = Some a" and "int_at (event_job e) ''run_attempt'' < a"
  shows "\<not> ir_projection_applied r \<and> notified = [] \<and> runner_state (db s') = runner_state (db s) \<and>
    job_state (db s') = job_state (db s) \<and> watermarks (db s') = watermarks (db s) \<and>
    length (events (db s')) = Suc (length (events (db s)))"
  using assms(1)
proof (cases rule: ingest_cases)
  case (new e' at' applied notified' d)
  then have e': "e' = e" using assms(3) by simp
  show ?thesis
  proof (rule ingest_new_cases [OF new(4,3) [unfolded e']])
    fix body d1 d2
    assume d1: "d1 = (db s)\<lparr>events := events (db s) @ [event_values (next_row_id (map er_row_id (events (db s)))) e at' body]\<rparr>"
      and app: "apply_event True True d1 e at' = Inr (applied, d2)"
      and log: "events d = events (db s) @ [logged (db s) e at' body applied]"
      and d: "d = (if applied \<and> ev_type e = ''runner.offline''
           then snd (open_incident (set_applied d2 (ev_id e) applied) ''runner'' (ev_runner_id e) ''explicit_shutdown'' at')
           else set_applied d2 (ev_id e) applied)"
      and n: "notified' = (if applied \<and> ev_type e = ''runner.offline''
           then (case fst (open_incident (set_applied d2 (ev_id e) applied) ''runner''
                   (ev_runner_id e) ''explicit_shutdown'' at') of None \<Rightarrow> [] | Some i \<Rightarrow> [i]) else [])"
    have "runner_get (ev_runner_id e) d1 = Some row"
      using assms(5) runner_get_cong [of d1 "db s"] d1 by simp
    then have "older_attempt_than_runner_current d1 e"
      using assms(6-9) by (simp add: older_attempt_than_runner_current_def Let_def)
    then have "\<not> applied" using assms(4) app by (elim apply_event_cases) blast+
    moreover from this have "d2 = d1" using app apply_event_rejected by simp
    ultimately show ?thesis using new(5,6) log d n d1 by simp
  qed
qed (use assms(2) in auto)

subsection \<open>Liveness\<close>

text \<open>
  C14: A refresh of the liveness marks exactly the stale rows: an online runner whose last event
  arrived more than ten minutes before \<^verbatim>\<open>now\<close>, a running online job whose last heartbeat did; every
  other row, the log, the watermarks and the history marker stay as they are.
\<close>

theorem refresh_marks_exactly_stale:
  assumes "reachable fr s" and "refresh_liveness s now = (Inr notified, s')"
  shows "\<exists>current t. normalise_received_at now = Inr current \<and> parse_received_at current = Inr t \<and>
     (\<forall>rid. runner_get rid (db s') =
        map_option (\<lambda>r. if rs_liveness r = ''online'' \<and> too_old t (rs_last_received_at r)
                       then mark_runner r else r) (runner_get rid (db s))) \<and>
     (\<forall>k. job_get k (db s') =
        map_option (\<lambda>r. if js_state r = ''running'' \<and> js_liveness r = ''online'' \<and>
             (case js_last_heartbeat_at r of None \<Rightarrow> False | Some at \<Rightarrow> too_old t at)
           then mark_job r else r) (job_get k (db s))) \<and>
     events (db s') = events (db s) \<and> watermarks (db s') = watermarks (db s) \<and>
     monitor_meta (db s') = monitor_meta (db s)"
proof -
  have keys: "keys_ok (db s)" using reachable_inv [OF assms(1)] by (simp add: store_inv_def)
  obtain current t where g: "normalise_received_at now = Inr current" "parse_received_at current = Inr t"
    "\<forall>rid. runner_get rid (db s') =
       map_option (\<lambda>r. if runner_stale t r then mark_runner r else r) (runner_get rid (db s))"
    "\<forall>k. job_get k (db s') = map_option (\<lambda>r. if job_stale t r then mark_job r else r) (job_get k (db s))"
    "events (db s') = events (db s)" "watermarks (db s') = watermarks (db s)"
    "monitor_meta (db s') = monitor_meta (db s)"
    by (rule refresh_gets [OF assms(2) keys]) simp
  show ?thesis
    by (rule exI [of _ current], rule exI [of _ t], intro conjI)
      (rule g(1) g(2) g(3) [unfolded runner_stale_def] g(4) [unfolded job_stale_def] g(5-7))+
qed

text \<open>
  Incident notifications are edge triggered: what a refresh hands to the notifier are incidents
  that were not open before and are open afterwards.
\<close>

lemma refresh_notifies_opened:
  assumes "reachable fr s" and "refresh_liveness s now = (Inr notified, s')" and "i \<in> set notified"
  shows "\<not> is_open (db s) (in_kind i) (in_resource i) (in_condition i) \<and>
    is_open (db s') (in_kind i) (in_resource i) (in_condition i)"
proof -
  have keys: "keys_ok (db s)" using reachable_inv [OF assms(1)] by (simp add: store_inv_def)
  show ?thesis
    by (rule refresh_gets [OF assms(2) keys]) (use assms(3) in \<open>unfold opened_def, blast\<close>)
qed

lemma open_job_key:
  assumes inv: "incidents_inv d"
  shows "job_get k d = Some row \<Longrightarrow> job_get k' d = Some row' \<Longrightarrow>
    resource_id_of_key k = resource_id_of_key k' \<Longrightarrow> k = k'"
  using parse_resource_id [OF incidents_inv_key [OF inv, of k row]]
      parse_resource_id [OF incidents_inv_key [OF inv, of k' row']] by (metis option.inject)

lemma online_runner_not_open:
  assumes inv: "incidents_inv d"
  shows "runner_get rid d = Some row \<Longrightarrow> rs_liveness row = ''online'' \<Longrightarrow> is_open d ''runner'' rid c \<Longrightarrow> False"
proof -
  assume a: "runner_get rid d = Some row" "rs_liveness row = ''online''" "is_open d ''runner'' rid c"
  then obtain row' where "runner_get rid d = Some row'" "rs_liveness row' = ''offline''"
      using inv unfolding incidents_inv_def by blast
  then show False using a by simp
qed

lemma online_job_not_open:
  assumes inv: "incidents_inv d"
  shows "job_get k d = Some row \<Longrightarrow> js_liveness row = ''online''\<Longrightarrow>
      is_open d ''job'' (resource_id_of_key k) c \<Longrightarrow> False"
proof -
  assume j: "job_get k d = Some row" "js_liveness row = ''online''"
      "is_open d ''job'' (resource_id_of_key k) c"
  then obtain k' row' where k': "resource_id_of_key k = resource_id_of_key k'" "job_get k' d = Some row'"
      "js_liveness row' = ''offline''"
      using inv unfolding incidents_inv_def by blast
  have "k = k'" by (rule open_job_key [OF inv j(1) k'(2,1)])
  then show False using j k' by simp
qed


text \<open>
  A refresh at a moment that has been refreshed already does nothing: no row changes and nobody
  is notified a second time.
\<close>

theorem refresh_idempotent:
  assumes "refresh_liveness s now = (Inr notified, s')"
  shows "refresh_liveness s' now = (Inr [], s')"
proof -
  show ?thesis
  proof (rule refresh_cases [OF assms])
    fix current t cutoff rs js n1 n2 d1 d2
    assume h: "normalise_received_at now = Inr current" "parse_received_at current = Inr t"
      "moment_minus t (LIVENESS_TIMEOUT_SECONDS * 1000000) = Inr cutoff"
      "stale_runners cutoff (db s) = Inr rs" "mark_runners current (map rs_runner_id rs) (db s) = (n1, d1)"
      "stale_jobs cutoff d1 = Inr js" "mark_jobs current (map job_row_key js) d1 = (n2, d2)"
      "s' = s\<lparr>db := d2\<rparr>"
    have d: "d1 = snd (mark_runners current (map rs_runner_id rs) (db s))"
      "d2 = snd (mark_jobs current (map job_row_key js) d1)" using h(5,7) by simp_all
    have r: "stale_runners cutoff d2 = Inr []"
      unfolding stale_runners_def d mark_jobs_tables mark_runners_tables
      by (rule filter_res_again [OF h(4) [unfolded stale_runners_def]]) simp_all
    have j: "stale_jobs cutoff d2 = Inr []"
      unfolding stale_jobs_def d(2) mark_jobs_tables
      by (rule filter_res_again [OF h(6) [unfolded stale_jobs_def]]) simp_all
    show ?thesis
      by (simp add: refresh_liveness_def h(1-3,8) r j)
  qed
qed

subsection \<open>Retention\<close>


subsection \<open>Reception times\<close>

lemma normalise_moment_reads_back:
  assumes "normalise_moment t0 = Inr s"
  shows "parse_received_at s = Inr \<lparr>naive = instant t0, offset = Some 0\<rparr>" "in_range (instant t0)"
    "normalise_moment \<lparr>naive = instant t0, offset = Some 0\<rparr> = Inr s"
proof -
  from assms have r: "in_range (instant t0)"
    and s: "s = replace_all ''+00:00'' ''Z'' (isoformat_utc (instant t0))"
    by (auto simp: normalise_moment_def astimezone_def rbind_Inr_iff split: if_splits)
  show "in_range (instant t0)" by (rule r)
  show "parse_received_at s = Inr \<lparr>naive = instant t0, offset = Some 0\<rparr>"
    by (rule isoformat_Z [of "instant t0"])
      (use fromisoformat_isoformat [OF r] in \<open>simp add: parse_received_at_def s\<close>)
  show "normalise_moment \<lparr>naive = instant t0, offset = Some 0\<rparr> = Inr s"
    using r by (simp add: normalise_moment_def astimezone_def instant_def s)
qed

text \<open>
  The text that the store writes for a reception time names the same instant when it is read
  back, and normalising it again changes nothing: comparisons against it are comparisons of instants.
\<close>

theorem received_at_roundtrip:
  assumes "normalise_received_at r = Inr s"
  shows "\<exists>t0 t. (r = AtMoment t0 \<or> (\<exists>x. r = AtText x \<and> fromisoformat (replace_all ''Z'' ''+00:00'' x) = Some t0)) \<and>
     parse_received_at s = Inr t \<and> instant t = instant t0 \<and> normalise_received_at (AtText s) = Inr s"
proof -
  obtain t0 where t0: "r = AtMoment t0 \<or> (\<exists>x. r = AtText x \<and> fromisoformat (replace_all ''Z'' ''+00:00'' x) = Some t0)"
    "normalise_moment t0 = Inr s"
    using assms by (auto simp: normalise_received_at_def split: received.splits option.splits)
  note n = normalise_moment_reads_back [OF t0(2)]
  have "fromisoformat (replace_all ''Z'' ''+00:00'' s) = Some \<lparr>naive = instant t0, offset = Some 0\<rparr>"
    using n(1) by (simp add: parse_received_at_def split: option.splits)
  then have "normalise_received_at (AtText s) = Inr s"
    using n(3) by (simp add: normalise_received_at_def)
  moreover have "instant \<lparr>naive = instant t0, offset = Some 0\<rparr> = instant t0" by (simp add: instant_def)
  ultimately show ?thesis using t0(1) n(1) by blast
qed

theorem received_at_roundtrip_witness:
  "\<exists>t. parse_received_at ''2026-09-18T01:30:00Z'' = Inr t \<and>
     normalise_received_at (AtText ''2026-09-18T01:30:00Z'') = Inr ''2026-09-18T01:30:00Z''"
  using received_at_roundtrip [OF sample_time_text] by blast

subsection \<open>Further witnesses\<close>

definition quiet_time :: received where
  "quiet_time = AtText ''2026-09-18T01:40:01Z''"

definition weeks_later :: received where
  "weeks_later = AtText ''2026-10-18T01:30:00Z''"

lemma refresh_eval:
  "(case ingest_new empty_database finished_event ''2026-09-18T01:30:00Z'' of
      Inl x \<Rightarrow> False
    | Inr (_, _, d) \<Rightarrow> (case refresh_liveness \<lparr>db = d, degraded_reasons = []\<rparr> quiet_time of
        (Inr [i], s') \<Rightarrow> in_kind i = ''runner'' \<and> map rs_liveness (runner_state (db s')) = [''offline'']
      | _ \<Rightarrow> False))"
  by code_simp

lemma prune_eval:
  "(case ingest_new empty_database finished_event ''2026-09-18T01:30:00Z'' of
      Inl x \<Rightarrow> False
    | Inr (_, _, d) \<Rightarrow> (case prune_history 999 False \<lparr>db = d, degraded_reasons = []\<rparr> weeks_later of
        (Inr n, s') \<Rightarrow> n = 1 \<and> events (db s') = []
      | _ \<Rightarrow> False))"
  by code_simp

lemma store1_shape: "\<lparr>db = db store1, degraded_reasons = []\<rparr> = store1"
proof -
  have "degraded_reasons store1 = []"
    by (simp add: store1_def ingest_def fresh_store_def split: sum.splits option.splits prod.splits)
  then show ?thesis by (cases store1) simp
qed

lemma store1_refresh:
  obtains i s' where "refresh_liveness store1 quiet_time = (Inr [i], s')" "in_kind i = ''runner''"
    "map rs_liveness (runner_state (db s')) = [''offline'']"
proof -
  have e: "(case refresh_liveness store1 quiet_time of
        (Inr [i], s') \<Rightarrow> in_kind i = ''runner'' \<and> map rs_liveness (runner_state (db s')) = [''offline'']
      | _ \<Rightarrow> False)"
    using refresh_eval unfolding store1_facts(5) by (simp only: sum.case prod.case store1_shape)
  obtain r s' where rs: "refresh_liveness store1 quiet_time = (r, s')" by fastforce
  obtain i where "r = Inr [i]" using e unfolding rs by (auto split: sum.splits list.splits)
  then show ?thesis using that e rs by simp
qed

lemma store1_prune:
  obtains s' where "prune_history 999 False store1 weeks_later = (Inr 1, s')" "events (db s') = []"
proof -
  have e: "(case prune_history 999 False store1 weeks_later of
        (Inr n, s') \<Rightarrow> n = 1 \<and> events (db s') = [] | _ \<Rightarrow> False)"
    using prune_eval unfolding store1_facts(5) by (simp only: sum.case prod.case store1_shape)
  obtain r s' where rs: "prune_history 999 False store1 weeks_later = (r, s')" by fastforce
  have "r = Inr 1" using e unfolding rs by (auto split: sum.splits)
  then show ?thesis using that e rs by simp
qed

theorem refresh_marks_exactly_stale_witness:
  "\<exists>s'. refresh_liveness store1 quiet_time = s' \<and> events (db (snd s')) = events (db store1)"
proof -
  obtain i s' where r: "refresh_liveness store1 quiet_time = (Inr [i], s')" by (rule store1_refresh)
  show ?thesis using refresh_marks_exactly_stale [OF sample_steps(3) r] r by auto
qed

lemma refresh_notifies_sample:
  "\<exists>i s'. refresh_liveness store1 quiet_time = (Inr [i], s') \<and> in_kind i = ''runner'' \<and>
     is_open (db s') ''runner'' (in_resource i) (in_condition i)"
proof -
  obtain i s' where r: "refresh_liveness store1 quiet_time = (Inr [i], s')" "in_kind i = ''runner''"
    by (rule store1_refresh)
  show ?thesis using refresh_notifies_opened [OF sample_steps(3) r(1), of i] r by auto
qed

theorem refresh_idempotent_witness:
  "\<exists>s'. map rs_liveness (runner_state (db s')) = [''offline''] \<and> refresh_liveness s' quiet_time = (Inr [], s')"
proof -
  obtain i s' where r: "refresh_liveness store1 quiet_time = (Inr [i], s')"
    "map rs_liveness (runner_state (db s')) = [''offline'']" by (rule store1_refresh)
  show ?thesis by (rule exI [of _ s'], intro conjI r(2) refresh_idempotent [OF r(1)])
qed



definition sample_attempt :: "string \<Rightarrow> int \<Rightarrow> int \<Rightarrow> pyval" where
  "sample_attempt eid sq n = sample_event ''job.started'' eid sq
     [(''job'', obj [(''repository'', PStr ''octo/app''), (''workflow_run_id'', PInt 8),
     (''run_attempt'', PInt n), (''job_id'', PInt 4), (''job_name'', PStr ''test''),
     (''run_url'', PStr ''https://github.com/octo/app/actions/runs/8'')])]"

definition second_attempt :: validated_event where
  "second_attempt = event_of (sample_attempt ''9b2f9c1e-7425-40de-944b-e07fc1f90ae8'' 5 2)"

definition first_attempt :: validated_event where
  "first_attempt = event_of (sample_attempt ''7c9e6679-7425-40de-944b-e07fc1f90ae7'' 6 1)"

lemma attempt_parts:
  "(let p = sample_attempt ''7c9e6679-7425-40de-944b-e07fc1f90ae7'' 6 1 in
     small_payload p \<and> is_mapping p \<and> content_safe p \<and> envelope_contract p \<and>
     body_contract p (text_at p ''event_type''))"
  by code_simp

lemma first_attempt_valid: "validate_event (thaw (ev_payload first_attempt)) = Inr first_attempt"
  unfolding first_attempt_def
  by (rule revalidated_event_of) (use attempt_parts in \<open>unfold event_contract_def Let_def, blast\<close>)

lemma attempts_eval:
  "(case ingest_new empty_database second_attempt ''2026-09-18T01:30:00Z'' of
      Inl x \<Rightarrow> False
    | Inr (_, _, d) \<Rightarrow> ev_id first_attempt \<notin> set (map er_event_id (events d)) \<and>
       (case runner_get (ev_runner_id first_attempt) d of None \<Rightarrow> False
        | Some row \<Rightarrow> rs_current_repository row = Some (text_at (event_job first_attempt) ''repository'') \<and>
            rs_current_workflow_run_id row = Some (int_at (event_job first_attempt) ''workflow_run_id'') \<and>
            rs_current_run_attempt row = Some 2) \<and>
       res_ok (ingest_new d first_attempt ''2026-09-18T01:30:00Z''))"
  by code_simp

lemma first_attempt_fields:
  "int_at (event_job first_attempt) ''run_attempt'' = 1 \<and> ev_type first_attempt = ''job.started''"
  by code_simp

lemma older_attempt_sample:
  "\<exists>s r s'. ingest s first_attempt sample_time = (Inr (r, []), s') \<and> \<not> ir_duplicate r \<and>
     \<not> ir_projection_applied r \<and> job_state (db s') = job_state (db s)"
proof -
  obtain d row a n d' where e: "ev_id first_attempt \<notin> set (map er_event_id (events d))"
    "runner_get (ev_runner_id first_attempt) d = Some row"
    "rs_current_repository row = Some (text_at (event_job first_attempt) ''repository'')"
    "rs_current_workflow_run_id row = Some (int_at (event_job first_attempt) ''workflow_run_id'')"
    "rs_current_run_attempt row = Some 2"
    "ingest_new d first_attempt ''2026-09-18T01:30:00Z'' = Inr (a, n, d')"
    using attempts_eval by (auto simp: res_ok_iff split: sum.splits prod.splits option.splits)
  let ?s = "\<lparr>db = d, degraded_reasons = []\<rparr>"
  have fresh: "tbl_get er_event_id (ev_id first_attempt) (events (db ?s)) = None"
    using e(1) by (simp add: tbl_get_None_iff)
  have i: "ingest ?s first_attempt sample_time = (Inr (\<lparr>ir_event_id = ev_id first_attempt, ir_accepted = True,
      ir_duplicate = False, ir_projection_applied = a,
      ir_producer_watermark = producer_watermark d' first_attempt\<rparr>, n), ?s\<lparr>db := d'\<rparr>)"
    by (rule ingest_new_result [OF first_attempt_valid sample_time_text fresh]) (simp add: e(6))
  have "ev_type first_attempt \<in> set job_types" using first_attempt_fields by (simp add: job_types_def)
  then have "\<not> a \<and> n = [] \<and> job_state d' = job_state d"
    using older_attempt_only_logged [OF i _ first_attempt_valid, of row 2] e(2-5) first_attempt_fields by simp
  then show ?thesis using i by (intro exI [of _ ?s] exI conjI) (assumption | simp)+
qed

end
