(* ===== verification/StoreQueries.thy ===== *)
theory StoreQueries
  imports StoreReplay
begin

section \<open>The event store (\<^verbatim>\<open>store.py\<close>): queries\<close>

text \<open>
  The read-only views.  A history item is the dictionary that \<^verbatim>\<open>_history_item_from_row\<close> builds,
  with the decoded payload; a filter value is what the callers hand in, a text or an integer.
  \<open>fr\<close> is the text of a parsed floating-point number, as in replay.
\<close>

subsection \<open>Current views\<close>

definition current_runner :: "store \<Rightarrow> string \<Rightarrow> runner_row option" where
  "current_runner s rid = runner_get rid (db s)"

text \<open>\<^verbatim>\<open>ORDER BY last_received_at DESC, runner_id ASC\<close>: both columns are compared as texts.\<close>

definition sort_desc :: "('a \<Rightarrow> 'k::linorder) \<Rightarrow> 'a list \<Rightarrow> 'a list" where
  "sort_desc f xs = rev (sort_key f (rev xs))"

definition list_runners :: "store \<Rightarrow> runner_row list" where
  "list_runners s = sort_desc rs_last_received_at (sort_key rs_runner_id (runner_state (db s)))"

definition current_job :: "store \<Rightarrow> job_key \<Rightarrow> job_row option res" where
  "current_job s k = (if job_key_fits k then Inr (job_get k (db s)) else Inl OverflowError)"

definition incidents_of :: "store \<Rightarrow> bool \<Rightarrow> incident_row list" where
  "incidents_of s active_only =
     sort_key in_id (filter (\<lambda>i. active_only \<longrightarrow> in_active i) (incidents (db s)))"

definition health :: "store \<Rightarrow> bool \<times> string list" where
  "health s = (degraded s, sort (degraded_reasons s))"

subsection \<open>History items\<close>

definition history_item :: "(string \<Rightarrow> string) \<Rightarrow> event_row \<Rightarrow> pyval res" where
  "history_item fr r =
     rbind (json_loads fr (er_payload_json r)) (\<lambda>p.
       Inr (obj [(''event_id'', PStr (er_event_id r)), (''event_type'', PStr (er_event_type r)),
         (''runner_id'', PStr (er_runner_id r)), (''producer_id'', PStr (er_producer_id r)),
         (''producer_epoch'', PStr (er_producer_epoch r)),
         (''producer_sequence'', PInt (er_producer_sequence r)),
         (''occurred_at'', PStr (er_occurred_at r)), (''received_at'', PStr (er_received_at r)),
         (''projection_applied'', PBool (er_applied r)), (''payload'', p)]))"

fun map_res :: "('a \<Rightarrow> 'b res) \<Rightarrow> 'a list \<Rightarrow> 'b list res" where
  "map_res f [] = Inr []"
| "map_res f (x # xs) = rbind (f x) (\<lambda>y. rbind (map_res f xs) (\<lambda>ys. Inr (y # ys)))"

subsection \<open>Filters\<close>

datatype filter_value = FText string | FInt int

type_synonym history_filters = "(string \<times> filter_value) list"

text \<open>\<^verbatim>\<open>value != expected\<close> for a value of a decoded payload (a boolean is an integer in Python).\<close>

fun equals_filter :: "pyval \<Rightarrow> filter_value \<Rightarrow> bool" where
  "equals_filter (PStr s) (FText t) = (s = t)"
| "equals_filter (PInt n) (FInt m) = (n = m)"
| "equals_filter (PBool b) (FInt m) = (m = (if b then 1 else 0))"
| "equals_filter _ _ = False"

definition allowed_filters :: "string list" where
  "allowed_filters = [''runner_id'', ''repository'', ''workflow_run_id'', ''outcome'',
     ''received_after'', ''received_before'']"

definition validate_history_filters :: "history_filters \<Rightarrow> unit res" where
  "validate_history_filters fs =
     ensure (\<forall>(k, v) \<in> set fs. k \<in> set allowed_filters) (ValueError ''invalid_history_filter'')"

definition filter_moment :: "filter_value \<Rightarrow> datetime res" where
  "filter_moment v =
     rbind (normalise_received_at (case v of FText s \<Rightarrow> AtText s | FInt n \<Rightarrow> AtOther)) parse_received_at"

text \<open>One filter, and the loop over the filters, which stops at the first that does not match.\<close>

definition matches_filter :: "pyval \<Rightarrow> string \<times> filter_value \<Rightarrow> bool res" where
  "matches_filter item f =
     (let (key, expected) = f;
          payload = pget item ''payload'';
          job = (if is_mapping payload \<and> is_mapping (pget payload ''job'') then pget payload ''job'' else PDict [])
      in if key = ''runner_id'' then Inr (equals_filter (pget item ''runner_id'') expected)
         else if key = ''repository'' then Inr (equals_filter (pget job ''repository'') expected)
         else if key = ''workflow_run_id'' then Inr (equals_filter (pget job ''workflow_run_id'') expected)
         else if key = ''outcome'' then
           (if is_mapping payload then Inr (equals_filter (pget payload ''outcome'') expected)
            else Inl AttributeError)
         else if key = ''received_after'' then
           rbind (parse_received_at (text_at item ''received_at'')) (\<lambda>a.
           rbind (filter_moment expected) (\<lambda>b. rbind (moment_less a b) (\<lambda>less. Inr (\<not> less))))
         else if key = ''received_before'' then
           rbind (parse_received_at (text_at item ''received_at'')) (\<lambda>a.
           rbind (filter_moment expected) (\<lambda>b. rbind (moment_less b a) (\<lambda>less. Inr (\<not> less))))
         else Inr True)"

fun matches_history_filters :: "pyval \<Rightarrow> history_filters \<Rightarrow> bool res" where
  "matches_history_filters item [] = Inr True"
| "matches_history_filters item (f # fs) =
     rbind (matches_filter item f) (\<lambda>ok. if ok then matches_history_filters item fs else Inr False)"

subsection \<open>Histories\<close>

fun history_loop :: "(string \<Rightarrow> string) \<Rightarrow> history_filters \<Rightarrow> event_row list \<Rightarrow> pyval list res" where
  "history_loop fr fs [] = Inr []"
| "history_loop fr fs (r # rs) =
     rbind (history_item fr r) (\<lambda>item. rbind (matches_history_filters item fs) (\<lambda>ok.
       rbind (history_loop fr fs rs) (\<lambda>rest. Inr (if ok then item # rest else rest))))"

definition history :: "(string \<Rightarrow> string) \<Rightarrow> store \<Rightarrow> history_filters \<Rightarrow> pyval list res" where
  "history fr s fs =
     rbind (validate_history_filters fs) (\<lambda>_. history_loop fr fs (sort_key er_row_id (events (db s))))"

text \<open>
  The SQL part of \<^verbatim>\<open>history_page\<close>: \<^verbatim>\<open>event_type NOT IN (...)\<close> and \<^verbatim>\<open>runner_id = ?\<close> (an integer is
  compared with the text column as its decimal text).  A query that excludes nothing has no such
  clause.
\<close>

definition sql_runner_is :: "filter_value \<Rightarrow> string \<Rightarrow> bool" where
  "sql_runner_is v rid = (case v of FText s \<Rightarrow> rid = s | FInt n \<Rightarrow> rid = int_text n)"

definition page_row :: "string list \<Rightarrow> history_filters \<Rightarrow> event_row \<Rightarrow> bool" where
  "page_row excluded fs r \<longleftrightarrow> er_event_type r \<notin> set excluded \<and>
     (case map_of fs ''runner_id'' of None \<Rightarrow> True | Some v \<Rightarrow> sql_runner_is v (er_runner_id r))"

text \<open>
  The loop: \<open>skip\<close> matching items are passed over, then matching items are collected until there is
  one more than a page holds; the rows after that are never decoded.
\<close>

fun page_loop ::
  "(string \<Rightarrow> string) \<Rightarrow> history_filters \<Rightarrow> nat \<Rightarrow> nat \<Rightarrow> event_row list \<Rightarrow> pyval list res" where
  "page_loop fr fs skip want [] = Inr []"
| "page_loop fr fs skip want (r # rs) =
     rbind (history_item fr r) (\<lambda>item. rbind (matches_history_filters item fs) (\<lambda>ok.
       if \<not> ok then page_loop fr fs skip want rs
       else if 0 < skip then page_loop fr fs (skip - 1) want rs
       else if want \<le> 1 then Inr [item]
       else rbind (page_loop fr fs 0 (want - 1) rs) (\<lambda>rest. Inr (item # rest))))"

definition history_page ::
  "(string \<Rightarrow> string) \<Rightarrow> store \<Rightarrow> history_filters \<Rightarrow> int \<Rightarrow> int \<Rightarrow> string list \<Rightarrow> (pyval list \<times> bool) res" where
  "history_page fr s fs page page_size excluded =
     (if page < 1 \<or> page_size < 1 then Inl (ValueError ''invalid_history_pagination'')
      else rbind (validate_history_filters fs) (\<lambda>_.
        let rows = filter (page_row excluded fs) (rev (sort_key er_row_id (events (db s)))) in
        rbind (page_loop fr fs (nat ((page - 1) * page_size)) (nat page_size + 1) rows) (\<lambda>results.
          Inr (take (nat page_size) results, nat page_size < length results))))"

text \<open>\<^verbatim>\<open>LIMIT\<close> of SQLite: a negative limit is no limit.\<close>

definition sql_limit :: "int \<Rightarrow> 'a list \<Rightarrow> 'a list" where
  "sql_limit n xs = (if n < 0 then xs else take (nat n) xs)"

definition recent_events :: "(string \<Rightarrow> string) \<Rightarrow> store \<Rightarrow> int \<Rightarrow> string list \<Rightarrow> pyval list res" where
  "recent_events fr s limit excluded =
     (if \<not> fits_int64 limit then Inl OverflowError
      else map_res (history_item fr)
        (rev (sql_limit limit (filter (\<lambda>r. er_event_type r \<notin> set excluded)
          (rev (sort_key er_row_id (events (db s))))))))"

text \<open>
  \<^verbatim>\<open>json_extract(payload_json, '$.job.x') = ?\<close>: SQLite stops with an error on a text that is not
  JSON; a missing member is NULL and equals nothing.
\<close>

definition job_row_matches :: "(string \<Rightarrow> string) \<Rightarrow> job_key \<Rightarrow> event_row \<Rightarrow> bool res" where
  "job_row_matches fr k r =
     (case json_loads fr (er_payload_json r) of
        Inl x \<Rightarrow> Inl DatabaseError
      | Inr p \<Rightarrow> (case k of (repo, run, attempt, jid) \<Rightarrow>
          Inr (equals_filter (pget (pget p ''job'') ''repository'') (FText repo) \<and>
               equals_filter (pget (pget p ''job'') ''workflow_run_id'') (FInt run) \<and>
               equals_filter (pget (pget p ''job'') ''run_attempt'') (FInt attempt) \<and>
               equals_filter (pget (pget p ''job'') ''job_id'') (FInt jid))))"

fun select_rows :: "('r \<Rightarrow> bool res) \<Rightarrow> nat \<Rightarrow> 'r list \<Rightarrow> 'r list res" where
  "select_rows p n [] = Inr []"
| "select_rows p n (r # rs) =
     (if n = 0 then Inr []
      else rbind (p r) (\<lambda>ok. rbind (select_rows p (if ok then n - 1 else n) rs) (\<lambda>found.
        Inr (if ok then r # found else found))))"

definition recent_job_events ::
  "(string \<Rightarrow> string) \<Rightarrow> store \<Rightarrow> job_key \<Rightarrow> int \<Rightarrow> pyval list res" where
  "recent_job_events fr s k limit =
     (if limit < 1 then Inl (ValueError ''invalid_recent_job_event_limit'')
      else if \<not> job_key_fits k \<or> \<not> fits_int64 limit then Inl OverflowError
      else rbind (select_rows (job_row_matches fr k) (nat limit) (rev (sort_key er_row_id (events (db s)))))
        (\<lambda>rows. map_res (history_item fr) (rev rows)))"

subsection \<open>Pages are slices of the history\<close>

lemma history_loop_Cons:
  "history_loop fr fs (r # rs) = Inr its \<longleftrightarrow>
     (\<exists>item ok rest. history_item fr r = Inr item \<and> matches_history_filters item fs = Inr ok \<and>
       history_loop fr fs rs = Inr rest \<and> its = (if ok then item # rest else rest))"
  by (auto simp: rbind_Inr_iff)

lemma page_loop_history:
  assumes "history_loop fr fs rows = Inr its" and "0 < want"
  shows "page_loop fr fs skip want rows = Inr (take want (drop skip its))"
  using assms
proof (induction rows arbitrary: its skip want)
  case (Cons r rs)
  from Cons.prems(1) obtain item ok rest where h: "history_item fr r = Inr item"
    "matches_history_filters item fs = Inr ok" "history_loop fr fs rs = Inr rest"
    "its = (if ok then item # rest else rest)"
    unfolding history_loop_Cons by blast
  show ?case
  proof (cases ok)
    case False
    then show ?thesis using h Cons.IH [OF h(3) Cons.prems(2)] by simp
  next
    case True
    consider (skip) "0 < skip" | (last) "skip = 0" "want = 1" | (more) "skip = 0" "1 < want"
      using Cons.prems(2) by linarith
    then show ?thesis
    proof cases
      case skip
      then show ?thesis using True h Cons.IH [OF h(3) Cons.prems(2), of "skip - 1"]
        by (cases skip) simp_all
    next
      case last
      then show ?thesis using True h by simp
    next
      case more
      then have "page_loop fr fs 0 (want - 1) rs = Inr (take (want - 1) rest)"
        using Cons.IH [OF h(3), of "want - 1" 0] by simp
      then show ?thesis using True h more by (simp add: take_Cons')
    qed
  qed
qed simp

lemma history_loop_append:
  "history_loop fr fs xs = Inr a \<Longrightarrow> history_loop fr fs ys = Inr b \<Longrightarrow> history_loop fr fs (xs @ ys) = Inr (a @ b)"
proof (induction xs arbitrary: a)
  case (Cons x xs)
  from Cons.prems(1) obtain item ok rest where "history_item fr x = Inr item"
    "matches_history_filters item fs = Inr ok" "history_loop fr fs xs = Inr rest"
    "a = (if ok then item # rest else rest)"
    unfolding history_loop_Cons by blast
  then show ?case using Cons.IH Cons.prems(2) by simp
qed simp

lemma history_loop_rev: "history_loop fr fs rows = Inr its \<Longrightarrow> history_loop fr fs (rev rows) = Inr (rev its)"
proof (induction rows arbitrary: its)
  case (Cons r rs)
  from Cons.prems obtain item ok rest where h: "history_item fr r = Inr item"
    "matches_history_filters item fs = Inr ok" "history_loop fr fs rs = Inr rest"
    "its = (if ok then item # rest else rest)"
    unfolding history_loop_Cons by blast
  have "history_loop fr fs [r] = Inr (if ok then [item] else [])" using h by simp
  from history_loop_append [OF Cons.IH [OF h(3)] this] show ?case using h(4) by simp
qed simp

lemma matches_all:
  "matches_history_filters item fs = Inr True \<Longrightarrow> f \<in> set fs \<Longrightarrow> matches_filter item f = Inr True"
  by (induction fs) (auto simp: rbind_Inr_iff split: if_splits)

lemma history_item_fields:
  assumes "history_item fr r = Inr item"
  shows "pget item ''runner_id'' = PStr (er_runner_id r)" "pget item ''event_type'' = PStr (er_event_type r)"
  using assms by (auto simp: history_item_def rbind_Inr_iff pget_def obj_def)

lemma history_loop_page_rows:
  assumes "history_loop fr fs rows = Inr its"
  shows "history_loop fr fs (filter (page_row excluded fs) rows) =
    Inr (filter (\<lambda>i. text_at i ''event_type'' \<notin> set excluded) its)"
  using assms
proof (induction rows arbitrary: its)
  case (Cons r rs)
  from Cons.prems obtain item ok rest where h: "history_item fr r = Inr item"
    "matches_history_filters item fs = Inr ok" "history_loop fr fs rs = Inr rest"
    "its = (if ok then item # rest else rest)"
    unfolding history_loop_Cons by blast
  note f = history_item_fields [OF h(1)]
  have ty: "text_at item ''event_type'' = er_event_type r" using f by (simp add: text_at_def)
  show ?case
  proof (cases "page_row excluded fs r")
    case True
    then show ?thesis using h Cons.IH [OF h(3)] ty by (simp add: page_row_def)
  next
    case False
    have "\<not> ok \<or> er_event_type r \<in> set excluded"
    proof (rule ccontr)
      assume n: "\<not> ?thesis"
      then obtain v where v: "map_of fs ''runner_id'' = Some v" "\<not> sql_runner_is v (er_runner_id r)"
        using False by (auto simp: page_row_def split: option.splits)
      then have "matches_filter item (''runner_id'', v) = Inr True"
        using n h(2) matches_all [OF _ map_of_SomeD] by simp
      then show False using v(2) f(1) by (cases v) (simp_all add: matches_filter_def sql_runner_is_def)
    qed
    then show ?thesis using False h Cons.IH [OF h(3)] ty by auto
  qed
qed simp

end
