(* ===== verification/QueryProperties.thy ===== *)
theory QueryProperties
  imports StoreSteps StoreQueries
begin

section \<open>Properties of the queries\<close>

text \<open>
  Histories of reachable stores: they can always be read, pages are their slices and the bounded
  windows of the dashboard are their tails.
\<close>

lemma store_inv_row: "store_inv d \<Longrightarrow> row \<in> set (events d) \<Longrightarrow> \<exists>e. stores row e"
  unfolding store_inv_def by blast

lemma reachable_history_item:
  assumes "reachable fr s" and "row \<in> set (events (db s))"
  shows "\<exists>item. history_item fr row = Inr item"
proof -
  obtain e where "stores row e" using store_inv_row [OF reachable_inv [OF assms(1)] assms(2)] by blast
  then show ?thesis using stores_decodes(1) [of row e fr] by (simp add: history_item_def)
qed

lemma history_loop_all:
  assumes "\<forall>row \<in> set rows. \<exists>item. history_item fr row = Inr item"
  shows "\<exists>its. history_loop fr [] rows = Inr its \<and> map_res (history_item fr) rows = Inr its \<and>
    length its = length rows \<and> list_all2 (\<lambda>r i. history_item fr r = Inr i) rows its"
  using assms by (induction rows) auto

lemma reachable_history:
  assumes "reachable fr s"
  obtains its where "history fr s [] = Inr its" "length its = length (events (db s))"
    "list_all2 (\<lambda>r i. history_item fr r = Inr i) (sort_key er_row_id (events (db s))) its"
proof -
  obtain its where "history_loop fr [] (sort_key er_row_id (events (db s))) = Inr its"
    "length its = length (sort_key er_row_id (events (db s)))"
    "list_all2 (\<lambda>r i. history_item fr r = Inr i) (sort_key er_row_id (events (db s))) its"
    using history_loop_all [of "sort_key er_row_id (events (db s))" fr] reachable_history_item [OF assms]
    by auto
  then show ?thesis using that by (simp add: history_def validate_history_filters_def)
qed

text \<open>
  C15: Pagination loses and repeats nothing: a page is the slice of the newest-first filtered history
  that its number names, and \<^verbatim>\<open>has_next\<close> says whether the history goes on after it, although the
  page is computed from the query's own \<^verbatim>\<open>WHERE\<close> clauses and stops decoding early.
\<close>

theorem history_page_slices_history:
  assumes "history fr s fs = Inr its" and "1 \<le> page" and "1 \<le> page_size"
  shows "history_page fr s fs page page_size excluded =
    (let newest = rev (filter (\<lambda>i. text_at i ''event_type'' \<notin> set excluded) its);
         first = nat ((page - 1) * page_size)
     in Inr (take (nat page_size) (drop first newest), first + nat page_size < length newest))"
proof -
  let ?rows = "sort_key er_row_id (events (db s))"
  let ?newest = "rev (filter (\<lambda>i. text_at i ''event_type'' \<notin> set excluded) its)"
  have v: "validate_history_filters fs = Inr ()" "history_loop fr fs ?rows = Inr its"
    using assms(1) by (auto simp: history_def rbind_Inr_iff)
  have "history_loop fr fs (filter (page_row excluded fs) (rev ?rows)) = Inr ?newest"
    using history_loop_page_rows [OF history_loop_rev [OF v(2)], of excluded] by (simp add: rev_filter)
  from page_loop_history [OF this] show ?thesis
    using v(1) assms(2,3) by (simp add: history_page_def Let_def) auto
qed

theorem history_page_slices_history_witness:
  "\<exists>its. history (\<lambda>x. x) store2 [] = Inr its \<and> length its = 2 \<and>
     history_page (\<lambda>x. x) store2 [] 2 1 [] = Inr (take 1 (drop 1 (rev its)), False)"
proof -
  obtain its where h: "history (\<lambda>x. x) store2 [] = Inr its" "length its = length (events (db store2))"
    by (rule reachable_history [OF sample_steps(4)])
  then have "length its = 2" using store2_facts(1) by simp
  then show ?thesis
    using history_page_slices_history [OF h(1), of 2 1 "[]"] h(1) by simp
qed

lemma map_res_list_all2: "list_all2 (\<lambda>r i. f r = Inr i) rs its \<Longrightarrow> map_res f rs = Inr its"
  by (induction rule: list_all2_induct) auto

lemma sql_limit_rev_tail:
  "0 \<le> n \<Longrightarrow> rev (sql_limit n (rev xs)) = drop (length xs - nat n) xs"
  by (simp add: sql_limit_def rev_take)

text \<open>
  The live window \<^verbatim>\<open>recent_events(limit)\<close> of a reachable store never fails, holds at most \<open>limit\<close>
  items whatever the length of the log, and is the end of the full history, oldest first.
\<close>

theorem recent_events_bounded_tail:
  assumes "reachable fr s" and "0 \<le> limit" and "limit < 2 ^ 63"
  shows "\<exists>its window. history fr s [] = Inr its \<and> recent_events fr s limit [] = Inr window \<and>
    length window \<le> nat limit \<and> window = drop (length its - nat limit) its"
proof -
  obtain its where h: "history fr s [] = Inr its" "length its = length (events (db s))"
    "list_all2 (\<lambda>r i. history_item fr r = Inr i) (sort_key er_row_id (events (db s))) its"
    by (rule reachable_history [OF assms(1)])
  let ?k = "length (events (db s)) - nat limit"
  have "list_all2 (\<lambda>r i. history_item fr r = Inr i) (drop ?k (sort_key er_row_id (events (db s)))) (drop ?k its)"
    using h(3) by (rule list_all2_dropI)
  then have "recent_events fr s limit [] = Inr (drop ?k its)"
    using assms(2,3) sql_limit_rev_tail [of limit "sort_key er_row_id (events (db s))"]
    by (simp add: recent_events_def fits_int64_def map_res_list_all2)
  then show ?thesis using h(1,2) assms(2) by auto
qed

theorem recent_events_bounded_tail_witness:
  "\<exists>window. recent_events (\<lambda>x. x) store2 1 [] = Inr window \<and> length window \<le> 1"
proof -
  have "\<exists>its window. history (\<lambda>x. x) store2 [] = Inr its \<and>
      recent_events (\<lambda>x. x) store2 1 [] = Inr window \<and> length window \<le> nat 1 \<and>
      window = drop (length its - nat 1) its"
    by (rule recent_events_bounded_tail [OF sample_steps(4)]) simp_all
  then obtain window where "recent_events (\<lambda>x. x) store2 1 [] = Inr window" "length window \<le> nat 1" by blast
  then show ?thesis by (intro exI [of _ window]) simp
qed

end
