(* ===== verification/PyBytes.thy ===== *)
theory PyBytes
  imports PyText
begin

section \<open>Bytes and text\<close>

text \<open>
  \<^verbatim>\<open>bytes\<close> are strings too, each character a byte.  \<open>utf8_decode\<close> is the strict UTF-8 decoder: it
  fails with \<open>UnicodeError\<close> exactly on malformed input; a well-formed text with a code point above
  255 cannot be held by the model's strings and gives \<open>WideText\<close>.
\<close>

definition continuation :: "char \<Rightarrow> bool" where
  "continuation c \<longleftrightarrow> 128 \<le> code c \<and> code c < 192"

fun utf8_decode :: "string \<Rightarrow> string res" where
  "utf8_decode [] = Inr []"
| "utf8_decode (a # as) =
     (let n = code a in
      if n < 128 then rbind (utf8_decode as) (\<lambda>r. Inr (a # r))
      else if 194 \<le> n \<and> n < 224 then
        (case as of
           b # bs \<Rightarrow>
             if continuation b then
               rbind (utf8_decode bs) (\<lambda>r.
                 let p = (n - 192) * 64 + (code b - 128)
                 in if p < 256 then Inr (char_of p # r) else Inl WideText)
             else Inl UnicodeError
         | [] \<Rightarrow> Inl UnicodeError)
      else if 224 \<le> n \<and> n < 240 then
        (case as of
           b # c # cs \<Rightarrow>
             if continuation b \<and> continuation c \<and> (n = 224 \<longrightarrow> 160 \<le> code b) \<and> (n = 237 \<longrightarrow> code b < 160)
             then rbind (utf8_decode cs) (\<lambda>r. Inl WideText)
             else Inl UnicodeError
         | _ \<Rightarrow> Inl UnicodeError)
      else if 240 \<le> n \<and> n < 245 then
        (case as of
           b # c # d # ds \<Rightarrow>
             if continuation b \<and> continuation c \<and> continuation d \<and>
                (n = 240 \<longrightarrow> 144 \<le> code b) \<and> (n = 244 \<longrightarrow> code b < 144)
             then rbind (utf8_decode ds) (\<lambda>r. Inl WideText)
             else Inl UnicodeError
         | _ \<Rightarrow> Inl UnicodeError)
      else Inl UnicodeError)"

declare utf8_decode.simps(2) [simp del]

definition utf8_encode_char :: "char \<Rightarrow> string" where
  "utf8_encode_char c =
     (if code c < 128 then [c] else [char_of (192 + code c div 64), char_of (128 + code c mod 64)])"

definition utf8_encode :: "string \<Rightarrow> string" where
  "utf8_encode s = concat (map utf8_encode_char s)"

text \<open>The newline translation of text mode (\<^verbatim>\<open>read_text\<close>).\<close>

fun universal_newlines :: "string \<Rightarrow> string" where
  "universal_newlines [] = []"
| "universal_newlines [c] = [if c = carriage then newline else c]"
| "universal_newlines (c # d # ds) =
     (if c = carriage then
        (if d = newline then newline # universal_newlines ds else newline # universal_newlines (d # ds))
      else c # universal_newlines (d # ds))"

definition read_text :: "string \<Rightarrow> string res" where
  "read_text bytes = rbind (utf8_decode bytes) (\<lambda>s. Inr (universal_newlines s))"

lemma code_less_256: "code c < 256"
  by (simp add: code_def)

lemma utf8_decode_ascii: "is_ascii_text s \<Longrightarrow> utf8_decode s = Inr s"
  by (induction s) (simp_all add: is_ascii_text_def utf8_decode.simps)

lemma utf8_decode_encode: "utf8_decode (utf8_encode s) = Inr s"
proof (induction s)
  case Nil
  show ?case by (simp add: utf8_encode_def)
next
  case (Cons c s)
  show ?case
  proof (cases "code c < 128")
    case True
    then show ?thesis using Cons by (simp add: utf8_encode_def utf8_encode_char_def utf8_decode.simps)
  next
    case False
    let ?a = "char_of (192 + code c div 64) :: char" and ?b = "char_of (128 + code c mod 64) :: char"
    have d: "2 \<le> code c div 64" "code c div 64 \<le> 3" using False code_less_256 [of c] by linarith+
    have a: "code ?a = 192 + code c div 64" using d by (simp add: code_def)
    have b: "code ?b = 128 + code c mod 64" by (simp add: code_def)
    have "char_of (code c) = c" by (simp add: code_def)
    then show ?thesis
      using Cons d code_less_256 [of c] False
      by (simp add: utf8_encode_def utf8_encode_char_def utf8_decode.simps(2) a b continuation_def Let_def)
  qed
qed

lemma universal_newlines_id: "carriage \<notin> set s \<Longrightarrow> universal_newlines s = s"
  by (induction s rule: universal_newlines.induct) auto

lemma read_text_plain: "is_ascii_text s \<Longrightarrow> carriage \<notin> set s \<Longrightarrow> read_text s = Inr s"
  by (simp add: read_text_def utf8_decode_ascii universal_newlines_id)

end
