(* ===== verification/JsonText.thy ===== *)
theory JsonText
  imports EventLog PyBytes
begin

section \<open>JSON texts in files\<close>

text \<open>
  The program's files hold \<^verbatim>\<open>json.dumps(value, ensure_ascii=True, sort_keys=True)\<close>.  Such a text is
  plain ASCII; sorting the keys of a value is invisible to Python's \<^verbatim>\<open>==\<close> and to the event contract.
\<close>

subsection \<open>The text is printable\<close>

definition printable :: "char \<Rightarrow> bool" where
  "printable c \<longleftrightarrow> 32 \<le> code c \<and> code c < 127"

definition printable_text :: "string \<Rightarrow> bool" where
  "printable_text s \<longleftrightarrow> list_all printable s"

lemma printable_text_simps [simp]:
  "printable_text []" "printable_text (c # s) \<longleftrightarrow> printable c \<and> printable_text s"
  "printable_text (s @ t) \<longleftrightarrow> printable_text s \<and> printable_text t"
  by (simp_all add: printable_text_def)

lemma printable_join: "printable_text sep \<Longrightarrow> list_all printable_text ts \<Longrightarrow> printable_text (join sep ts)"
  by (induction sep ts rule: join.induct) auto

lemma printable_hex: "d < 16 \<Longrightarrow> printable (hex_char d)"
  by (auto simp: printable_def hex_char_def code_def)

lemma printable_escape: "printable_text (escape_char c)"
proof -
  have "code c div 16 < 16" "code c mod 16 < 16" using code_less_256 [of c] by linarith+
  then have hex: "printable (hex_char (code c div 16))" "printable (hex_char (code c mod 16))"
    using printable_hex by blast+
  have lit: "printable (CHR 0x5C)" "printable (CHR 0x22)" "printable (CHR ''n'')" "printable (CHR ''r'')"
    "printable (CHR ''t'')" "printable (CHR ''f'')" "printable (CHR ''b'')" "printable (CHR ''u'')"
    "printable (CHR ''0'')"
    by (simp_all add: printable_def code_def)
  have "32 \<le> code c \<and> code c \<le> 126 \<Longrightarrow> printable c" by (simp add: printable_def)
  then show ?thesis by (simp add: escape_char_def Let_def lit hex)
qed

lemma printable_quote: "printable_text (quote s)"
  by (induction s) (auto simp: quote_def printable_escape, auto simp: printable_def code_def)

lemma printable_int_text: "printable_text (int_text n)"
proof -
  have d: "is_digit c \<Longrightarrow> printable c" for c by (auto simp: printable_def is_digit_def between_def code_def)
  have "printable_text (nat_digits m)" for m
    unfolding printable_text_def using nat_digits_are_digits [of m] d by (rule list.pred_mono_strong)
  then show ?thesis by (simp add: int_text_def printable_def code_def)
qed

lemma printable_dumps:
  shows "json_plain v \<Longrightarrow> std_layout fmt \<Longrightarrow> dumps fmt v = Inr t \<Longrightarrow> printable_text t"
    and "json_plain_list vs \<Longrightarrow> std_layout fmt \<Longrightarrow> dumps_list fmt vs = Inr ts \<Longrightarrow> list_all printable_text ts"
    and "json_plain_items kvs \<Longrightarrow> std_layout fmt \<Longrightarrow> dumps_items fmt kvs = Inr ts' \<Longrightarrow> list_all printable_text ts'"
proof (induction v and vs and kvs arbitrary: t and ts and ts'
    rule: json_plain_json_plain_list_json_plain_items.induct)
  case (3 n)
  then show ?case using printable_int_text by (auto simp: dump_int_def split: if_splits)
next
  case (11 k v kvs)
  have "printable_text (key_sep fmt)" using 11 by (auto simp: std_layout_def printable_def code_def)
  then show ?case using 11 by (auto simp: rbind_Inr_iff printable_quote split: pykey.splits)
qed (auto simp: rbind_Inr_iff printable_quote std_layout_def printable_join,
     auto simp: printable_def code_def intro!: printable_join)

lemma printable_ascii: "printable_text s \<Longrightarrow> is_ascii_text s \<and> carriage \<notin> set s"
  by (induction s) (auto simp: is_ascii_text_def printable_def carriage_def code_def)

subsection \<open>Python's equality\<close>

text \<open>
  \<^verbatim>\<open>a == b\<close>: dictionaries regardless of the order of their items, booleans as integers.  A float is
  its text here; no value that the program compares holds one.
\<close>

function (sequential) ints :: "pyval \<Rightarrow> pyval"
  and ints_list :: "pyval list \<Rightarrow> pyval list"
  and ints_items :: "(pykey \<times> pyval) list \<Rightarrow> (pykey \<times> pyval) list" where
  "ints (PBool b) = PInt (if b then 1 else 0)"
| "ints (PList vs) = PList (ints_list vs)"
| "ints (PTuple vs) = PTuple (ints_list vs)"
| "ints (PDict kvs) = PDict (ints_items kvs)"
| "ints v = v"
| "ints_list [] = []"
| "ints_list (v # vs) = ints v # ints_list vs"
| "ints_items [] = []"
| "ints_items ((k, v) # kvs) = (k, ints v) # ints_items kvs"
  by pat_completeness auto
termination
  by (relation "measure (\<lambda>x. case x of
        Inl v \<Rightarrow> size v
      | Inr (Inl vs) \<Rightarrow> size_list size vs
      | Inr (Inr kvs) \<Rightarrow> size_list (size_prod (\<lambda>_. 0) size) kvs)") auto

definition py_eq :: "pyval \<Rightarrow> pyval \<Rightarrow> bool" where
  "py_eq a b \<longleftrightarrow> sort_keys (ints a) = sort_keys (ints b)"

lemma py_eq_refl [simp]: "py_eq a a"
  by (simp add: py_eq_def)

lemma py_eq_sym: "py_eq a b \<Longrightarrow> py_eq b a"
  by (simp add: py_eq_def)

lemma py_eq_trans: "py_eq a b \<Longrightarrow> py_eq b c \<Longrightarrow> py_eq a c"
  by (simp add: py_eq_def)

lemma ints_insert_item: "ints_items (insert_item (k, v) kvs) = insert_item (k, ints v) (ints_items kvs)"
  by (induction kvs) auto

lemma ints_sort_keys:
  shows "ints (sort_keys v) = sort_keys (ints v)"
    and "ints_list (sort_keys_list vs) = sort_keys_list (ints_list vs)"
    and "ints_items (sort_keys_items kvs) = sort_keys_items (ints_items kvs)"
  by (induction v and vs and kvs rule: ints_ints_list_ints_items.induct) (simp_all add: ints_insert_item)

text \<open>Sorting sorts, and a sorted value is left as it is.\<close>

definition item_keys_sorted :: "(pykey \<times> pyval) list \<Rightarrow> bool" where
  "item_keys_sorted kvs \<longleftrightarrow> sorted (map (key_text \<circ> fst) kvs)"

lemma insert_item_sorted: "item_keys_sorted kvs \<Longrightarrow> item_keys_sorted (insert_item x kvs)"
  by (induction kvs) (auto simp: item_keys_sorted_def set_insert_item)

lemma sort_keys_items_sorted: "item_keys_sorted (sort_keys_items kvs)"
proof (induction kvs)
  case (Cons p kvs)
  then show ?case by (cases p) (simp add: insert_item_sorted)
qed (simp add: item_keys_sorted_def)

lemma insert_item_head:
  "item_keys_sorted (x # kvs) \<Longrightarrow> insert_item x kvs = x # kvs"
  by (cases kvs) (auto simp: item_keys_sorted_def)

lemma sort_keys_sorted_items:
  assumes "item_keys_sorted kvs" and "\<forall>(k, v) \<in> set kvs. sort_keys v = v"
  shows "sort_keys_items kvs = kvs"
  using assms
proof (induction kvs)
  case (Cons p kvs)
  have "sort_keys_items kvs = kvs" using Cons by (auto simp: item_keys_sorted_def)
  then show ?case using Cons insert_item_head by (cases p) auto
qed simp

lemma set_sort_keys_items: "set (sort_keys_items kvs) = (\<lambda>(k, v). (k, sort_keys v)) ` set kvs"
proof (induction kvs)
  case (Cons p kvs)
  then show ?case by (cases p) (simp add: set_insert_item)
qed simp

lemma sort_keys_sort_keys:
  shows "sort_keys (sort_keys v) = sort_keys v"
    and "sort_keys_list (sort_keys_list vs) = sort_keys_list vs"
    and "\<forall>(k, v) \<in> set (sort_keys_items kvs). sort_keys v = v"
proof (induction v and vs and kvs rule: sort_keys_sort_keys_list_sort_keys_items.induct)
  case (3 kvs)
  then show ?case using sort_keys_sorted_items [OF sort_keys_items_sorted] by simp
qed (auto simp: set_insert_item)

lemma py_eq_sort_keys [simp]: "py_eq (sort_keys v) v" "py_eq v (sort_keys v)"
  by (simp_all add: py_eq_def ints_sort_keys sort_keys_sort_keys)

subsection \<open>The contract does not see the order of the items\<close>

lemma map_of_insert_item:
  "fst x \<notin> fst ` set kvs \<Longrightarrow> map_of (insert_item x kvs) = map_of (x # kvs)"
  by (induction kvs) auto

lemma map_of_sort_keys_items:
  "distinct (map fst kvs) \<Longrightarrow> map_of (sort_keys_items kvs) k = map_option sort_keys (map_of kvs k)"
proof (induction kvs)
  case (Cons p kvs)
  obtain k' v where p: "p = (k', v)" by (cases p)
  then show ?case using Cons map_of_insert_item [of "(k', sort_keys v)" "sort_keys_items kvs"]
    by (auto simp: keys_sort_keys_items)
qed simp

lemma pget_sort_keys:
  assumes "json_plain m"
  shows "pget (sort_keys m) k = sort_keys (pget m k)"
proof (cases m)
  case (PDict kvs)
  then show ?thesis using assms map_of_sort_keys_items [of kvs "KStr k"] by (simp add: pget_def split: option.splits)
qed (use assms in \<open>auto simp: pget_def\<close>)

lemma json_plain_pget: "json_plain m \<Longrightarrow> json_plain (pget m k)"
proof (cases m)
  case (PDict kvs)
  assume "json_plain m"
  then show ?thesis
    using PDict by (auto simp: pget_def json_plain_items_iff split: option.splits dest!: map_of_SomeD)
qed (auto simp: pget_def)

lemma is_mapping_sort_keys [simp]: "is_mapping (sort_keys p) = is_mapping p"
  by (cases p) simp_all

lemma sort_keys_scalar:
  "sort_keys v = PStr s \<longleftrightarrow> v = PStr s" "sort_keys v = PInt n \<longleftrightarrow> v = PInt n" "sort_keys v = PBool b \<longleftrightarrow> v = PBool b"
  by (cases v; simp)+

lemma fields_sort_keys:
  assumes "json_plain p"
  shows "text_field (sort_keys p) k P = text_field p k P" "int_field (sort_keys p) k n = int_field p k n"
    "exact_keys (sort_keys p) ks = exact_keys p ks" "text_at (sort_keys p) k = text_at p k"
    "int_at (sort_keys p) k = int_at p k"
proof -
  note g = pget_sort_keys [OF assms]
  show "text_field (sort_keys p) k P = text_field p k P" "int_field (sort_keys p) k n = int_field p k n"
    by (simp_all add: text_field_iff int_field_iff g sort_keys_scalar)
  have "fst ` set (items (sort_keys p)) = fst ` set (items p)"
    by (cases p) (simp_all add: keys_sort_keys_items)
  then show "exact_keys (sort_keys p) ks = exact_keys p ks" unfolding exact_keys_iff by metis
  show "text_at (sort_keys p) k = text_at p k" "int_at (sort_keys p) k = int_at p k"
    by (cases "pget p k"; simp add: text_at_def int_at_def g)+
qed

lemma contracts_sort_keys:
  assumes "json_plain p"
  shows "job_contract (sort_keys p) = job_contract p" "fallback_contract (sort_keys p) = fallback_contract p"
    "progress_contract (sort_keys p) = progress_contract p"
proof -
  have d: "(case sort_keys v of PBool b \<Rightarrow> True | _ \<Rightarrow> False) = (case v of PBool b \<Rightarrow> True | _ \<Rightarrow> False)" for v
    by (cases v) simp_all
  note f = fields_sort_keys [OF assms]
  show "job_contract (sort_keys p) = job_contract p" "fallback_contract (sort_keys p) = fallback_contract p"
    by (simp_all add: job_contract_def fallback_contract_def f)
  show "progress_contract (sort_keys p) = progress_contract p"
    by (simp add: progress_contract_def f pget_sort_keys [OF assms] d)
qed

lemma content_safe_sort_keys:
  shows "content_safe (sort_keys p) = content_safe p"
    and "content_safe_list (sort_keys_list vs) = content_safe_list vs"
    and "content_safe_items (sort_keys_items kvs) = content_safe_items kvs"
proof (induction p and vs and kvs rule: content_safe_content_safe_list_content_safe_items.induct)
  case (10 k v kvs)
  have "content_safe_items (insert_item (a, b) ys) = content_safe_items ((a, b) # ys)" for a b ys
    by (induction ys) auto
  then show ?case using 10 by simp
qed simp_all

text \<open>The texts of a value and of the sorted value have the same length.\<close>

definition texts_length :: "string list \<Rightarrow> nat" where
  "texts_length ts = sum_list (map length ts)"

lemma length_join: "length (join sep ts) = texts_length ts + (length ts - 1) * length sep"
  by (induction sep ts rule: join.induct) (simp_all add: texts_length_def)

lemma dumps_insert_item:
  assumes "dumps_items fmt ((k, v) # kvs) = Inr ts"
  shows "\<exists>ts'. dumps_items fmt (insert_item (k, v) kvs) = Inr ts' \<and> length ts' = length ts \<and>
    texts_length ts' = texts_length ts"
  using assms
proof (induction kvs arbitrary: ts)
  case (Cons p kvs)
  obtain k' v' where p: "p = (k', v')" by (cases p)
  from Cons.prems obtain kt t kt' t' rest where h: "dump_key fmt k = Inr kt" "dumps fmt v = Inr t"
    "dump_key fmt k' = Inr kt'" "dumps fmt v' = Inr t'" "dumps_items fmt kvs = Inr rest"
    "ts = (kt @ key_sep fmt @ t) # (kt' @ key_sep fmt @ t') # rest"
    by (auto simp: rbind_Inr_iff p)
  then have "dumps_items fmt ((k, v) # kvs) = Inr ((kt @ key_sep fmt @ t) # rest)" by simp
  from Cons.IH [OF this] obtain ts' where "dumps_items fmt (insert_item (k, v) kvs) = Inr ts'"
    "length ts' = Suc (length rest)" "texts_length ts' = texts_length ((kt @ key_sep fmt @ t) # rest)" by auto
  then show ?case using h p by (auto simp: texts_length_def)
qed simp

lemma length_dumps_sort_keys:
  shows "dumps fmt v = Inr t \<Longrightarrow> \<exists>t'. dumps fmt (sort_keys v) = Inr t' \<and> length t' = length t"
    and "dumps_list fmt vs = Inr ts \<Longrightarrow> \<exists>ts'. dumps_list fmt (sort_keys_list vs) = Inr ts' \<and>
      length ts' = length ts \<and> texts_length ts' = texts_length ts"
    and "dumps_items fmt kvs = Inr ts \<Longrightarrow> \<exists>ts'. dumps_items fmt (sort_keys_items kvs) = Inr ts' \<and>
      length ts' = length ts \<and> texts_length ts' = texts_length ts"
proof (induction fmt v and fmt vs and fmt kvs arbitrary: t and ts and ts rule: dumps_dumps_list_dumps_items.induct)
  case (14 fmt k v kvs)
  from "14.prems" obtain kt t0 rest where h: "dump_key fmt k = Inr kt" "dumps fmt v = Inr t0"
    "dumps_items fmt kvs = Inr rest" "ts = (kt @ key_sep fmt @ t0) # rest"
    by (auto simp: rbind_Inr_iff)
  obtain t' where t': "dumps fmt (sort_keys v) = Inr t'" "length t' = length t0" using 14 h by blast
  obtain rest' where r': "dumps_items fmt (sort_keys_items kvs) = Inr rest'" "length rest' = length rest"
    "texts_length rest' = texts_length rest" using 14 h by blast
  have "dumps_items fmt ((k, sort_keys v) # sort_keys_items kvs) = Inr ((kt @ key_sep fmt @ t') # rest')"
    using h t' r' by simp
  from dumps_insert_item [OF this] show ?case using h t' r' by (auto simp: texts_length_def)
qed (auto simp: rbind_Inr_iff length_join texts_length_def)

lemma small_payload_sort_keys: "small_payload p \<Longrightarrow> small_payload (sort_keys p)"
  using length_dumps_sort_keys(1) [of "compact\<lparr>allow_nan := False\<rparr>" p]
  by (auto simp: small_payload_def split: sum.splits)

lemma event_contract_sort_keys:
  assumes "event_contract p" and "json_plain p"
  shows "event_contract (sort_keys p)"
proof -
  note f = fields_sort_keys [OF assms(2)]
  note g = pget_sort_keys [OF assms(2)]
  have "small_payload (sort_keys p)" using assms(1) small_payload_sort_keys by (simp add: event_contract_def)
  moreover have "envelope_contract (sort_keys p)"
    using assms(1) by (simp add: event_contract_def envelope_contract_def f g)
  moreover have "body_contract (sort_keys p) ty = body_contract p ty" for ty
    using contracts_sort_keys [OF json_plain_pget [OF assms(2)]]
    by (simp add: body_contract_def f g text_field_iff sort_keys_scalar)
  ultimately show ?thesis
    using assms(1) content_safe_sort_keys(1) by (simp add: event_contract_def f)
qed

subsection \<open>What the decoder returns\<close>

text \<open>Every dictionary in a decoded value has distinct keys.\<close>

lemma py_dicts_dict_set:
  assumes "distinct (map fst acc)" and "py_dicts_items acc" and "py_dicts v"
  shows "distinct (map fst (dict_set k v acc))" "py_dicts_items (dict_set k v acc)"
proof -
  have keys: "fst ` set (dict_set k v acc) = insert k (fst ` set acc)" for acc
    by (induction k v acc rule: dict_set.induct) auto
  show "distinct (map fst (dict_set k v acc))"
    using assms(1)
  proof (induction acc)
    case (Cons p acc)
    then show ?case using keys [of acc] by (cases p) auto
  qed simp
  show "py_dicts_items (dict_set k v acc)" using assms(2,3) by (induction acc) auto
qed

lemma parse_number_dicts: "parse_number fr s = Inr (v, r) \<Longrightarrow> py_dicts v"
  by (auto simp: parse_number_def Let_def split: if_splits option.splits)

definition dict_values :: "(string \<Rightarrow> string) \<Rightarrow> string \<Rightarrow> bool" where
  "dict_values fr s \<longleftrightarrow> (\<forall>v r. parse_value fr s = Inr (v, r) \<longrightarrow> py_dicts v)"

definition dict_elements :: "(string \<Rightarrow> string) \<Rightarrow> string \<Rightarrow> bool" where
  "dict_elements fr s \<longleftrightarrow> (\<forall>vs r. parse_elements fr s = Inr (vs, r) \<longrightarrow> py_dicts_list vs)"

definition dict_members :: "(string \<Rightarrow> string) \<Rightarrow> string \<Rightarrow> bool" where
  "dict_members fr s \<longleftrightarrow> (\<forall>acc v r. distinct (map fst acc) \<longrightarrow> py_dicts_items acc \<longrightarrow>
     parse_members fr acc s = Inr (v, r) \<longrightarrow> py_dicts v)"

lemma dict_members_step:
  assumes IH: "\<And>w. length w < length s \<Longrightarrow> dict_values fr w" "\<And>w. length w < length s \<Longrightarrow> dict_members fr w"
  shows "dict_members fr s"
  unfolding dict_members_def
proof (intro allI impI)
  fix acc v r
  assume acc: "distinct (map fst acc)" "py_dicts_items acc" and p: "parse_members fr acc s = Inr (v, r)"
  obtain cs where s: "s = CHR 0x22 # cs"
    using p by (subst (asm) parse_members.simps) (auto simp: Let_def split: list.splits if_splits)
  obtain k r0 where k: "parse_chars cs = Inr (k, r0)"
    using p s by (subst (asm) parse_members.simps) (auto split: sum.splits)
  obtain t where t: "skip_ws r0 = CHR '':'' # t"
    using p s k by (subst (asm) parse_members.simps) (auto simp: Let_def split: list.splits if_splits)
  have lw: "length (skip_ws t) < length s"
    using parse_chars_shorter [OF k] skip_ws_le [of r0] t skip_ws_le [of t] s by simp
  obtain v' r2 where v': "parse_value fr (skip_ws t) = Inr (v', r2)"
    using p s k t by (subst (asm) parse_members.simps) (auto simp: Let_def split: sum.splits if_splits)
  have pv: "py_dicts v'" using IH(1) [OF lw] v' unfolding dict_values_def by blast
  obtain d t2 where d: "skip_ws r2 = d # t2"
    using p s k t v'
    by (subst (asm) parse_members.simps) (auto simp: Let_def split: list.splits if_splits)
  note upd = py_dicts_dict_set [OF acc pv, of "KStr k"]
  have "v = PDict (dict_set (KStr k) v' acc) \<or>
      (length (skip_ws t2) < length s \<and> parse_members fr (dict_set (KStr k) v' acc) (skip_ws t2) = Inr (v, r))"
    using p s k t v' d
    by (subst (asm) parse_members.simps) (auto simp: Let_def split: if_splits)
  then show "py_dicts v"
    using upd IH(2) [of "skip_ws t2"] unfolding dict_members_def by auto
qed

lemma dict_value_step:
  assumes IH: "\<And>w. length w < length s \<Longrightarrow> dict_elements fr w" "\<And>w. length w < length s \<Longrightarrow> dict_members fr w"
  shows "dict_values fr s"
  unfolding dict_values_def
proof (intro allI impI)
  fix v r assume p: "parse_value fr s = Inr (v, r)"
  then obtain c cs where s: "s = c # cs" by (subst (asm) parse_value.simps) (auto split: list.splits)
  have lw: "length (skip_ws cs) < length s" using skip_ws_le [of cs] s by simp
  note E = IH(1) [OF lw, unfolded dict_elements_def]
  note M = IH(2) [OF lw, unfolded dict_members_def, rule_format, of "[]"]
  show "py_dicts v"
    using p E M parse_number_dicts [of fr s v r] unfolding s
    by (subst (asm) parse_value.simps) (auto simp: Let_def simp del: starts_with.simps split: if_splits sum.splits)
qed

lemma dict_elements_step:
  assumes IH: "dict_values fr s" "\<And>w. length w < length s \<Longrightarrow> dict_elements fr w"
  shows "dict_elements fr s"
  unfolding dict_elements_def
proof (intro allI impI)
  fix vs r assume p: "parse_elements fr s = Inr (vs, r)"
  obtain v r1 where v: "parse_value fr s = Inr (v, r1)"
    using p by (subst (asm) parse_elements.simps) (auto split: sum.splits)
  obtain c t where c: "skip_ws r1 = c # t"
    using p v by (subst (asm) parse_elements.simps) (auto split: list.splits)
  have "vs = [v] \<or> (length (skip_ws t) < length s \<and>
      (\<exists>vs'. parse_elements fr (skip_ws t) = Inr (vs', r) \<and> vs = v # vs'))"
    using p v c by (subst (asm) parse_elements.simps) (auto simp: Let_def split: if_splits sum.splits)
  then show "py_dicts_list vs"
    using IH(1) v IH(2) [of "skip_ws t"] unfolding dict_values_def dict_elements_def by auto
qed

lemma parse_py_dicts: "dict_values fr s \<and> dict_elements fr s \<and> dict_members fr s"
proof (induction "length s" arbitrary: s rule: less_induct)
  case less
  then have IH: "\<And>w. length w < length s \<Longrightarrow> dict_values fr w" "\<And>w. length w < length s \<Longrightarrow> dict_elements fr w"
    "\<And>w. length w < length s \<Longrightarrow> dict_members fr w" by blast+
  have "dict_values fr s" by (rule dict_value_step) (rule IH(2,3), assumption)+
  moreover have "dict_members fr s" by (rule dict_members_step) (rule IH(1,3), assumption)+
  moreover have "dict_elements fr s" by (rule dict_elements_step [OF \<open>dict_values fr s\<close>]) (rule IH(2))
  ultimately show ?case by blast
qed

lemma json_loads_dicts: "json_loads fr s = Inr v \<Longrightarrow> py_dicts v"
  using parse_py_dicts [of fr "skip_ws s"]
  by (auto simp: json_loads_def dict_values_def split: sum.splits if_splits)

subsection \<open>What a file holds\<close>

text \<open>\<^verbatim>\<open>json.dumps(value, ensure_ascii=True, sort_keys=True, separators=(",", ":"))\<close> and a newline.\<close>

definition encode :: "pyval \<Rightarrow> string res" where
  "encode v = rbind (dumps compact (sort_keys v)) (\<lambda>t. Inr (t @ [newline]))"

lemma encode_plain:
  assumes "json_plain v"
  obtains bytes where "encode v = Inr bytes" "read_text bytes = Inr bytes"
    "json_loads fr bytes = Inr (sort_keys v)"
proof -
  have p: "json_plain (sort_keys v)" using assms by (rule json_plain_sort_keys)
  obtain t where t: "dumps compact (sort_keys v) = Inr t"
    using json_plain_dumps(1) [OF p] by (auto simp: res_ok_iff)
  have pr: "printable_text t" using printable_dumps(1) [OF p _ t] by simp
  have "is_ascii_text (t @ [newline])" "carriage \<notin> set (t @ [newline])"
    using printable_ascii [OF pr] by (auto simp: is_ascii_text_def newline_def carriage_def code_def)
  then have "read_text (t @ [newline]) = Inr (t @ [newline])" by (rule read_text_plain)
  moreover have "json_loads fr (t @ [newline]) = Inr (sort_keys v)"
    by (rule json_loads_dumps_newline [OF p _ t]) simp
  ultimately show ?thesis using that t by (simp add: encode_def)
qed

end
