(* ===== verification/Outbox.thy ===== *)
theory Outbox
  imports JsonText PyTime
begin

section \<open>The durable outbox (\<^verbatim>\<open>outbox.py\<close>)\<close>

text \<open>
  The two directories of an outbox are lists of files, a name with its bytes; a temporary file never
  matches \<^verbatim>\<open>*.json\<close>, so no operation sees it.  The file system can refuse: an \<open>io\<close> says, for one
  call, which operations fail and how.  \<open>reports\<close> are the reason codes handed to the diagnostic
  callback.  Clocks count nanoseconds; \<open>fr\<close> is the text of a parsed floating-point number.
\<close>

subsection \<open>Limits\<close>

definition SECOND :: int where
  "SECOND = 1000000000"

record outbox_limits =
  max_events :: int
  max_bytes :: int
  max_drain_events :: int
  max_drain_seconds :: int

definition default_limits :: outbox_limits where
  "default_limits = \<lparr>max_events = 1000, max_bytes = 32 * 1024 * 1024, max_drain_events = 100,
     max_drain_seconds = 5 * SECOND\<rparr>"

text \<open>
  What a caller can hand in: a boolean, an integer, a float (a finite one in nanoseconds) or
  anything else.  \<^verbatim>\<open>float(n)\<close> of an integer beyond the largest double overflows.
\<close>

datatype limit_value = LBool bool | LInt int | LFloat "int option" | LOther

definition invalid_limits :: exn where
  "invalid_limits = ValueError ''invalid_outbox_limits''"

definition count_limit :: "limit_value \<Rightarrow> int res" where
  "count_limit v = (case v of LInt n \<Rightarrow> if n < 1 then Inl invalid_limits else Inr n | _ \<Rightarrow> Inl invalid_limits)"

definition seconds_limit :: "limit_value \<Rightarrow> int res" where
  "seconds_limit v =
     (case v of
        LInt n \<Rightarrow> if 2 ^ 1024 - 2 ^ 970 \<le> \<bar>n\<bar> then Inl OverflowError
                  else if n \<le> 0 then Inl invalid_limits else Inr (n * SECOND)
      | LFloat (Some t) \<Rightarrow> if t \<le> 0 then Inl invalid_limits else Inr t
      | _ \<Rightarrow> Inl invalid_limits)"

definition make_limits ::
  "limit_value \<Rightarrow> limit_value \<Rightarrow> limit_value \<Rightarrow> limit_value \<Rightarrow> outbox_limits res" where
  "make_limits ev by de ds =
     rbind (count_limit ev) (\<lambda>e. rbind (count_limit by) (\<lambda>b. rbind (count_limit de) (\<lambda>d.
     rbind (seconds_limit ds) (\<lambda>s.
       Inr \<lparr>max_events = e, max_bytes = b, max_drain_events = d, max_drain_seconds = s\<rparr>))))"

subsection \<open>State\<close>

type_synonym files = "(string \<times> string) list"

datatype folder = PendingRoot | DeadLetterRoot

record outbox =
  pending :: files
  dead_letter :: files
  reports :: "string list"

datatype write_outcome = Written | WriteFailed | WriteMissing | CleanupFailed
datatype unlink_outcome = Unlinked | UnlinkMissing | UnlinkFailed

text \<open>
  \<open>WriteMissing\<close> is a \<^verbatim>\<open>FileNotFoundError\<close>, \<open>WriteFailed\<close> any other \<^verbatim>\<open>OSError\<close> on the way to the
  \<^verbatim>\<open>os.replace\<close>, \<open>CleanupFailed\<close> one whose temporary file cannot be removed either.
\<close>

record io =
  lock_fails :: bool
  list_fails :: "folder \<Rightarrow> bool"
  read_fails :: "folder \<Rightarrow> string \<Rightarrow> bool"
  stat_fails :: "folder \<Rightarrow> string \<Rightarrow> bool"
  write_result :: "folder \<Rightarrow> string \<Rightarrow> write_outcome"
  unlink_result :: "folder \<Rightarrow> string \<Rightarrow> unlink_outcome"

definition good_io :: io where
  "good_io = \<lparr>lock_fails = False, list_fails = (\<lambda>_. False), read_fails = (\<lambda>_ _. False),
     stat_fails = (\<lambda>_ _. False), write_result = (\<lambda>_ _. Written), unlink_result = (\<lambda>_ _. Unlinked)\<rparr>"

definition folder_files :: "folder \<Rightarrow> outbox \<Rightarrow> files" where
  "folder_files d s = (case d of PendingRoot \<Rightarrow> pending s | DeadLetterRoot \<Rightarrow> dead_letter s)"

definition set_folder :: "folder \<Rightarrow> files \<Rightarrow> outbox \<Rightarrow> outbox" where
  "set_folder d fs s = (case d of PendingRoot \<Rightarrow> s\<lparr>pending := fs\<rparr> | DeadLetterRoot \<Rightarrow> s\<lparr>dead_letter := fs\<rparr>)"

definition file_get :: "folder \<Rightarrow> string \<Rightarrow> outbox \<Rightarrow> string option" where
  "file_get d name s = map_option snd (tbl_get fst name (folder_files d s))"

definition file_put :: "folder \<Rightarrow> string \<Rightarrow> string \<Rightarrow> outbox \<Rightarrow> outbox" where
  "file_put d name bytes s = set_folder d (tbl_upsert fst (name, bytes) (folder_files d s)) s"

definition file_remove :: "folder \<Rightarrow> string \<Rightarrow> outbox \<Rightarrow> outbox" where
  "file_remove d name s = set_folder d (filter (\<lambda>f. fst f \<noteq> name) (folder_files d s)) s"

definition tell :: "string \<Rightarrow> outbox \<Rightarrow> outbox" where
  "tell m s = s\<lparr>reports := reports s @ [m]\<rparr>"

definition json_name :: "string \<Rightarrow> string" where
  "json_name event_id = event_id @ ''.json''"

text \<open>\<^verbatim>\<open>path.stem\<close> of a name that ends in \<^verbatim>\<open>.json\<close>.\<close>

definition stem :: "string \<Rightarrow> string" where
  "stem name = (if name = ''.json'' then name else take (length name - 5) name)"

definition json_files :: "io \<Rightarrow> folder \<Rightarrow> outbox \<Rightarrow> string list \<times> outbox" where
  "json_files io d s =
     (if list_fails io d then ([], tell ''outbox_list_failed'' s)
      else (sort (filter (ends_with ''.json'') (map fst (folder_files d s))), s))"

subsection \<open>Values\<close>

function (sequential) json_payload :: "pyval \<Rightarrow> pyval"
  and json_payload_list :: "pyval list \<Rightarrow> pyval list"
  and json_payload_items :: "(pykey \<times> pyval) list \<Rightarrow> (pykey \<times> pyval) list" where
  "json_payload (PDict kvs) = PDict (json_payload_items kvs)"
| "json_payload (PProxy kvs) = PDict (json_payload_items kvs)"
| "json_payload (PTuple vs) = PList (json_payload_list vs)"
| "json_payload v = v"
| "json_payload_list [] = []"
| "json_payload_list (v # vs) = json_payload v # json_payload_list vs"
| "json_payload_items [] = []"
| "json_payload_items ((k, v) # kvs) = (k, json_payload v) # json_payload_items kvs"
  by pat_completeness auto
termination
  by (relation "measure (\<lambda>x. case x of
        Inl v \<Rightarrow> size v
      | Inr (Inl vs) \<Rightarrow> size_list size vs
      | Inr (Inr kvs) \<Rightarrow> size_list (size_prod (\<lambda>_. 0) size) kvs)") auto

definition TRANSIENT_REASONS :: "string list" where
  "TRANSIENT_REASONS = [''temporary_network_failure'', ''temporary_http_failure'']"

definition KNOWN_DELIVERY_REASONS :: "string list" where
  "KNOWN_DELIVERY_REASONS =
     TRANSIENT_REASONS @ [''rejected_http_response'', ''transport_failure'', ''delivery_failed'']"

definition safe_delivery_reason :: "string option \<Rightarrow> string" where
  "safe_delivery_reason r =
     (case r of Some t \<Rightarrow> if t \<in> set KNOWN_DELIVERY_REASONS then t else ''delivery_failed''
      | None \<Rightarrow> ''delivery_failed'')"

text \<open>\<^verbatim>\<open>datetime.now(timezone.utc).isoformat(timespec="milliseconds")\<close> with \<^verbatim>\<open>Z\<close>.\<close>

definition now_text :: "int \<Rightarrow> string" where
  "now_text n =
     (let ms = n mod DAY div 1000
      in date_text (n div DAY + 1) @ ''T'' @ dec 2 (ms div 3600000) @ '':'' @ dec 2 (ms div 60000 mod 60) @
         '':'' @ dec 2 (ms div 1000 mod 60) @ ''.'' @ dec 3 (ms mod 1000) @ ''Z'')"

definition queued_timestamp :: "int \<Rightarrow> string option \<Rightarrow> string option" where
  "queued_timestamp now v =
     (case v of None \<Rightarrow> Some (now_text now)
      | Some q \<Rightarrow> if q = [] then None
                  else (case fromisoformat (replace_all ''Z'' ''+00:00'' q) of None \<Rightarrow> None
                        | Some t \<Rightarrow> if offset t = None then None else Some q))"

subsection \<open>Envelopes\<close>

record envelope =
  queued_at :: string
  env_event :: pyval
  env_reason :: "string option"

definition envelope_dict :: "envelope \<Rightarrow> pyval" where
  "envelope_dict e =
     obj ([(''queued_at'', PStr (queued_at e)), (''event'', env_event e)] @
       (case env_reason e of None \<Rightarrow> [] | Some r \<Rightarrow> [(''dead_letter_reason'', PStr r)]))"

text \<open>
  \<^verbatim>\<open>_read_envelope\<close>: whatever goes wrong (and everything that can go wrong in it is among the
  exceptions it catches) gives no envelope.
\<close>

definition parse_envelope :: "(string \<Rightarrow> string) \<Rightarrow> bool \<Rightarrow> string \<Rightarrow> string \<Rightarrow> envelope option" where
  "parse_envelope fr allow_dead name bytes =
     (case rbind (read_text bytes) (json_loads fr) of
        Inl x \<Rightarrow> None
      | Inr raw \<Rightarrow>
          (if \<not> is_mapping raw then None
           else case pget raw ''queued_at'' of
             PStr q \<Rightarrow>
               (if \<not> exact_keys raw ([''queued_at'', ''event''] @ (if allow_dead then [''dead_letter_reason''] else [])) \<or>
                   queued_timestamp 0 (Some q) = None then None
                else case validate_event (pget raw ''event'') of
                  Inl x \<Rightarrow> None
                | Inr e \<Rightarrow>
                    (let reason = str_of (pget raw ''dead_letter_reason'');
                         normalized = json_payload (ev_payload e)
                     in if stem name \<noteq> ev_id e then None
                        else if allow_dead \<and> (case reason of None \<Rightarrow> True | Some r \<Rightarrow> r \<notin> set KNOWN_DELIVERY_REASONS)
                        then None
                        else if \<not> py_eq normalized (pget raw ''event'') then None
                        else Some \<lparr>queued_at = q, env_event = normalized,
                               env_reason = (if allow_dead then reason else None)\<rparr>))
           | _ \<Rightarrow> None))"

definition read_envelope ::
  "(string \<Rightarrow> string) \<Rightarrow> io \<Rightarrow> folder \<Rightarrow> string \<Rightarrow> outbox \<Rightarrow> envelope option" where
  "read_envelope fr io d name s =
     (if read_fails io d name then None
      else case file_get d name s of
        None \<Rightarrow> None
      | Some bytes \<Rightarrow> parse_envelope fr (d = DeadLetterRoot) name bytes)"

subsection \<open>Enqueueing\<close>

record enqueue_result =
  eq_event_id :: string
  eq_status :: string
  eq_reason :: "string option"

definition rejected :: "string \<Rightarrow> string \<Rightarrow> enqueue_result" where
  "rejected event_id reason = \<lparr>eq_event_id = event_id, eq_status = ''rejected'', eq_reason = Some reason\<rparr>"

text \<open>\<open>None\<close>: there is no such file; an unreadable file is the empty dictionary.\<close>

fun existing_event ::
  "(string \<Rightarrow> string) \<Rightarrow> io \<Rightarrow> string \<Rightarrow> outbox \<Rightarrow> folder list \<Rightarrow> pyval option" where
  "existing_event fr io name s [] = None"
| "existing_event fr io name s (d # ds) =
     (case file_get d name s of
        None \<Rightarrow> existing_event fr io name s ds
      | Some bytes \<Rightarrow>
          (case read_envelope fr io d name s of None \<Rightarrow> Some (PDict []) | Some env \<Rightarrow> Some (env_event env)))"

text \<open>The number of event files and their bytes, or \<open>None\<close> for an \<^verbatim>\<open>OSError\<close> of \<^verbatim>\<open>stat\<close>.\<close>

fun stat_files :: "io \<Rightarrow> folder \<Rightarrow> outbox \<Rightarrow> string list \<Rightarrow> (int \<times> int) option" where
  "stat_files io d s [] = Some (0, 0)"
| "stat_files io d s (name # names) =
     (case file_get d name s of
        None \<Rightarrow> None
      | Some bytes \<Rightarrow>
          if stat_fails io d name then None
          else map_option (\<lambda>(n, b). (n + 1, b + int (length bytes))) (stat_files io d s names))"

definition capacity_usage :: "io \<Rightarrow> outbox \<Rightarrow> (int \<times> int) option \<times> outbox" where
  "capacity_usage io s =
     (case json_files io PendingRoot s of (ps, s1) \<Rightarrow>
        (case stat_files io PendingRoot s ps of
           None \<Rightarrow> (None, s1)
         | Some (n, b) \<Rightarrow>
             (case json_files io DeadLetterRoot s1 of (ds, s2) \<Rightarrow>
                (map_option (\<lambda>(n', b'). (n + n', b + b')) (stat_files io DeadLetterRoot s ds), s2))))"

text \<open>The locked body; \<open>Inl\<close> is an exception that leaves it.\<close>

definition enqueue_locked ::
  "(string \<Rightarrow> string) \<Rightarrow> io \<Rightarrow> outbox_limits \<Rightarrow> int \<Rightarrow> pyval \<Rightarrow> string option \<Rightarrow> outbox \<Rightarrow>
     enqueue_result res \<times> outbox" where
  "enqueue_locked fr io limits now event queued s =
     (case validate_event event of
        Inl (ValidationError r) \<Rightarrow> (Inr (rejected [] r), s)
      | Inl x \<Rightarrow> (Inl x, s)
      | Inr e \<Rightarrow>
          (let payload = json_payload (ev_payload e); name = json_name (ev_id e) in
           case existing_event fr io name s [PendingRoot, DeadLetterRoot] of
             Some old \<Rightarrow>
               (Inr (if py_eq old payload
                     then \<lparr>eq_event_id = ev_id e, eq_status = ''duplicate'', eq_reason = None\<rparr>
                     else \<lparr>eq_event_id = ev_id e, eq_status = ''conflict'',
                            eq_reason = Some ''outbox_event_conflict''\<rparr>), s)
           | None \<Rightarrow>
               (case queued_timestamp now queued of
                  None \<Rightarrow> (Inr (rejected (ev_id e) ''outbox_invalid_timestamp''), s)
                | Some q \<Rightarrow>
                    (case encode (envelope_dict \<lparr>queued_at = q, env_event = payload, env_reason = None\<rparr>) of
                       Inl x \<Rightarrow> (Inl x, s)
                     | Inr bytes \<Rightarrow>
                         (case capacity_usage io s of
                            (None, s1) \<Rightarrow>
                              (Inr (rejected (ev_id e) ''outbox_storage_unavailable''),
                               tell ''outbox_capacity_check_failed'' s1)
                          | (Some (n, b), s1) \<Rightarrow>
                              if max_events limits \<le> n \<or> max_bytes limits < b + int (length bytes)
                              then (Inr (rejected (ev_id e) ''outbox_capacity_exceeded''), s1)
                              else (case write_result io PendingRoot name of
                                Written \<Rightarrow>
                                  (Inr \<lparr>eq_event_id = ev_id e, eq_status = ''queued'', eq_reason = None\<rparr>,
                                   file_put PendingRoot name bytes s1)
                              | CleanupFailed \<Rightarrow> (Inl OSError, tell ''outbox_write_failed'' s1)
                              | _ \<Rightarrow>
                                  (Inr (rejected (ev_id e) ''outbox_storage_unavailable''),
                                   tell ''outbox_write_failed'' s1)))))))"

definition enqueue ::
  "(string \<Rightarrow> string) \<Rightarrow> io \<Rightarrow> outbox_limits \<Rightarrow> int \<Rightarrow> pyval \<Rightarrow> string option \<Rightarrow> outbox \<Rightarrow>
     enqueue_result res \<times> outbox" where
  "enqueue fr io limits now event queued s =
     (if lock_fails io then (Inr (rejected [] ''outbox_storage_unavailable''), tell ''outbox_lock_failed'' s)
      else case enqueue_locked fr io limits now event queued s of
        (Inl OSError, s1) \<Rightarrow>
          (Inr (rejected [] ''outbox_storage_unavailable''), tell ''outbox_lock_failed'' s1)
      | r \<Rightarrow> r)"

subsection \<open>Pending events\<close>

definition dead_letter_ids :: "(string \<Rightarrow> string) \<Rightarrow> io \<Rightarrow> outbox \<Rightarrow> string list \<Rightarrow> string list" where
  "dead_letter_ids fr io s names =
     map stem (filter (\<lambda>n. read_envelope fr io DeadLetterRoot n s \<noteq> None) names)"

text \<open>
  The loop over the pending files: one that is dead-lettered already is removed, one without a
  valid envelope is counted as corrupt and left alone.
\<close>

fun scan_pending ::
  "(string \<Rightarrow> string) \<Rightarrow> io \<Rightarrow> string list \<Rightarrow> string list \<Rightarrow> outbox \<Rightarrow>
     (string \<times> envelope) list \<times> nat \<times> outbox" where
  "scan_pending fr io dead [] s = ([], 0, s)"
| "scan_pending fr io dead (name # names) s =
     (if stem name \<in> set dead then
        (case unlink_result io PendingRoot name of
           UnlinkFailed \<Rightarrow> scan_pending fr io dead names (tell ''outbox_reconcile_failed'' s)
         | _ \<Rightarrow> scan_pending fr io dead names (file_remove PendingRoot name s))
      else case read_envelope fr io PendingRoot name s of
        None \<Rightarrow>
          (case scan_pending fr io dead names (tell ''outbox_corrupt_event'' s) of
             (valid, corrupt, s') \<Rightarrow> (valid, corrupt + 1, s'))
      | Some env \<Rightarrow>
          (case scan_pending fr io dead names s of
             (valid, corrupt, s') \<Rightarrow> ((name, env) # valid, corrupt, s')))"

definition queue_order :: "string \<times> envelope \<Rightarrow> string list" where
  "queue_order p = [queued_at (snd p), text_at (env_event (snd p)) ''event_id'']"

definition pending_events ::
  "(string \<Rightarrow> string) \<Rightarrow> io \<Rightarrow> outbox \<Rightarrow> (string \<times> envelope) list \<times> nat \<times> outbox" where
  "pending_events fr io s =
     (case json_files io DeadLetterRoot s of (dead_names, s1) \<Rightarrow>
        (case json_files io PendingRoot s1 of (names, s2) \<Rightarrow>
           (case scan_pending fr io (dead_letter_ids fr io s dead_names) names s2 of
              (valid, corrupt, s') \<Rightarrow> (sort_key queue_order valid, corrupt, s'))))"

subsection \<open>Dead letters\<close>

text \<open>\<^verbatim>\<open>_move_to_dead_letter\<close>: an \<open>Inl\<close> is an \<^verbatim>\<open>OSError\<close> of the final cleanup.\<close>

definition move_to_dead_letter ::
  "(string \<Rightarrow> string) \<Rightarrow> io \<Rightarrow> string \<Rightarrow> envelope \<Rightarrow> string \<Rightarrow> outbox \<Rightarrow> bool res \<times> outbox" where
  "move_to_dead_letter fr io name env reason s =
     (let dest = json_name (text_at (env_event env) ''event_id'') in
      if file_get DeadLetterRoot dest s \<noteq> None then
        (case read_envelope fr io DeadLetterRoot dest s of
           None \<Rightarrow> (Inr False, tell ''outbox_dead_letter_conflict'' s)
         | Some old \<Rightarrow>
             if \<not> py_eq (env_event old) (env_event env) \<or> env_reason old \<noteq> Some reason
             then (Inr False, tell ''outbox_dead_letter_conflict'' s)
             else (case unlink_result io PendingRoot name of
                UnlinkFailed \<Rightarrow> (Inr False, tell ''outbox_pending_cleanup_failed'' s)
              | _ \<Rightarrow> (Inr True, file_remove PendingRoot name s)))
      else case write_result io DeadLetterRoot dest of
        WriteMissing \<Rightarrow> (Inr True, s)
      | WriteFailed \<Rightarrow> (Inr False, tell ''outbox_dead_letter_failed'' s)
      | CleanupFailed \<Rightarrow> (Inl OSError, tell ''outbox_dead_letter_failed'' s)
      | Written \<Rightarrow>
          (case encode (envelope_dict (env\<lparr>env_reason := Some reason\<rparr>)) of
             Inl x \<Rightarrow> (Inl x, s)
           | Inr bytes \<Rightarrow>
               (let s1 = file_put DeadLetterRoot dest bytes s in
                case unlink_result io PendingRoot name of
                  UnlinkFailed \<Rightarrow> (Inr False, tell ''outbox_dead_letter_failed'' s1)
                | _ \<Rightarrow> (Inr True, file_remove PendingRoot name s1))))"

subsection \<open>Draining\<close>

record delivery_result =
  dr_delivered :: bool
  dr_attempts :: int
  dr_reason :: "string option"
  dr_http_status :: "int option"

record drain_result =
  dn_delivered :: nat
  dn_retained :: nat
  dn_dead_lettered :: nat
  dn_corrupt :: nat

text \<open>
  The clock and the delivery function are the caller's; \<open>'w\<close> is whatever they act on.  An exception
  of the delivery function is caught.
\<close>

record 'w drain_env =
  read_clock :: "'w \<Rightarrow> int \<times> 'w"
  deliver :: "pyval \<Rightarrow> string \<Rightarrow> string \<Rightarrow> 'w \<Rightarrow> delivery_result res \<times> 'w"

definition plus_retained :: "nat \<Rightarrow> drain_result \<Rightarrow> drain_result" where
  "plus_retained n r = r\<lparr>dn_retained := dn_retained r + n\<rparr>"

definition plus_delivered :: "drain_result \<Rightarrow> drain_result" where
  "plus_delivered r = r\<lparr>dn_delivered := dn_delivered r + 1\<rparr>"

definition plus_dead :: "drain_result \<Rightarrow> drain_result" where
  "plus_dead r = r\<lparr>dn_dead_lettered := dn_dead_lettered r + 1\<rparr>"

text \<open>What happens to one event whose delivery function has returned in time.\<close>

definition settle ::
  "(string \<Rightarrow> string) \<Rightarrow> io \<Rightarrow> string \<Rightarrow> envelope \<Rightarrow> delivery_result \<Rightarrow> outbox \<Rightarrow> drain_result \<Rightarrow>
     drain_result res \<times> outbox" where
  "settle fr io name env result s c =
     (if dr_delivered result then
        (case unlink_result io PendingRoot name of
           Unlinked \<Rightarrow> (Inr (plus_delivered c), file_remove PendingRoot name s)
         | UnlinkMissing \<Rightarrow> (Inr c, file_remove PendingRoot name s)
         | UnlinkFailed \<Rightarrow> (Inr (plus_retained 1 c), tell ''outbox_remove_failed'' s))
      else
        (let reason = safe_delivery_reason (dr_reason result) in
         if reason \<in> set TRANSIENT_REASONS then (Inr (plus_retained 1 c), s)
         else case move_to_dead_letter fr io name env reason s of
           (Inl x, s1) \<Rightarrow> (Inl x, s1)
         | (Inr True, s1) \<Rightarrow> (Inr (plus_dead c), s1)
         | (Inr False, s1) \<Rightarrow> (Inr (plus_retained 1 c), s1)))"

fun drain_loop ::
  "(string \<Rightarrow> string) \<Rightarrow> io \<Rightarrow> outbox_limits \<Rightarrow> 'w drain_env \<Rightarrow> string \<Rightarrow> string \<Rightarrow> int \<Rightarrow>
     int \<Rightarrow> (string \<times> envelope) list \<Rightarrow> drain_result \<Rightarrow> outbox \<Rightarrow> 'w \<Rightarrow> drain_result res \<times> outbox \<times> 'w" where
  "drain_loop fr io limits ops endpoint token started index [] c s w = (Inr c, s, w)"
| "drain_loop fr io limits ops endpoint token started index ((name, env) # rest) c s w =
     (let (now, w1) = (if max_drain_events limits \<le> index then (0, w) else read_clock ops w) in
      if max_drain_events limits \<le> index \<or> max_drain_seconds limits \<le> now - started
      then (Inr (plus_retained (length ((name, env) # rest)) c), s, w1)
      else case deliver ops (env_event env) endpoint token w1 of
        (Inl x, w2) \<Rightarrow>
          drain_loop fr io limits ops endpoint token started (index + 1) rest (plus_retained 1 c)
            (tell ''outbox_delivery_failed'' s) w2
      | (Inr result, w2) \<Rightarrow>
          (case read_clock ops w2 of (now2, w3) \<Rightarrow>
             if max_drain_seconds limits \<le> now2 - started
             then drain_loop fr io limits ops endpoint token started (index + 1) rest (plus_retained 1 c) s w3
             else (case settle fr io name env result s c of
                 (Inl x, s1) \<Rightarrow> (Inl x, s1, w3)
               | (Inr c1, s1) \<Rightarrow>
                   drain_loop fr io limits ops endpoint token started (index + 1) rest c1 s1 w3)))"

definition empty_drain :: drain_result where
  "empty_drain = \<lparr>dn_delivered = 0, dn_retained = 0, dn_dead_lettered = 0, dn_corrupt = 0\<rparr>"

definition drain_locked ::
  "(string \<Rightarrow> string) \<Rightarrow> io \<Rightarrow> outbox_limits \<Rightarrow> 'w drain_env \<Rightarrow> string \<Rightarrow> string \<Rightarrow> outbox \<Rightarrow> 'w \<Rightarrow>
     drain_result res \<times> outbox \<times> 'w" where
  "drain_locked fr io limits ops endpoint token s w =
     (case read_clock ops w of (started, w1) \<Rightarrow>
        (case pending_events fr io s of (todo, corrupt, s1) \<Rightarrow>
           drain_loop fr io limits ops endpoint token started 0 todo
             (empty_drain\<lparr>dn_corrupt := corrupt\<rparr>) s1 w1))"

definition drain ::
  "(string \<Rightarrow> string) \<Rightarrow> io \<Rightarrow> outbox_limits \<Rightarrow> 'w drain_env \<Rightarrow> string \<Rightarrow> string \<Rightarrow> outbox \<Rightarrow> 'w \<Rightarrow>
     drain_result res \<times> outbox \<times> 'w" where
  "drain fr io limits ops endpoint token s w =
     (if lock_fails io then (Inr empty_drain, tell ''outbox_lock_failed'' s, w)
      else case drain_locked fr io limits ops endpoint token s w of
        (Inl OSError, s1, w1) \<Rightarrow> (Inr empty_drain, tell ''outbox_lock_failed'' s1, w1)
      | r \<Rightarrow> r)"

end
