(* ===== verification/OutboxFiles.thy ===== *)
theory OutboxFiles
  imports Outbox
begin

section \<open>What the files of an outbox hold\<close>

text \<open>
  An envelope that the outbox writes reads back as itself, up to the order of the event's items; an
  envelope that it reads holds an event that validates, under the file name of its event id.
\<close>

subsection \<open>Payloads\<close>

lemma json_payload_freeze:
  shows "json_payload (freeze p) = rethaw p"
    and "json_payload_list (freeze_list vs) = thaw_list (freeze_list vs)"
    and "json_payload_items (freeze_items kvs) = thaw_items (freeze_items kvs)"
  by (induction p and vs and kvs rule: freeze_freeze_list_freeze_items.induct) simp_all

lemma rethaw_plain:
  shows "json_plain v \<Longrightarrow> rethaw v = v"
    and "json_plain_list vs \<Longrightarrow> thaw_list (freeze_list vs) = vs"
    and "json_plain_items kvs \<Longrightarrow> thaw_items (freeze_items kvs) = kvs"
  by (induction v and vs and kvs rule: json_plain_json_plain_list_json_plain_items.induct) auto

text \<open>An event as the outbox keeps it: plain JSON that satisfies the contract.\<close>

definition event_value :: "pyval \<Rightarrow> bool" where
  "event_value v \<longleftrightarrow> event_contract v \<and> json_plain v"

lemma event_value_sort_keys: "event_value v \<Longrightarrow> event_value (sort_keys v)"
  by (simp add: event_value_def event_contract_sort_keys json_plain_sort_keys)

lemma event_value_validates:
  assumes "event_value v"
  shows "validate_event v = Inr (event_of v)" "json_payload (ev_payload (event_of v)) = v"
proof -
  show "validate_event v = Inr (event_of v)" using assms by (simp add: event_value_def validate_event_iff)
  show "json_payload (ev_payload (event_of v)) = v"
    using assms rethaw_plain(1) [of v] by (simp add: event_value_def event_of_def json_payload_freeze)
qed

lemma validated_event_value:
  assumes "validate_event p = Inr e" and "py_dicts p"
  shows "event_value (json_payload (ev_payload e))"
    and "text_at (json_payload (ev_payload e)) ''event_id'' = ev_id e"
proof -
  have c: "event_contract p" and e: "e = event_of p" using assms(1) by (auto simp: validate_event_iff)
  have v: "json_payload (ev_payload e) = rethaw p" using e by (simp add: event_of_def json_payload_freeze)
  have "event_contract (rethaw p)" using c by (rule event_contract_rethaw)
  moreover have "py_dicts (rethaw p)" using assms(2) by (simp add: py_dicts_thaw py_dicts_freeze)
  ultimately show "event_value (json_payload (ev_payload e))"
    unfolding event_value_def v using event_contract_dumps(1) by blast
  show "text_at (json_payload (ev_payload e)) ''event_id'' = ev_id e" by (simp add: e event_of_def json_payload_freeze)
qed

lemma event_value_id: "event_value v \<Longrightarrow> text_at (sort_keys v) ''event_id'' = text_at v ''event_id''"
  by (simp add: event_value_def fields_sort_keys)

lemma event_value_id_nonempty: "event_value v \<Longrightarrow> text_at v ''event_id'' \<noteq> []"
  by (auto simp: event_value_def event_contract_def envelope_contract_def text_field_iff)

lemma stem_json_name: "x \<noteq> [] \<Longrightarrow> stem (json_name x) = x"
  by (simp add: stem_def json_name_def)

lemma ends_with_json_name: "ends_with ''.json'' (json_name x)"
  by (simp add: ends_with_def json_name_def starts_with_iff)

lemma json_name_inj: "json_name x = json_name y \<longleftrightarrow> x = y"
  by (simp add: json_name_def)

subsection \<open>Writing and reading back\<close>

definition queue_time :: "string \<Rightarrow> bool" where
  "queue_time q \<longleftrightarrow> queued_timestamp 0 (Some q) \<noteq> None"

definition reason_ok :: "string option \<Rightarrow> bool" where
  "reason_ok r \<longleftrightarrow> (case r of None \<Rightarrow> True | Some t \<Rightarrow> t \<in> set KNOWN_DELIVERY_REASONS)"

definition envelope_ok :: "envelope \<Rightarrow> bool" where
  "envelope_ok e \<longleftrightarrow> queue_time (queued_at e) \<and> event_value (env_event e) \<and> reason_ok (env_reason e)"

definition env_id :: "envelope \<Rightarrow> string" where
  "env_id e = text_at (env_event e) ''event_id''"

lemma json_plain_envelope: "envelope_ok e \<Longrightarrow> json_plain (envelope_dict e)"
  by (cases "env_reason e") (simp_all add: envelope_ok_def event_value_def envelope_dict_def obj_def)

lemma pget_envelope:
  "pget (envelope_dict e) ''queued_at'' = PStr (queued_at e)"
  "pget (envelope_dict e) ''event'' = env_event e"
  "pget (envelope_dict e) ''dead_letter_reason'' = (case env_reason e of None \<Rightarrow> PNone | Some r \<Rightarrow> PStr r)"
  by (cases "env_reason e"; simp add: envelope_dict_def)+

lemma envelope_keys:
  "exact_keys (envelope_dict e) ([''queued_at'', ''event''] @
     (if env_reason e \<noteq> None then [''dead_letter_reason''] else []))"
  by (cases "env_reason e") (simp_all add: exact_keys_def envelope_dict_def obj_def)

lemma parse_encoded:
  assumes "envelope_ok e"
  obtains bytes where "encode (envelope_dict e) = Inr bytes"
    "parse_envelope fr (env_reason e \<noteq> None) (json_name (env_id e)) bytes = Some (e\<lparr>env_event := sort_keys (env_event e)\<rparr>)"
proof -
  let ?d = "envelope_dict e" and ?v = "env_event e"
  have v: "event_value ?v" and q: "queued_timestamp 0 (Some (queued_at e)) \<noteq> None"
    using assms by (simp_all add: envelope_ok_def queue_time_def)
  have pd: "json_plain ?d" by (rule json_plain_envelope [OF assms])
  obtain bytes where b: "encode ?d = Inr bytes" "read_text bytes = Inr bytes"
    "json_loads fr bytes = Inr (sort_keys ?d)"
    by (rule encode_plain [OF pd])
  have g: "pget (sort_keys ?d) ''queued_at'' = PStr (queued_at e)" "pget (sort_keys ?d) ''event'' = sort_keys ?v"
    "str_of (pget (sort_keys ?d) ''dead_letter_reason'') = env_reason e"
    by (simp_all add: pget_sort_keys [OF pd] pget_envelope split: option.splits)
  have m: "is_mapping (sort_keys ?d)" by (simp add: envelope_dict_def obj_def)
  have k: "exact_keys (sort_keys ?d) ([''queued_at'', ''event''] @
      (if env_reason e \<noteq> None then [''dead_letter_reason''] else []))"
    using envelope_keys fields_sort_keys(3) [OF pd] by blast
  have rec: "e\<lparr>env_event := x\<rparr> = \<lparr>queued_at = queued_at e, env_event = x, env_reason = env_reason e\<rparr>" for x
    by (cases e) simp
  note sv = event_value_validates [OF event_value_sort_keys [OF v]]
  have "ev_id (event_of (sort_keys ?v)) = env_id e"
    by (simp add: event_of_def env_id_def event_value_id [OF v])
  moreover have "stem (json_name (env_id e)) = env_id e"
    using event_value_id_nonempty [OF v] by (simp add: stem_json_name env_id_def)
  moreover have "env_reason e \<noteq> None \<Longrightarrow> \<exists>r. env_reason e = Some r \<and> r \<in> set KNOWN_DELIVERY_REASONS"
    using assms by (auto simp: envelope_ok_def reason_ok_def)
  ultimately have "parse_envelope fr (env_reason e \<noteq> None) (json_name (env_id e)) bytes =
      Some (e\<lparr>env_event := sort_keys ?v\<rparr>)"
    using b(2,3) m k q sv
    by (cases "env_reason e") (auto simp: parse_envelope_def g Let_def rec)
  then show ?thesis using that b(1) by blast
qed

lemma parse_envelope_ok:
  assumes "parse_envelope fr dead name bytes = Some e"
  shows "envelope_ok e" "stem name = env_id e" "dead \<longleftrightarrow> env_reason e \<noteq> None"
proof -
  obtain raw where raw: "rbind (read_text bytes) (json_loads fr) = Inr raw" "is_mapping raw"
    using assms by (auto simp: parse_envelope_def split: sum.splits if_splits)
  then have dicts: "py_dicts (pget raw ''event'')"
    using json_loads_dicts py_dicts_pget by (auto simp: rbind_Inr_iff)
  obtain q v where q: "pget raw ''queued_at'' = PStr q" "queued_timestamp 0 (Some q) \<noteq> None"
    and v: "validate_event (pget raw ''event'') = Inr v" "stem name = ev_id v"
      "dead \<longrightarrow> (\<exists>r. str_of (pget raw ''dead_letter_reason'') = Some r \<and> r \<in> set KNOWN_DELIVERY_REASONS)"
    and e: "e = \<lparr>queued_at = q, env_event = json_payload (ev_payload v),
        env_reason = (if dead then str_of (pget raw ''dead_letter_reason'') else None)\<rparr>"
    using assms raw
    by (auto simp: parse_envelope_def Let_def split: pyval.splits sum.splits if_splits option.splits)
  note w = validated_event_value [OF v(1) dicts]
  show "envelope_ok e" using w q v(3) e by (auto simp: envelope_ok_def queue_time_def reason_ok_def)
  show "stem name = env_id e" using w(2) v(2) e by (simp add: env_id_def)
  show "dead \<longleftrightarrow> env_reason e \<noteq> None" using e v(3) by auto
qed

end
