(* ===== verification/OutboxEnqueue.thy ===== *)
theory OutboxEnqueue
  imports OutboxFiles
begin

section \<open>Enqueueing into the outbox\<close>

text \<open>
  What \<^verbatim>\<open>enqueue\<close> does to the files, on every path and under every failure of the file system.
\<close>

subsection \<open>Files\<close>

lemma tell_files [simp]: "pending (tell m s) = pending s" "dead_letter (tell m s) = dead_letter s"
  "folder_files d (tell m s) = folder_files d s" "file_get d n (tell m s) = file_get d n s"
  by (simp_all add: tell_def folder_files_def file_get_def split: folder.splits)

lemma json_files_files [simp]: "pending (snd (json_files io d s)) = pending s"
  "dead_letter (snd (json_files io d s)) = dead_letter s"
  by (simp_all add: json_files_def)

lemma folder_files_cong: "pending s = pending s' \<Longrightarrow> dead_letter s = dead_letter s' \<Longrightarrow> folder_files d s = folder_files d s'"
  by (cases d) (simp_all only: folder_files_def folder.case)

lemma file_get_cong: "pending s = pending s' \<Longrightarrow> dead_letter s = dead_letter s' \<Longrightarrow> file_get d n s = file_get d n s'"
  unfolding file_get_def using folder_files_cong [of s s' d] by (simp only:)

lemma tbl_get_remove: "tbl_get kf k (filter (\<lambda>r. kf r \<noteq> k') rs) = (if k = k' then None else tbl_get kf k rs)"
  by (induction rs) auto

lemma tbl_get_file: "tbl_get fst n (tbl_upsert fst (n', b) fs) = (if n' = n then Some (n', b) else tbl_get fst n fs)"
  by (induction fs) auto

lemma file_get_put: "file_get d n (file_put d' n' b s) = (if d = d' \<and> n = n' then Some b else file_get d n s)"
  by (cases d; cases d'; simp add: file_get_def file_put_def set_folder_def folder_files_def tbl_get_file)

lemma file_get_remove: "file_get d n (file_remove d' n' s) = (if d = d' \<and> n = n' then None else file_get d n s)"
  by (cases d; cases d'; simp add: file_get_def file_remove_def set_folder_def folder_files_def tbl_get_remove)

lemma tbl_upsert_new: "tbl_get kf (kf x) rs = None \<Longrightarrow> tbl_upsert kf x rs = rs @ [x]"
  by (induction rs) auto

lemma file_put_new:
  "file_get d n s = None \<Longrightarrow> folder_files d (file_put d n b s) = folder_files d s @ [(n, b)]"
  by (auto simp: file_get_def file_put_def set_folder_def folder_files_def tbl_upsert_new split: folder.splits)

lemma file_put_other: "d \<noteq> d' \<Longrightarrow> folder_files d (file_put d' n b s) = folder_files d s"
  by (auto simp: file_put_def set_folder_def folder_files_def split: folder.splits)

text \<open>The size of an outbox: its event files and their bytes.\<close>

definition event_files :: "folder \<Rightarrow> outbox \<Rightarrow> files" where
  "event_files d s = filter (\<lambda>f. ends_with ''.json'' (fst f)) (folder_files d s)"

definition outbox_count :: "outbox \<Rightarrow> int" where
  "outbox_count s = int (length (event_files PendingRoot s) + length (event_files DeadLetterRoot s))"

definition outbox_bytes :: "outbox \<Rightarrow> int" where
  "outbox_bytes s = sum_list (map (int \<circ> length \<circ> snd) (event_files PendingRoot s)) +
     sum_list (map (int \<circ> length \<circ> snd) (event_files DeadLetterRoot s))"

definition files_ok :: "outbox \<Rightarrow> bool" where
  "files_ok s \<longleftrightarrow> tbl_keys fst (pending s) \<and> tbl_keys fst (dead_letter s)"

lemma files_ok_folder: "files_ok s \<Longrightarrow> distinct (map fst (folder_files d s))"
  by (simp add: files_ok_def tbl_keys_def folder_files_def split: folder.splits)

subsection \<open>Counting the files\<close>

lemma stat_files_sum:
  assumes "stat_files io d s names = Some (n, b)"
  shows "n = int (length names) \<and> b = sum_list (map (\<lambda>x. int (length (the (file_get d x s)))) names)"
  using assms
proof (induction names arbitrary: n b)
  case (Cons x names)
  then obtain n' b' bytes where "file_get d x s = Some bytes" "stat_files io d s names = Some (n', b')"
    "n = n' + 1" "b = b' + int (length bytes)"
    by (auto split: option.splits if_splits)
  then show ?case using Cons.IH by simp
qed simp

lemma file_get_mem: "files_ok s \<Longrightarrow> f \<in> set (folder_files d s) \<Longrightarrow> file_get d (fst f) s = Some (snd f)"
proof -
  assume ok: "files_ok s" and f: "f \<in> set (folder_files d s)"
  then have "tbl_get fst (fst f) (folder_files d s) = Some f"
    by (simp add: tbl_get_Some_iff tbl_keys_def files_ok_folder)
  then show ?thesis by (simp add: file_get_def)
qed

lemma sum_sort_map:
  fixes g :: "string \<Rightarrow> int"
  shows "sum_list (map g (sort xs)) = sum_list (map g xs)"
proof -
  have "sum_list (map g (insort x ys)) = g x + sum_list (map g ys)" for x ys
    by (induction ys) simp_all
  then show ?thesis by (induction xs) simp_all
qed

lemma json_files_stat:
  assumes "\<not> list_fails io d" and "stat_files io d s (fst (json_files io d s)) = Some (n, b)" and "files_ok s"
  shows "n = int (length (event_files d s)) \<and> b = sum_list (map (int \<circ> length \<circ> snd) (event_files d s))"
proof -
  let ?names = "filter (ends_with ''.json'') (map fst (folder_files d s))"
  have names: "fst (json_files io d s) = sort ?names" using assms(1) by (simp add: json_files_def)
  have "?names = map fst (event_files d s)" by (simp add: event_files_def filter_map comp_def)
  moreover have "map (\<lambda>x. int (length (the (file_get d x s)))) (map fst (event_files d s)) =
      map (int \<circ> length \<circ> snd) (event_files d s)"
    using file_get_mem [OF assms(3)] by (simp add: event_files_def)
  ultimately show ?thesis
    using stat_files_sum [OF assms(2)] unfolding names sum_sort_map by (metis length_map length_sort)
qed

lemma capacity_usage_files:
  assumes "capacity_usage io s = (r, s1)"
  shows "pending s1 = pending s" "dead_letter s1 = dead_letter s"
proof -
  obtain ps s2 ds s3 where "json_files io PendingRoot s = (ps, s2)" "json_files io DeadLetterRoot s2 = (ds, s3)"
    by (metis surj_pair)
  then show "pending s1 = pending s" "dead_letter s1 = dead_letter s"
    using assms json_files_files [of io PendingRoot s] json_files_files [of io DeadLetterRoot s2]
    by (auto simp: capacity_usage_def split: option.splits prod.splits)
qed

lemma stat_files_cong:
  "pending s = pending s' \<Longrightarrow> dead_letter s = dead_letter s' \<Longrightarrow> stat_files io d s names = stat_files io d s' names"
proof (induction names)
  case (Cons x names)
  then show ?case using file_get_cong [of s s' d x] by (simp split: option.splits)
qed simp

lemma capacity_usage_total:
  assumes "capacity_usage io s = (Some (n, b), s1)" and "files_ok s"
    and "\<not> list_fails io PendingRoot" "\<not> list_fails io DeadLetterRoot"
  shows "n = outbox_count s \<and> b = outbox_bytes s"
proof -
  have p: "json_files io d s = (fst (json_files io d s), s)" if "\<not> list_fails io d" for d
    using that by (simp add: json_files_def)
  obtain n1 b1 n2 b2 where 1: "stat_files io PendingRoot s (fst (json_files io PendingRoot s)) = Some (n1, b1)"
    and 2: "stat_files io DeadLetterRoot s (fst (json_files io DeadLetterRoot s)) = Some (n2, b2)"
    and "n = n1 + n2" "b = b1 + b2"
    using assms(1) p [OF assms(3)] p [OF assms(4)]
    by (auto simp: capacity_usage_def split: option.splits prod.splits)
  then show ?thesis
    using json_files_stat [OF assms(3) 1 assms(2)] json_files_stat [OF assms(4) 2 assms(2)]
    by (simp add: outbox_count_def outbox_bytes_def)
qed

subsection \<open>The branches of an enqueue\<close>

lemma existing_event_None:
  assumes "existing_event fr io name s [PendingRoot, DeadLetterRoot] = None"
  shows "file_get PendingRoot name s = None" "file_get DeadLetterRoot name s = None"
  using assms by (auto split: option.splits)

lemma enqueue_locked_cases:
  assumes "enqueue_locked fr io limits now event queued s = (res, s')"
  obtains (unchanged) "pending s' = pending s" "dead_letter s' = dead_letter s"
      "case res of Inl x \<Rightarrow> True | Inr r \<Rightarrow> eq_status r \<noteq> ''queued''"
      "case res of Inl x \<Rightarrow> x = OSError \<or> (validate_event event = Inl x \<and> (\<forall>r. x \<noteq> ValidationError r)) \<or>
         (\<exists>e env. validate_event event = Inr e \<and> env_event env = json_payload (ev_payload e) \<and>
            encode (envelope_dict env) = Inl x) | Inr r \<Rightarrow> True"
  | (queued) e q bytes n b s1 where "validate_event event = Inr e"
      "existing_event fr io (json_name (ev_id e)) s [PendingRoot, DeadLetterRoot] = None"
      "queued_timestamp now queued = Some q"
      "encode (envelope_dict \<lparr>queued_at = q, env_event = json_payload (ev_payload e), env_reason = None\<rparr>) = Inr bytes"
      "capacity_usage io s = (Some (n, b), s1)" "n < max_events limits" "b + int (length bytes) \<le> max_bytes limits"
      "s' = file_put PendingRoot (json_name (ev_id e)) bytes s1"
      "res = Inr \<lparr>eq_event_id = ev_id e, eq_status = ''queued'', eq_reason = None\<rparr>"
proof (cases "validate_event event")
  case (Inl x)
  then show ?thesis
    using assms unchanged by (cases x) (auto simp: enqueue_locked_def rejected_def)
next
  case (Inr e)
  let ?name = "json_name (ev_id e)" and ?v = "json_payload (ev_payload e)"
  show ?thesis
  proof (cases "existing_event fr io ?name s [PendingRoot, DeadLetterRoot]")
    case (Some old)
    then show ?thesis
      using assms Inr unchanged by (simp add: enqueue_locked_def Let_def split: if_splits) auto
  next
    case ex: None
    show ?thesis
    proof (cases "queued_timestamp now queued")
      case None
      then show ?thesis
        using assms Inr ex unchanged by (auto simp: enqueue_locked_def Let_def rejected_def simp del: existing_event.simps)
    next
      case q: (Some q)
      let ?env = "\<lparr>queued_at = q, env_event = ?v, env_reason = None\<rparr>"
      obtain r s1 where cap: "capacity_usage io s = (r, s1)" by fastforce
      note files = capacity_usage_files [OF cap]
      have eq: "enqueue_locked fr io limits now event queued s =
          (case encode (envelope_dict ?env) of
             Inl x \<Rightarrow> (Inl x, s)
           | Inr bytes \<Rightarrow>
               (case (r, s1) of
                  (None, s1) \<Rightarrow> (Inr (rejected (ev_id e) ''outbox_storage_unavailable''),
                     tell ''outbox_capacity_check_failed'' s1)
                | (Some (n, b), s1) \<Rightarrow>
                    if max_events limits \<le> n \<or> max_bytes limits < b + int (length bytes)
                    then (Inr (rejected (ev_id e) ''outbox_capacity_exceeded''), s1)
                    else (case write_result io PendingRoot ?name of
                      Written \<Rightarrow> (Inr \<lparr>eq_event_id = ev_id e, eq_status = ''queued'', eq_reason = None\<rparr>,
                         file_put PendingRoot ?name bytes s1)
                    | CleanupFailed \<Rightarrow> (Inl OSError, tell ''outbox_write_failed'' s1)
                    | _ \<Rightarrow> (Inr (rejected (ev_id e) ''outbox_storage_unavailable''),
                         tell ''outbox_write_failed'' s1))))"
        unfolding enqueue_locked_def Let_def Inr sum.case ex option.case q cap by (rule refl)
      show ?thesis
      proof (cases "encode (envelope_dict ?env)")
        case (Inl x)
        then have "res = Inl x" "s' = s" using assms eq by simp_all
        moreover have "\<exists>env. env_event env = ?v \<and> encode (envelope_dict env) = Inl x"
          using Inl by (intro exI [of _ ?env]) simp
        ultimately show ?thesis using unchanged \<open>validate_event event = Inr e\<close> by simp
      next
        case bytes: (Inr bytes)
        then have eq': "(res, s') = (case r of
                  None \<Rightarrow> (Inr (rejected (ev_id e) ''outbox_storage_unavailable''),
                     tell ''outbox_capacity_check_failed'' s1)
                | Some (n, b) \<Rightarrow>
                    if max_events limits \<le> n \<or> max_bytes limits < b + int (length bytes)
                    then (Inr (rejected (ev_id e) ''outbox_capacity_exceeded''), s1)
                    else (case write_result io PendingRoot ?name of
                      Written \<Rightarrow> (Inr \<lparr>eq_event_id = ev_id e, eq_status = ''queued'', eq_reason = None\<rparr>,
                         file_put PendingRoot ?name bytes s1)
                    | CleanupFailed \<Rightarrow> (Inl OSError, tell ''outbox_write_failed'' s1)
                    | _ \<Rightarrow> (Inr (rejected (ev_id e) ''outbox_storage_unavailable''),
                         tell ''outbox_write_failed'' s1)))"
          using assms eq by (simp split: option.splits)
        show ?thesis
        proof (cases "case r of None \<Rightarrow> False | Some (n, b) \<Rightarrow> n < max_events limits \<and>
            b + int (length bytes) \<le> max_bytes limits \<and> write_result io PendingRoot ?name = Written")
          case True
          then obtain n b where "r = Some (n, b)" "n < max_events limits" "b + int (length bytes) \<le> max_bytes limits"
            "write_result io PendingRoot ?name = Written" by (auto split: option.splits)
          then show ?thesis
            using queued [OF Inr ex q bytes] cap eq' by simp
        next
          case False
          then show ?thesis
            using unchanged eq' files
            by (cases r) (auto simp: rejected_def split: write_outcome.splits if_splits)
        qed
      qed
    qed
  qed
qed

lemma enqueue_cases:
  assumes "enqueue fr io limits now event queued s = (res, s')"
  obtains (unchanged) "pending s' = pending s" "dead_letter s' = dead_letter s"
      "case res of Inl x \<Rightarrow> (validate_event event = Inl x \<and> (\<forall>r. x \<noteq> ValidationError r)) \<or>
         (\<exists>e env. validate_event event = Inr e \<and> env_event env = json_payload (ev_payload e) \<and>
            encode (envelope_dict env) = Inl x) | Inr r \<Rightarrow> eq_status r \<noteq> ''queued''"
  | (queued) e q bytes n b s1 where "validate_event event = Inr e"
      "existing_event fr io (json_name (ev_id e)) s [PendingRoot, DeadLetterRoot] = None"
      "queued_timestamp now queued = Some q"
      "encode (envelope_dict \<lparr>queued_at = q, env_event = json_payload (ev_payload e), env_reason = None\<rparr>) = Inr bytes"
      "capacity_usage io s = (Some (n, b), s1)" "n < max_events limits" "b + int (length bytes) \<le> max_bytes limits"
      "s' = file_put PendingRoot (json_name (ev_id e)) bytes s1"
      "res = Inr \<lparr>eq_event_id = ev_id e, eq_status = ''queued'', eq_reason = None\<rparr>"
proof (cases "lock_fails io")
  case True
  then show ?thesis using assms unchanged by (auto simp: enqueue_def rejected_def)
next
  case False
  obtain res1 s1 where l: "enqueue_locked fr io limits now event queued s = (res1, s1)" by fastforce
  show ?thesis
  proof (cases "res1 = Inl OSError")
    case True
    then have "res = Inr (rejected [] ''outbox_storage_unavailable'')" "s' = tell ''outbox_lock_failed'' s1"
      using assms False l by (simp_all add: enqueue_def)
    moreover have "pending s1 = pending s" "dead_letter s1 = dead_letter s"
      using l True by (cases rule: enqueue_locked_cases; simp)+
    ultimately show ?thesis using unchanged by (simp add: rejected_def)
  next
    case other: False
    then have "res = res1" "s' = s1"
      using assms False l by (auto simp: enqueue_def split: sum.splits exn.splits)
    with l show ?thesis
    proof (cases rule: enqueue_locked_cases)
      case unchanged
      then show ?thesis using that(1) other \<open>res = res1\<close> \<open>s' = s1\<close> by (cases res1) auto
    next
      case queued
      then show ?thesis using that(2) \<open>res = res1\<close> \<open>s' = s1\<close> by blast
    qed
  qed
qed

end
