(* ===== verification/OutboxDrain.thy ===== *)
theory OutboxDrain
  imports OutboxEnqueue
begin

section \<open>Draining the outbox\<close>

text \<open>
  Nothing that a drain does loses an event: whatever fails, a pending event stays pending until it
  was delivered or until the dead letters hold an envelope of that event id.
\<close>

subsection \<open>What a step may do to the files\<close>

definition pending_valid :: "(string \<Rightarrow> string) \<Rightarrow> string \<Rightarrow> envelope \<Rightarrow> outbox \<Rightarrow> bool" where
  "pending_valid fr name env s \<longleftrightarrow>
     (\<exists>bytes. file_get PendingRoot name s = Some bytes \<and> parse_envelope fr False name bytes = Some env)"

definition dead_has :: "(string \<Rightarrow> string) \<Rightarrow> string \<Rightarrow> outbox \<Rightarrow> bool" where
  "dead_has fr event_id s \<longleftrightarrow>
     (\<exists>name bytes env. file_get DeadLetterRoot name s = Some bytes \<and>
        parse_envelope fr True name bytes = Some env \<and> env_id env = event_id)"

text \<open>
  \<open>keeps fr D s s'\<close>: dead letters stay, pending files stay or go, and a valid one that goes is
  delivered (\<open>D\<close>) or dead-lettered.
\<close>

definition keeps :: "(string \<Rightarrow> string) \<Rightarrow> (envelope \<Rightarrow> bool) \<Rightarrow> outbox \<Rightarrow> outbox \<Rightarrow> bool" where
  "keeps fr D s s' \<longleftrightarrow>
     (\<forall>n b. file_get DeadLetterRoot n s = Some b \<longrightarrow> file_get DeadLetterRoot n s' = Some b) \<and>
     (\<forall>n b. file_get PendingRoot n s' = Some b \<longrightarrow> file_get PendingRoot n s = Some b) \<and>
     (\<forall>n env. pending_valid fr n env s \<longrightarrow>
        pending_valid fr n env s' \<or> dead_has fr (env_id env) s' \<or> D env)"

lemma dead_has_mono:
  "(\<And>n b. file_get DeadLetterRoot n s = Some b \<Longrightarrow> file_get DeadLetterRoot n s' = Some b) \<Longrightarrow>
     dead_has fr i s \<Longrightarrow> dead_has fr i s'"
  unfolding dead_has_def by blast

lemma keeps_refl [simp]: "keeps fr D s s"
  by (simp add: keeps_def)

lemma keeps_same: "pending s' = pending s \<Longrightarrow> dead_letter s' = dead_letter s \<Longrightarrow> keeps fr D s s'"
  unfolding keeps_def pending_valid_def using file_get_cong [of s' s] by metis

lemma keeps_tell [simp]: "keeps fr D s (tell m s)"
  by (rule keeps_same) simp_all

lemma keeps_trans: "keeps fr D s s1 \<Longrightarrow> keeps fr D s1 s' \<Longrightarrow> keeps fr D s s'"
  unfolding keeps_def using dead_has_mono [of s1 s' fr] by metis

lemma keeps_mono: "keeps fr D s s' \<Longrightarrow> (\<And>e. D e \<Longrightarrow> D' e) \<Longrightarrow> keeps fr D' s s'"
  unfolding keeps_def by blast

lemma keeps_dead: "keeps fr D s s' \<Longrightarrow> dead_has fr i s \<Longrightarrow> dead_has fr i s'"
  unfolding keeps_def using dead_has_mono [of s s' fr i] by blast

lemma keeps_pending: "keeps fr D s s' \<Longrightarrow> pending_valid fr n env s' \<Longrightarrow> pending_valid fr n env s"
  unfolding keeps_def pending_valid_def by blast

text \<open>Removing a pending file whose event is safe.\<close>

lemma keeps_remove:
  assumes "\<And>env. pending_valid fr name env s \<Longrightarrow> dead_has fr (env_id env) s \<or> D env"
  shows "keeps fr D s (file_remove PendingRoot name s)"
proof -
  have "dead_has fr i (file_remove PendingRoot name s) = dead_has fr i s" for i
    by (simp add: dead_has_def file_get_remove)
  then show ?thesis
    using assms unfolding keeps_def pending_valid_def by (auto simp: file_get_remove)
qed

text \<open>Writing a dead letter where there is none.\<close>

lemma keeps_put_dead:
  "file_get DeadLetterRoot n s = None \<Longrightarrow> keeps fr D s (file_put DeadLetterRoot n b s)"
  unfolding keeps_def pending_valid_def by (auto simp: file_get_put)

subsection \<open>Reconciliation\<close>

lemma read_envelope_pending:
  "read_envelope fr io PendingRoot name s = Some env \<Longrightarrow> pending_valid fr name env s"
  by (auto simp: read_envelope_def pending_valid_def split: if_splits option.splits)

lemma pending_valid_ok:
  "pending_valid fr name env s \<Longrightarrow> envelope_ok env \<and> stem name = env_id env \<and> env_reason env = None"
  unfolding pending_valid_def using parse_envelope_ok by blast

lemma pending_valid_unique: "pending_valid fr name env s \<Longrightarrow> pending_valid fr name env' s \<Longrightarrow> env = env'"
  unfolding pending_valid_def by auto

lemma dead_letter_ids_dead:
  "i \<in> set (dead_letter_ids fr io s names) \<Longrightarrow> dead_has fr i s"
proof -
  assume "i \<in> set (dead_letter_ids fr io s names)"
  then obtain n env where "i = stem n" "read_envelope fr io DeadLetterRoot n s = Some env"
    by (auto simp: dead_letter_ids_def)
  then obtain bytes where "file_get DeadLetterRoot n s = Some bytes" "parse_envelope fr True n bytes = Some env"
    by (auto simp: read_envelope_def split: if_splits option.splits)
  then show ?thesis
    using parse_envelope_ok(2) \<open>i = stem n\<close> unfolding dead_has_def by metis
qed

lemma keeps_list:
  assumes "keeps fr D s s1" and "\<forall>(n, env) \<in> set v. n \<in> set names \<and> pending_valid fr n env s1"
  shows "\<forall>(n, env) \<in> set v. n \<in> set (name # names) \<and> pending_valid fr n env s"
  using assms(2) keeps_pending [OF assms(1)] by auto

lemma scan_pending_keeps:
  assumes "scan_pending fr io dead names s = (valid, corrupt, s')" and "\<forall>i \<in> set dead. dead_has fr i s"
  shows "keeps fr D s s' \<and> (\<forall>(n, env) \<in> set valid. n \<in> set names \<and> pending_valid fr n env s)"
  using assms
proof (induction names arbitrary: s valid corrupt)
  case (Cons name names)
  show ?case
  proof (cases "stem name \<in> set dead")
    case True
    define s1 where "s1 = (case unlink_result io PendingRoot name of
        UnlinkFailed \<Rightarrow> tell ''outbox_reconcile_failed'' s | _ \<Rightarrow> file_remove PendingRoot name s)"
    have scan: "scan_pending fr io dead names s1 = (valid, corrupt, s')"
      using Cons.prems(1) True by (auto simp: s1_def split: unlink_outcome.splits)
    have "keeps fr D s (file_remove PendingRoot name s)"
      by (rule keeps_remove) (use True Cons.prems(2) pending_valid_ok in metis)
    then have k: "keeps fr D s s1" by (auto simp: s1_def split: unlink_outcome.splits)
    then have "\<forall>i \<in> set dead. dead_has fr i s1" using Cons.prems(2) keeps_dead by blast
    from Cons.IH [OF scan this] show ?thesis
      using keeps_trans [OF k] keeps_list [OF k] by blast
  next
    case False
    show ?thesis
    proof (cases "read_envelope fr io PendingRoot name s")
      case None
      obtain v c where scan: "scan_pending fr io dead names (tell ''outbox_corrupt_event'' s) = (v, c, s')" "valid = v"
        using Cons.prems(1) False None by (auto split: prod.splits)
      have k: "keeps fr D s (tell ''outbox_corrupt_event'' s)" by simp
      then have "\<forall>i \<in> set dead. dead_has fr i (tell ''outbox_corrupt_event'' s)"
        using Cons.prems(2) keeps_dead by blast
      from Cons.IH [OF scan(1) this] show ?thesis
        using keeps_trans [OF k] keeps_list [OF k] unfolding scan(2) by blast
    next
      case (Some env)
      obtain v c where scan: "scan_pending fr io dead names s = (v, c, s')" "valid = (name, env) # v"
        using Cons.prems(1) False Some by (auto split: prod.splits)
      from Cons.IH [OF scan(1) Cons.prems(2)] show ?thesis
        using scan(2) read_envelope_pending [OF Some] by auto
    qed
  qed
qed simp

lemma json_files_keeps [simp]: "keeps fr D s (snd (json_files io d s))"
  by (rule keeps_same) simp_all

lemma pending_events_keeps:
  assumes "pending_events fr io s = (todo, corrupt, s')"
  shows "keeps fr D s s' \<and> (\<forall>(n, env) \<in> set todo. pending_valid fr n env s)"
proof -
  obtain dn s1 where 1: "json_files io DeadLetterRoot s = (dn, s1)" by fastforce
  obtain pn s2 where 2: "json_files io PendingRoot s1 = (pn, s2)" by fastforce
  obtain valid where 3: "scan_pending fr io (dead_letter_ids fr io s dn) pn s2 = (valid, corrupt, s')"
    and todo: "todo = sort_key queue_order valid"
    using assms 1 2 by (auto simp: pending_events_def split: prod.splits)
  have k: "keeps fr D s s2"
    using json_files_keeps [of fr D s io DeadLetterRoot] json_files_keeps [of fr D s1 io PendingRoot] 1 2 keeps_trans
    by (metis snd_conv)
  then have "\<forall>i \<in> set (dead_letter_ids fr io s dn). dead_has fr i s2"
    using dead_letter_ids_dead keeps_dead by blast
  from scan_pending_keeps [OF 3 this, of D] have s: "keeps fr D s2 s'"
    "\<forall>(n, env) \<in> set valid. n \<in> set pn \<and> pending_valid fr n env s2" by blast+
  then have "keeps fr D s s'" using k keeps_trans by blast
  moreover have "pending_valid fr n env s" if "(n, env) \<in> set todo" for n env
    using that s(2) k keeps_pending todo by auto
  ultimately show ?thesis by blast
qed

subsection \<open>Dead letters\<close>

text \<open>An item of the drain loop: nothing else can be pending under its name.\<close>

definition item_ok :: "(string \<Rightarrow> string) \<Rightarrow> outbox \<Rightarrow> string \<times> envelope \<Rightarrow> bool" where
  "item_ok fr s p \<longleftrightarrow> envelope_ok (snd p) \<and> stem (fst p) = env_id (snd p) \<and> env_reason (snd p) = None \<and>
     (\<forall>env. pending_valid fr (fst p) env s \<longrightarrow> env = snd p)"

lemma item_ok_keeps: "item_ok fr s p \<Longrightarrow> keeps fr D s s' \<Longrightarrow> item_ok fr s' p"
  unfolding item_ok_def using keeps_pending by blast

lemma pending_item_ok: "pending_valid fr n env s \<Longrightarrow> item_ok fr s (n, env)"
  using pending_valid_ok pending_valid_unique by (fastforce simp: item_ok_def)

lemma safe_reason_known: "safe_delivery_reason r \<in> set KNOWN_DELIVERY_REASONS"
  by (auto simp: safe_delivery_reason_def KNOWN_DELIVERY_REASONS_def split: option.splits)

lemma move_keeps:
  assumes move: "move_to_dead_letter fr io name env reason s = (res, s')"
    and ok: "item_ok fr s (name, env)" and known: "reason \<in> set KNOWN_DELIVERY_REASONS"
  shows "keeps fr D s s'"
proof -
  let ?dest = "json_name (text_at (env_event env) ''event_id'')"
  have dest: "?dest = json_name (env_id env)" by (simp add: env_id_def)
  have v: "event_value (env_event env)" using ok by (simp add: item_ok_def envelope_ok_def)
  have stem_dest: "stem ?dest = env_id env"
    using stem_json_name [OF event_value_id_nonempty [OF v]] by (simp add: env_id_def)
  have remove: "keeps fr D s1 (file_remove PendingRoot name s1)"
    if "item_ok fr s1 (name, env)" "dead_has fr (env_id env) s1" for s1
    by (rule keeps_remove) (use that in \<open>auto simp: item_ok_def\<close>)
  show ?thesis
  proof (cases "file_get DeadLetterRoot ?dest s")
    case (Some bytes)
    show ?thesis
    proof (cases "read_envelope fr io DeadLetterRoot ?dest s")
      case None
      then show ?thesis using move Some by (auto simp: move_to_dead_letter_def Let_def)
    next
      case old: (Some old)
      then have "parse_envelope fr True ?dest bytes = Some old"
        using Some by (auto simp: read_envelope_def split: if_splits)
      then have "dead_has fr (env_id env) s"
        using Some parse_envelope_ok(2) stem_dest unfolding dead_has_def by metis
      then have "keeps fr D s (file_remove PendingRoot name s)" using remove ok by blast
      then show ?thesis
        using move Some old
        by (auto simp: move_to_dead_letter_def Let_def split: if_splits unlink_outcome.splits)
    qed
  next
    case none: None
    let ?env = "env\<lparr>env_reason := Some reason\<rparr>"
    have "envelope_ok ?env" using ok known by (simp add: item_ok_def envelope_ok_def reason_ok_def)
    then obtain bytes where b: "encode (envelope_dict ?env) = Inr bytes"
      "parse_envelope fr (env_reason ?env \<noteq> None) (json_name (env_id ?env)) bytes =
         Some (?env\<lparr>env_event := sort_keys (env_event ?env)\<rparr>)"
      by (rule parse_encoded)
    let ?s1 = "file_put DeadLetterRoot ?dest bytes s"
    have k1: "keeps fr D s ?s1" by (rule keeps_put_dead [OF none])
    have "env_id (?env\<lparr>env_event := sort_keys (env_event ?env)\<rparr>) = env_id env"
      using event_value_id [OF v] by (simp add: env_id_def)
    moreover have "parse_envelope fr True ?dest bytes = Some (?env\<lparr>env_event := sort_keys (env_event ?env)\<rparr>)"
      using b(2) by (simp add: env_id_def)
    moreover have "file_get DeadLetterRoot ?dest ?s1 = Some bytes" by (simp add: file_get_put)
    ultimately have "dead_has fr (env_id env) ?s1" unfolding dead_has_def by blast
    then have k2: "keeps fr D s (file_remove PendingRoot name ?s1)"
      using remove item_ok_keeps [OF ok k1] k1 keeps_trans by blast
    have k3: "keeps fr D s (tell m ?s1)" for m using k1 keeps_tell keeps_trans by blast
    show ?thesis
      using move none b(1) k2 k3
      by (auto simp: move_to_dead_letter_def Let_def split: write_outcome.splits unlink_outcome.splits)
  qed
qed

lemma settle_keeps:
  assumes "settle fr io name env result s c = (res, s')" and ok: "item_ok fr s (name, env)"
    and D: "dr_delivered result \<Longrightarrow> D env"
  shows "keeps fr D s s'"
proof (cases "dr_delivered result")
  case True
  have "keeps fr D s (file_remove PendingRoot name s)"
    by (rule keeps_remove) (use ok D [OF True] in \<open>auto simp: item_ok_def\<close>)
  then show ?thesis
    using assms(1) True by (auto simp: settle_def split: unlink_outcome.splits)
next
  case False
  have "keeps fr D s s1"
    if "move_to_dead_letter fr io name env (safe_delivery_reason (dr_reason result)) s = (r, s1)" for r s1
    by (rule move_keeps [OF that ok safe_reason_known])
  then show ?thesis
    using assms(1) False
    by (auto simp: settle_def Let_def split: if_splits prod.splits sum.splits bool.splits)
qed

subsection \<open>The loop\<close>

text \<open>
  What a caller can say of an event once its delivery was reported: \<open>seen env w\<close> holds after a
  successful delivery and neither a later delivery nor a reading of the clock undoes it.
\<close>

locale drain_evidence =
  fixes ops :: "'w drain_env" and endpoint :: string and token :: string
    and seen :: "envelope \<Rightarrow> 'w \<Rightarrow> bool"
  assumes seen_delivered: "envelope_ok env \<Longrightarrow> deliver ops (env_event env) endpoint token w = (Inr r, w') \<Longrightarrow>
      dr_delivered r \<Longrightarrow> seen env w'"
    and seen_deliver: "seen env w \<Longrightarrow> deliver ops event endpoint token w = (res, w') \<Longrightarrow> seen env w'"
    and seen_clock: "seen env w \<Longrightarrow> read_clock ops w = (t, w') \<Longrightarrow> seen env w'"
begin

lemma drain_loop_seen:
  "drain_loop fr io limits ops endpoint token started index todo c s w = (res, s', w') \<Longrightarrow> seen env w \<Longrightarrow> seen env w'"
proof (induction todo arbitrary: index c s w)
  case (Cons p rest)
  obtain name e where p: "p = (name, e)" by (cases p)
  obtain now w1 where clk: "(if max_drain_events limits \<le> index then (0, w) else read_clock ops w) = (now, w1)"
    by fastforce
  obtain r w2 where d: "deliver ops (env_event e) endpoint token w1 = (r, w2)" by fastforce
  obtain now2 w3 where c2: "read_clock ops w2 = (now2, w3)" by fastforce
  have w1: "seen env w1" using clk Cons.prems(2) seen_clock by (auto split: if_splits)
  have w2: "seen env w2" by (rule seen_deliver [OF w1 d])
  have w3: "seen env w3" by (rule seen_clock [OF w2 c2])
  show ?case
    using Cons.prems(1) p clk d c2 w1 w3 Cons.IH w2
    by (auto split: if_splits sum.splits prod.splits)
qed simp

lemma drain_loop_keeps:
  assumes "drain_loop fr io limits ops endpoint token started index todo c s w = (res, s', w')"
    and "\<forall>p \<in> set todo. item_ok fr s p"
  shows "keeps fr (\<lambda>env. seen env w') s s'"
  using assms
proof (induction todo arbitrary: index c s w)
  case (Cons p rest)
  obtain name env where p: "p = (name, env)" by (cases p)
  let ?D = "\<lambda>env. seen env w'"
  obtain now w1 where clk: "(if max_drain_events limits \<le> index then (0, w) else read_clock ops w) = (now, w1)"
    by fastforce
  show ?case
  proof (cases "max_drain_events limits \<le> index \<or> max_drain_seconds limits \<le> now - started")
    case True
    then show ?thesis using Cons.prems(1) clk p by simp
  next
    case go: False
    obtain r w2 where d: "deliver ops (env_event env) endpoint token w1 = (r, w2)" by fastforce
    have next_ok: "\<forall>q \<in> set rest. item_ok fr s1 q" if "keeps fr ?D s s1" for s1
      using Cons.prems(2) item_ok_keeps that by auto
    show ?thesis
    proof (cases r)
      case (Inl x)
      then have "drain_loop fr io limits ops endpoint token started (index + 1) rest (plus_retained 1 c)
          (tell ''outbox_delivery_failed'' s) w2 = (res, s', w')"
        using Cons.prems(1) clk p go d by simp
      from Cons.IH [OF this next_ok] show ?thesis using keeps_trans keeps_tell by blast
    next
      case (Inr result)
      obtain now2 w3 where c2: "read_clock ops w2 = (now2, w3)" by fastforce
      show ?thesis
      proof (cases "max_drain_seconds limits \<le> now2 - started")
        case True
        then have "drain_loop fr io limits ops endpoint token started (index + 1) rest (plus_retained 1 c)
            s w3 = (res, s', w')"
          using Cons.prems(1) clk p go d Inr c2 by simp
        from Cons.IH [OF this next_ok] show ?thesis by simp
      next
        case False
        obtain r1 s1 where st: "settle fr io name env result s c = (r1, s1)" by fastforce
        have item: "item_ok fr s (name, env)" using Cons.prems(2) p by simp
        have after: "(case r1 of Inl x \<Rightarrow> (Inl x, s1, w3)
            | Inr c1 \<Rightarrow> drain_loop fr io limits ops endpoint token started (index + 1) rest c1 s1 w3) = (res, s', w')"
          using Cons.prems(1) clk p go d Inr c2 False st by (simp split: sum.splits)
        have "seen env w'" if "dr_delivered result"
        proof -
          have "seen env w3"
            using item seen_delivered [OF _ d [unfolded Inr] that] by (intro seen_clock [OF _ c2]) (simp add: item_ok_def)
          then show ?thesis using after drain_loop_seen by (auto split: sum.splits)
        qed
        then have k: "keeps fr ?D s s1" by (rule settle_keeps [OF st item])
        show ?thesis
        proof (cases r1)
          case (Inl x)
          then show ?thesis using k after by simp
        next
          case (Inr c1)
          then show ?thesis using Cons.IH [OF _ next_ok [OF k]] after k keeps_trans by auto
        qed
      qed
    qed
  qed
qed simp

lemma drain_keeps:
  assumes "drain fr io limits ops endpoint token s w = (res, s', w')"
  shows "keeps fr (\<lambda>env. seen env w') s s'"
proof -
  let ?D = "\<lambda>env. seen env w'"
  have locked: "keeps fr ?D s s1" if l: "drain_locked fr io limits ops endpoint token s w = (r, s1, w')" for r s1
  proof -
    obtain started w2 where c: "read_clock ops w = (started, w2)" by fastforce
    obtain todo corrupt s2 where p: "pending_events fr io s = (todo, corrupt, s2)" by (metis prod_cases3)
    have k: "keeps fr ?D s s2" and items: "\<forall>(n, env) \<in> set todo. pending_valid fr n env s"
      using pending_events_keeps [OF p] by blast+
    have "\<forall>q \<in> set todo. item_ok fr s2 q"
      using items pending_item_ok item_ok_keeps [OF _ k] by fastforce
    moreover have "drain_loop fr io limits ops endpoint token started 0 todo
        (empty_drain\<lparr>dn_corrupt := corrupt\<rparr>) s2 w2 = (r, s1, w')"
      using l c p by (simp add: drain_locked_def)
    ultimately have "keeps fr ?D s2 s1" by (intro drain_loop_keeps)
    then show ?thesis by (rule keeps_trans [OF k])
  qed
  show ?thesis
  proof (cases "lock_fails io")
    case True
    then show ?thesis using assms by (auto simp: drain_def)
  next
    case False
    obtain r s1 w1 where l: "drain_locked fr io limits ops endpoint token s w = (r, s1, w1)" by (metis prod_cases3)
    have "w1 = w'" and s': "s' = s1 \<or> s' = tell ''outbox_lock_failed'' s1"
      using assms False l by (auto simp: drain_def split: sum.splits exn.splits)
    then have "keeps fr ?D s s1" using locked l by simp
    then show ?thesis using s' keeps_trans keeps_tell by blast
  qed
qed

end

text \<open>The evidence that every caller has: some call of the delivery function reported success.\<close>

definition delivered_by :: "'w drain_env \<Rightarrow> string \<Rightarrow> string \<Rightarrow> envelope \<Rightarrow> bool" where
  "delivered_by ops endpoint token env \<longleftrightarrow>
     (\<exists>w r w'. deliver ops (env_event env) endpoint token w = (Inr r, w') \<and> dr_delivered r)"

interpretation reported: drain_evidence ops endpoint token "\<lambda>env w. delivered_by ops endpoint token env"
  for ops :: "'w drain_env" and endpoint token
  by unfold_locales (auto simp: delivered_by_def)

subsection \<open>Counting\<close>

definition settled :: "drain_result \<Rightarrow> nat" where
  "settled r = dn_delivered r + dn_retained r + dn_dead_lettered r"

lemma settled_plus [simp]:
  "settled (plus_retained n c) = settled c + n" "settled (plus_delivered c) = settled c + 1"
  "settled (plus_dead c) = settled c + 1"
  "dn_corrupt (plus_retained n c) = dn_corrupt c" "dn_corrupt (plus_delivered c) = dn_corrupt c"
  "dn_corrupt (plus_dead c) = dn_corrupt c"
  by (simp_all add: settled_def plus_retained_def plus_delivered_def plus_dead_def)

lemma settle_settled:
  assumes "settle fr io name env result s c = (Inr c', s')"
    and "unlink_result io PendingRoot name \<noteq> UnlinkMissing"
  shows "settled c' = settled c + 1 \<and> dn_corrupt c' = dn_corrupt c"
  using assms
  by (auto simp: settle_def Let_def split: if_splits unlink_outcome.splits prod.splits sum.splits bool.splits)

lemma drain_loop_settled:
  assumes "drain_loop fr io limits ops endpoint token started index todo c s w = (Inr c', s', w')"
    and "\<forall>n. unlink_result io PendingRoot n \<noteq> UnlinkMissing"
  shows "settled c' = settled c + length todo \<and> dn_corrupt c' = dn_corrupt c"
  using assms(1)
proof (induction todo arbitrary: index c s w)
  case (Cons p rest)
  obtain name env where p: "p = (name, env)" by (cases p)
  show ?case
    using Cons.prems Cons.IH settle_settled assms(2) unfolding p
    by (auto simp: Let_def split: prod.splits sum.splits if_splits)
qed simp

text \<open>A drain environment that counts its deliveries.\<close>

definition counting :: "'w drain_env \<Rightarrow> ('w \<times> nat) drain_env" where
  "counting ops = \<lparr>read_clock = (\<lambda>(w, k). case read_clock ops w of (t, w') \<Rightarrow> (t, (w', k))),
     deliver = (\<lambda>ev ep tk (w, k). case deliver ops ev ep tk w of (r, w') \<Rightarrow> (r, (w', k + 1)))\<rparr>"

lemma counting_simps [simp]:
  "read_clock (counting ops) (w, k) = (case read_clock ops w of (t, w') \<Rightarrow> (t, (w', k)))"
  "deliver (counting ops) ev ep tk (w, k) = (case deliver ops ev ep tk w of (r, w') \<Rightarrow> (r, (w', k + 1)))"
  by (simp_all add: counting_def)

lemma drain_loop_bounded:
  assumes "drain_loop fr io limits (counting ops) endpoint token started index todo c s (w, k) = (res, s', (w', k'))"
    and "0 \<le> index"
  shows "int k' \<le> int k + max 0 (max_drain_events limits - index)"
  using assms
proof (induction todo arbitrary: index c s w k)
  case (Cons p rest)
  obtain name env where p: "p = (name, env)" by (cases p)
  show ?case
  proof (cases "max_drain_events limits \<le> index")
    case True
    then show ?thesis using Cons.prems p by (auto simp: Let_def)
  next
    case False
    have step: "int k' \<le> int k1 + max 0 (max_drain_events limits - (index + 1))"
      if "drain_loop fr io limits (counting ops) endpoint token started (index + 1) rest c1 s1 (w1, k1) =
          (res, s', (w', k'))" for c1 s1 w1 k1
      using Cons.IH [OF that] Cons.prems(2) by simp
    show ?thesis
      using Cons.prems(1) False step [of _ _ _ "k + 1"] unfolding p
      by (auto simp: Let_def split: prod.splits sum.splits if_splits)
  qed
qed simp

subsection \<open>Exceptions\<close>

text \<open>Only the \<^verbatim>\<open>OSError\<close> of a failed cleanup leaves the settling of an event.\<close>

lemma settle_Inl:
  assumes "settle fr io name env result s c = (Inl x, s')" and "item_ok fr s (name, env)"
  shows "x = OSError \<and> (\<exists>n. write_result io DeadLetterRoot n = CleanupFailed)"
proof -
  let ?reason = "safe_delivery_reason (dr_reason result)"
  have "envelope_ok (env\<lparr>env_reason := Some ?reason\<rparr>)"
    using assms(2) safe_reason_known by (simp add: item_ok_def envelope_ok_def reason_ok_def)
  then obtain bytes where b: "encode (envelope_dict (env\<lparr>env_reason := Some ?reason\<rparr>)) = Inr bytes"
    by (rule parse_encoded)
  have "move_to_dead_letter fr io name env ?reason s = (Inl x, s')"
    using assms(1) by (auto simp: settle_def Let_def split: if_splits unlink_outcome.splits prod.splits sum.splits bool.splits)
  then show ?thesis
    using b by (auto simp: move_to_dead_letter_def Let_def
        split: if_splits unlink_outcome.splits write_outcome.splits option.splits)
qed

lemma drain_loop_Inl:
  assumes "drain_loop fr io limits ops endpoint token started index todo c s w = (Inl x, s', w')"
    and "\<forall>p \<in> set todo. item_ok fr s p"
  shows "x = OSError \<and> (\<exists>n. write_result io DeadLetterRoot n = CleanupFailed)"
  using assms
proof (induction todo arbitrary: index c s w)
  case (Cons p rest)
  obtain name env where p: "p = (name, env)" by (cases p)
  have keep: "item_ok fr s1 q" if "q \<in> set rest" "keeps fr (\<lambda>_. True) s s1" for q s1
    using Cons.prems(2) item_ok_keeps [OF _ that(2), of q] that(1) by simp
  have k: "keeps fr (\<lambda>_. True) s s1" if "settle fr io name env r s c = (res, s1)" for r res s1
    by (rule settle_keeps [OF that]) (use Cons.prems(2) p in auto)
  have e: "y = OSError \<and> (\<exists>n. write_result io DeadLetterRoot n = CleanupFailed)"
    if "settle fr io name env r s c = (Inl y, s1)" for r y s1
    by (rule settle_Inl [OF that]) (use Cons.prems(2) p in auto)
  have step: ?case
    if "drain_loop fr io limits ops endpoint token started (index + 1) rest c1 s1 w1 = (Inl x, s', w')"
      "keeps fr (\<lambda>_. True) s s1" for c1 s1 w1
    using Cons.IH [OF that(1)] keep that(2) by blast
  obtain now w1 where clk: "(if max_drain_events limits \<le> index then (0, w) else read_clock ops w) = (now, w1)"
    by fastforce
  have go: "\<not> (max_drain_events limits \<le> index \<or> max_drain_seconds limits \<le> now - started)"
    using Cons.prems(1) clk p by auto
  obtain r w2 where d: "deliver ops (env_event env) endpoint token w1 = (r, w2)" by fastforce
  show ?case
  proof (cases r)
    case (Inl y)
    then show ?thesis using Cons.prems(1) clk p go d step [OF _ keeps_tell] by simp
  next
    case (Inr result)
    obtain now2 w3 where c2: "read_clock ops w2 = (now2, w3)" by fastforce
    obtain r1 s1 where st: "settle fr io name env result s c = (r1, s1)" by fastforce
    show ?thesis
    proof (cases "max_drain_seconds limits \<le> now2 - started")
      case True
      then show ?thesis using Cons.prems(1) clk p go d Inr c2 step [OF _ keeps_refl] by simp
    next
      case False
      then show ?thesis
        using Cons.prems(1) clk p go d Inr c2 st e [of result _ s1] step [OF _ k [OF st]] by (cases r1) auto
    qed
  qed
qed simp

text \<open>A drain that starts: what it does with the pending events it read.\<close>

lemma drain_cases:
  assumes "drain fr io limits ops endpoint token s w = (res, s', w')"
  obtains (locked_out) "lock_fails io" "res = Inr empty_drain" "s' = tell ''outbox_lock_failed'' s" "w' = w"
  | (ran) started w1 todo corrupt s1 r s2 where "\<not> lock_fails io" "read_clock ops w = (started, w1)"
      "pending_events fr io s = (todo, corrupt, s1)" "\<forall>p \<in> set todo. item_ok fr s1 p"
      "drain_loop fr io limits ops endpoint token started 0 todo (empty_drain\<lparr>dn_corrupt := corrupt\<rparr>) s1 w1 = (r, s2, w')"
      "(\<exists>c. r = Inr c \<and> res = Inr c \<and> s' = s2) \<or>
       (r = Inl OSError \<and> (\<exists>n. write_result io DeadLetterRoot n = CleanupFailed) \<and>
        res = Inr empty_drain \<and> s' = tell ''outbox_lock_failed'' s2)"
proof (cases "lock_fails io")
  case True
  then show ?thesis using assms locked_out by (simp add: drain_def)
next
  case False
  obtain started w1 where c: "read_clock ops w = (started, w1)" by fastforce
  obtain todo corrupt s1 where p: "pending_events fr io s = (todo, corrupt, s1)" by (metis prod_cases3)
  obtain r s2 w2 where l: "drain_loop fr io limits ops endpoint token started 0 todo
      (empty_drain\<lparr>dn_corrupt := corrupt\<rparr>) s1 w1 = (r, s2, w2)" by (metis prod_cases3)
  have ok: "\<forall>q \<in> set todo. item_ok fr s1 q"
    using pending_events_keeps [OF p, of "\<lambda>_. True"] pending_item_ok item_ok_keeps by fastforce
  have d: "drain_locked fr io limits ops endpoint token s w = (r, s2, w2)"
    by (simp add: drain_locked_def c p l)
  show ?thesis
  proof (cases r)
    case (Inl x)
    have "x = OSError \<and> (\<exists>n. write_result io DeadLetterRoot n = CleanupFailed)"
      by (rule drain_loop_Inl [OF l [unfolded Inl] ok])
    then show ?thesis
      using ran [OF False c p ok, of r s2] l assms d False Inl by (auto simp: drain_def)
  next
    case (Inr c1)
    then show ?thesis
      using ran [OF False c p ok, of r s2] l assms d False by (auto simp: drain_def)
  qed
qed

end
