(* ===== verification/OutboxProperties.thy ===== *)
theory OutboxProperties
  imports OutboxDrain
begin

section \<open>Properties of the outbox\<close>

text \<open>
  Bounds, atomicity and idempotence of \<^verbatim>\<open>enqueue\<close>; what a drain keeps, counts and delivers.  The
  witnesses use an outbox that holds the sample event.
\<close>

subsection \<open>Sample states\<close>

definition empty_outbox :: outbox where
  "empty_outbox = \<lparr>pending = [], dead_letter = [], reports = []\<rparr>"

definition sample_queue_time :: string where
  "sample_queue_time = ''2026-09-18T01:30:00Z''"

lemma sample_queue_time: "queued_timestamp now (Some sample_queue_time) = Some sample_queue_time"
proof -
  have "queued_timestamp 0 (Some sample_queue_time) = Some sample_queue_time" by code_simp
  then show ?thesis by (simp add: queued_timestamp_def)
qed

lemma sample_dicts_finished: "py_dicts sample_finished"
  by code_simp

lemma sample_finished_valid: "validate_event sample_finished = Inr (event_of sample_finished)"
  using sample_finished_contract by (simp add: validate_event_iff)

definition outbox1 :: outbox where
  "outbox1 = snd (enqueue (\<lambda>x. x) good_io default_limits 0 sample_finished (Some sample_queue_time) empty_outbox)"

definition sample_fits :: "string \<Rightarrow> bool" where
  "sample_fits q \<longleftrightarrow>
     (case encode (envelope_dict \<lparr>queued_at = q,
        env_event = json_payload (ev_payload (event_of sample_finished)), env_reason = None\<rparr>) of
      Inl x \<Rightarrow> False | Inr bytes \<Rightarrow> length bytes < 2000)"

lemma sample_size: "sample_fits sample_queue_time" "sample_fits (now_text 0)"
  by code_simp+

lemma enqueue_sample_at:
  assumes "queued_timestamp now queued = Some q" and "sample_fits q"
  obtains bytes where "enqueue fr good_io default_limits now sample_finished queued empty_outbox =
     (Inr \<lparr>eq_event_id = ev_id (event_of sample_finished), eq_status = ''queued'', eq_reason = None\<rparr>,
      empty_outbox\<lparr>pending := [(json_name (ev_id (event_of sample_finished)), bytes)]\<rparr>)"
proof -
  obtain bytes where b: "encode (envelope_dict \<lparr>queued_at = q,
        env_event = json_payload (ev_payload (event_of sample_finished)), env_reason = None\<rparr>) = Inr bytes"
    "length bytes < 2000"
    using assms(2) by (auto simp: sample_fits_def split: sum.splits)
  have cap: "capacity_usage good_io empty_outbox = (Some (0, 0), empty_outbox)"
    by (simp add: capacity_usage_def json_files_def good_io_def folder_files_def empty_outbox_def)
  have none: "existing_event fr good_io name empty_outbox [PendingRoot, DeadLetterRoot] = None" for name
    by (simp add: file_get_def folder_files_def empty_outbox_def)
  have lim: "\<not> (max_events default_limits \<le> 0 \<or> max_bytes default_limits < 0 + int (length bytes))"
    using b(2) by (simp add: default_limits_def)
  have put: "file_put PendingRoot n c empty_outbox = empty_outbox\<lparr>pending := [(n, c)]\<rparr>" for n c
    by (simp add: file_put_def set_folder_def folder_files_def empty_outbox_def)
  have w: "write_result good_io PendingRoot n = Written" "\<not> lock_fails good_io" for n by (simp_all add: good_io_def)
  have "enqueue_locked fr good_io default_limits now sample_finished queued empty_outbox =
     (Inr \<lparr>eq_event_id = ev_id (event_of sample_finished), eq_status = ''queued'', eq_reason = None\<rparr>,
      empty_outbox\<lparr>pending := [(json_name (ev_id (event_of sample_finished)), bytes)]\<rparr>)"
    unfolding enqueue_locked_def Let_def sample_finished_valid sum.case none option.case assms(1) b(1) cap
      prod.case if_not_P [OF lim] w write_outcome.case put by (rule refl)
  then have "enqueue fr good_io default_limits now sample_finished queued empty_outbox =
     (Inr \<lparr>eq_event_id = ev_id (event_of sample_finished), eq_status = ''queued'', eq_reason = None\<rparr>,
      empty_outbox\<lparr>pending := [(json_name (ev_id (event_of sample_finished)), bytes)]\<rparr>)"
    using w(2) by (simp add: enqueue_def)
  then show ?thesis by (rule that)
qed

lemma enqueue_sample:
  obtains bytes where "enqueue fr good_io default_limits now sample_finished (Some sample_queue_time) empty_outbox =
     (Inr \<lparr>eq_event_id = ev_id (event_of sample_finished), eq_status = ''queued'', eq_reason = None\<rparr>,
      empty_outbox\<lparr>pending := [(json_name (ev_id (event_of sample_finished)), bytes)]\<rparr>)"
  by (rule enqueue_sample_at [OF sample_queue_time sample_size(1)])

lemma enqueue_sample_now:
  obtains bytes where "enqueue fr good_io default_limits 0 sample_finished None empty_outbox =
     (Inr \<lparr>eq_event_id = ev_id (event_of sample_finished), eq_status = ''queued'', eq_reason = None\<rparr>,
      empty_outbox\<lparr>pending := [(json_name (ev_id (event_of sample_finished)), bytes)]\<rparr>)"
  by (rule enqueue_sample_at [OF _ sample_size(2), of 0 None]) (simp_all add: queued_timestamp_def)

lemma files_ok_empty: "files_ok empty_outbox"
  by (simp add: files_ok_def empty_outbox_def tbl_keys_def)

subsection \<open>Enqueueing\<close>

text \<open>
  C11: The outbox is bounded: when \<^verbatim>\<open>enqueue\<close> answers \<^verbatim>\<open>queued\<close> (and the directories could be listed),
  the files of both directories together are at most \<^verbatim>\<open>max_events\<close> and \<^verbatim>\<open>max_bytes\<close>.
\<close>

theorem enqueue_within_limits:
  assumes "enqueue fr io limits now event queued s = (Inr r, s')" and "eq_status r = ''queued''"
    and "files_ok s" and "\<not> list_fails io PendingRoot" and "\<not> list_fails io DeadLetterRoot"
  shows "outbox_count s' \<le> max_events limits \<and> outbox_bytes s' \<le> max_bytes limits \<and> files_ok s'"
  using assms(1)
proof (cases rule: enqueue_cases)
  case unchanged
  then show ?thesis using assms(2) by simp
next
  case (queued e q bytes n b s1)
  note files = capacity_usage_files [OF queued(5)]
  have nb: "n = outbox_count s \<and> b = outbox_bytes s"
    by (rule capacity_usage_total [OF queued(5) assms(3-5)])
  let ?name = "json_name (ev_id e)"
  have absent: "file_get PendingRoot ?name s1 = None"
    using existing_event_None(1) [OF queued(2)] file_get_cong [OF files] by simp
  have p: "folder_files PendingRoot s' = folder_files PendingRoot s @ [(?name, bytes)]"
    using file_put_new [OF absent] folder_files_cong [OF files] queued(8) by simp
  have d: "folder_files DeadLetterRoot s' = folder_files DeadLetterRoot s"
    using file_put_other [of DeadLetterRoot PendingRoot] folder_files_cong [OF files] queued(8) by simp
  have "?name \<notin> fst ` set (folder_files PendingRoot s)"
    using existing_event_None(1) [OF queued(2)] by (simp add: file_get_def tbl_get_None_iff)
  then have "files_ok s'"
    using assms(3) p d by (auto simp: files_ok_def tbl_keys_def folder_files_def)
  moreover have "outbox_count s' = outbox_count s + 1" "outbox_bytes s' = outbox_bytes s + int (length bytes)"
    by (simp_all add: outbox_count_def outbox_bytes_def event_files_def p d ends_with_json_name)
  ultimately show ?thesis using nb queued(6,7) by simp
qed

theorem enqueue_within_limits_witness:
  "\<exists>r s'. enqueue (\<lambda>x. x) good_io default_limits 0 sample_finished (Some sample_queue_time) empty_outbox = (Inr r, s') \<and>
     outbox_count s' \<le> 1000"
proof -
  obtain bytes where e: "enqueue (\<lambda>x. x) good_io default_limits 0 sample_finished (Some sample_queue_time) empty_outbox =
     (Inr \<lparr>eq_event_id = ev_id (event_of sample_finished), eq_status = ''queued'', eq_reason = None\<rparr>,
      empty_outbox\<lparr>pending := [(json_name (ev_id (event_of sample_finished)), bytes)]\<rparr>)"
    by (rule enqueue_sample)
  have "outbox_count (empty_outbox\<lparr>pending := [(json_name (ev_id (event_of sample_finished)), bytes)]\<rparr>) \<le> max_events default_limits"
    using enqueue_within_limits [OF e] files_ok_empty by (simp add: good_io_def)
  then show ?thesis using e by (auto simp: default_limits_def)
qed

text \<open>The only exception that leaves \<^verbatim>\<open>enqueue\<close>.\<close>

lemma enqueue_raises:
  assumes "enqueue fr io limits now event queued s = (Inl x, s')" and "py_dicts event"
  shows "url_failure event x"
  using assms(1)
proof (cases rule: enqueue_cases)
  case unchanged
  have "encode (envelope_dict env) \<noteq> Inl y" if "env_event env = json_payload (ev_payload e)" "validate_event event = Inr e" for e env y
  proof -
    have "event_value (env_event env)" using validated_event_value(1) [OF that(2) assms(2)] that(1) by simp
    then have "json_plain (envelope_dict env)"
      by (cases "env_reason env") (simp_all add: event_value_def envelope_dict_def obj_def)
    then obtain bytes where "encode (envelope_dict env) = Inr bytes" by (rule encode_plain)
    then show ?thesis by simp
  qed
  then have "validate_event event = Inl x" "\<And>r. x \<noteq> ValidationError r" using unchanged(3) by auto
  then show ?thesis using validate_event_Inl by (auto simp: stable_reason_def)
qed simp

text \<open>
  C23: Enqueueing is atomic: with any answer but \<^verbatim>\<open>queued\<close> the files are exactly what they were, under
  every failure of the file system, and the only exception that can leave \<^verbatim>\<open>enqueue\<close> is the
  \<^verbatim>\<open>ValueError\<close> of \<^verbatim>\<open>urlparse\<close>; with \<^verbatim>\<open>queued\<close> exactly one pending file was added.
\<close>

theorem enqueue_atomic:
  assumes "enqueue fr io limits now event queued s = (res, s')" and "py_dicts event"
  shows "dead_letter s' = dead_letter s \<and>
    (case res of
       Inl x \<Rightarrow> x = ValueError ''Invalid IPv6 URL'' \<and> pending s' = pending s
     | Inr r \<Rightarrow> if eq_status r \<noteq> ''queued'' then pending s' = pending s
               else \<exists>bytes. pending s' = pending s @ [(json_name (eq_event_id r), bytes)])"
  using assms(1)
proof (cases rule: enqueue_cases)
  case unchanged
  have "x = ValueError ''Invalid IPv6 URL''" if "res = Inl x" for x
  proof -
    have "url_failure event x" using enqueue_raises assms that by blast
    moreover have "y = ValueError ''Invalid IPv6 URL''" if "urlparse u = Inl y" for u y
      using that by (auto simp: urlparse_def Let_def split: prod.splits if_splits)
    ultimately show ?thesis unfolding url_failure_def by blast
  qed
  then show ?thesis using unchanged by (auto split: sum.splits)
next
  case (queued e q bytes n b s1)
  note files = capacity_usage_files [OF queued(5)]
  have absent: "file_get PendingRoot (json_name (ev_id e)) s1 = None"
    using existing_event_None(1) [OF queued(2)] file_get_cong [OF files] by simp
  have "pending s' = pending s @ [(json_name (ev_id e), bytes)]" "dead_letter s' = dead_letter s"
    using file_put_new [OF absent, of bytes] file_put_other [of DeadLetterRoot PendingRoot "json_name (ev_id e)" bytes s1]
      files queued(8) by (simp_all add: folder_files_def)
  then show ?thesis using queued(9) by simp
qed

theorem enqueue_atomic_witness:
  "\<exists>bytes s'. enqueue (\<lambda>x. x) good_io default_limits 0 sample_finished (Some sample_queue_time) empty_outbox =
       (Inr \<lparr>eq_event_id = ev_id (event_of sample_finished), eq_status = ''queued'', eq_reason = None\<rparr>, s') \<and>
     pending s' = [(json_name (ev_id (event_of sample_finished)), bytes)]"
proof -
  obtain bytes where e: "enqueue (\<lambda>x. x) good_io default_limits 0 sample_finished (Some sample_queue_time) empty_outbox =
     (Inr \<lparr>eq_event_id = ev_id (event_of sample_finished), eq_status = ''queued'', eq_reason = None\<rparr>,
      empty_outbox\<lparr>pending := [(json_name (ev_id (event_of sample_finished)), bytes)]\<rparr>)"
    by (rule enqueue_sample)
  show ?thesis using enqueue_atomic [OF e sample_dicts_finished] e by (auto simp: empty_outbox_def)
qed

text \<open>The file that a successful enqueue wrote, read back.\<close>

lemma enqueue_written:
  assumes "enqueue fr io limits now event queued s = (Inr r, s')" and "eq_status r = ''queued''" and "py_dicts event"
  obtains e q bytes where "validate_event event = Inr e" "queued_timestamp now queued = Some q"
    "eq_event_id r = ev_id e" "file_get PendingRoot (json_name (ev_id e)) s' = Some bytes"
    "file_get DeadLetterRoot (json_name (ev_id e)) s' = None"
    "queue_time q \<longrightarrow> parse_envelope fr' False (json_name (ev_id e)) bytes =
       Some \<lparr>queued_at = q, env_event = sort_keys (json_payload (ev_payload e)), env_reason = None\<rparr>"
  using assms(1)
proof (cases rule: enqueue_cases)
  case unchanged
  then show ?thesis using assms(2) by simp
next
  case (queued e q bytes n b s1)
  let ?env = "\<lparr>queued_at = q, env_event = json_payload (ev_payload e), env_reason = None\<rparr>"
  note v = validated_event_value [OF queued(1) assms(3)]
  note files = capacity_usage_files [OF queued(5)]
  have "file_get DeadLetterRoot (json_name (ev_id e)) s' = None"
    using existing_event_None(2) [OF queued(2)] file_get_cong [OF files] queued(8) by (simp add: file_get_put)
  moreover have "parse_envelope fr' False (json_name (ev_id e)) bytes =
      Some \<lparr>queued_at = q, env_event = sort_keys (json_payload (ev_payload e)), env_reason = None\<rparr>"
    if "queue_time q"
  proof -
    have "envelope_ok ?env" using that v(1) by (simp add: envelope_ok_def reason_ok_def)
    then obtain bytes' where "encode (envelope_dict ?env) = Inr bytes'"
      "parse_envelope fr' (env_reason ?env \<noteq> None) (json_name (env_id ?env)) bytes' =
         Some (?env\<lparr>env_event := sort_keys (env_event ?env)\<rparr>)"
      by (rule parse_encoded)
    then show ?thesis using queued(4) v(2) by (simp add: env_id_def)
  qed
  moreover have "eq_event_id r = ev_id e" using queued(9) by simp
  moreover have "file_get PendingRoot (json_name (ev_id e)) s' = Some bytes" by (simp add: queued(8) file_get_put)
  ultimately show ?thesis by (intro that [OF queued(1,3)] impI)
qed

lemma scan_pending_lists:
  assumes "name \<in> set names" and "stem name \<notin> set dead" and "read_envelope fr io PendingRoot name s = Some env"
  shows "(name, env) \<in> set (fst (scan_pending fr io dead names s))"
  using assms(1,3)
proof (induction names arbitrary: s)
  case (Cons x names)
  have same: "read_envelope fr io PendingRoot name (file_remove PendingRoot x s) = read_envelope fr io PendingRoot name s"
    if "x \<noteq> name"
    using that by (simp add: read_envelope_def file_get_remove)
  have told: "read_envelope fr io PendingRoot name (tell m s) = read_envelope fr io PendingRoot name s" for m
    by (simp add: read_envelope_def)
  show ?case
  proof (cases "x = name")
    case True
    then show ?thesis using Cons.prems assms(2) by (simp split: prod.splits)
  next
    case False
    then have "name \<in> set names" using Cons.prems(1) by simp
    note ih = Cons.IH [OF this]
    have ih': "(name, env) \<in> set v" if "scan_pending fr io dead names s1 = (v, c, s2)"
      "read_envelope fr io PendingRoot name s1 = Some env" for s1 v c s2
      using ih [OF that(2)] that(1) by simp
    note prems = Cons.prems(2)
    show ?thesis
    proof (cases "stem x \<in> set dead")
      case True
      then show ?thesis
        using ih [of s] ih [of "tell m s" for m] ih [of "file_remove PendingRoot x s"] prems same [OF False] told
        by (cases "unlink_result io PendingRoot x") simp_all
    next
      case live: False
      show ?thesis
      proof (cases "read_envelope fr io PendingRoot x s")
        case None
        obtain v c s2 where "scan_pending fr io dead names (tell ''outbox_corrupt_event'' s) = (v, c, s2)"
          by (metis prod_cases3)
        then show ?thesis using ih' live None prems told by simp
      next
        case (Some e)
        obtain v c s2 where "scan_pending fr io dead names s = (v, c, s2)" by (metis prod_cases3)
        then show ?thesis using ih' live Some prems by simp
      qed
    qed
  qed
qed simp

text \<open>
  C10: What is enqueued is durable: after \<^verbatim>\<open>queued\<close>, and unless a dead letter of that name holds it
  already, \<^verbatim>\<open>pending_events\<close> lists the event with its time, equal to the payload that was handed in.
\<close>

theorem enqueue_then_pending:
  assumes "enqueue fr io limits now event (Some q) s = (Inr r, s')" and "eq_status r = ''queued''"
    and "py_dicts event" and "files_ok s'" and "\<not> dead_has fr (eq_event_id r) s'"
  shows "\<exists>env. (json_name (eq_event_id r), env) \<in> set (fst (pending_events fr good_io s')) \<and>
    queued_at env = q \<and> (\<exists>e. validate_event event = Inr e \<and> py_eq (env_event env) (json_payload (ev_payload e)))"
proof -
  obtain e q' bytes where w: "validate_event event = Inr e" "queued_timestamp now (Some q) = Some q'"
    "eq_event_id r = ev_id e" "file_get PendingRoot (json_name (ev_id e)) s' = Some bytes"
    "queue_time q' \<longrightarrow> parse_envelope fr False (json_name (ev_id e)) bytes =
       Some \<lparr>queued_at = q', env_event = sort_keys (json_payload (ev_payload e)), env_reason = None\<rparr>"
    by (rule enqueue_written [OF assms(1-3), where fr' = fr])
  have q: "q' = q" "queue_time q"
    using w(2) by (auto simp: queued_timestamp_def queue_time_def split: if_splits option.splits)
  let ?env = "\<lparr>queued_at = q, env_event = sort_keys (json_payload (ev_payload e)), env_reason = None\<rparr>"
  let ?name = "json_name (ev_id e)"
  have pv: "pending_valid fr ?name ?env s'" using w(4,5) q by (auto simp: pending_valid_def)
  have ls: "json_files good_io d s' = (sort (filter (ends_with ''.json'') (map fst (folder_files d s'))), s')" for d
    by (simp add: json_files_def good_io_def)
  let ?dead = "dead_letter_ids fr good_io s' (fst (json_files good_io DeadLetterRoot s'))"
  have st: "stem ?name = ev_id e" using validated_event_value [OF w(1) assms(3)]
    event_value_id_nonempty stem_json_name by metis
  then have nd: "stem ?name \<notin> set ?dead" using dead_letter_ids_dead assms(5) w(3) by metis
  obtain f where "f \<in> set (folder_files PendingRoot s')" "fst f = ?name"
    using w(4) by (auto simp: file_get_def dest!: tbl_get_Some_in)
  then have mem: "?name \<in> set (fst (json_files good_io PendingRoot s'))"
    by (force simp: ls ends_with_json_name)
  have rd: "read_envelope fr good_io PendingRoot ?name s' = Some ?env"
    using w(4,5) q by (simp add: read_envelope_def good_io_def)
  have "(?name, ?env) \<in> set (fst (scan_pending fr good_io ?dead (fst (json_files good_io PendingRoot s')) s'))"
    by (rule scan_pending_lists [OF mem nd rd])
  then have "(?name, ?env) \<in> set (fst (pending_events fr good_io s'))"
    by (auto simp: pending_events_def ls split: prod.splits)
  then show ?thesis using w(1,3) by (intro exI [of _ ?env]) simp
qed

lemma outbox1_facts:
  obtains r bytes where "enqueue (\<lambda>x. x) good_io default_limits 0 sample_finished (Some sample_queue_time) empty_outbox = (Inr r, outbox1)"
    "eq_status r = ''queued''" "eq_event_id r = ev_id (event_of sample_finished)"
    "outbox1 = empty_outbox\<lparr>pending := [(json_name (ev_id (event_of sample_finished)), bytes)]\<rparr>"
proof -
  obtain bytes where e: "enqueue (\<lambda>x. x) good_io default_limits 0 sample_finished (Some sample_queue_time) empty_outbox =
     (Inr \<lparr>eq_event_id = ev_id (event_of sample_finished), eq_status = ''queued'', eq_reason = None\<rparr>,
      empty_outbox\<lparr>pending := [(json_name (ev_id (event_of sample_finished)), bytes)]\<rparr>)"
    by (rule enqueue_sample)
  have "outbox1 = empty_outbox\<lparr>pending := [(json_name (ev_id (event_of sample_finished)), bytes)]\<rparr>"
    by (simp add: outbox1_def e)
  then show ?thesis using e that by simp
qed

theorem enqueue_then_pending_witness:
  "\<exists>env. (json_name (ev_id (event_of sample_finished)), env) \<in> set (fst (pending_events (\<lambda>x. x) good_io outbox1)) \<and>
     queued_at env = sample_queue_time"
proof -
  obtain r bytes where e: "enqueue (\<lambda>x. x) good_io default_limits 0 sample_finished (Some sample_queue_time) empty_outbox = (Inr r, outbox1)"
    and r: "eq_status r = ''queued''" "eq_event_id r = ev_id (event_of sample_finished)"
    and o1: "outbox1 = empty_outbox\<lparr>pending := [(json_name (ev_id (event_of sample_finished)), bytes)]\<rparr>"
    by (rule outbox1_facts)
  have ok: "files_ok outbox1" by (simp add: o1 files_ok_def empty_outbox_def tbl_keys_def)
  have nd: "\<not> dead_has fr i outbox1" for fr i
    by (simp add: dead_has_def file_get_def folder_files_def o1 empty_outbox_def)
  show ?thesis using enqueue_then_pending [OF e r(1) sample_dicts_finished ok nd] r(2) by auto
qed

text \<open>
  Enqueueing is idempotent by event id: a later event with the id of a queued one changes
  nothing and is answered \<^verbatim>\<open>duplicate\<close> when the payloads are equal and \<^verbatim>\<open>conflict\<close> when they differ.
\<close>

theorem enqueue_again:
  assumes "enqueue fr io limits now event (Some q) s = (Inr r, s')" and "eq_status r = ''queued''"
    and "py_dicts event" and "validate_event event = Inr e"
    and "validate_event event' = Inr e'" and "ev_id e' = ev_id e"
    and "\<not> lock_fails io'" and "\<not> read_fails io' PendingRoot (json_name (ev_id e))"
  shows "enqueue fr io' limits' now' event' queued' s' =
    (Inr (if py_eq (json_payload (ev_payload e)) (json_payload (ev_payload e'))
          then \<lparr>eq_event_id = ev_id e, eq_status = ''duplicate'', eq_reason = None\<rparr>
          else \<lparr>eq_event_id = ev_id e, eq_status = ''conflict'', eq_reason = Some ''outbox_event_conflict''\<rparr>), s')"
proof -
  obtain q' bytes where w: "queued_timestamp now (Some q) = Some q'"
    "file_get PendingRoot (json_name (ev_id e)) s' = Some bytes"
    "queue_time q' \<longrightarrow> parse_envelope fr False (json_name (ev_id e)) bytes =
       Some \<lparr>queued_at = q', env_event = sort_keys (json_payload (ev_payload e)), env_reason = None\<rparr>"
    using enqueue_written [OF assms(1-3), of fr] assms(4) by (metis sum.inject(2))
  have "queue_time q'"
    using w(1) by (auto simp: queued_timestamp_def queue_time_def split: if_splits option.splits)
  then have "existing_event fr io' (json_name (ev_id e)) s' [PendingRoot, DeadLetterRoot] =
      Some (sort_keys (json_payload (ev_payload e)))"
    using w(2,3) assms(8) by (simp add: read_envelope_def)
  moreover have "py_eq (sort_keys (json_payload (ev_payload e))) v \<longleftrightarrow> py_eq (json_payload (ev_payload e)) v" for v
    using py_eq_trans py_eq_sym py_eq_sort_keys by blast
  ultimately show ?thesis
    using assms(5-7) by (simp add: enqueue_def enqueue_locked_def Let_def)
qed

theorem enqueue_again_witness:
  "enqueue (\<lambda>x. x) good_io default_limits 5 sample_finished None outbox1 =
     (Inr \<lparr>eq_event_id = ev_id (event_of sample_finished), eq_status = ''duplicate'', eq_reason = None\<rparr>, outbox1)"
proof -
  obtain r bytes where e: "enqueue (\<lambda>x. x) good_io default_limits 0 sample_finished (Some sample_queue_time) empty_outbox = (Inr r, outbox1)"
    and r: "eq_status r = ''queued''" "eq_event_id r = ev_id (event_of sample_finished)"
    by (rule outbox1_facts)
  show ?thesis
    using enqueue_again [OF e r(1) sample_dicts_finished sample_finished_valid sample_finished_valid refl, of good_io]
    by (simp add: good_io_def)
qed

subsection \<open>Draining\<close>

text \<open>
  C5: A drain loses no event, whatever fails on the way: every valid pending event is afterwards
  still pending with the same bytes, or the delivery function reported it delivered, or the dead
  letters hold its id; dead letters are never changed and no pending file appears.
\<close>

theorem drain_loses_nothing:
  assumes "drain fr io limits ops endpoint token s w = (res, s', w')"
  shows "(\<forall>n b. file_get DeadLetterRoot n s = Some b \<longrightarrow> file_get DeadLetterRoot n s' = Some b) \<and>
    (\<forall>n b. file_get PendingRoot n s' = Some b \<longrightarrow> file_get PendingRoot n s = Some b) \<and>
    (\<forall>n b env. file_get PendingRoot n s = Some b \<and> parse_envelope fr False n b = Some env \<longrightarrow>
       file_get PendingRoot n s' = Some b \<or> delivered_by ops endpoint token env \<or> dead_has fr (env_id env) s')"
proof -
  have k: "keeps fr (delivered_by ops endpoint token) s s'" by (rule reported.drain_keeps [OF assms])
  have "file_get PendingRoot n s' = Some b \<or> delivered_by ops endpoint token env \<or> dead_has fr (env_id env) s'"
    if "file_get PendingRoot n s = Some b" "parse_envelope fr False n b = Some env" for n b env
  proof -
    have "pending_valid fr n env s" using that unfolding pending_valid_def by blast
    then have "pending_valid fr n env s' \<or> dead_has fr (env_id env) s' \<or> delivered_by ops endpoint token env"
      using k unfolding keeps_def by blast
    moreover have "file_get PendingRoot n s' = Some b" if pv: "pending_valid fr n env s'"
    proof -
      obtain b' where b': "file_get PendingRoot n s' = Some b'" using pv by (auto simp: pending_valid_def)
      then have "file_get PendingRoot n s = Some b'" using k unfolding keeps_def by blast
      then show ?thesis using \<open>file_get PendingRoot n s = Some b\<close> b' by simp
    qed
    ultimately show ?thesis by blast
  qed
  then show ?thesis using k unfolding keeps_def by blast
qed

text \<open>A delivery function that rejects everything, and a clock that stands still.\<close>

definition rejecting :: "unit drain_env" where
  "rejecting = \<lparr>read_clock = (\<lambda>w. (0, w)), deliver = (\<lambda>ev ep tk w.
     (Inr \<lparr>dr_delivered = False, dr_attempts = 1, dr_reason = Some ''rejected_http_response'', dr_http_status = Some 422\<rparr>, w))\<rparr>"

definition accepting :: "unit drain_env" where
  "accepting = \<lparr>read_clock = (\<lambda>w. (0, w)), deliver = (\<lambda>ev ep tk w.
     (Inr \<lparr>dr_delivered = True, dr_attempts = 1, dr_reason = None, dr_http_status = Some 202\<rparr>, w))\<rparr>"

theorem drain_loses_nothing_witness:
  "\<exists>s' b. file_get PendingRoot (json_name (ev_id (event_of sample_finished))) outbox1 = Some b \<and>
     snd (drain (\<lambda>x. x) good_io default_limits rejecting [] [] outbox1 ()) = (s', ()) \<and>
     (\<forall>n b. file_get DeadLetterRoot n outbox1 = Some b \<longrightarrow> file_get DeadLetterRoot n s' = Some b)"
proof -
  obtain r bytes where o1: "outbox1 = empty_outbox\<lparr>pending := [(json_name (ev_id (event_of sample_finished)), bytes)]\<rparr>"
    by (rule outbox1_facts)
  obtain res s' w' where d: "drain (\<lambda>x. x) good_io default_limits rejecting [] [] outbox1 () = (res, s', w')"
    by (metis prod_cases3)
  have "file_get PendingRoot (json_name (ev_id (event_of sample_finished))) outbox1 = Some bytes"
    by (simp add: o1 file_get_def folder_files_def)
  then show ?thesis using drain_loses_nothing [OF d] d by auto
qed

text \<open>
  A drain always returns a result, no exception leaves it; and the result accounts for every
  pending event: unless a cleanup fails or another process removes a pending file meanwhile, the
  events delivered, retained and dead-lettered are together the events \<^verbatim>\<open>pending_events\<close> listed.
\<close>

lemma drain_counts:
  "\<exists>r s' w'. drain fr io limits ops endpoint token s w = (Inr r, s', w') \<and>
     (lock_fails io \<or> (\<exists>n. write_result io DeadLetterRoot n = CleanupFailed) \<or>
      (\<exists>n. unlink_result io PendingRoot n = UnlinkMissing) \<or>
      dn_delivered r + dn_retained r + dn_dead_lettered r = length (fst (pending_events fr io s)) \<and>
      dn_corrupt r = fst (snd (pending_events fr io s)))"
proof -
  obtain res s' w' where d: "drain fr io limits ops endpoint token s w = (res, s', w')" by (metis prod_cases3)
  then show ?thesis
  proof (cases rule: drain_cases)
    case locked_out
    then show ?thesis using d by blast
  next
    case (ran started w1 todo corrupt s1 r s2)
    from ran(6) show ?thesis
    proof
      assume "\<exists>c. r = Inr c \<and> res = Inr c \<and> s' = s2"
      then obtain c where c: "r = Inr c" "res = Inr c" by blast
      have "settled c = length todo \<and> dn_corrupt c = corrupt" if "\<forall>n. unlink_result io PendingRoot n \<noteq> UnlinkMissing"
        using drain_loop_settled [OF _ that] ran(5) c(1) by (fastforce simp: settled_def empty_drain_def)
      then show ?thesis using d c ran(3) by (auto simp: settled_def)
    qed (use d in blast)
  qed
qed

text \<open>
  A drain is bounded: over any delivery function and clock, at most \<^verbatim>\<open>max_drain_events\<close>
  deliveries are attempted.
\<close>

theorem drain_delivery_bound:
  assumes "drain fr io limits (counting ops) endpoint token s (w, 0) = (res, s', (w', k))"
  shows "int k \<le> max 0 (max_drain_events limits)"
  using assms
proof (cases rule: drain_cases)
  case (ran started w1 todo corrupt s1 r s2)
  obtain v where w1: "w1 = (v, 0)" using ran(2) by (auto split: prod.splits)
  show ?thesis using drain_loop_bounded [of fr io limits ops endpoint token started 0 todo] ran(5) w1 by fastforce
qed simp

theorem drain_delivery_bound_witness:
  "\<exists>res s' k. drain (\<lambda>x. x) good_io default_limits (counting accepting) [] [] outbox1 ((), 0) = (res, s', ((), k)) \<and> k \<le> 100"
proof -
  obtain res s' w' k where d: "drain (\<lambda>x. x) good_io default_limits (counting accepting) [] [] outbox1 ((), 0) = (res, s', (w', k))"
    by (metis prod.exhaust)
  show ?thesis using drain_delivery_bound [OF d] d by (auto simp: default_limits_def)
qed

end
