(* ===== verification/PyNet.thy ===== *)
theory PyNet
  imports PyUrl PyBytes
begin

section \<open>Splitting, joining and decoding URLs\<close>

text \<open>
  \<^verbatim>\<open>urllib.parse.urlsplit\<close> (the split of \<^verbatim>\<open>urlparse\<close> that leaves the parameters in the path), the
  \<^verbatim>\<open>port\<close> of its result, \<^verbatim>\<open>urlunsplit\<close>, \<^verbatim>\<open>unquote\<close> and \<^verbatim>\<open>parse_qs\<close>.
\<close>

definition urlsplit :: "string \<Rightarrow> url res" where
  "urlsplit s =
     (let u = filter (\<lambda>c. \<not> one_of [CHR 0x09, CHR 0x0A, CHR 0x0D] c) (lstrip (\<lambda>c. code c \<le> 32) s)
      in case split_scheme u of (sch, r) \<Rightarrow>
         case split_netloc r of (net, t) \<Rightarrow>
           (if \<not> netloc_ok net then Inl (ValueError ''Invalid IPv6 URL'')
            else (let frag = after (CHR ''#'') t; t1 = before (CHR ''#'') t
                  in Inr \<lparr>url_scheme = sch, url_netloc = net, url_path = before (CHR ''?'') t1,
                       url_params = [], url_query = after (CHR ''?'') t1, url_fragment = frag\<rparr>)))"

definition port_text :: "url \<Rightarrow> string" where
  "port_text u =
     (case rpartition_at (CHR ''@'') (url_netloc u) of (info, found, host) \<Rightarrow>
        if List.member host (CHR ''['') then after (CHR '':'') (after (CHR '']'') (after (CHR ''['') host))
        else after (CHR '':'') host)"

definition url_port :: "url \<Rightarrow> int option res" where
  "url_port u =
     (let p = port_text u in
      if p = [] then Inr None
      else if \<not> list_all is_digit p then Inl (ValueError ''Port could not be cast to integer value'')
      else case int_of_text 10 p of
        None \<Rightarrow> Inl (ValueError ''int'')
      | Some n \<Rightarrow> if 65535 < n then Inl (ValueError ''Port out of range 0-65535'') else Inr (Some n))"

definition uses_netloc :: "string list" where
  "uses_netloc = ['''', ''ftp'', ''http'', ''gopher'', ''nntp'', ''telnet'', ''imap'', ''wais'', ''file'', ''mms'',
     ''https'', ''shttp'', ''snews'', ''prospero'', ''rtsp'', ''rtsps'', ''rtspu'', ''rsync'', ''svn'', ''svn+ssh'',
     ''sftp'', ''nfs'', ''git'', ''git+ssh'', ''ws'', ''wss'', ''itms-services'']"

definition urlunsplit :: "string \<Rightarrow> string \<Rightarrow> string \<Rightarrow> string \<Rightarrow> string \<Rightarrow> string" where
  "urlunsplit scheme netloc path query fragment =
     (let u = (if netloc \<noteq> [] then ''//'' @ netloc @ (if path \<noteq> [] \<and> hd path \<noteq> CHR ''/'' then ''/'' else []) @ path
               else if starts_with ''//'' path then ''//'' @ path
               else if scheme \<noteq> [] \<and> List.member uses_netloc scheme \<and> (path = [] \<or> hd path = CHR ''/'')
               then ''//'' @ path else path)
      in (if scheme = [] then [] else scheme @ '':'') @ u @ (if query = [] then [] else ''?'' @ query) @
           (if fragment = [] then [] else ''#'' @ fragment))"

subsection \<open>Percent-encoding\<close>

text \<open>
  \<^verbatim>\<open>unquote\<close> decodes each run of ASCII characters on its own, replacing malformed UTF-8 by U+FFFD:
  such a text cannot be held by the model's strings and is \<open>WideText\<close>.
\<close>

fun unquote_bytes :: "string \<Rightarrow> string" where
  "unquote_bytes [] = []"
| "unquote_bytes (c # cs) =
     (case (c = CHR ''%'', cs) of
        (True, a # b # r) \<Rightarrow>
          (case (digit_value a, digit_value b) of
             (Some m, Some n) \<Rightarrow> if m < 16 \<and> n < 16 then char_of (16 * m + n) # unquote_bytes r
                               else c # unquote_bytes cs
           | _ \<Rightarrow> c # unquote_bytes cs)
      | _ \<Rightarrow> c # unquote_bytes cs)"

definition unquote_run :: "string \<Rightarrow> string res" where
  "unquote_run s = (case utf8_decode (unquote_bytes s) of Inr t \<Rightarrow> Inr t | Inl x \<Rightarrow> Inl WideText)"

function unquote_text :: "string \<Rightarrow> string res" where
  "unquote_text s =
     (if s = [] then Inr []
      else if code (hd s) < 128
      then rbind (unquote_run (takeWhile (\<lambda>c. code c < 128) s)) (\<lambda>a.
           rbind (unquote_text (dropWhile (\<lambda>c. code c < 128) s)) (\<lambda>b. Inr (a @ b)))
      else rbind (unquote_text (tl s)) (\<lambda>b. Inr (hd s # b)))"
  by pat_completeness auto
termination
proof (relation "measure length", goal_cases)
  case (2 s x)
  then show ?case by (cases s) (auto intro: le_less_trans [OF length_dropWhile_le])
qed auto

declare unquote_text.simps [simp del]

definition unquote_plus :: "string \<Rightarrow> string res" where
  "unquote_plus s = unquote_text (map (\<lambda>c. if c = CHR ''+'' then CHR '' '' else c) s)"

subsection \<open>Query strings\<close>

text \<open>\<^verbatim>\<open>parse_qsl\<close> with \<^verbatim>\<open>keep_blank_values\<close>.\<close>

fun parse_pairs :: "string list \<Rightarrow> (string \<times> string) list res" where
  "parse_pairs [] = Inr []"
| "parse_pairs (p # ps) =
     (if p = [] then parse_pairs ps
      else rbind (unquote_plus (before (CHR ''='') p)) (\<lambda>n.
           rbind (unquote_plus (after (CHR ''='') p)) (\<lambda>v.
           rbind (parse_pairs ps) (\<lambda>r. Inr ((n, v) # r)))))"

fun group_pairs :: "(string \<times> string) list \<Rightarrow> (string \<times> string list) list \<Rightarrow> (string \<times> string list) list" where
  "group_pairs [] acc = acc"
| "group_pairs ((n, v) # ps) acc =
     group_pairs ps
       (case tbl_get fst n acc of
          None \<Rightarrow> acc @ [(n, [v])]
        | Some old \<Rightarrow> tbl_upsert fst (n, snd old @ [v]) acc)"

definition parse_qs :: "string \<Rightarrow> (string \<times> string list) list res" where
  "parse_qs q = rbind (parse_pairs (split_char (CHR ''&'') q)) (\<lambda>ps. Inr (group_pairs ps []))"

end
