(* ===== verification/Agent.thy ===== *)
theory Agent
  imports Outbox PyNet
begin

section \<open>The telemetry sender (\<^verbatim>\<open>agent.py\<close>, \<^verbatim>\<open>credentials.py\<close>)\<close>

text \<open>
  \<open>'w\<close> is the world the sender acts on: clocks, the network and whatever the diagnostic callback
  writes to.  Every operation of it takes the world and returns the next one; times are
  nanoseconds.  \<^verbatim>\<open>_safe_diagnostic\<close> turns a callback that may raise into one that does not:
  \<open>a_report\<close> is the wrapped one.
\<close>

definition MAX_RETRIES :: nat where
  "MAX_RETRIES = 2"

definition MAX_DELIVERY :: int where
  "MAX_DELIVERY = 5 * SECOND"

definition MAX_RESPONSE_HEADER_BYTES :: nat where
  "MAX_RESPONSE_HEADER_BYTES = 8 * 1024"

type_synonym headers = "(string \<times> string) list"

subsection \<open>Credentials\<close>

text \<open>The file's bytes, or \<open>None\<close> when it cannot be read; \<open>Inl\<close> is the reason of a \<^verbatim>\<open>CredentialFileError\<close>.\<close>

definition read_token_file :: "string option \<Rightarrow> string + string" where
  "read_token_file content =
     (case content of None \<Rightarrow> Inl ''auth_credential_file_missing''
      | Some bytes \<Rightarrow>
          (case read_text bytes of Inl x \<Rightarrow> Inl ''auth_credential_file_missing''
           | Inr t \<Rightarrow>
               (let v = strip t in
                if v = [] then Inl ''auth_credential_invalid''
                else if newline \<in> set v \<or> carriage \<in> set v then Inl ''auth_credential_invalid''
                else Inr v)))"

subsection \<open>Delivering one event\<close>

record 'w agent =
  a_clock :: "'w \<Rightarrow> int \<times> 'w"
  a_sleep :: "int \<Rightarrow> 'w \<Rightarrow> 'w"
  a_report :: "string \<Rightarrow> 'w \<Rightarrow> 'w"
  a_transport :: "string \<Rightarrow> headers \<Rightarrow> string \<Rightarrow> int \<Rightarrow> 'w \<Rightarrow> int res \<times> 'w"

text \<open>What \<^verbatim>\<open>except (OSError, TimeoutError, URLError)\<close> catches.\<close>

fun network_error :: "exn \<Rightarrow> bool" where
  "network_error OSError = True"
| "network_error FileNotFoundError = True"
| "network_error TimeoutError = True"
| "network_error _ = False"

definition undelivered :: "nat \<Rightarrow> string \<Rightarrow> int option \<Rightarrow> delivery_result" where
  "undelivered attempts reason status =
     \<lparr>dr_delivered = False, dr_attempts = int attempts, dr_reason = Some reason, dr_http_status = status\<rparr>"

definition give_up :: "'w agent \<Rightarrow> nat \<Rightarrow> string \<Rightarrow> int option \<Rightarrow> 'w \<Rightarrow> delivery_result \<times> 'w" where
  "give_up ag attempts reason status w =
     (undelivered attempts reason status, a_report ag (''telemetry_delivery_failed reason='' @ reason) w)"

definition http_reason :: "int \<Rightarrow> string" where
  "http_reason st =
     (if st = 429 \<or> (500 \<le> st \<and> st < 600) then ''temporary_http_failure'' else ''rejected_http_response'')"

text \<open>
  What one attempt means: it is final (delivered, or a failure that no retry can mend), or it failed
  with a reason, a status and whether it may be retried.
\<close>

datatype verdict = Accepted int | Broken | Refused bool string "int option"

definition judge :: "int res \<Rightarrow> int option \<Rightarrow> verdict" where
  "judge outcome status =
     (case outcome of
        Inl x \<Rightarrow> if network_error x then Refused True ''temporary_network_failure'' status else Broken
      | Inr st \<Rightarrow>
          if 200 \<le> st \<and> st < 300 then Accepted st
          else Refused (http_reason st = ''temporary_http_failure'') (http_reason st) (Some st))"

function deliver_loop ::
  "'w agent \<Rightarrow> (int \<Rightarrow> 'w \<Rightarrow> int res \<times> 'w) \<Rightarrow> int \<Rightarrow> int \<Rightarrow> nat \<Rightarrow> string \<Rightarrow> int option \<Rightarrow> 'w \<Rightarrow>
     delivery_result \<times> 'w" where
  "deliver_loop ag send started budget attempts reason status w =
     (case a_clock ag w of (now, w1) \<Rightarrow>
        (let remaining = budget - (now - started) in
         if 0 < attempts \<and> remaining \<le> 0 then give_up ag attempts reason status w1
         else case send remaining w1 of (outcome, w2) \<Rightarrow>
           (case judge outcome status of
              Accepted st \<Rightarrow>
                (\<lparr>dr_delivered = True, dr_attempts = int (attempts + 1), dr_reason = None,
                   dr_http_status = Some st\<rparr>, w2)
            | Broken \<Rightarrow> give_up ag (attempts + 1) ''transport_failure'' status w2
            | Refused retryable reason' status' \<Rightarrow>
                (if \<not> retryable \<or> MAX_RETRIES < attempts + 1
                 then give_up ag (attempts + 1) reason' status' w2
                 else case a_clock ag w2 of (now2, w3) \<Rightarrow>
                   (let remaining2 = budget - (now2 - started) in
                    if remaining2 \<le> 0 then give_up ag (attempts + 1) reason' status' w3
                    else deliver_loop ag send started budget (attempts + 1) reason' status'
                      (a_sleep ag (min (2 ^ attempts * SECOND) remaining2) w3))))))"
  by pat_completeness auto
termination
  by (relation "measure (\<lambda>(ag, send, started, budget, attempts, r). 3 - attempts)")
    (auto simp: MAX_RETRIES_def)

declare deliver_loop.simps [simp del]

definition bearer_headers :: "string \<Rightarrow> string \<Rightarrow> headers" where
  "bearer_headers token body =
     [(''Authorization'', ''Bearer '' @ token), (''Content-Type'', ''application/json''),
      (''Content-Length'', int_text (int (length body)))]"

definition deliver_event ::
  "'w agent \<Rightarrow> pyval \<Rightarrow> string \<Rightarrow> string \<Rightarrow> int \<Rightarrow> 'w \<Rightarrow> delivery_result res \<times> 'w" where
  "deliver_event ag event endpoint token max_duration w =
     (case validate_event event of
        Inl (ValidationError r) \<Rightarrow>
          (Inr (undelivered 0 r None), a_report ag (''telemetry_event_rejected reason='' @ r) w)
      | Inl x \<Rightarrow> (Inl x, w)
      | Inr e \<Rightarrow>
          (case dumps compact (json_payload (ev_payload e)) of
             Inl x \<Rightarrow> (Inl x, w)
           | Inr body \<Rightarrow>
               (case a_clock ag w of (started, w1) \<Rightarrow>
                  (let budget = min MAX_DELIVERY max_duration in
                   if budget \<le> 0 then (Inr (undelivered 0 ''temporary_network_failure'' None), w1)
                   else case deliver_loop ag
                       (\<lambda>remaining. a_transport ag endpoint (bearer_headers token body) body (max 1000000 remaining))
                       started budget 0 ''temporary_network_failure'' None w1 of
                     (r, w2) \<Rightarrow> (Inr r, w2)))))"

subsection \<open>The command\<close>

text \<open>
  The arguments as \<^verbatim>\<open>argparse\<close> returns them.  \<open>file\<close> is what reading a token file gives; the outbox
  reports through the same diagnostic callback, its messages are those of the outbox state.
\<close>

datatype agent_command =
    Emit string string string "string option"
  | Flush string string string

definition reject_reasons :: "string list" where
  "reject_reasons = [''unsupported_schema'', ''invalid_event'', ''payload_too_large'']"

text \<open>
  \<^verbatim>\<open>_drain_outbox\<close>: the world of the drain carries the time of its first clock reading, so that a
  delivery gets what is left of the drain's budget.
\<close>

definition bounded_clock :: "'w agent \<Rightarrow> int option \<times> 'w \<Rightarrow> int \<times> int option \<times> 'w" where
  "bounded_clock ag p =
     (case p of (started, w) \<Rightarrow> case a_clock ag w of (now, w1) \<Rightarrow>
        (now, (case started of None \<Rightarrow> Some now | Some t \<Rightarrow> Some t), w1))"

definition drain_delivery ::
  "'w agent \<Rightarrow> outbox_limits \<Rightarrow> pyval \<Rightarrow> string \<Rightarrow> string \<Rightarrow> int option \<times> 'w \<Rightarrow>
     delivery_result res \<times> int option \<times> 'w" where
  "drain_delivery ag limits event endpoint token p =
     (case fst p of
        None \<Rightarrow> (Inl (RuntimeError ''assert drain_started is not None''), p)
      | Some started \<Rightarrow>
          (case bounded_clock ag p of (now, s1, w1) \<Rightarrow>
             (let remaining = max_drain_seconds limits - (now - started) in
              if remaining \<le> 0 then (Inr (undelivered 0 ''temporary_network_failure'' None), s1, w1)
              else case deliver_event ag event endpoint token remaining w1 of (r, w2) \<Rightarrow> (r, s1, w2))))"

definition drain_outbox ::
  "(string \<Rightarrow> string) \<Rightarrow> io \<Rightarrow> 'w agent \<Rightarrow> outbox_limits \<Rightarrow> string \<Rightarrow> string \<Rightarrow> outbox \<Rightarrow> 'w \<Rightarrow>
     drain_result res \<times> outbox \<times> 'w" where
  "drain_outbox fr io ag limits endpoint token s w =
     (case drain fr io limits \<lparr>read_clock = bounded_clock ag, deliver = drain_delivery ag limits\<rparr>
         endpoint token s (None, w) of
        (r, s1, p) \<Rightarrow> (r, s1, snd p))"

text \<open>The process exit code, or the exception that leaves \<^verbatim>\<open>main\<close>; \<open>now\<close> is the wall clock of \<^verbatim>\<open>enqueue\<close>.\<close>

definition after_drain :: "drain_result res \<times> outbox \<times> 'w \<Rightarrow> int res \<times> outbox \<times> 'w" where
  "after_drain p = (case p of (Inl x, s, w) \<Rightarrow> (Inl x, s, w) | (Inr r, s, w) \<Rightarrow> (Inr 0, s, w))"

definition emit_queued ::
  "(string \<Rightarrow> string) \<Rightarrow> io \<Rightarrow> 'w agent \<Rightarrow> int \<Rightarrow> string \<Rightarrow> string \<Rightarrow> pyval \<Rightarrow> outbox \<Rightarrow> 'w \<Rightarrow>
     int res \<times> outbox \<times> 'w" where
  "emit_queued fr io ag now endpoint token event s w =
     (case enqueue fr io default_limits now event None s of
        (Inl x, s1) \<Rightarrow> (Inl x, s1, w)
      | (Inr q, s1) \<Rightarrow>
          (if eq_status q = ''rejected'' then
             (let reason = (case eq_reason q of Some (c # cs) \<Rightarrow> c # cs | _ \<Rightarrow> ''outbox_storage_unavailable'')
              in (Inr 0, s1, a_report ag
                   ((if List.member reject_reasons reason then ''telemetry_event_rejected reason=''
                     else ''telemetry_outbox_failed reason='') @ reason) w))
           else if eq_status q = ''conflict'' then
             (Inr 0, s1, a_report ag ''telemetry_outbox_failed reason=outbox_event_conflict'' w)
           else after_drain (drain_outbox fr io ag default_limits endpoint token s1 w)))"

definition agent_main ::
  "(string \<Rightarrow> string) \<Rightarrow> io \<Rightarrow> 'w agent \<Rightarrow> int \<Rightarrow> (string \<Rightarrow> string option) \<Rightarrow> agent_command \<Rightarrow> outbox \<Rightarrow> 'w \<Rightarrow>
     int res \<times> outbox \<times> 'w" where
  "agent_main fr io ag now file cmd s w =
     (case cmd of
        Flush endpoint token_file outbox_dir \<Rightarrow>
          (case read_token_file (file token_file) of
             Inl r \<Rightarrow> (Inr 0, s, a_report ag (''telemetry_outbox_failed reason='' @ r) w)
           | Inr token \<Rightarrow> after_drain (drain_outbox fr io ag default_limits endpoint token s w))
      | Emit endpoint token event_json outbox_dir \<Rightarrow>
          (case json_loads fr event_json of
             Inl JSONDecodeError \<Rightarrow> (Inr 0, s, a_report ag ''telemetry_event_rejected reason=invalid_json'' w)
           | Inl x \<Rightarrow> (Inl x, s, w)
           | Inr event \<Rightarrow>
               (case outbox_dir of
                  Some dir \<Rightarrow> emit_queued fr io ag now endpoint token event s w
                | None \<Rightarrow>
                    (case deliver_event ag event endpoint token MAX_DELIVERY w of
                       (Inl x, w1) \<Rightarrow> (Inl x, s, w1)
                     | (Inr r, w1) \<Rightarrow> (Inr 0, s, w1)))))"

end
