(* ===== verification/AgentNet.thy ===== *)
theory AgentNet
  imports Agent
begin

section \<open>The default transport (\<^verbatim>\<open>_http_transport\<close> of \<^verbatim>\<open>agent.py\<close>)\<close>

text \<open>
  One HTTP request over a non-blocking socket, every wait bounded by one deadline.  The socket
  calls, the resolver and the connector are the operations of a \<open>net\<close>; sockets are numbers.
  The loops are \<open>partial_function\<close>s: \<open>None\<close> is a run that never returns.
\<close>

datatype 'a sock = Ready 'a | Blocked | WantRead | WantWrite | Failed exn

text \<open>
  \<open>n_resolve\<close> and \<open>n_connect\<close> run on a thread of their own (\<^verbatim>\<open>_run_with_deadline\<close>): \<open>None\<close> says that
  the call was still running when the wait for it ended.
\<close>

record 'w net =
  n_clock :: "'w \<Rightarrow> int \<times> 'w"
  n_resolve :: "string \<Rightarrow> int \<Rightarrow> 'w \<Rightarrow> string list res option \<times> 'w"
  n_connect :: "string \<Rightarrow> int \<Rightarrow> 'w \<Rightarrow> nat res option \<times> 'w"
  n_wrap :: "nat \<Rightarrow> string \<Rightarrow> 'w \<Rightarrow> nat res \<times> 'w"
  n_handshake :: "nat \<Rightarrow> 'w \<Rightarrow> unit sock \<times> 'w"
  n_send :: "nat \<Rightarrow> string \<Rightarrow> 'w \<Rightarrow> int sock \<times> 'w"
  n_recv :: "nat \<Rightarrow> nat \<Rightarrow> 'w \<Rightarrow> string sock \<times> 'w"
  n_select :: "nat \<Rightarrow> bool \<Rightarrow> int \<Rightarrow> 'w \<Rightarrow> bool res \<times> 'w"
  n_close :: "nat \<Rightarrow> 'w \<Rightarrow> 'w"

definition remaining_time :: "'w net \<Rightarrow> int \<Rightarrow> 'w \<Rightarrow> int res \<times> 'w" where
  "remaining_time net deadline w =
     (case n_clock net w of (now, w1) \<Rightarrow>
        ((if deadline - now \<le> 0 then Inl TimeoutError else Inr (deadline - now)), w1))"

definition wait_for_socket :: "'w net \<Rightarrow> nat \<Rightarrow> int \<Rightarrow> bool \<Rightarrow> 'w \<Rightarrow> unit res \<times> 'w" where
  "wait_for_socket net sock deadline for_write w =
     (case remaining_time net deadline w of
        (Inl x, w1) \<Rightarrow> (Inl x, w1)
      | (Inr t, w1) \<Rightarrow>
          (case n_select net sock for_write t w1 of
             (Inl x, w2) \<Rightarrow> (Inl x, w2)
           | (Inr ready, w2) \<Rightarrow> ((if ready then Inr () else Inl TimeoutError), w2)))"

text \<open>\<^verbatim>\<open>_run_with_deadline\<close>, the call and its wait in sequence.\<close>

definition run_with_deadline ::
  "'w net \<Rightarrow> int \<Rightarrow> ('w \<Rightarrow> 'a res option \<times> 'w) \<Rightarrow> 'w \<Rightarrow> 'a res \<times> 'w" where
  "run_with_deadline net deadline call w =
     (case remaining_time net deadline w of
        (Inl x, w1) \<Rightarrow> (Inl x, w1)
      | (Inr t, w1) \<Rightarrow>
          (case call w1 of
             (None, w2) \<Rightarrow> (Inl TimeoutError, w2)
           | (Some r, w2) \<Rightarrow> (r, w2)))"

definition connect_call :: "'w net \<Rightarrow> int \<Rightarrow> string \<Rightarrow> 'w \<Rightarrow> nat res option \<times> 'w" where
  "connect_call net deadline candidate w =
     (case remaining_time net deadline w of
        (Inl x, w1) \<Rightarrow> (Some (Inl x), w1)
      | (Inr t, w1) \<Rightarrow> n_connect net candidate t w1)"

fun connect_any ::
  "'w net \<Rightarrow> int \<Rightarrow> string list \<Rightarrow> exn option \<Rightarrow> 'w \<Rightarrow> nat res \<times> 'w" where
  "connect_any net deadline [] last_error w =
     (Inl (case last_error of None \<Rightarrow> OSError | Some x \<Rightarrow> x), w)"
| "connect_any net deadline (c # cs) last_error w =
     (case run_with_deadline net deadline (connect_call net deadline c) w of
        (Inr sock, w1) \<Rightarrow> (Inr sock, w1)
      | (Inl x, w1) \<Rightarrow>
          if x = OSError \<or> x = FileNotFoundError then connect_any net deadline cs (Some x) w1 else (Inl x, w1))"

definition connect_with_deadline :: "'w net \<Rightarrow> string \<Rightarrow> int \<Rightarrow> int \<Rightarrow> 'w \<Rightarrow> nat res \<times> 'w" where
  "connect_with_deadline net host port deadline w =
     (case run_with_deadline net deadline (n_resolve net host port) w of
        (Inl x, w1) \<Rightarrow> (Inl x, w1)
      | (Inr candidates, w1) \<Rightarrow> connect_any net deadline candidates None w1)"

subsection \<open>The loops over the socket\<close>

partial_function (option) handshake_loop :: "'w net \<Rightarrow> nat \<Rightarrow> int \<Rightarrow> 'w \<Rightarrow> (unit res \<times> 'w) option" where
  "handshake_loop net sock deadline w =
     (case n_handshake net sock w of (r, w1) \<Rightarrow>
        (case r of
           Ready u \<Rightarrow> Some (Inr (), w1)
         | Failed x \<Rightarrow> Some (Inl x, w1)
         | Blocked \<Rightarrow> Some (Inl OSError, w1)
         | WantRead \<Rightarrow>
             (case wait_for_socket net sock deadline False w1 of (v, w2) \<Rightarrow>
                (case v of Inl x \<Rightarrow> Some (Inl x, w2) | Inr u \<Rightarrow> handshake_loop net sock deadline w2))
         | WantWrite \<Rightarrow>
             (case wait_for_socket net sock deadline True w1 of (v, w2) \<Rightarrow>
                (case v of Inl x \<Rightarrow> Some (Inl x, w2) | Inr u \<Rightarrow> handshake_loop net sock deadline w2))))"

partial_function (option) send_loop :: "'w net \<Rightarrow> nat \<Rightarrow> int \<Rightarrow> string \<Rightarrow> 'w \<Rightarrow> (unit res \<times> 'w) option" where
  "send_loop net sock deadline remaining w =
     (if remaining = [] then Some (Inr (), w)
      else case n_send net sock remaining w of (r, w1) \<Rightarrow>
        (case r of
           Ready sent \<Rightarrow>
             (if sent \<le> 0 then Some (Inl OSError, w1)
              else send_loop net sock deadline (drop (nat sent) remaining) w1)
         | Failed x \<Rightarrow> Some (Inl x, w1)
         | WantRead \<Rightarrow>
             (case wait_for_socket net sock deadline False w1 of (v, w2) \<Rightarrow>
                (case v of Inl x \<Rightarrow> Some (Inl x, w2) | Inr u \<Rightarrow> send_loop net sock deadline remaining w2))
         | _ \<Rightarrow>
             (case wait_for_socket net sock deadline True w1 of (v, w2) \<Rightarrow>
                (case v of Inl x \<Rightarrow> Some (Inl x, w2) | Inr u \<Rightarrow> send_loop net sock deadline remaining w2))))"

definition header_end :: string where
  "header_end = [carriage, newline, carriage, newline]"

text \<open>\<open>Inr response\<close>: the loop ended with the blank line in the response.\<close>

partial_function (option) read_loop ::
  "'w net \<Rightarrow> nat \<Rightarrow> int \<Rightarrow> string \<Rightarrow> 'w \<Rightarrow> (string res \<times> 'w) option" where
  "read_loop net sock deadline response w =
     (if contains header_end response then Some (Inr response, w)
      else if MAX_RESPONSE_HEADER_BYTES \<le> length response then Some (Inl OSError, w)
      else case wait_for_socket net sock deadline False w of (v, w1) \<Rightarrow>
        (case v of
           Inl x \<Rightarrow> Some (Inl x, w1)
         | Inr u \<Rightarrow>
             (case n_recv net sock (min 1024 (MAX_RESPONSE_HEADER_BYTES - length response)) w1 of (r, w2) \<Rightarrow>
                (case r of
                   Ready chunk \<Rightarrow>
                     (if chunk = [] then Some (Inl OSError, w2)
                      else read_loop net sock deadline (response @ chunk) w2)
                 | Failed x \<Rightarrow> Some (Inl x, w2)
                 | WantWrite \<Rightarrow>
                     (case wait_for_socket net sock deadline True w2 of (v2, w3) \<Rightarrow>
                        (case v2 of Inl x \<Rightarrow> Some (Inl x, w3) | Inr u \<Rightarrow> read_loop net sock deadline response w3))
                 | _ \<Rightarrow> read_loop net sock deadline response w2))))"

subsection \<open>The status line\<close>

text \<open>The text before the first \<^verbatim>\<open>\r\n\<close>.\<close>

fun first_line :: "string \<Rightarrow> string" where
  "first_line [] = []"
| "first_line (c # cs) =
     (if c = carriage \<and> cs \<noteq> [] \<and> hd cs = newline then [] else c # first_line cs)"

text \<open>\<^verbatim>\<open>split(" ", 2)\<close> unpacked into three names: a \<^verbatim>\<open>ValueError\<close> when there are fewer parts.\<close>

definition status_of_response :: "string \<Rightarrow> int res" where
  "status_of_response response =
     (let line = first_line response;
          version = before (CHR '' '') line;
          rest = after (CHR '' '') line
      in if \<not> is_ascii_text line \<or> \<not> List.member line (CHR '' '') \<or> \<not> List.member rest (CHR '' '') then Inl OSError
         else if \<not> starts_with ''HTTP/'' version then Inl OSError
         else case int_of_text 10 (before (CHR '' '') rest) of None \<Rightarrow> Inl OSError | Some n \<Rightarrow> Inr n)"

definition read_status :: "'w net \<Rightarrow> nat \<Rightarrow> int \<Rightarrow> 'w \<Rightarrow> (int res \<times> 'w) option" where
  "read_status net sock deadline w =
     map_option (\<lambda>(r, w1). (rbind r status_of_response, w1)) (read_loop net sock deadline [] w)"

subsection \<open>The request\<close>

definition crlf :: string where
  "crlf = [carriage, newline]"

text \<open>The request line and the headers; a character outside ASCII is a \<^verbatim>\<open>UnicodeEncodeError\<close>.\<close>

definition request_bytes :: "url \<Rightarrow> string \<Rightarrow> int option \<Rightarrow> headers \<Rightarrow> string \<Rightarrow> string res" where
  "request_bytes u host port hdrs body =
     (let path = (if url_path u = [] then ''/'' else url_path u) @
            (if url_query u = [] then [] else ''?'' @ url_query u);
          host_line = (case port of None \<Rightarrow> host | Some p \<Rightarrow> host @ '':'' @ int_text p);
          lines = [''POST '' @ path @ '' HTTP/1.1'', ''Host: '' @ host_line] @ map (\<lambda>(k, v). k @ '': '' @ v) hdrs;
          head = join crlf lines @ crlf @ crlf
      in if is_ascii_text head then Inr (head @ body) else Inl UnicodeError)"

definition exchange ::
  "'w net \<Rightarrow> bool \<Rightarrow> string res \<Rightarrow> int \<Rightarrow> nat \<Rightarrow> 'w \<Rightarrow> (int res \<times> 'w) option" where
  "exchange net secure request deadline sock w =
     (case request of
        Inl x \<Rightarrow> Some (Inl x, w)
      | Inr bytes \<Rightarrow>
          Option.bind (if secure then handshake_loop net sock deadline w else Some (Inr (), w)) (\<lambda>(r, w1).
            case r of Inl x \<Rightarrow> Some (Inl x, w1)
            | Inr u \<Rightarrow>
                Option.bind (send_loop net sock deadline bytes w1) (\<lambda>(r2, w2).
                  case r2 of Inl x \<Rightarrow> Some (Inl x, w2) | Inr u \<Rightarrow> read_status net sock deadline w2)))"

text \<open>Whatever happens after the connect, the socket is closed.\<close>

definition http_transport ::
  "'w net \<Rightarrow> string \<Rightarrow> headers \<Rightarrow> string \<Rightarrow> int \<Rightarrow> 'w \<Rightarrow> (int res \<times> 'w) option" where
  "http_transport net endpoint hdrs body timeout w =
     (case urlsplit endpoint of
        Inl x \<Rightarrow> Some (Inl x, w)
      | Inr u \<Rightarrow>
          (case hostname u of
             None \<Rightarrow> Some (Inl OSError, w)
           | Some host \<Rightarrow>
               if url_scheme u \<noteq> ''http'' \<and> url_scheme u \<noteq> ''https'' then Some (Inl OSError, w)
               else case n_clock net w of (now, w1) \<Rightarrow>
                 (case url_port u of
                    Inl x \<Rightarrow> Some (Inl x, w1)
                  | Inr p \<Rightarrow>
                      (let deadline = now + timeout;
                           secure = (url_scheme u = ''https'');
                           port = (case p of None \<Rightarrow> if secure then 443 else 80
                                   | Some n \<Rightarrow> if n = 0 then if secure then 443 else 80 else n)
                       in case connect_with_deadline net host port deadline w1 of
                            (Inl x, w2) \<Rightarrow> Some (Inl x, w2)
                          | (Inr plain, w2) \<Rightarrow>
                              (case (if secure then n_wrap net plain host w2 else (Inr plain, w2)) of
                                 (Inl x, w3) \<Rightarrow> Some (Inl x, n_close net plain w3)
                               | (Inr sock, w3) \<Rightarrow>
                                   map_option (\<lambda>(r, w4). (r, n_close net sock w4))
                                     (exchange net secure (request_bytes u host p hdrs body) deadline sock w3))))))"

text \<open>The transport of \<^verbatim>\<open>deliver_event\<close> when the caller gives none.\<close>

definition default_transport ::
  "'w net \<Rightarrow> string \<Rightarrow> headers \<Rightarrow> string \<Rightarrow> int \<Rightarrow> 'w \<Rightarrow> int res \<times> 'w" where
  "default_transport net endpoint hdrs body timeout w =
     (case http_transport net endpoint hdrs body timeout w of Some r \<Rightarrow> r | None \<Rightarrow> (Inl TimeoutError, w))"

end
