(* ===== verification/AgentProperties.thy ===== *)
theory AgentProperties
  imports AgentNet OutboxProperties
begin

section \<open>Properties of the sender\<close>

text \<open>
  What one delivery tries and reports, how long it takes, that the default transport returns, how
  the command exits, and what it leaves in the outbox.
\<close>

subsection \<open>One delivery and the outcomes it saw\<close>

lemma deliver_loop_step:
  assumes "a_clock ag w = (now, w1)" and "send (budget - (now - started)) w1 = (out, w2)"
    and "a_clock ag w2 = (now2, w3)"
  shows "deliver_loop ag send started budget attempts reason status w =
    (if 0 < attempts \<and> budget - (now - started) \<le> 0 then give_up ag attempts reason status w1
     else case judge out status of
       Accepted st \<Rightarrow> (\<lparr>dr_delivered = True, dr_attempts = int (attempts + 1), dr_reason = None,
           dr_http_status = Some st\<rparr>, w2)
     | Broken \<Rightarrow> give_up ag (attempts + 1) ''transport_failure'' status w2
     | Refused retryable reason' status' \<Rightarrow>
         (if \<not> retryable \<or> MAX_RETRIES < attempts + 1 then give_up ag (attempts + 1) reason' status' w2
          else if budget - (now2 - started) \<le> 0 then give_up ag (attempts + 1) reason' status' w3
          else deliver_loop ag send started budget (attempts + 1) reason' status'
            (a_sleep ag (min (2 ^ attempts * SECOND) (budget - (now2 - started))) w3)))"
  unfolding deliver_loop.simps [of ag send started budget attempts reason status w] Let_def assms prod.case
  by (rule refl)

text \<open>An agent that logs the outcome of every call of its transport.\<close>

definition logging :: "'w agent \<Rightarrow> ('w \<times> int res list) agent" where
  "logging ag = \<lparr>a_clock = (\<lambda>(w, l). case a_clock ag w of (t, w') \<Rightarrow> (t, (w', l))),
     a_sleep = (\<lambda>d (w, l). (a_sleep ag d w, l)), a_report = (\<lambda>m (w, l). (a_report ag m w, l)),
     a_transport = (\<lambda>e h b t (w, l). case a_transport ag e h b t w of (r, w') \<Rightarrow> (r, (w', l @ [r])))\<rparr>"

lemma logging_simps [simp]:
  "a_clock (logging ag) (w, l) = (case a_clock ag w of (t, w') \<Rightarrow> (t, (w', l)))"
  "a_sleep (logging ag) d (w, l) = (a_sleep ag d w, l)"
  "a_report (logging ag) m (w, l) = (a_report ag m w, l)"
  "a_transport (logging ag) e h b t (w, l) = (case a_transport ag e h b t w of (r, w') \<Rightarrow> (r, (w', l @ [r])))"
  by (simp_all add: logging_def)

definition success :: "int res \<Rightarrow> bool" where
  "success out \<longleftrightarrow> (case out of Inl x \<Rightarrow> False | Inr st \<Rightarrow> 200 \<le> st \<and> st < 300)"

definition temporary :: "int res \<Rightarrow> bool" where
  "temporary out \<longleftrightarrow> (case out of Inl x \<Rightarrow> network_error x | Inr st \<Rightarrow> st = 429 \<or> (500 \<le> st \<and> st < 600))"

definition failure_reason :: "int res \<Rightarrow> string" where
  "failure_reason out =
     (case out of Inl x \<Rightarrow> if network_error x then ''temporary_network_failure'' else ''transport_failure''
      | Inr st \<Rightarrow> http_reason st)"

definition last_status :: "int res list \<Rightarrow> int option" where
  "last_status l = foldl (\<lambda>s out. case out of Inl x \<Rightarrow> s | Inr st \<Rightarrow> Some st) None l"

text \<open>
  The specification: every outcome but the last one was temporary, there were at most three, and the
  result is what the last one says.
\<close>

definition delivery_spec :: "int res list \<Rightarrow> delivery_result \<Rightarrow> bool" where
  "delivery_spec l r \<longleftrightarrow>
     l \<noteq> [] \<and> length l \<le> 3 \<and> dr_attempts r = int (length l) \<and> (\<forall>out \<in> set (butlast l). temporary out) \<and>
     dr_delivered r = success (last l) \<and> dr_http_status r = last_status l \<and>
     dr_reason r = (if success (last l) then None else Some (failure_reason (last l)))"

lemma judge_cases:
  "judge out status =
     (if success out then Accepted (the (last_status [out]))
      else if temporary out \<or> (\<exists>st. out = Inr st)
      then Refused (temporary out) (failure_reason out) (case out of Inl x \<Rightarrow> status | Inr st \<Rightarrow> Some st)
      else Broken)"
  by (cases out)
    (auto simp: judge_def success_def temporary_def failure_reason_def http_reason_def last_status_def)

lemma last_status_snoc: "last_status (l @ [out]) = (case out of Inl x \<Rightarrow> last_status l | Inr st \<Rightarrow> Some st)"
  by (cases out) (simp_all add: last_status_def)

lemma delivery_spec_snoc:
  "length l \<le> 2 \<Longrightarrow> \<forall>out \<in> set l. temporary out \<Longrightarrow>
   delivery_spec (l @ [out]) \<lparr>dr_delivered = success out, dr_attempts = int (length l + 1),
     dr_reason = (if success out then None else Some (failure_reason out)),
     dr_http_status = (case out of Inl x \<Rightarrow> last_status l | Inr st \<Rightarrow> Some st)\<rparr>"
  by (simp add: delivery_spec_def last_status_snoc)

lemma give_up_logging:
  "give_up (logging ag) n reason status (w, l) =
     (undelivered n reason status, (a_report ag (''telemetry_delivery_failed reason='' @ reason) w, l))"
  by (simp add: give_up_def)

lemma deliver_loop_spec:
  assumes "deliver_loop (logging ag) (\<lambda>t. a_transport (logging ag) ep h b (max 1000000 t)) started budget
      attempts reason status (w, l) = (r, (w', l'))"
    and "attempts = length l" and "length l \<le> 2" and "\<forall>out \<in> set l. temporary out"
    and "status = last_status l" and "l \<noteq> [] \<Longrightarrow> reason = failure_reason (last l)"
  shows "delivery_spec l' r"
  using assms
proof (induction "3 - attempts" arbitrary: attempts reason status w l)
  case (Suc k)
  let ?send = "\<lambda>t. a_transport (logging ag) ep h b (max 1000000 t)"
  obtain now w1 where clk: "a_clock ag w = (now, w1)" by fastforce
  let ?rem = "budget - (now - started)"
  have gone: "delivery_spec l (undelivered attempts reason status)" if pos: "0 < attempts"
  proof -
    obtain l0 out where l: "l = l0 @ [out]" using pos Suc.prems(2) by (cases l rule: rev_cases) auto
    then have "temporary out" "\<not> success out" using Suc.prems(4) by (auto simp: temporary_def success_def split: sum.splits)
    then show ?thesis
      using l Suc.prems by (auto simp: delivery_spec_def undelivered_def)
  qed
  show ?case
  proof (cases "0 < attempts \<and> ?rem \<le> 0")
    case True
    then show ?thesis
      using Suc.prems(1) gone clk by (subst (asm) deliver_loop.simps) (simp add: Let_def give_up_logging)
  next
    case alive: False
    obtain out w2 where send: "a_transport ag ep h b (max 1000000 ?rem) w1 = (out, w2)" by fastforce
    let ?l = "l @ [out]"
    note spec = delivery_spec_snoc [OF Suc.prems(3,4), of out]
    obtain now2 w3 where c2: "a_clock ag w2 = (now2, w3)" by fastforce
    let ?rem2 = "budget - (now2 - started)"
    have "a_clock (logging ag) (w, l) = (now, (w1, l))" "?send ?rem (w1, l) = (out, (w2, ?l))"
      "a_clock (logging ag) (w2, ?l) = (now2, (w3, ?l))"
      using clk send c2 by simp_all
    note eq = Suc.prems(1) [unfolded deliver_loop_step [of "logging ag" "(w, l)" now "(w1, l)" ?send budget started
        out "(w2, ?l)" now2 "(w3, ?l)" attempts reason status, OF this] if_not_P [OF alive], symmetric]
    show ?thesis
    proof (cases "success out")
      case True
      then show ?thesis
        using eq spec Suc.prems(2) by (cases out) (simp_all add: judge_cases success_def last_status_def)
    next
      case fail: False
      define s2 where "s2 = (case out of Inl x \<Rightarrow> status | Inr st \<Rightarrow> Some st)"
      have s2: "s2 = last_status ?l" by (cases out) (simp_all add: s2_def last_status_snoc Suc.prems(5))
      have und: "delivery_spec ?l (undelivered (attempts + 1) (failure_reason out) s2)"
        using spec fail Suc.prems(2,5) by (cases out) (simp_all add: undelivered_def s2_def)
      show ?thesis
      proof (cases "temporary out \<or> (\<exists>st. out = Inr st)")
        case False
        then have "s2 = status" "failure_reason out = ''transport_failure''"
          by (auto simp: s2_def failure_reason_def temporary_def split: sum.splits)
        then show ?thesis using eq und fail False by (simp add: judge_cases give_up_logging)
      next
        case True
        then have j: "judge out status = Refused (temporary out) (failure_reason out) s2"
          using fail by (simp add: judge_cases s2_def)
        show ?thesis
        proof (cases "\<not> temporary out \<or> MAX_RETRIES < attempts + 1 \<or> ?rem2 \<le> 0")
          case True
          then show ?thesis using eq und j by (auto simp: give_up_logging split: if_splits)
        next
          case False
          then have "deliver_loop (logging ag) ?send started budget (attempts + 1) (failure_reason out) s2
              (a_sleep ag (min (2 ^ attempts * SECOND) ?rem2) w3, ?l) = (r, (w', l'))"
            using eq j by simp
          note again = this
          have "length ?l \<le> 2" using False Suc.prems(2) by (simp add: MAX_RETRIES_def)
          moreover have "\<forall>o1 \<in> set ?l. temporary o1" using False Suc.prems(4) by simp
          ultimately show ?thesis
            by (intro Suc.hyps(1) [OF _ again]) (use Suc.hyps(2) Suc.prems(2) s2 in simp_all)
        qed
      qed
    qed
  qed
qed simp

text \<open>
  C12: \<^verbatim>\<open>deliver_event\<close> sends a valid event at most three times and again only after a network error, a
  429 or a 5xx; it reports delivered exactly when the last answer was 2xx, and otherwise the reason
  and the HTTP status of what it saw last.
\<close>

theorem deliver_event_outcomes:
  assumes "deliver_event (logging ag) event endpoint token budget (w, []) = (Inr r, (w', l))"
    and "l \<noteq> []"
  shows "delivery_spec l r"
proof -
  obtain e body where v: "validate_event event = Inr e" "dumps compact (json_payload (ev_payload e)) = Inr body"
    using assms by (auto simp: deliver_event_def split: sum.splits exn.splits)
  obtain started w1 where c: "a_clock ag w = (started, w1)" by fastforce
  have "\<not> min MAX_DELIVERY budget \<le> 0"
    using assms v c by (auto simp: deliver_event_def Let_def)
  then have "deliver_loop (logging ag)
      (\<lambda>t. a_transport (logging ag) endpoint (bearer_headers token body) body (max 1000000 t)) started
      (min MAX_DELIVERY budget) 0 ''temporary_network_failure'' None (w1, []) = (r, (w', l))"
    using assms(1) v c by (auto simp: deliver_event_def Let_def split: prod.splits)
  then show ?thesis by (rule deliver_loop_spec) (simp_all add: last_status_def)
qed

text \<open>A world that is a clock and the outcomes still to come; every answer takes a millisecond.\<close>

definition scripted :: "(int \<times> int res list) agent" where
  "scripted = \<lparr>a_clock = (\<lambda>w. (fst w, w)), a_sleep = (\<lambda>d w. (fst w + d, snd w)), a_report = (\<lambda>m w. w),
     a_transport = (\<lambda>e h b t w. case snd w of [] \<Rightarrow> (Inl TimeoutError, (fst w + t, []))
        | out # outs \<Rightarrow> (out, (fst w + min t 1000000, outs)))\<rparr>"

lemma sample_body:
  obtains body where "dumps compact (json_payload (ev_payload (event_of sample_finished))) = Inr body"
proof -
  have "case dumps compact (json_payload (ev_payload (event_of sample_finished))) of Inl x \<Rightarrow> False | Inr b \<Rightarrow> True"
    by code_simp
  then show ?thesis using that by (auto split: sum.splits)
qed

lemma deliver_scripted:
  "deliver_event (logging scripted) sample_finished endpoint token MAX_DELIVERY ((0, [Inr 503, Inr 202]), []) =
     (Inr \<lparr>dr_delivered = True, dr_attempts = 2, dr_reason = None, dr_http_status = Some 202\<rparr>,
      ((1002000000, []), [Inr 503, Inr 202]))"
proof -
  obtain body where "dumps compact (json_payload (ev_payload (event_of sample_finished))) = Inr body" by (rule sample_body)
  then show ?thesis
    by (simp add: deliver_event_def sample_finished_valid scripted_def deliver_loop.simps judge_def http_reason_def
        MAX_DELIVERY_def MAX_RETRIES_def SECOND_def Let_def)
qed

theorem deliver_event_outcomes_witness:
  "delivery_spec [Inr 503, Inr 202] \<lparr>dr_delivered = True, dr_attempts = 2, dr_reason = None, dr_http_status = Some 202\<rparr>"
  using deliver_event_outcomes [OF deliver_scripted] by simp

subsection \<open>How long it takes\<close>

text \<open>
  A world with a time: reading the clock and reporting take none, sleeping takes at most what was
  asked for and the transport at most its timeout.
\<close>

definition timed :: "('w \<Rightarrow> int) \<Rightarrow> 'w agent \<Rightarrow> bool" where
  "timed time ag \<longleftrightarrow>
     (\<forall>w. fst (a_clock ag w) = time w \<and> time (snd (a_clock ag w)) = time w) \<and>
     (\<forall>d w. 0 < d \<longrightarrow> time (a_sleep ag d w) \<le> time w + d) \<and>
     (\<forall>m w. time (a_report ag m w) = time w) \<and>
     (\<forall>e h b t w. 0 < t \<longrightarrow> time (snd (a_transport ag e h b t w)) \<le> time w + t)"

lemma give_up_time: "timed time ag \<Longrightarrow> time (snd (give_up ag n reason status w)) = time w"
  by (simp add: timed_def give_up_def)

lemma deliver_loop_deadline:
  assumes "timed time ag" and "time w \<le> started + budget"
  shows "time (snd (deliver_loop ag (\<lambda>t. a_transport ag ep h b (max 1000000 t)) started budget attempts reason status w))
    \<le> started + budget + 1000000"
  using assms(2)
proof (induction "3 - attempts" arbitrary: attempts reason status w rule: less_induct)
  case less
  let ?send = "\<lambda>t. a_transport ag ep h b (max 1000000 t)"
  have clk: "\<exists>v. a_clock ag u = (time u, v) \<and> time v = time u" for u
    using assms(1) unfolding timed_def by (metis prod.collapse)
  obtain w1 where c: "a_clock ag w = (time w, w1)" "time w1 = time w" using clk by blast
  let ?rem = "budget - (time w - started)"
  obtain out w2 where send: "?send ?rem w1 = (out, w2)" by fastforce
  have "time w2 \<le> time w1 + max 1000000 ?rem"
    using assms(1) send unfolding timed_def by (metis max_def less_le_trans snd_conv zero_less_numeral max.cobounded1)
  then have t2: "time w2 \<le> started + budget + 1000000" using c(2) less.prems by linarith
  obtain w3 where c2: "a_clock ag w2 = (time w2, w3)" "time w3 = time w2" using clk by blast
  let ?rem2 = "budget - (time w2 - started)"
  have step: "time (snd (deliver_loop ag ?send started budget (attempts + 1) r st
      (a_sleep ag (min (2 ^ attempts * SECOND) ?rem2) w3))) \<le> started + budget + 1000000"
    if "\<not> MAX_RETRIES < attempts + 1" "\<not> ?rem2 \<le> 0" for r st
  proof (rule less.hyps)
    have "0 < min (2 ^ attempts * SECOND) ?rem2" using that(2) by (simp add: SECOND_def)
    then have "time (a_sleep ag (min (2 ^ attempts * SECOND) ?rem2) w3) \<le> time w3 + min (2 ^ attempts * SECOND) ?rem2"
      using assms(1) by (simp add: timed_def)
    then show "time (a_sleep ag (min (2 ^ attempts * SECOND) ?rem2) w3) \<le> started + budget" using c2(2) by linarith
  qed (use that(1) in \<open>simp add: MAX_RETRIES_def\<close>)
  show ?case
    unfolding deliver_loop_step [of ag w "time w" w1 ?send budget started out w2 "time w2" w3, OF c(1) send c2(1)]
    using c(2) c2(2) t2 step less.prems give_up_time [OF assms(1)]
    by (auto split: verdict.splits)
qed

lemma deliver_event_deadline:
  assumes "timed time ag" and "0 < budget"
  shows "time (snd (deliver_event ag event endpoint token budget w)) \<le> time w + min MAX_DELIVERY budget + 1000000"
proof -
  obtain w1 where c: "a_clock ag w = (time w, w1)" "time w1 = time w"
    using assms(1) unfolding timed_def by (metis prod.collapse)
  have p: "0 < min MAX_DELIVERY budget" using assms(2) by (simp add: MAX_DELIVERY_def SECOND_def)
  have r: "time (a_report ag m w) = time w" for m using assms(1) by (simp add: timed_def)
  have "time (snd (deliver_loop ag (\<lambda>t. a_transport ag endpoint (bearer_headers token b) b (max 1000000 t)) (time w)
      (min MAX_DELIVERY budget) 0 reason None w1)) \<le> time w + min MAX_DELIVERY budget + 1000000" for b reason
    by (rule deliver_loop_deadline [OF assms(1)]) (use c(2) p in linarith)
  then show ?thesis
    using c p r by (auto simp: deliver_event_def Let_def split: sum.splits exn.splits prod.splits) (smt (verit) snd_conv)+
qed

text \<open>The drain of the command: its world carries the time at which it started.\<close>

definition drain_ops :: "'w agent \<Rightarrow> outbox_limits \<Rightarrow> (int option \<times> 'w) drain_env" where
  "drain_ops ag limits = \<lparr>read_clock = bounded_clock ag, deliver = drain_delivery ag limits\<rparr>"

lemma bounded_clock_step:
  assumes "timed time ag"
  obtains w1 where "bounded_clock ag (st, w) = (time w, (case st of None \<Rightarrow> Some (time w) | Some t \<Rightarrow> Some t), w1)"
    "time w1 = time w"
proof -
  obtain w1 where "a_clock ag w = (time w, w1)" "time w1 = time w"
    using assms unfolding timed_def by (metis prod.collapse)
  then show ?thesis using that by (simp add: bounded_clock_def)
qed

lemma drain_delivery_time:
  assumes "timed time ag" and "drain_delivery ag limits event endpoint token (Some started, w) = (r, p')"
    and "time w \<le> started + max_drain_seconds limits + 1000000"
  shows "fst p' = Some started \<and> time (snd p') \<le> started + max_drain_seconds limits + 1000000"
proof -
  obtain w1 where b: "bounded_clock ag (Some started, w) = (time w, Some started, w1)" "time w1 = time w"
    by (rule bounded_clock_step [OF assms(1), of "Some started" w]) auto
  let ?rem = "max_drain_seconds limits - (time w - started)"
  show ?thesis
  proof (cases "?rem \<le> 0")
    case True
    then show ?thesis using assms(2,3) b by (auto simp: drain_delivery_def Let_def)
  next
    case False
    obtain r2 w2 where d: "deliver_event ag event endpoint token ?rem w1 = (r2, w2)" by fastforce
    have "time (snd (deliver_event ag event endpoint token ?rem w1)) \<le> time w1 + min MAX_DELIVERY ?rem + 1000000"
      by (rule deliver_event_deadline [OF assms(1)]) (use False in simp)
    then have "time w2 \<le> started + max_drain_seconds limits + 1000000" using d b(2) by simp
    then show ?thesis using assms(2) b d False by (auto simp: drain_delivery_def Let_def)
  qed
qed

lemma drain_loop_time:
  assumes "timed time ag"
    and "drain_loop fr io limits (drain_ops ag limits) endpoint token started index todo c s (Some started, w) = (r, s', p')"
    and "time w \<le> started + max_drain_seconds limits + 1000000"
  shows "time (snd p') \<le> started + max_drain_seconds limits + 1000000"
  using assms(2,3)
proof (induction todo arbitrary: index c s w)
  case (Cons p rest)
  obtain name env where p: "p = (name, env)" by (cases p)
  let ?bound = "started + max_drain_seconds limits + 1000000"
  let ?ops = "drain_ops ag limits"
  have clk: "\<exists>v. read_clock ?ops (Some started, u) = (time u, Some started, v) \<and> time v = time u" for u
    by (rule bounded_clock_step [OF assms(1), of "Some started" u]) (auto simp: drain_ops_def)
  obtain w1 where c1: "read_clock ?ops (Some started, w) = (time w, Some started, w1)" "time w1 = time w"
    using clk by blast
  have IH: "time (snd p') \<le> ?bound"
    if "drain_loop fr io limits ?ops endpoint token started (index + 1) rest c1 s1 (Some started, u) = (r, s', p')"
      "time u \<le> ?bound" for c1 s1 u
    by (rule Cons.IH [OF that])
  show ?case
  proof (cases "max_drain_events limits \<le> index \<or> max_drain_seconds limits \<le> time w - started")
    case True
    then show ?thesis
      using Cons.prems c1 unfolding p by (auto simp: Let_def split: if_splits)
  next
    case False
    obtain r2 p2 where d: "deliver ?ops (env_event env) endpoint token (Some started, w1) = (r2, p2)" by (metis surj_pair)
    then have t2: "fst p2 = Some started" "time (snd p2) \<le> ?bound"
      using drain_delivery_time [OF assms(1), of limits "env_event env" endpoint token started w1 r2 p2] c1(2) Cons.prems(2)
      by (auto simp: drain_ops_def)
    then obtain w2 where p2: "p2 = (Some started, w2)" by (cases p2) auto
    obtain w3 where c2: "read_clock ?ops (Some started, w2) = (time w2, Some started, w3)" "time w3 = time w2"
      using clk by blast
    show ?thesis
    proof (cases r2)
      case (Inl x)
      then show ?thesis
        using Cons.prems(1) False c1 d p2 t2 IH unfolding p by simp
    next
      case (Inr res)
      obtain q s1 where st: "settle fr io name env res s c = (q, s1)" by fastforce
      show ?thesis
        using Cons.prems(1) False c1 d p2 t2 IH Inr c2 st unfolding p
        by (cases q) (auto simp: Let_def split: if_splits)
    qed
  qed
qed auto


lemma timed_scripted: "timed fst scripted"
  by (simp add: timed_def scripted_def split: list.split)


subsection \<open>The default transport returns\<close>

text \<open>A monotonic clock that moves on whenever it is read, and operations that do not turn it back.\<close>

definition advancing :: "('w \<Rightarrow> int) \<Rightarrow> 'w net \<Rightarrow> bool" where
  "advancing time net \<longleftrightarrow>
     (\<forall>w. fst (n_clock net w) = time w \<and> time w < time (snd (n_clock net w))) \<and>
     (\<forall>s w. time w \<le> time (snd (n_handshake net s w))) \<and>
     (\<forall>s b w. time w \<le> time (snd (n_send net s b w))) \<and>
     (\<forall>s n w. time w \<le> time (snd (n_recv net s n w))) \<and>
     (\<forall>s b t w. time w \<le> time (snd (n_select net s b t w)))"

lemma wait_advances:
  assumes "advancing time net" and "wait_for_socket net sock deadline b w = (Inr u, w')"
  shows "time w < deadline \<and> time w < time w'"
proof -
  obtain w1 where c: "n_clock net w = (time w, w1)" "time w < time w1"
    using assms(1) unfolding advancing_def by (metis prod.collapse)
  obtain r w2 where s: "n_select net sock b (deadline - time w) w1 = (r, w2)" by fastforce
  have "time w1 \<le> time w2" using assms(1) s unfolding advancing_def by (metis snd_conv)
  then show ?thesis
    using assms(2) c s by (auto simp: wait_for_socket_def remaining_time_def split: if_splits sum.splits)
qed

lemma handshake_returns:
  assumes "advancing time net"
  shows "handshake_loop net sock deadline w \<noteq> None"
proof (induction "nat (deadline - time w)" arbitrary: w rule: less_induct)
  case less
  obtain r w1 where h: "n_handshake net sock w = (r, w1)" by fastforce
  have t: "time w \<le> time w1" using assms h unfolding advancing_def by (metis snd_conv)
  have again: "handshake_loop net sock deadline w2 \<noteq> None"
    if "wait_for_socket net sock deadline b w1 = (Inr u, w2)" for b u w2
    using wait_advances [OF assms that] t by (intro less) linarith
  show ?case
    using again by (subst handshake_loop.simps) (auto simp: h split: sock.splits prod.splits sum.splits)
qed

lemma send_returns:
  assumes "advancing time net"
  shows "send_loop net sock deadline bytes w \<noteq> None"
proof (induction "nat (deadline - time w) + length bytes" arbitrary: w bytes rule: less_induct)
  case less
  show ?case
  proof (cases "bytes = []")
    case True
    then show ?thesis by (simp add: send_loop.simps)
  next
    case False
    obtain r w1 where h: "n_send net sock bytes w = (r, w1)" by fastforce
    have t: "time w \<le> time w1" using assms h unfolding advancing_def by (metis snd_conv)
    have again: "send_loop net sock deadline bytes w2 \<noteq> None"
      if "wait_for_socket net sock deadline b w1 = (Inr u, w2)" for b u w2
      using wait_advances [OF assms that] t by (intro less) linarith
    have more: "send_loop net sock deadline (drop (nat n) bytes) w1 \<noteq> None" if "0 < n" for n
    proof (rule less)
      have "length (drop (nat n) bytes) < length bytes" using that False by simp
      then show "nat (deadline - time w1) + length (drop (nat n) bytes) < nat (deadline - time w) + length bytes"
        using t by linarith
    qed
    show ?thesis
      using again more False by (subst send_loop.simps) (auto simp: h split: sock.splits prod.splits sum.splits)
  qed
qed

lemma read_returns:
  assumes "advancing time net"
  shows "read_loop net sock deadline response w \<noteq> None"
proof (induction "nat (deadline - time w)" arbitrary: w response rule: less_induct)
  case less
  obtain v w1 where v: "wait_for_socket net sock deadline False w = (v, w1)" by fastforce
  show ?case
  proof (cases v)
    case (Inl x)
    then show ?thesis by (subst read_loop.simps) (simp add: v)
  next
    case (Inr u)
    note adv = wait_advances [OF assms v [unfolded Inr]]
    let ?n = "min 1024 (MAX_RESPONSE_HEADER_BYTES - length response)"
    obtain r w2 where h: "n_recv net sock ?n w1 = (r, w2)" by fastforce
    have t: "time w1 \<le> time w2" using assms h unfolding advancing_def by (metis snd_conv)
    have again: "read_loop net sock deadline resp w2 \<noteq> None" for resp
      using adv t by (intro less) linarith
    have later: "read_loop net sock deadline resp w3 \<noteq> None"
      if "wait_for_socket net sock deadline True w2 = (Inr u', w3)" for resp u' w3
      using wait_advances [OF assms that] adv t by (intro less) linarith
    show ?thesis
      using again later
      by (subst read_loop.simps) (auto simp: v Inr h split: sock.splits prod.splits sum.splits)
  qed
qed

lemma bind_returns: "m \<noteq> None \<Longrightarrow> (\<And>x. m = Some x \<Longrightarrow> f x \<noteq> None) \<Longrightarrow> Option.bind m f \<noteq> None"
  by (cases m) auto


text \<open>A peer that never lets a byte through, and a clock that counts its readings.\<close>

definition stalling :: "int net" where
  "stalling = \<lparr>n_clock = (\<lambda>w. (w, w + 1)), n_resolve = (\<lambda>h p w. (Some (Inr [''10.0.0.1'']), w)),
     n_connect = (\<lambda>c t w. (Some (Inr 3), w)), n_wrap = (\<lambda>s h w. (Inr s, w)), n_handshake = (\<lambda>s w. (WantRead, w)),
     n_send = (\<lambda>s b w. (Blocked, w)), n_recv = (\<lambda>s n w. (Blocked, w)), n_select = (\<lambda>s b t w. (Inr True, w)),
     n_close = (\<lambda>s w. w)\<rparr>"


subsection \<open>What the command leaves behind\<close>

lemma deliver_event_raises:
  assumes "deliver_event ag event endpoint token budget w = (Inl x, w')" and "py_dicts event"
  shows "url_failure event x"
proof (cases "validate_event event")
  case (Inl y)
  then have "y = x" "\<And>r. x \<noteq> ValidationError r" using assms(1) by (auto simp: deliver_event_def split: exn.splits)
  then show ?thesis using validate_event_Inl [of event x] Inl by (auto simp: stable_reason_def)
next
  case (Inr e)
  have "event_value (json_payload (ev_payload e))" by (rule validated_event_value [OF Inr assms(2)])
  then obtain body where "dumps compact (json_payload (ev_payload e)) = Inr body"
    using json_plain_dumps(1) [of "json_payload (ev_payload e)"] by (auto simp: event_value_def res_ok_iff)
  then show ?thesis using assms(1) Inr by (auto simp: deliver_event_def Let_def split: prod.splits if_splits)
qed

lemma drain_outbox_returns: "\<exists>r s' w'. drain_outbox fr io ag limits endpoint token s w = (Inr r, s', w')"
proof -
  obtain r s' p where d: "drain fr io limits (drain_ops ag limits) endpoint token s (None, w) = (r, s', p)"
    by (metis prod_cases3)
  then have "\<exists>c. r = Inr c" by (cases rule: drain_cases) auto
  then show ?thesis using d by (auto simp: drain_outbox_def drain_ops_def)
qed

text \<open>
  C26: The command is fail-open: \<^verbatim>\<open>main\<close> exits with 0 whatever the token file, the outbox, the network
  and the event are, but for two exceptions: a JSON text whose parsing fails with another error
  than \<^verbatim>\<open>JSONDecodeError\<close>, and a \<^verbatim>\<open>run_url\<close> that \<^verbatim>\<open>urlparse\<close> refuses.
\<close>

theorem agent_main_exit:
  "case fst (agent_main fr io ag now file cmd s w) of
     Inr exit_code \<Rightarrow> exit_code = 0
   | Inl x \<Rightarrow> \<exists>endpoint token text dir. cmd = Emit endpoint token text dir \<and>
       (json_loads fr text = Inl x \<and> x \<noteq> JSONDecodeError \<or>
        (\<exists>event. json_loads fr text = Inr event \<and> url_failure event x))"
proof (cases cmd)
  case (Flush endpoint token_file dir)
  obtain v where v: "read_token_file (file token_file) = v" by blast
  show ?thesis
  proof (cases v)
    case (Inl r)
    then show ?thesis using Flush v by (simp add: agent_main_def)
  next
    case (Inr token)
    obtain r s' w' where "drain_outbox fr io ag default_limits endpoint token s w = (Inr r, s', w')"
      using drain_outbox_returns [of fr io ag default_limits endpoint token s w] by blast
    then show ?thesis using Flush v Inr by (simp add: agent_main_def after_drain_def)
  qed
next
  case (Emit endpoint token text' dir)
  show ?thesis
  proof (cases "json_loads fr text'")
    case (Inl x)
    then show ?thesis using Emit by (cases x) (simp_all add: agent_main_def)
  next
    case (Inr event)
    have dicts: "py_dicts event" by (rule json_loads_dicts [OF Inr])
    show ?thesis
    proof (cases dir)
      case None
      obtain r w1 where d: "deliver_event ag event endpoint token MAX_DELIVERY w = (r, w1)" by fastforce
      then show ?thesis
        using deliver_event_raises [OF _ dicts] Emit Inr None by (cases r) (auto simp: agent_main_def)
    next
      case (Some d)
      obtain q s1 where e: "enqueue fr io default_limits now event None s = (q, s1)" by fastforce
      obtain r s' w' where "drain_outbox fr io ag default_limits endpoint token s1 w = (Inr r, s', w')"
        using drain_outbox_returns [of fr io ag default_limits endpoint token s1 w] by blast
      then show ?thesis
        using enqueue_raises [OF _ dicts] Emit Inr Some e
        by (cases q) (auto simp: agent_main_def emit_queued_def after_drain_def Let_def)
    qed
  qed
qed

text \<open>A server that cannot be reached, or answers 429 or 5xx only.\<close>

definition unavailable :: "'w agent \<Rightarrow> bool" where
  "unavailable ag \<longleftrightarrow> (\<forall>e h b t w. temporary (fst (a_transport ag e h b t w)))"

lemma deliver_loop_unavailable:
  assumes "unavailable ag" and "reason \<in> set TRANSIENT_REASONS"
  shows "\<exists>r \<in> set TRANSIENT_REASONS. \<exists>n st w'. deliver_loop ag (\<lambda>t. a_transport ag ep h b (max 1000000 t)) started budget
    attempts reason status w = (undelivered n r st, w')"
  using assms(2)
proof (induction "3 - attempts" arbitrary: attempts reason status w rule: less_induct)
  case less
  let ?send = "\<lambda>t. a_transport ag ep h b (max 1000000 t)"
  obtain now w1 where c: "a_clock ag w = (now, w1)" by fastforce
  obtain out w2 where send: "?send (budget - (now - started)) w1 = (out, w2)" by fastforce
  obtain now2 w3 where c2: "a_clock ag w2 = (now2, w3)" by fastforce
  have t: "temporary out" using assms(1) send unfolding unavailable_def by (metis fst_conv)
  then have f: "failure_reason out \<in> set TRANSIENT_REASONS" "\<not> success out"
    by (auto simp: temporary_def failure_reason_def http_reason_def TRANSIENT_REASONS_def success_def split: sum.splits)
  obtain st where j: "judge out status = Refused True (failure_reason out) st"
    using t f(2) by (auto simp: judge_cases)
  have again: "\<exists>r \<in> set TRANSIENT_REASONS. \<exists>n st' w'. deliver_loop ag ?send started budget (attempts + 1)
      (failure_reason out) st v = (undelivered n r st', w')" if "\<not> MAX_RETRIES < attempts + 1" for v
    by (rule less.hyps [OF _ f(1)]) (use that in \<open>simp add: MAX_RETRIES_def\<close>)
  show ?case
    unfolding deliver_loop_step [of ag w now w1 ?send budget started out w2 now2 w3, OF c send c2] j
    using less.prems f(1) again by (auto simp: give_up_def)
qed

lemma deliver_event_unavailable:
  assumes "unavailable ag" and "event_value v"
  shows "\<exists>r \<in> set TRANSIENT_REASONS. \<exists>n st w'. deliver_event ag v endpoint token budget w = (Inr (undelivered n r st), w')"
proof -
  note val = event_value_validates [OF assms(2)]
  obtain body where body: "dumps compact v = Inr body"
    using assms(2) json_plain_dumps(1) [of v] by (auto simp: event_value_def res_ok_iff)
  obtain now w1 where c: "a_clock ag w = (now, w1)" by fastforce
  have t: "''temporary_network_failure'' \<in> set TRANSIENT_REASONS" by (simp add: TRANSIENT_REASONS_def)
  from deliver_loop_unavailable [OF assms(1) t, of endpoint "bearer_headers token body" body now "min MAX_DELIVERY budget" 0 None w1]
  obtain r n st w' where r: "r \<in> set TRANSIENT_REASONS"
    and l: "deliver_loop ag (\<lambda>t. a_transport ag endpoint (bearer_headers token body) body (max 1000000 t)) now
      (min MAX_DELIVERY budget) 0 ''temporary_network_failure'' None w1 = (undelivered n r st, w')" by blast
  show ?thesis
  proof (cases "min MAX_DELIVERY budget \<le> 0")
    case True
    then have "deliver_event ag v endpoint token budget w = (Inr (undelivered 0 ''temporary_network_failure'' None), w1)"
      using val body c by (simp add: deliver_event_def Let_def)
    then show ?thesis using t by blast
  next
    case False
    then have "deliver_event ag v endpoint token budget w = (Inr (undelivered n r st), w')"
      using val body c l by (simp add: deliver_event_def Let_def)
    then show ?thesis using r by blast
  qed
qed

lemma scan_pending_other:
  "stem n \<notin> set dead \<Longrightarrow> scan_pending fr io dead names s = (v, c, s') \<Longrightarrow>
     file_get PendingRoot n s' = file_get PendingRoot n s \<and> dead_letter s' = dead_letter s"
proof (induction names arbitrary: s v c)
  case (Cons x names)
  have fr: "dead_letter (file_remove PendingRoot x s) = dead_letter s"
    by (simp add: file_remove_def set_folder_def)
  show ?case
  proof (cases "stem x \<in> set dead")
    case True
    then have "x \<noteq> n" using Cons.prems(1) by blast
    then show ?thesis
      using True Cons.prems Cons.IH [OF Cons.prems(1)] fr
      by (auto simp: file_get_remove split: unlink_outcome.splits)
  next
    case False
    then show ?thesis
      using Cons.prems Cons.IH [OF Cons.prems(1)] by (auto split: option.splits prod.splits)
  qed
qed simp

lemma drain_loop_unavailable:
  assumes "unavailable ag" and "\<forall>p \<in> set todo. event_value (env_event (snd p))"
    and "drain_loop fr io limits (drain_ops ag limits) endpoint token started index todo c s (Some t0, w) = (res, s', p')"
  shows "pending s' = pending s \<and> dead_letter s' = dead_letter s"
  using assms(2,3)
proof (induction todo arbitrary: index c s w)
  case (Cons p rest)
  obtain name env where p: "p = (name, env)" by (cases p)
  let ?ops = "drain_ops ag limits"
  have reads: "\<exists>t v. read_clock ?ops (Some t0, u) = (t, (Some t0, v))" for u
    by (auto simp: drain_ops_def bounded_clock_def split: prod.splits)
  have "\<exists>t v. (if max_drain_events limits \<le> index then (0, (Some t0, w)) else read_clock ?ops (Some t0, w)) = (t, (Some t0, v))"
    using reads [of w] by simp
  then obtain now w1 where clk: "(if max_drain_events limits \<le> index then (0, (Some t0, w)) else read_clock ?ops (Some t0, w)) = (now, (Some t0, w1))"
    by blast
  show ?case
  proof (cases "max_drain_events limits \<le> index \<or> max_drain_seconds limits \<le> now - started")
    case True
    then show ?thesis using Cons.prems clk p by auto
  next
    case False
    have v: "event_value (env_event env)" using Cons.prems(1) p by simp
    obtain r n st w2 where d: "deliver ?ops (env_event env) endpoint token (Some t0, w1) = (Inr (undelivered n r st), (Some t0, w2))"
      and r: "r \<in> set TRANSIENT_REASONS"
    proof -
      obtain w0 where b: "bounded_clock ag (Some t0, w1) = (fst (a_clock ag w1), Some t0, w0)"
        by (cases "a_clock ag w1") (simp add: bounded_clock_def)
      let ?rem = "max_drain_seconds limits - (fst (a_clock ag w1) - t0)"
      show ?thesis
      proof (cases "?rem \<le> 0")
        case True
        then show ?thesis
          using that [of 0 "''temporary_network_failure''" None w0] b
          by (simp add: drain_ops_def drain_delivery_def TRANSIENT_REASONS_def)
      next
        case False
        from deliver_event_unavailable [OF assms(1) v, of endpoint token ?rem w0] obtain r n st w'
          where "deliver_event ag (env_event env) endpoint token ?rem w0 = (Inr (undelivered n r st), w')"
            "r \<in> set TRANSIENT_REASONS" by blast
        then show ?thesis using that False b by (simp add: drain_ops_def drain_delivery_def Let_def)
      qed
    qed
    have st: "settle fr io name env (undelivered n r st) s c = (Inr (plus_retained 1 c), s)" for c
      using r by (auto simp: settle_def undelivered_def safe_delivery_reason_def KNOWN_DELIVERY_REASONS_def Let_def)
    obtain now2 w3 where c2: "read_clock ?ops (Some t0, w2) = (now2, (Some t0, w3))" using reads by blast
    have IH: "pending s' = pending s \<and> dead_letter s' = dead_letter s"
      if "drain_loop fr io limits ?ops endpoint token started (index + 1) rest c1 s (Some t0, w3) = (res, s', p')" for c1
      by (rule Cons.IH [OF _ that]) (use Cons.prems(1) in simp)
    show ?thesis
      using Cons.prems(2) clk False d c2 st IH unfolding p by (auto split: if_splits)
  qed
qed auto

lemma enqueue_queued_file:
  assumes "enqueue fr io limits now event queued s = (Inr r, s')" and "eq_status r = ''queued''" and "py_dicts event"
  shows "file_get PendingRoot (json_name (eq_event_id r)) s' \<noteq> None" "stem (json_name (eq_event_id r)) = eq_event_id r"
    "dead_letter s' = dead_letter s"
proof -
  obtain e q bytes where w: "validate_event event = Inr e" "eq_event_id r = ev_id e"
    "file_get PendingRoot (json_name (ev_id e)) s' = Some bytes"
    by (rule enqueue_written [OF assms, where fr' = fr]) blast
  then show "file_get PendingRoot (json_name (eq_event_id r)) s' \<noteq> None" by simp
  show "stem (json_name (eq_event_id r)) = eq_event_id r"
    using validated_event_value [OF w(1) assms(3)] event_value_id_nonempty stem_json_name w(2) by metis
  show "dead_letter s' = dead_letter s" using enqueue_atomic [OF assms(1,3)] by blast
qed

lemma dead_has_cong: "dead_letter s = dead_letter s' \<Longrightarrow> dead_has fr i s = dead_has fr i s'"
  by (simp add: dead_has_def file_get_def folder_files_def)

lemma drain_unavailable:
  assumes "unavailable ag" and "drain fr io limits (drain_ops ag limits) endpoint token s (None, w) = (r, s', p)"
    and "\<not> dead_has fr (stem n) s"
  shows "file_get PendingRoot n s' = file_get PendingRoot n s"
  using assms(2)
proof (cases rule: drain_cases)
  case (ran started p1 todo corrupt s1 r1 s2)
  obtain t0 w1 where p1: "p1 = (Some t0, w1)"
    using ran(2) by (auto simp: drain_ops_def bounded_clock_def split: prod.splits)
  have "\<forall>q \<in> set todo. event_value (env_event (snd q))"
    using ran(4) by (auto simp: item_ok_def envelope_ok_def)
  then have same: "pending s2 = pending s1 \<and> dead_letter s2 = dead_letter s1"
    by (rule drain_loop_unavailable [OF assms(1) _ ran(5) [unfolded p1]])
  obtain dn sa where a: "json_files io DeadLetterRoot s = (dn, sa)" by fastforce
  obtain pn sb where b: "json_files io PendingRoot sa = (pn, sb)" by fastforce
  have ab: "pending sb = pending s" "dead_letter sb = dead_letter s"
    using json_files_files [of io DeadLetterRoot s] json_files_files [of io PendingRoot sa] a b by simp_all
  obtain valid where "scan_pending fr io (dead_letter_ids fr io s dn) pn sb = (valid, corrupt, s1)"
    using ran(3) a b by (auto simp: pending_events_def split: prod.splits)
  moreover have "stem n \<notin> set (dead_letter_ids fr io s dn)" using dead_letter_ids_dead assms(3) by blast
  ultimately have "file_get PendingRoot n s1 = file_get PendingRoot n sb" using scan_pending_other by blast
  moreover have "file_get PendingRoot n sb = file_get PendingRoot n s" by (rule file_get_cong [OF ab])
  moreover have "file_get PendingRoot n s2 = file_get PendingRoot n s1" using same by (intro file_get_cong) simp_all
  moreover have "s' = s2 \<or> s' = tell ''outbox_lock_failed'' s2" using ran(6) by blast
  ultimately show ?thesis by auto
qed simp

text \<open>
  C27: An event emitted while the monitor is unavailable is not lost: when the outbox queued it, the
  command exits with 0 and the event's file is still pending, whatever fails in the file system.
\<close>

theorem emit_offline_keeps_event:
  assumes "unavailable ag" and "json_loads fr payload = Inr event"
    and "enqueue fr io default_limits now event None s = (Inr q, s1)" and "eq_status q = ''queued''"
    and "\<not> dead_has fr (eq_event_id q) s"
  shows "\<exists>s' w' bytes. agent_main fr io ag now file (Emit endpoint token payload (Some dir)) s w = (Inr 0, s', w') \<and>
    file_get PendingRoot (json_name (eq_event_id q)) s1 = Some bytes \<and>
    file_get PendingRoot (json_name (eq_event_id q)) s' = Some bytes"
proof -
  have dicts: "py_dicts event" by (rule json_loads_dicts [OF assms(2)])
  note f = enqueue_queued_file [OF assms(3,4) dicts]
  obtain r s' w' where d: "drain_outbox fr io ag default_limits endpoint token s1 w = (Inr r, s', w')"
    using drain_outbox_returns [of fr io ag default_limits endpoint token s1 w] by blast
  then obtain p where dr: "drain fr io default_limits (drain_ops ag default_limits) endpoint token s1 (None, w) = (Inr r, s', p)"
    by (auto simp: drain_outbox_def drain_ops_def split: prod.splits)
  have "\<not> dead_has fr (stem (json_name (eq_event_id q))) s1"
    using assms(5) dead_has_cong [OF f(3)] f(2) by simp
  from drain_unavailable [OF assms(1) dr this]
  have "file_get PendingRoot (json_name (eq_event_id q)) s' = file_get PendingRoot (json_name (eq_event_id q)) s1" .
  moreover have "agent_main fr io ag now file (Emit endpoint token payload (Some dir)) s w = (Inr 0, s', w')"
    using assms(2-4) d by (simp add: agent_main_def emit_queued_def after_drain_def)
  ultimately show ?thesis using f(1) by auto
qed

definition offline :: "int agent" where
  "offline = \<lparr>a_clock = (\<lambda>w. (w, w)), a_sleep = (\<lambda>d w. w + d), a_report = (\<lambda>m w. w),
     a_transport = (\<lambda>e h b t w. (Inl TimeoutError, w + t))\<rparr>"

lemma sample_text: "\<exists>t. dumps compact sample_finished = Inr t \<and> json_loads fr t = Inr sample_finished"
proof -
  have p: "json_plain sample_finished"
    using event_contract_dumps(1) [OF sample_finished_contract sample_dicts_finished] .
  obtain t where t: "dumps compact sample_finished = Inr t" using json_plain_dumps(1) [OF p] by (auto simp: res_ok_iff)
  then show ?thesis using json_loads_dumps [OF p _ t] by simp
qed

theorem emit_offline_keeps_event_witness:
  "\<exists>payload s' w' bytes.
     agent_main (\<lambda>x. x) good_io offline 0 (\<lambda>f. None) (Emit [] [] payload (Some [])) empty_outbox 0 = (Inr 0, s', w') \<and>
     file_get PendingRoot (json_name (ev_id (event_of sample_finished))) s' = Some bytes"
proof -
  obtain t where t: "json_loads (\<lambda>x. x) t = Inr sample_finished" using sample_text by blast
  obtain bytes where e: "enqueue (\<lambda>x. x) good_io default_limits 0 sample_finished None empty_outbox =
     (Inr \<lparr>eq_event_id = ev_id (event_of sample_finished), eq_status = ''queued'', eq_reason = None\<rparr>,
      empty_outbox\<lparr>pending := [(json_name (ev_id (event_of sample_finished)), bytes)]\<rparr>)"
    by (rule enqueue_sample_now)
  have "unavailable offline" by (simp add: unavailable_def offline_def temporary_def)
  moreover have "\<not> dead_has (\<lambda>x. x) i empty_outbox" for i
    by (simp add: dead_has_def file_get_def folder_files_def empty_outbox_def)
  ultimately show ?thesis
    using emit_offline_keeps_event [OF _ t e, of offline "\<lambda>f. None" "[]" "[]" "[]" 0] by auto
qed

end
