(* ===== verification/AgentThreads.thy ===== *)
theory AgentThreads
  imports Main
begin

section \<open>The two threads of \<^verbatim>\<open>_run_with_deadline\<close> (\<^verbatim>\<open>agent.py\<close>)\<close>

text \<open>
  A worker thread runs an uninterruptible connect; the caller waits for it until the deadline and
  otherwise abandons it.  The steps are the accesses to the shared \<^verbatim>\<open>completed\<close>, \<^verbatim>\<open>abandoned\<close> and
  \<^verbatim>\<open>outcome\<close>, in any interleaving; \<open>closes\<close> counts the calls of \<^verbatim>\<open>on_late_result\<close> on the socket.
\<close>

datatype worker = WorkerRuns | WorkerHasSocket | WorkerStores | WorkerCloses | WorkerCompletes | WorkerDone

datatype waiter = WaiterStarts | WaiterWaits | WaiterAbandons | WaiterChecks | WaiterCollects |
  WaiterReturned | WaiterRaised

record threads =
  worker :: worker
  waiter :: waiter
  completed :: bool
  abandoned :: bool
  stored :: bool
  failed :: bool
  opened :: bool
  closes :: nat

definition started_threads :: threads where
  "started_threads = \<lparr>worker = WorkerRuns, waiter = WaiterStarts, completed = False, abandoned = False,
     stored = False, failed = False, opened = False, closes = 0\<rparr>"

text \<open>
  The worker: the operation returns a socket or raises; then \<^verbatim>\<open>abandoned\<close> is looked up, and the
  socket closed or stored; then \<^verbatim>\<open>completed\<close> is set.  The waiter: \<^verbatim>\<open>_remaining\<close> may already raise; the
  wait ends with the flag or, if the flag is not set, with the timeout.
\<close>

inductive thread_step :: "threads \<Rightarrow> threads \<Rightarrow> bool" where
  opens: "worker t = WorkerRuns \<Longrightarrow> thread_step t (t\<lparr>worker := WorkerHasSocket, opened := True\<rparr>)"
| raises: "worker t = WorkerRuns \<Longrightarrow> thread_step t (t\<lparr>worker := WorkerCompletes, failed := True\<rparr>)"
| late: "worker t = WorkerHasSocket \<Longrightarrow> abandoned t \<Longrightarrow> thread_step t (t\<lparr>worker := WorkerCloses\<rparr>)"
| in_time: "worker t = WorkerHasSocket \<Longrightarrow> \<not> abandoned t \<Longrightarrow> thread_step t (t\<lparr>worker := WorkerStores\<rparr>)"
| worker_close: "worker t = WorkerCloses \<Longrightarrow> thread_step t (t\<lparr>worker := WorkerCompletes, closes := closes t + 1\<rparr>)"
| store: "worker t = WorkerStores \<Longrightarrow> thread_step t (t\<lparr>worker := WorkerCompletes, stored := True\<rparr>)"
| complete: "worker t = WorkerCompletes \<Longrightarrow> thread_step t (t\<lparr>worker := WorkerDone, completed := True\<rparr>)"
| expired: "waiter t = WaiterStarts \<Longrightarrow> thread_step t (t\<lparr>waiter := WaiterRaised\<rparr>)"
| wait: "waiter t = WaiterStarts \<Longrightarrow> thread_step t (t\<lparr>waiter := WaiterWaits\<rparr>)"
| wake: "waiter t = WaiterWaits \<Longrightarrow> completed t \<Longrightarrow> thread_step t (t\<lparr>waiter := WaiterCollects\<rparr>)"
| timeout: "waiter t = WaiterWaits \<Longrightarrow> \<not> completed t \<Longrightarrow> thread_step t (t\<lparr>waiter := WaiterAbandons\<rparr>)"
| abandon: "waiter t = WaiterAbandons \<Longrightarrow> thread_step t (t\<lparr>waiter := WaiterChecks, abandoned := True\<rparr>)"
| close_stored: "waiter t = WaiterChecks \<Longrightarrow> completed t \<Longrightarrow> stored t \<Longrightarrow>
    thread_step t (t\<lparr>waiter := WaiterRaised, closes := closes t + 1\<rparr>)"
| leave: "waiter t = WaiterChecks \<Longrightarrow> \<not> (completed t \<and> stored t) \<Longrightarrow> thread_step t (t\<lparr>waiter := WaiterRaised\<rparr>)"
| collect_error: "waiter t = WaiterCollects \<Longrightarrow> failed t \<Longrightarrow> thread_step t (t\<lparr>waiter := WaiterRaised\<rparr>)"
| collect: "waiter t = WaiterCollects \<Longrightarrow> \<not> failed t \<Longrightarrow> stored t \<Longrightarrow> thread_step t (t\<lparr>waiter := WaiterReturned\<rparr>)"

inductive thread_run :: "threads \<Rightarrow> threads \<Rightarrow> bool" where
  here: "thread_run t t"
| more: "thread_run t u \<Longrightarrow> thread_step u v \<Longrightarrow> thread_run t v"

inductive_cases thread_stepE: "thread_step t u"

definition threads_ok :: "threads \<Rightarrow> bool" where
  "threads_ok t \<longleftrightarrow>
     (completed t = (worker t = WorkerDone)) \<and>
     (opened t = (worker t \<noteq> WorkerRuns \<and> \<not> failed t)) \<and>
     (failed t \<longrightarrow> worker t \<in> {WorkerCompletes, WorkerDone} \<and> \<not> stored t \<and> closes t = 0) \<and>
     (stored t \<longrightarrow> worker t \<in> {WorkerCompletes, WorkerDone}) \<and>
     (abandoned t \<longrightarrow> waiter t \<in> {WaiterChecks, WaiterRaised}) \<and>
     (waiter t = WaiterChecks \<longrightarrow> abandoned t) \<and>
     (worker t = WorkerCloses \<longrightarrow> abandoned t) \<and>
     closes t = (if worker t \<in> {WorkerCompletes, WorkerDone} \<and> \<not> stored t \<and> \<not> failed t then 1
                 else if stored t \<and> waiter t = WaiterRaised \<and> closes t = 1 then 1 else 0) \<and>
     (closes t = 1 \<longrightarrow> abandoned t) \<and>
     (waiter t = WaiterCollects \<longrightarrow> completed t) \<and>
     (waiter t = WaiterReturned \<longrightarrow> completed t \<and> stored t)"

lemma threads_ok_started: "threads_ok started_threads"
  by (simp add: threads_ok_def started_threads_def)

lemma threads_ok_step: "thread_step t u \<Longrightarrow> threads_ok t \<Longrightarrow> threads_ok u"
  by (erule thread_stepE) (auto simp: threads_ok_def split: if_splits)

lemma threads_ok_run: "thread_run t u \<Longrightarrow> threads_ok t \<Longrightarrow> threads_ok u"
  by (induction rule: thread_run.induct) (auto intro: threads_ok_step)

text \<open>
  C28: However the two threads interleave, the connect's socket is handed to the caller or closed, never
  both and never closed twice, and the caller gets a socket only if the operation opened one.
\<close>

theorem late_socket_not_closed_twice:
  assumes "thread_run started_threads t"
  shows "closes t \<le> 1 \<and> (waiter t = WaiterReturned \<longrightarrow> opened t \<and> closes t = 0 \<and> worker t = WorkerDone) \<and>
    (closes t = 1 \<longrightarrow> opened t \<and> abandoned t)"
proof -
  have "threads_ok t" by (rule threads_ok_run [OF assms threads_ok_started])
  then show ?thesis by (auto simp: threads_ok_def split: if_splits)
qed

text \<open>
  The protocol is not complete: a timeout that falls between the worker's look at \<^verbatim>\<open>abandoned\<close> and its
  \<^verbatim>\<open>completed.set()\<close> leaves an open socket that nobody closes.
\<close>

definition leaked_threads :: threads where
  "leaked_threads = \<lparr>worker = WorkerDone, waiter = WaiterRaised, completed = True, abandoned = True,
     stored = True, failed = False, opened = True, closes = 0\<rparr>"

lemma late_socket_can_leak:
  "thread_run started_threads leaked_threads \<and> (\<forall>u. \<not> thread_step leaked_threads u) \<and>
     opened leaked_threads \<and> closes leaked_threads = 0 \<and> waiter leaked_threads = WaiterRaised"
proof -
  let ?t1 = "started_threads\<lparr>waiter := WaiterWaits\<rparr>"
  let ?t2 = "?t1\<lparr>worker := WorkerHasSocket, opened := True\<rparr>"
  let ?t3 = "?t2\<lparr>worker := WorkerStores\<rparr>"
  let ?t4 = "?t3\<lparr>waiter := WaiterAbandons\<rparr>"
  let ?t5 = "?t4\<lparr>waiter := WaiterChecks, abandoned := True\<rparr>"
  let ?t6 = "?t5\<lparr>waiter := WaiterRaised\<rparr>"
  let ?t7 = "?t6\<lparr>worker := WorkerCompletes, stored := True\<rparr>"
  have "thread_run started_threads ?t1" by (rule more [OF here wait]) (simp add: started_threads_def)
  then have "thread_run started_threads ?t2" by (rule more [OF _ opens]) (simp add: started_threads_def)
  then have "thread_run started_threads ?t3" by (rule more [OF _ in_time]) (simp_all add: started_threads_def)
  then have "thread_run started_threads ?t4" by (rule more [OF _ timeout]) (simp_all add: started_threads_def)
  then have "thread_run started_threads ?t5" by (rule more [OF _ abandon]) simp
  then have "thread_run started_threads ?t6" by (rule more [OF _ leave]) (simp_all add: started_threads_def)
  then have "thread_run started_threads ?t7" by (rule more [OF _ store]) simp
  then have "thread_run started_threads (?t7\<lparr>worker := WorkerDone, completed := True\<rparr>)" by (rule more [OF _ complete]) simp
  then have "thread_run started_threads leaked_threads" by (simp add: started_threads_def leaked_threads_def)
  moreover have "\<not> thread_step leaked_threads u" for u
    by (auto simp: leaked_threads_def elim!: thread_stepE)
  ultimately show ?thesis by (simp add: leaked_threads_def)
qed

theorem late_socket_not_closed_twice_witness: "thread_run started_threads leaked_threads \<and> closes leaked_threads \<le> 1"
  using late_socket_not_closed_twice [of leaked_threads] late_socket_can_leak by simp

end
