(* ===== verification/Dashboard.thy ===== *)
theory Dashboard
  imports StoreQueries
begin

section \<open>The command-center snapshot (\<^verbatim>\<open>dashboard.py\<close>)\<close>

text \<open>
  The views are the dictionaries that the module builds, in the order of their keys.  \<open>fr\<close> is the
  text of a parsed floating-point number; \<open>rp\<close> is \<^verbatim>\<open>str\<close> of a container or a float, which no summary
  of a stored event needs.  The system's own time zone, which \<^verbatim>\<open>astimezone\<close> takes for a moment without
  an offset, is UTC; years are written with four digits, as on Windows.
\<close>

definition HISTORY_FILTER_KEYS :: "string list" where
  "HISTORY_FILTER_KEYS = [''runner_id'', ''repository'', ''workflow_run_id'', ''outcome'',
     ''received_after'', ''received_before'']"

definition EVENT_FEED_LIMIT :: int where
  "EVENT_FEED_LIMIT = 7"

definition JOB_TIMELINE_LIMIT :: int where
  "JOB_TIMELINE_LIMIT = 5"

definition DASHBOARD_TIME_ZONE :: int where
  "DASHBOARD_TIME_ZONE = 8 * 3600 * 1000000"

definition DASHBOARD_EVENT_WINDOW :: int where
  "DASHBOARD_EVENT_WINDOW = 500"

definition PR_CHECK_PHASE_IDS :: "string list" where
  "PR_CHECK_PHASE_IDS = [''lint_check'', ''selective_test'', ''parallel_4_group'', ''sequential_group_rerun'',
     ''parallel_4_tests_rerun'', ''sequential_tests_rerun'', ''merge_coverage'']"

definition REBUILD_PHASE_IDS :: "string list" where
  "REBUILD_PHASE_IDS = [''rebuild_test_mapping'', ''unsafe_group_detect'']"

definition ALL_APPROVED_STAGE_IDS :: "string list" where
  "ALL_APPROVED_STAGE_IDS = PR_CHECK_PHASE_IDS @ REBUILD_PHASE_IDS"

definition UNRECOGNISED_STAGE_ID :: string where
  "UNRECOGNISED_STAGE_ID = ''unrecognised_stage''"

definition PHASE_UNIT_LABELS :: "(string \<times> string) list" where
  "PHASE_UNIT_LABELS = [(''lint_check'', ''files''), (''selective_test'', ''groups''),
     (''parallel_4_group'', ''groups''), (''sequential_group_rerun'', ''groups''),
     (''parallel_4_tests_rerun'', ''tests''), (''sequential_tests_rerun'', ''tests''),
     (''merge_coverage'', ''reports''), (''rebuild_test_mapping'', ''tests''), (''unsafe_group_detect'', ''folders'')]"

definition unit_label :: "string \<Rightarrow> string" where
  "unit_label i = (case map_of PHASE_UNIT_LABELS i of None \<Rightarrow> ''units'' | Some u \<Rightarrow> u)"

subsection \<open>Python values\<close>

text \<open>\<^verbatim>\<open>m[key]\<close> and the integer that arithmetic takes.\<close>

definition subscript :: "pyval \<Rightarrow> string \<Rightarrow> pyval res" where
  "subscript m k = (if \<not> is_mapping m then Inl TypeError else if has_key m k then Inr (pget m k) else Inl KeyError)"

fun number :: "pyval \<Rightarrow> int res" where
  "number (PInt n) = Inr n"
| "number (PBool b) = Inr (if b then 1 else 0)"
| "number v = Inl TypeError"

definition opt_str :: "string option \<Rightarrow> pyval" where
  "opt_str v = (case v of None \<Rightarrow> PNone | Some s \<Rightarrow> PStr s)"

subsection \<open>Times\<close>

definition display_text :: "int \<Rightarrow> string" where
  "display_text n =
     (let s = n mod DAY div 1000000
      in date_text (n div DAY + 1) @ '' '' @ dec 2 (s div 3600) @ '':'' @ dec 2 (s div 60 mod 60) @ '':'' @ dec 2 (s mod 60))"

definition display_moment :: "datetime \<Rightarrow> pyval res" where
  "display_moment t = rbind (astimezone DASHBOARD_TIME_ZONE t) (\<lambda>u. Inr (PStr (display_text (naive u))))"

definition display_time :: "string option \<Rightarrow> pyval res" where
  "display_time v = (case v of None \<Rightarrow> Inr PNone | Some s \<Rightarrow> rbind (parse_received_at s) display_moment)"

text \<open>\<^verbatim>\<open>_display_time(value)\<close> of a value of a history item: \<^verbatim>\<open>str.replace\<close> of another type is an error.\<close>

definition display_value :: "pyval \<Rightarrow> pyval res" where
  "display_value v = (case v of PNone \<Rightarrow> Inr PNone | PStr s \<Rightarrow> display_time (Some s) | _ \<Rightarrow> Inl AttributeError)"

definition display_now :: "received \<Rightarrow> pyval res" where
  "display_now now = (case now of AtMoment t \<Rightarrow> display_moment t | AtText s \<Rightarrow> display_time (Some s) | AtOther \<Rightarrow> Inl AttributeError)"

definition received_at_key :: "pyval \<Rightarrow> datetime res" where
  "received_at_key item =
     rbind (subscript item ''received_at'') (\<lambda>v.
       case v of PStr s \<Rightarrow> parse_received_at s | _ \<Rightarrow> Inl AttributeError)"

text \<open>
  \<^verbatim>\<open>sorted(items, key=_received_at_key)\<close>: every key is computed first; moments with and without an
  offset cannot be compared.
\<close>

definition with_keys :: "pyval list \<Rightarrow> (datetime \<times> pyval) list res" where
  "with_keys xs = map_res (\<lambda>x. rbind (received_at_key x) (\<lambda>k. Inr (k, x))) xs"

definition comparable :: "datetime list \<Rightarrow> bool" where
  "comparable ks \<longleftrightarrow> (\<forall>k \<in> set ks. offset k = None) \<or> (\<forall>k \<in> set ks. offset k \<noteq> None)"

definition sorted_received :: "pyval list \<Rightarrow> pyval list res" where
  "sorted_received xs =
     rbind (with_keys xs) (\<lambda>kxs.
       if comparable (map fst kxs) then Inr (map snd (sort_key (\<lambda>kx. instant (fst kx)) kxs)) else Inl TypeError)"

definition sorted_received_desc :: "pyval list \<Rightarrow> pyval list res" where
  "sorted_received_desc xs =
     rbind (with_keys xs) (\<lambda>kxs.
       if comparable (map fst kxs) then Inr (map snd (sort_desc (\<lambda>kx. instant (fst kx)) kxs)) else Inl TypeError)"

subsection \<open>The events of a job\<close>

definition job_field :: "pyval \<Rightarrow> pyval option" where
  "job_field item =
     (let payload = pget item ''payload''; job = pget payload ''job''
      in if is_mapping payload \<and> is_mapping job then Some job else None)"

definition job_field_value :: "pyval \<Rightarrow> string \<Rightarrow> pyval" where
  "job_field_value item k = (case job_field item of None \<Rightarrow> PNone | Some job \<Rightarrow> pget job k)"

definition job_history :: "pyval list \<Rightarrow> job_row \<Rightarrow> pyval list" where
  "job_history window row =
     filter (\<lambda>item. case job_field item of None \<Rightarrow> False
       | Some job \<Rightarrow> equals_filter (pget job ''repository'') (FText (js_repository row)) \<and>
           equals_filter (pget job ''workflow_run_id'') (FInt (js_workflow_run_id row)) \<and>
           equals_filter (pget job ''run_attempt'') (FInt (js_run_attempt row)) \<and>
           equals_filter (pget job ''job_id'') (FInt (js_job_id row))) window"

definition of_type :: "string \<Rightarrow> pyval list \<Rightarrow> pyval list" where
  "of_type ty xs = filter (\<lambda>item. pget item ''event_type'' = PStr ty) xs"

text \<open>An unhashable value cannot be looked up in the set of approved ids.\<close>

definition display_stage_id :: "pyval \<Rightarrow> string res" where
  "display_stage_id v =
     (case v of
        PStr s \<Rightarrow> Inr (if List.member ALL_APPROVED_STAGE_IDS s then s else UNRECOGNISED_STAGE_ID)
      | PList vs \<Rightarrow> Inl TypeError
      | PDict kvs \<Rightarrow> Inl TypeError
      | PProxy kvs \<Rightarrow> Inl TypeError
      | _ \<Rightarrow> Inr UNRECOGNISED_STAGE_ID)"

definition phase_category :: "string \<Rightarrow> string" where
  "phase_category i =
     (if List.member PR_CHECK_PHASE_IDS i then ''pr_check_phase''
      else if List.member REBUILD_PHASE_IDS i then ''rebuild_phase'' else ''generic'')"

definition phase_view :: "string \<Rightarrow> pyval \<Rightarrow> pyval \<Rightarrow> pyval res" where
  "phase_view i progress item =
     rbind (subscript progress ''state'') (\<lambda>state.
     rbind (subscript progress ''determinate'') (\<lambda>determinate.
     rbind (subscript progress ''total'') (\<lambda>total.
     rbind (subscript progress ''pending'') (\<lambda>pending.
     rbind (number total) (\<lambda>t. rbind (number pending) (\<lambda>p.
     rbind (subscript progress ''completed'') (\<lambda>completed.
     rbind (subscript progress ''failed'') (\<lambda>failed.
     rbind (subscript progress ''fallback_group_count'') (\<lambda>groups.
     rbind (subscript progress ''affected_test_count'') (\<lambda>tests.
     rbind (subscript progress ''attempt'') (\<lambda>attempt.
     rbind (rbind (subscript item ''received_at'') display_value) (\<lambda>received.
     rbind (rbind (subscript item ''occurred_at'') display_value) (\<lambda>occurred.
       Inr (obj [(''stage_id'', PStr i), (''category'', PStr (phase_category i)), (''state'', state),
         (''determinate'', determinate), (''total'', total), (''processed'', PInt (max 0 (t - p))),
         (''completed'', completed), (''failed'', failed), (''pending'', pending),
         (''fallback_group_count'', groups), (''affected_test_count'', tests), (''attempt'', attempt),
         (''unit_label'', PStr (unit_label i)), (''received_at'', received), (''occurred_at'', occurred)]))))))))))))))"

text \<open>\<^verbatim>\<open>phases[display_id] = ...\<close> for each progress event, oldest first.\<close>

fun phases_loop :: "pyval list \<Rightarrow> (pykey \<times> pyval) list \<Rightarrow> pyval res" where
  "phases_loop [] phases = Inr (PDict phases)"
| "phases_loop (item # its) phases =
     rbind (subscript item ''payload'') (\<lambda>payload.
     rbind (subscript payload ''progress'') (\<lambda>progress.
     rbind (rbind (subscript progress ''stage_id'') display_stage_id) (\<lambda>i.
     rbind (phase_view i progress item) (\<lambda>view.
       phases_loop its (dict_set (KStr i) view phases)))))"

definition aggregate_phases :: "pyval list \<Rightarrow> pyval res" where
  "aggregate_phases hist = rbind (sorted_received (of_type ''job.progress'' hist)) (\<lambda>xs. phases_loop xs [])"

definition latest_fallback :: "pyval list \<Rightarrow> pyval res" where
  "latest_fallback hist =
     rbind (sorted_received (of_type ''job.fallback'' hist)) (\<lambda>xs.
       if xs = [] then Inr PNone
       else
         rbind (rbind (subscript (last xs) ''payload'') (\<lambda>p. subscript p ''fallback'')) (\<lambda>fallback.
         rbind (rbind (subscript fallback ''target_stage_id'') display_stage_id) (\<lambda>target.
         rbind (subscript fallback ''completed_groups'') (\<lambda>completed.
         rbind (subscript fallback ''total_groups'') (\<lambda>total.
         rbind (subscript fallback ''fallback_group_count'') (\<lambda>groups.
         rbind (subscript fallback ''affected_test_count'') (\<lambda>tests.
         rbind (rbind (subscript (last xs) ''received_at'') display_value) (\<lambda>received.
         rbind (rbind (subscript (last xs) ''occurred_at'') display_value) (\<lambda>occurred.
           Inr (obj [(''target_stage_id'', PStr target), (''completed_groups'', completed), (''total_groups'', total),
             (''fallback_group_count'', groups), (''affected_test_count'', tests), (''received_at'', received),
             (''occurred_at'', occurred)]))))))))))"

text \<open>The latest moment, and whether progress is behind the last heartbeat.\<close>

definition latest_moment :: "datetime list \<Rightarrow> datetime res" where
  "latest_moment ks =
     (if comparable ks then Inr (foldl (\<lambda>a b. if instant a < instant b then b else a) (hd ks) (tl ks)) else Inl TypeError)"

definition progress_unreported :: "job_row \<Rightarrow> pyval list \<Rightarrow> bool res" where
  "progress_unreported row hist =
     (if js_liveness row \<noteq> ''online'' \<or> js_state row \<noteq> ''running'' then Inr False
      else case js_last_heartbeat_at row of
        None \<Rightarrow> Inr False
      | Some beat \<Rightarrow>
          (let progress = of_type ''job.progress'' hist
           in if progress = [] then Inr True
              else rbind (rbind (map_res received_at_key progress) latest_moment) (\<lambda>latest.
                   rbind (parse_received_at beat) (\<lambda>b. moment_less latest b))))"

subsection \<open>Summaries\<close>

definition summarize_progress :: "(pyval \<Rightarrow> string) \<Rightarrow> pyval \<Rightarrow> string res" where
  "summarize_progress rp progress =
     rbind (rbind (subscript progress ''stage_id'') display_stage_id) (\<lambda>i.
     rbind (subscript progress ''determinate'') (\<lambda>determinate.
     rbind (subscript progress ''state'') (\<lambda>state.
       if truthy determinate then
         rbind (subscript progress ''completed'') (\<lambda>completed. rbind (subscript progress ''total'') (\<lambda>total.
           Inr (i @ '': '' @ py_str rp state @ '' ('' @ py_str rp completed @ ''/'' @ py_str rp total @ '' '' @
             unit_label i @ '')'')))
       else Inr (i @ '': '' @ py_str rp state @ '' (indeterminate)''))))"

definition summarize_fallback :: "(pyval \<Rightarrow> string) \<Rightarrow> pyval \<Rightarrow> string res" where
  "summarize_fallback rp fallback =
     rbind (rbind (subscript fallback ''target_stage_id'') display_stage_id) (\<lambda>target.
     rbind (subscript fallback ''fallback_group_count'') (\<lambda>groups.
     rbind (subscript fallback ''affected_test_count'') (\<lambda>tests.
       Inr (''fallback -> '' @ target @ '' ('' @ py_str rp groups @ '' groups, '' @ py_str rp tests @ '' tests)''))))"

definition summarize :: "(pyval \<Rightarrow> string) \<Rightarrow> pyval \<Rightarrow> pyval res" where
  "summarize rp item =
     rbind (subscript item ''event_type'') (\<lambda>ty.
     rbind (subscript item ''payload'') (\<lambda>payload.
       if ty = PStr ''job.started'' then Inr (PStr ''job started'')
       else if ty = PStr ''job.heartbeat'' then Inr (PStr ''heartbeat'')
       else if ty = PStr ''job.finished'' then
         (if is_mapping payload then Inr (PStr (''finished: '' @ py_str rp (pget payload ''outcome''))) else Inl AttributeError)
       else if ty = PStr ''job.progress'' then
         rbind (rbind (subscript payload ''progress'') (summarize_progress rp)) (\<lambda>s. Inr (PStr s))
       else if ty = PStr ''job.fallback'' then
         rbind (rbind (subscript payload ''fallback'') (summarize_fallback rp)) (\<lambda>s. Inr (PStr s))
       else Inr ty))"

definition timeline_entry :: "(pyval \<Rightarrow> string) \<Rightarrow> pyval \<Rightarrow> pyval res" where
  "timeline_entry rp item =
     rbind (subscript item ''event_type'') (\<lambda>ty.
     rbind (rbind (subscript item ''received_at'') display_value) (\<lambda>received.
     rbind (rbind (subscript item ''occurred_at'') display_value) (\<lambda>occurred.
     rbind (summarize rp item) (\<lambda>summary.
       Inr (obj [(''event_type'', ty), (''received_at'', received), (''occurred_at'', occurred), (''summary'', summary)])))))"

text \<open>\<^verbatim>\<open>runner_id[:8]\<close>.\<close>

definition runner_alias :: "string \<Rightarrow> string" where
  "runner_alias rid = ''runner-'' @ take 8 rid"

definition alias_of :: "pyval \<Rightarrow> pyval res" where
  "alias_of v = (case v of PStr s \<Rightarrow> Inr (PStr (runner_alias s)) | _ \<Rightarrow> Inl TypeError)"

definition feed_entry :: "(pyval \<Rightarrow> string) \<Rightarrow> pyval \<Rightarrow> pyval res" where
  "feed_entry rp item =
     rbind (subscript item ''event_type'') (\<lambda>ty.
     rbind (subscript item ''runner_id'') (\<lambda>rid.
     rbind (alias_of rid) (\<lambda>al.
     rbind (rbind (subscript item ''received_at'') display_value) (\<lambda>received.
     rbind (rbind (subscript item ''occurred_at'') display_value) (\<lambda>occurred.
     rbind (summarize rp item) (\<lambda>summary.
       Inr (obj [(''event_type'', ty), (''runner_id'', rid), (''runner_alias'', al), (''received_at'', received),
         (''occurred_at'', occurred), (''job_name'', job_field_value item ''job_name''),
         (''run_url'', job_field_value item ''run_url''), (''summary'', summary)])))))))"

definition event_feed :: "(pyval \<Rightarrow> string) \<Rightarrow> pyval list \<Rightarrow> pyval res" where
  "event_feed rp window =
     rbind (sorted_received_desc window) (\<lambda>xs.
     rbind (map_res (feed_entry rp)
         (take (nat EVENT_FEED_LIMIT) (filter (\<lambda>i. pget i ''event_type'' \<noteq> PStr ''runner.heartbeat'') xs)))
       (\<lambda>entries. Inr (PList entries)))"

subsection \<open>Views\<close>

definition job_view :: "(pyval \<Rightarrow> string) \<Rightarrow> job_row \<Rightarrow> pyval list \<Rightarrow> pyval list \<Rightarrow> pyval res" where
  "job_view rp row hist timeline =
     rbind (display_time (Some (js_last_received_at row))) (\<lambda>received.
     rbind (display_time (js_last_heartbeat_at row)) (\<lambda>beat.
     rbind (progress_unreported row hist) (\<lambda>unreported.
     rbind (aggregate_phases hist) (\<lambda>phases.
     rbind (latest_fallback hist) (\<lambda>fallback.
     rbind (map_res (timeline_entry rp) (rev timeline)) (\<lambda>entries.
       Inr (obj [(''repository'', PStr (js_repository row)), (''workflow_run_id'', PInt (js_workflow_run_id row)),
         (''run_attempt'', PInt (js_run_attempt row)), (''job_id'', PInt (js_job_id row)),
         (''job_name'', PStr (js_job_name row)), (''run_url'', PStr (js_run_url row)), (''state'', PStr (js_state row)),
         (''outcome'', opt_str (js_outcome row)), (''liveness'', PStr (js_liveness row)),
         (''offline_reason'', opt_str (js_offline_reason row)), (''last_received_at'', received),
         (''last_heartbeat_at'', beat), (''progress_unreported'', PBool unreported), (''phases'', phases),
         (''fallback'', fallback), (''timeline'', PList entries)])))))))"

definition current_key :: "runner_row \<Rightarrow> job_key option" where
  "current_key r =
     (case (rs_current_repository r, rs_current_workflow_run_id r, rs_current_run_attempt r, rs_current_job_id r) of
        (Some repo, Some run, Some attempt, Some jid) \<Rightarrow> Some (repo, run, attempt, jid)
      | _ \<Rightarrow> None)"

definition current_job_view ::
  "(string \<Rightarrow> string) \<Rightarrow> (pyval \<Rightarrow> string) \<Rightarrow> store \<Rightarrow> runner_row \<Rightarrow> pyval list \<Rightarrow> pyval res" where
  "current_job_view fr rp s r window =
     (case current_key r of
        None \<Rightarrow> Inr PNone
      | Some k \<Rightarrow>
          rbind (current_job s k) (\<lambda>found.
            case found of None \<Rightarrow> Inr PNone
            | Some row \<Rightarrow>
                rbind (recent_job_events fr s (job_row_key row) JOB_TIMELINE_LIMIT) (\<lambda>timeline.
                  job_view rp row (job_history window row) timeline)))"

definition runner_view ::
  "(string \<Rightarrow> string) \<Rightarrow> (pyval \<Rightarrow> string) \<Rightarrow> store \<Rightarrow> pyval list \<Rightarrow> runner_row \<Rightarrow> pyval res" where
  "runner_view fr rp s window r =
     rbind (current_job_view fr rp s r window) (\<lambda>current.
     rbind (display_time (Some (rs_last_received_at r))) (\<lambda>received.
     rbind (display_time (rs_last_heartbeat_at r)) (\<lambda>beat.
       Inr (obj [(''runner_id'', PStr (rs_runner_id r)), (''alias'', PStr (runner_alias (rs_runner_id r))),
         (''liveness'', PStr (rs_liveness r)), (''activity'', PStr (rs_activity r)),
         (''offline_reason'', opt_str (rs_offline_reason r)), (''last_received_at'', received),
         (''last_heartbeat_at'', beat), (''last_job_outcome'', opt_str (rs_last_job_outcome r)),
         (''current_job'', current)]))))"

definition incident_view :: "incident_row \<Rightarrow> pyval res" where
  "incident_view i =
     rbind (display_time (Some (in_opened_at i))) (\<lambda>opened.
     rbind (display_time (in_closed_at i)) (\<lambda>closed.
     rbind (display_time (Some (in_last_changed_at i))) (\<lambda>changed.
       Inr (obj [(''incident_id'', PInt (in_id i)), (''resource_kind'', PStr (in_kind i)),
         (''resource_id'', PStr (in_resource i)), (''condition'', PStr (in_condition i)), (''active'', PBool (in_active i)),
         (''opened_at'', opened), (''closed_at'', closed), (''last_changed_at'', changed)]))))"

text \<open>\<^verbatim>\<open>history_event_view\<close>: the stored item with its times formatted, also inside the payload.\<close>

definition set_item :: "string \<Rightarrow> pyval \<Rightarrow> pyval \<Rightarrow> pyval" where
  "set_item k v m = PDict (dict_set (KStr k) v (items m))"

definition history_event_view :: "(pyval \<Rightarrow> string) \<Rightarrow> pyval \<Rightarrow> pyval res" where
  "history_event_view rp item =
     rbind (subscript item ''runner_id'') (\<lambda>rid.
     rbind (rbind (subscript item ''received_at'') (\<lambda>v. display_time (Some (py_str rp v)))) (\<lambda>received.
     rbind (rbind (subscript item ''occurred_at'') (\<lambda>v. display_time (Some (py_str rp v)))) (\<lambda>occurred.
       let r = set_item ''occurred_at'' occurred (set_item ''received_at'' received
             (set_item ''runner_alias'' (PStr (runner_alias (py_str rp rid))) item));
           payload = pget item ''payload''
       in if \<not> is_mapping payload then Inr r
          else if pget payload ''occurred_at'' = PNone then Inr (set_item ''payload'' (PDict (items payload)) r)
          else rbind (display_time (Some (py_str rp (pget payload ''occurred_at'')))) (\<lambda>t.
            Inr (set_item ''payload'' (set_item ''occurred_at'' t payload) r)))))"

subsection \<open>The snapshot\<close>

definition snapshot_view ::
  "(string \<Rightarrow> string) \<Rightarrow> (pyval \<Rightarrow> string) \<Rightarrow> store \<Rightarrow> received \<Rightarrow> pyval res" where
  "snapshot_view fr rp s now =
     rbind (recent_events fr s DASHBOARD_EVENT_WINDOW []) (\<lambda>window.
     rbind (recent_events fr s EVENT_FEED_LIMIT [''runner.heartbeat'']) (\<lambda>feed_window.
     rbind (map_res (runner_view fr rp s window) (list_runners s)) (\<lambda>runners.
     rbind (display_now now) (\<lambda>generated.
     rbind (map_res incident_view (incidents_of s False)) (\<lambda>incs.
     rbind (event_feed rp feed_window) (\<lambda>feed.
       Inr (obj [(''generated_at'', generated),
         (''health'', obj [(''degraded'', PBool (fst (health s))), (''reasons'', PList (map PStr (snd (health s))))]),
         (''history_filter_keys'', PList (map PStr HISTORY_FILTER_KEYS)), (''incidents'', PList incs),
         (''runners'', PList runners),
         (''active_runners'', PList (filter (\<lambda>r. pget r ''liveness'' = PStr ''online'') runners)),
         (''event_feed'', feed)])))))))"

text \<open>Not read-only: the liveness refresh comes first and is kept when the view fails.\<close>

definition dashboard_snapshot ::
  "(string \<Rightarrow> string) \<Rightarrow> (pyval \<Rightarrow> string) \<Rightarrow> store \<Rightarrow> received \<Rightarrow> pyval res \<times> store" where
  "dashboard_snapshot fr rp s now =
     (case refresh_liveness s now of
        (Inl x, s1) \<Rightarrow> (Inl x, s1)
      | (Inr notified, s1) \<Rightarrow> (snapshot_view fr rp s1 now, s1))"

end
