(* ===== verification/DashboardProperties.thy ===== *)
theory DashboardProperties
  imports Dashboard StoreProperties
begin

section \<open>Properties of the snapshot\<close>

text \<open>
  Only approved phase names leave the monitor, a phase shows its latest progress, and what makes the
  snapshot fail.
\<close>

definition shown_ids :: "string list" where
  "shown_ids = ALL_APPROVED_STAGE_IDS @ [UNRECOGNISED_STAGE_ID]"

lemma display_stage_id_shown: "display_stage_id v = Inr i \<Longrightarrow> i \<in> set shown_ids"
  by (auto simp: display_stage_id_def shown_ids_def split: pyval.splits if_splits)

lemma dict_set_keys: "fst ` set (dict_set k v kvs) = insert k (fst ` set kvs)"
  by (induction k v kvs rule: dict_set.induct) auto

lemma dict_set_distinct: "distinct (map fst kvs) \<Longrightarrow> distinct (map fst (dict_set k v kvs))"
  by (induction k v kvs rule: dict_set.induct) (auto simp: dict_set_keys)

lemma dict_set_mem: "x \<in> set (dict_set k v kvs) \<Longrightarrow> x = (k, v) \<or> x \<in> set kvs"
  by (induction kvs) (auto split: if_splits)

lemma map_of_dict_set: "map_of (dict_set k v kvs) k' = (if k' = k then Some v else map_of kvs k')"
  by (induction kvs) auto

lemma phase_view_id: "phase_view i progress item = Inr view \<Longrightarrow> pget view ''stage_id'' = PStr i"
  by (auto simp: phase_view_def rbind_Inr_iff pget_def obj_def)

definition phases_safe :: "(pykey \<times> pyval) list \<Rightarrow> bool" where
  "phases_safe phases \<longleftrightarrow> distinct (map fst phases) \<and>
     (\<forall>(k, view) \<in> set phases. \<exists>i \<in> set shown_ids. k = KStr i \<and> pget view ''stage_id'' = PStr i)"

lemma phases_safe_set:
  "phases_safe phases \<Longrightarrow> i \<in> set shown_ids \<Longrightarrow> pget view ''stage_id'' = PStr i \<Longrightarrow>
     phases_safe (dict_set (KStr i) view phases)"
  unfolding phases_safe_def using dict_set_distinct dict_set_mem by fast

lemma phases_loop_safe:
  "phases_loop its phases = Inr v \<Longrightarrow> phases_safe phases \<Longrightarrow> \<exists>phases'. v = PDict phases' \<and> phases_safe phases'"
proof (induction its arbitrary: phases)
  case (Cons item its)
  from Cons.prems(1) obtain payload progress i view where
    i: "rbind (subscript progress ''stage_id'') display_stage_id = Inr i" and
    view: "phase_view i progress item = Inr view" and
    rest: "phases_loop its (dict_set (KStr i) view phases) = Inr v"
    by (auto simp: rbind_Inr_iff)
  have "i \<in> set shown_ids" using i display_stage_id_shown by (auto simp: rbind_Inr_iff)
  then have "phases_safe (dict_set (KStr i) view phases)"
    using phases_safe_set Cons.prems(2) phase_view_id [OF view] by blast
  then show ?case by (rule Cons.IH [OF rest])
qed auto

lemma latest_fallback_target:
  "latest_fallback hist = Inr v \<Longrightarrow> v = PNone \<or> (\<exists>i \<in> set shown_ids. pget v ''target_stage_id'' = PStr i)"
  using display_stage_id_shown
  by (auto simp: latest_fallback_def rbind_Inr_iff pget_def obj_def split: if_splits)


subsection \<open>A phase shows its latest progress\<close>

definition progress_of :: "pyval \<Rightarrow> pyval" where
  "progress_of item = pget (pget item ''payload'') ''progress''"

definition progress_id :: "pyval \<Rightarrow> string res" where
  "progress_id item = display_stage_id (pget (progress_of item) ''stage_id'')"

definition received_instant :: "pyval \<Rightarrow> int" where
  "received_instant item = (case received_at_key item of Inr t \<Rightarrow> instant t | Inl x \<Rightarrow> 0)"

lemma subscript_Inr: "subscript m k = Inr v \<Longrightarrow> v = pget m k"
  by (auto simp: subscript_def split: if_splits)

lemma phases_loop_step:
  assumes "phases_loop (item # its) phases = Inr v"
  obtains i view where "progress_id item = Inr i" "phase_view i (progress_of item) item = Inr view"
    "phases_loop its (dict_set (KStr i) view phases) = Inr v"
  using assms by (auto simp: rbind_Inr_iff progress_id_def progress_of_def dest!: subscript_Inr)

lemma phases_loop_latest:
  assumes "phases_loop its phases = Inr (PDict phases')" and "map_of phases' (KStr i) = Some view"
  shows "(map_of phases (KStr i) = Some view \<and> (\<forall>other \<in> set its. progress_id other \<noteq> Inr i)) \<or>
    (\<exists>before item after. its = before @ item # after \<and> progress_id item = Inr i \<and>
       phase_view i (progress_of item) item = Inr view \<and> (\<forall>other \<in> set after. progress_id other \<noteq> Inr i))"
  using assms
proof (induction its arbitrary: phases)
  case (Cons x its)
  obtain j w where j: "progress_id x = Inr j" "phase_view j (progress_of x) x = Inr w"
    "phases_loop its (dict_set (KStr j) w phases) = Inr (PDict phases')"
    by (rule phases_loop_step [OF Cons.prems(1)])
  from Cons.IH [OF j(3) Cons.prems(2)] show ?case
  proof
    assume a: "map_of (dict_set (KStr j) w phases) (KStr i) = Some view \<and> (\<forall>other \<in> set its. progress_id other \<noteq> Inr i)"
    show ?case
    proof (cases "i = j")
      case True
      then have "x # its = [] @ x # its \<and> progress_id x = Inr i \<and> phase_view i (progress_of x) x = Inr view \<and>
          (\<forall>other \<in> set its. progress_id other \<noteq> Inr i)"
        using a j by (simp add: map_of_dict_set)
      then show ?thesis by blast
    next
      case False
      then show ?thesis using a j by (simp add: map_of_dict_set)
    qed
  next
    assume "\<exists>before item after. its = before @ item # after \<and> progress_id item = Inr i \<and>
       phase_view i (progress_of item) item = Inr view \<and> (\<forall>other \<in> set after. progress_id other \<noteq> Inr i)"
    then show ?case by (metis append_Cons)
  qed
qed simp

lemma sorted_received_sorted:
  assumes "sorted_received xs = Inr ys"
  shows "set ys = set xs \<and> sorted (map received_instant ys)"
proof -
  obtain kxs where k: "with_keys xs = Inr kxs" and ys: "ys = map snd (sort_key (\<lambda>kx. instant (fst kx)) kxs)"
    using assms by (auto simp: sorted_received_def rbind_Inr_iff split: if_splits)
  have keys: "map snd kxs = xs \<and> (\<forall>(t, x) \<in> set kxs. received_at_key x = Inr t)"
    using k unfolding with_keys_def by (induction xs arbitrary: kxs) (auto simp: rbind_Inr_iff)
  have "map received_instant ys = map (\<lambda>kx. instant (fst kx)) (sort_key (\<lambda>kx. instant (fst kx)) kxs)"
    unfolding ys using keys by (auto simp: received_instant_def)
  moreover have "sorted (map (\<lambda>kx. instant (fst kx)) (sort_key (\<lambda>kx. instant (fst kx)) kxs))" by simp
  moreover have "set ys = set xs" using keys ys by (metis list.set_map set_sort)
  ultimately show ?thesis by simp
qed

text \<open>
  C30: A phase shows the latest progress: the view under a phase name is that of a progress event of the
  job whose reception time, as a moment and not as a text, is not before that of any other progress
  event shown under the name.
\<close>

theorem phase_is_latest:
  assumes "aggregate_phases hist = Inr (PDict phases)" and "map_of phases (KStr i) = Some view"
  shows "\<exists>item \<in> set (of_type ''job.progress'' hist). progress_id item = Inr i \<and>
    phase_view i (progress_of item) item = Inr view \<and>
    (\<forall>other \<in> set (of_type ''job.progress'' hist). progress_id other = Inr i \<longrightarrow>
       received_instant other \<le> received_instant item)"
proof -
  obtain xs where xs: "sorted_received (of_type ''job.progress'' hist) = Inr xs" "phases_loop xs [] = Inr (PDict phases)"
    using assms(1) by (auto simp: aggregate_phases_def rbind_Inr_iff)
  note srt = sorted_received_sorted [OF xs(1)]
  from phases_loop_latest [OF xs(2) assms(2)] obtain before item after where
    d: "xs = before @ item # after" "progress_id item = Inr i" "phase_view i (progress_of item) item = Inr view"
    "\<forall>other \<in> set after. progress_id other \<noteq> Inr i"
    by auto
  have "received_instant other \<le> received_instant item" if "other \<in> set xs" "progress_id other = Inr i" for other
  proof -
    have "other \<in> set before \<or> other = item" using that d by auto
    then show ?thesis using srt d(1) by (auto simp: sorted_append)
  qed
  then show ?thesis using srt d by auto
qed

subsection \<open>A sample\<close>

definition sample_progress :: "string \<Rightarrow> string \<Rightarrow> int \<Rightarrow> int \<Rightarrow> pyval" where
  "sample_progress at stage count left =
     obj [(''event_type'', PStr ''job.progress''), (''received_at'', PStr at), (''occurred_at'', PStr at),
       (''payload'', obj [(''progress'', obj [(''stage_id'', PStr stage), (''state'', PStr ''running''),
          (''determinate'', PBool True), (''total'', PInt count), (''completed'', PInt 0), (''failed'', PInt 0),
          (''pending'', PInt left), (''fallback_group_count'', PInt 0), (''affected_test_count'', PInt 0),
          (''attempt'', PInt 1)])])]"

definition sample_history :: "pyval list" where
  "sample_history = [sample_progress ''2026-09-18T01:30:00.500Z'' ''lint_check'' 10 2,
     sample_progress ''2026-09-18T01:30:00Z'' ''lint_check'' 10 9, sample_progress ''2026-09-18T01:31:00Z'' ''secret_group'' 3 1]"

lemma sample_times:
  "parse_received_at ''2026-09-18T01:30:00.500Z'' = Inr \<lparr>naive = 63925291800500000, offset = Some 0\<rparr>"
  "parse_received_at ''2026-09-18T01:30:00Z'' = Inr \<lparr>naive = 63925291800000000, offset = Some 0\<rparr>"
  "parse_received_at ''2026-09-18T01:31:00Z'' = Inr \<lparr>naive = 63925291860000000, offset = Some 0\<rparr>"
  by code_simp+

lemma sample_displays:
  "display_moment \<lparr>naive = 63925291800500000, offset = Some 0\<rparr> = Inr (PStr ''2026-09-18 09:30:00'')"
  "display_moment \<lparr>naive = 63925291800000000, offset = Some 0\<rparr> = Inr (PStr ''2026-09-18 09:30:00'')"
  "display_moment \<lparr>naive = 63925291860000000, offset = Some 0\<rparr> = Inr (PStr ''2026-09-18 09:31:00'')"
  by code_simp+

lemmas sample_eval = sample_history_def sample_progress_def obj_def pget_def has_key_def subscript_def of_type_def
  received_at_key_def with_keys_def comparable_def sorted_received_def sample_times sample_displays instant_def
  display_value_def display_time_def display_stage_id_def aggregate_phases_def phase_view_def latest_fallback_def
  ALL_APPROVED_STAGE_IDS_def PR_CHECK_PHASE_IDS_def REBUILD_PHASE_IDS_def UNRECOGNISED_STAGE_ID_def

lemma sample_phases:
  "\<exists>phases view. aggregate_phases sample_history = Inr (PDict phases) \<and>
     map_of phases (KStr ''lint_check'') = Some view \<and> pget view ''processed'' = PInt 8"
  by (simp add: sample_eval)

theorem phase_is_latest_witness:
  "\<exists>item \<in> set (of_type ''job.progress'' sample_history). progress_id item = Inr ''lint_check'' \<and>
    (\<forall>other \<in> set (of_type ''job.progress'' sample_history). progress_id other = Inr ''lint_check'' \<longrightarrow>
       received_instant other \<le> received_instant item)"
proof -
  obtain phases view where "aggregate_phases sample_history = Inr (PDict phases)" "map_of phases (KStr ''lint_check'') = Some view"
    using sample_phases by blast
  from phase_is_latest [OF this] show ?thesis by blast
qed

definition sample_job_row :: job_row where
  "sample_job_row = \<lparr>js_repository = ''owner/repo'', js_workflow_run_id = 5, js_run_attempt = 1, js_job_id = 9,
     js_runner_id = ''7c9e6679-7425-40de-944b-e07fc1f90ae7'', js_job_name = ''build'',
     js_run_url = ''https://github.com/owner/repo/actions/runs/5'', js_state = ''running'', js_outcome = None,
     js_last_received_at = ''2026-09-18T01:31:00Z'', js_last_event_id = ''7c9e6679-7425-40de-944b-e07fc1f90ae8'',
     js_liveness = ''online'', js_last_heartbeat_at = Some ''2026-09-18T01:31:00Z'', js_offline_reason = None\<rparr>"

lemma sample_job_view: "res_ok (job_view (\<lambda>v. []) sample_job_row sample_history [])"
  by (simp add: sample_eval job_view_def sample_job_row_def progress_unreported_def latest_moment_def moment_less_def)


text \<open>
  A time of the last hours of the year 9999 is accepted in an event but cannot be displayed: the
  snapshot and the history fail as long as the event is among the shown ones.
\<close>

lemma far_future_not_displayed:
  "aware_timestamp ''9999-12-31T20:00:00Z'' \<and> display_time (Some ''9999-12-31T20:00:00Z'') = Inl OverflowError"
  by code_simp

lemma far_future_feed_fails:
  "event_feed (\<lambda>v. []) [obj [(''event_type'', PStr ''job.started''), (''runner_id'', PStr ''r''),
     (''received_at'', PStr ''2026-09-18T01:30:00Z''), (''occurred_at'', PStr ''9999-12-31T20:00:00Z''),
     (''payload'', obj [])]] = Inl OverflowError"
  using far_future_not_displayed [unfolded display_time_def]
  by (simp add: event_feed_def sorted_received_desc_def sort_desc_def feed_entry_def alias_of_def EVENT_FEED_LIMIT_def
      sample_eval)

end
