(* ===== verification/Server.thy ===== *)
theory Server
  imports Dashboard PyNet
begin

section \<open>The HTTP boundary of the monitor (\<^verbatim>\<open>server.py\<close>)\<close>

text \<open>
  One request at a time: the handlers hold the store's lock whenever they touch it.  A request is
  its path, the two headers that are read and its body as it arrives on the socket.  \<open>Inl\<close> is an
  exception that leaves the handler; the server then reports \<^verbatim>\<open>http_connection_error\<close> and the client
  gets no answer.
\<close>

definition MAX_REJECTED_BODY_DRAIN_BYTES :: nat where
  "MAX_REJECTED_BODY_DRAIN_BYTES = MAX_PAYLOAD_BYTES + 1"

definition HISTORY_PAGE_SIZE :: int where
  "HISTORY_PAGE_SIZE = 20"

subsection \<open>Starting a server\<close>

datatype start_failure = EmptyToken | TlsFailure string | LoadRaised exn

text \<open>
  \<open>load\<close> is \<^verbatim>\<open>load_cert_chain\<close>; an \<^verbatim>\<open>SSLError\<close> is an \<^verbatim>\<open>OSError\<close>.  The result says whether the listening
  socket speaks TLS.
\<close>

definition create_server ::
  "(string \<Rightarrow> string \<Rightarrow> unit res) \<Rightarrow> string \<Rightarrow> string option \<Rightarrow> string option \<Rightarrow> start_failure + bool" where
  "create_server load token cert key =
     (if token = [] then Inl EmptyToken
      else if (cert = None) \<noteq> (key = None) then Inl (TlsFailure ''tls_partial_configuration'')
      else case (cert, key) of
        (Some c, Some k) \<Rightarrow>
          (case load c k of
             Inr u \<Rightarrow> Inr True
           | Inl x \<Rightarrow> if x = OSError \<or> x = FileNotFoundError \<or> x = TimeoutError
                     then Inl (TlsFailure ''tls_certificate_load_failed'') else Inl (LoadRaised x))
      | _ \<Rightarrow> Inr False)"

subsection \<open>Requests, responses and state\<close>

text \<open>
  \<open>rq_body\<close> are the bytes that arrive, after which the client is silent (\<open>rq_silent\<close>, so that a read
  times out) or closes.  \<open>sv_discarded\<close> counts the bytes read from requests without a valid token.
\<close>

record request =
  rq_path :: string
  rq_authorization :: "string option"
  rq_content_length :: "string option"
  rq_body :: string
  rq_silent :: bool

record response =
  rp_status :: int
  rp_type :: string
  rp_body :: string

record server =
  sv_store :: store
  sv_reports :: "string list"
  sv_discarded :: nat

type_synonym handled = "response res \<times> server"

definition report_to :: "string \<Rightarrow> server \<Rightarrow> server" where
  "report_to m sv = sv\<lparr>sv_reports := sv_reports sv @ [m]\<rparr>"

definition json_type :: string where
  "json_type = ''application/json; charset=utf-8''"

definition send_json :: "int \<Rightarrow> pyval \<Rightarrow> server \<Rightarrow> handled" where
  "send_json status body sv =
     (rbind (dumps compact body) (\<lambda>t. Inr \<lparr>rp_status = status, rp_type = json_type, rp_body = t\<rparr>), sv)"

definition send_static :: "string \<Rightarrow> string \<Rightarrow> server \<Rightarrow> handled" where
  "send_static body ty sv = (Inr \<lparr>rp_status = 200, rp_type = ty, rp_body = body\<rparr>, sv)"

definition error_body :: "string \<Rightarrow> pyval" where
  "error_body reason = obj [(''error'', PStr reason)]"

definition reject_request :: "int \<Rightarrow> string \<Rightarrow> server \<Rightarrow> handled" where
  "reject_request status reason sv =
     send_json status (error_body reason) (report_to (''http_request_rejected reason='' @ reason) sv)"

subsection \<open>Headers and body\<close>

text \<open>\<^verbatim>\<open>compare_digest\<close> refuses texts outside ASCII.\<close>

definition authorized :: "string \<Rightarrow> request \<Rightarrow> bool" where
  "authorized token rq =
     (let supplied = (case rq_authorization rq of None \<Rightarrow> [] | Some h \<Rightarrow> h)
      in is_ascii_text supplied \<and> is_ascii_text token \<and> supplied = ''Bearer '' @ token)"

definition content_length :: "request \<Rightarrow> (int \<times> string) + nat" where
  "content_length rq =
     (case rq_content_length rq of
        None \<Rightarrow> Inl (411, ''content_length_required'')
      | Some raw \<Rightarrow>
          (case int_of_text 10 raw of
             None \<Rightarrow> Inl (400, ''invalid_content_length'')
           | Some n \<Rightarrow> if n < 0 then Inl (400, ''invalid_content_length'') else Inr (nat n)))"

text \<open>\<^verbatim>\<open>rfile.read(n)\<close>: \<open>None\<close> is a timeout.\<close>

definition read_body :: "string \<Rightarrow> bool \<Rightarrow> nat \<Rightarrow> string option" where
  "read_body arrived silent n =
     (if n \<le> length arrived then Some (take n arrived) else if silent then None else Some arrived)"

text \<open>
  \<^verbatim>\<open>_drain_small_declared_body\<close>: the bytes that it reads and drops, in chunks of at most 8192.
\<close>

function drain_loop_bytes :: "string \<Rightarrow> bool \<Rightarrow> nat \<Rightarrow> nat" where
  "drain_loop_bytes arrived silent remaining =
     (if remaining = 0 then 0
      else case read_body arrived silent (min 8192 remaining) of
        None \<Rightarrow> 0
      | Some chunk \<Rightarrow>
          if chunk = [] then 0
          else length chunk + drain_loop_bytes (drop (length chunk) arrived) silent (remaining - length chunk))"
  by pat_completeness auto
termination
  by (relation "measure (\<lambda>(a, s, r). r)") auto

declare drain_loop_bytes.simps [simp del]

definition drain_small_declared_body :: "request \<Rightarrow> nat" where
  "drain_small_declared_body rq =
     (case (case rq_content_length rq of None \<Rightarrow> Some 0 | Some raw \<Rightarrow> int_of_text 10 raw) of
        None \<Rightarrow> 0
      | Some n \<Rightarrow> if n < 0 \<or> int MAX_PAYLOAD_BYTES < n then 0
                 else drain_loop_bytes (rq_body rq) (rq_silent rq) (nat n))"

subsection \<open>\<^verbatim>\<open>POST\<close>\<close>

text \<open>What \<^verbatim>\<open>except (UnicodeDecodeError, JSONDecodeError, RecursionError, ValueError)\<close> catches.\<close>

fun value_error :: "exn \<Rightarrow> bool" where
  "value_error (ValueError m) = True"
| "value_error JSONDecodeError = True"
| "value_error UnicodeError = True"
| "value_error (ValidationError r) = True"
| "value_error _ = False"

definition watermark_value :: "int option \<Rightarrow> pyval" where
  "watermark_value v = (case v of None \<Rightarrow> PNone | Some n \<Rightarrow> PInt n)"

definition accepted_body :: "ingest_result \<Rightarrow> pyval" where
  "accepted_body r = obj [(''accepted'', PBool (ir_accepted r)), (''duplicate'', PBool (ir_duplicate r)),
     (''projection_applied'', PBool (ir_projection_applied r)),
     (''producer_watermark'', watermark_value (ir_producer_watermark r)), (''event_id'', PStr (ir_event_id r))]"

definition post_payload :: "pyval \<Rightarrow> received \<Rightarrow> server \<Rightarrow> handled" where
  "post_payload payload now sv =
     (case validate_event payload of
        Inl (ValidationError r) \<Rightarrow> reject_request (if r = ''payload_too_large'' then 413 else 422) r sv
      | Inl x \<Rightarrow> (Inl x, sv)
      | Inr event \<Rightarrow>
          (case ingest (sv_store sv) event now of
             (Inl x, s1) \<Rightarrow> (Inl x, sv\<lparr>sv_store := s1\<rparr>)
           | (Inr (result, notified), s1) \<Rightarrow> send_json 202 (accepted_body result) (sv\<lparr>sv_store := s1\<rparr>)))"

definition do_POST :: "(string \<Rightarrow> string) \<Rightarrow> string \<Rightarrow> received \<Rightarrow> request \<Rightarrow> server \<Rightarrow> handled" where
  "do_POST fr token now rq sv =
     (case urlsplit (rq_path rq) of
        Inl x \<Rightarrow> (Inl x, sv)
      | Inr u \<Rightarrow>
          if url_path u \<noteq> ''/v1/events'' then send_json 404 (error_body ''not_found'') sv
          else if \<not> authorized token rq then
            reject_request 401 ''unauthorized'' (sv\<lparr>sv_discarded := sv_discarded sv + drain_small_declared_body rq\<rparr>)
          else case content_length rq of
            Inl (status, reason) \<Rightarrow> reject_request status reason sv
          | Inr n \<Rightarrow>
              if MAX_PAYLOAD_BYTES < n then reject_request 413 ''payload_too_large'' sv
              else case read_body (rq_body rq) (rq_silent rq) n of
                None \<Rightarrow> reject_request 408 ''request_timeout'' sv
              | Some body \<Rightarrow>
                  if length body \<noteq> n then reject_request 400 ''invalid_body'' sv
                  else case rbind (utf8_decode body) (json_loads fr) of
                    Inl x \<Rightarrow> if value_error x then reject_request 400 ''invalid_json'' sv else (Inl x, sv)
                  | Inr payload \<Rightarrow> post_payload payload now sv)"

subsection \<open>\<^verbatim>\<open>GET\<close>\<close>

definition invalid_history_filter :: exn where
  "invalid_history_filter = ValueError ''invalid_history_filter''"

text \<open>The values of one name in a parsed query.\<close>

definition history_page_number :: "string \<Rightarrow> int res" where
  "history_page_number query =
     rbind (parse_qs query) (\<lambda>q.
       case map_of q ''page'' of
         None \<Rightarrow> Inr 1
       | Some [v] \<Rightarrow>
           (case int_of_text 10 v of None \<Rightarrow> Inl invalid_history_filter
            | Some n \<Rightarrow> if n < 1 then Inl invalid_history_filter else Inr n)
       | Some _ \<Rightarrow> Inl invalid_history_filter)"

definition filter_of_values :: "string \<times> string list \<Rightarrow> (string \<times> filter_value) res" where
  "filter_of_values p =
     (if fst p = ''workflow_run_id'' then
        (case int_of_text 10 (hd (snd p)) of None \<Rightarrow> Inl invalid_history_filter | Some n \<Rightarrow> Inr (fst p, FInt n))
      else Inr (fst p, FText (hd (snd p))))"

definition history_filters :: "(string \<times> string list) list \<Rightarrow> history_filters res" where
  "history_filters query =
     (let q = filter (\<lambda>p. fst p \<noteq> ''page'') query in
      if \<exists>p \<in> set q. \<not> List.member allowed_filters (fst p) \<or> length (snd p) \<noteq> 1 then Inl invalid_history_filter
      else map_res filter_of_values q)"

definition get_history ::
  "(string \<Rightarrow> string) \<Rightarrow> (pyval \<Rightarrow> string) \<Rightarrow> string \<Rightarrow> server \<Rightarrow> handled" where
  "get_history fr rp query sv =
     (case rbind (history_page_number query) (\<lambda>page.
           rbind (rbind (parse_qs query) history_filters) (\<lambda>filters.
           rbind (history_page fr (sv_store sv) filters page HISTORY_PAGE_SIZE [''runner.heartbeat'']) (\<lambda>r.
             Inr (page, r)))) of
        Inl x \<Rightarrow> if value_error x then reject_request 400 ''invalid_history_filter'' sv else (Inl x, sv)
      | Inr (page, found, has_next) \<Rightarrow>
          (case map_res (history_event_view rp) found of
             Inl x \<Rightarrow> (Inl x, sv)
           | Inr views \<Rightarrow>
               send_json 200 (obj [(''events'', PList views), (''page'', PInt page), (''page_size'', PInt HISTORY_PAGE_SIZE),
                 (''has_next'', PBool has_next)]) sv))"

record static_files =
  dashboard_html :: string
  dashboard_css :: string
  dashboard_js :: string

text \<open>\<^verbatim>\<open>except Exception\<close> around the snapshot; the liveness refresh in it is kept.\<close>

definition get_dashboard ::
  "(string \<Rightarrow> string) \<Rightarrow> (pyval \<Rightarrow> string) \<Rightarrow> received \<Rightarrow> server \<Rightarrow> handled" where
  "get_dashboard fr rp now sv =
     (case dashboard_snapshot fr rp (sv_store sv) now of
        (Inl x, s1) \<Rightarrow>
          send_json 500 (error_body ''dashboard_unavailable'') (report_to ''dashboard_snapshot_failed'' (sv\<lparr>sv_store := s1\<rparr>))
      | (Inr snapshot, s1) \<Rightarrow> send_json 200 snapshot (sv\<lparr>sv_store := s1\<rparr>))"

definition do_GET ::
  "(string \<Rightarrow> string) \<Rightarrow> (pyval \<Rightarrow> string) \<Rightarrow> static_files \<Rightarrow> received \<Rightarrow> request \<Rightarrow> server \<Rightarrow> handled" where
  "do_GET fr rp files now rq sv =
     (case urlsplit (rq_path rq) of
        Inl x \<Rightarrow> (Inl x, sv)
      | Inr u \<Rightarrow>
          if url_path u = ''/'' then send_static (dashboard_html files) ''text/html; charset=utf-8'' sv
          else if url_path u = ''/app.css'' then send_static (dashboard_css files) ''text/css; charset=utf-8'' sv
          else if url_path u = ''/app.js'' then send_static (dashboard_js files) ''application/javascript; charset=utf-8'' sv
          else if url_path u = ''/api/health'' then
            send_json 200 (obj [(''degraded'', PBool (fst (health (sv_store sv)))),
              (''reasons'', PList (map PStr (snd (health (sv_store sv)))))]) sv
          else if url_path u = ''/api/history'' then get_history fr rp (url_query u) sv
          else if url_path u = ''/api/dashboard'' then get_dashboard fr rp now sv
          else send_json 404 (error_body ''not_found'') sv)"

definition method_not_allowed :: "server \<Rightarrow> handled" where
  "method_not_allowed sv = send_json 405 (error_body ''method_not_allowed'') sv"

text \<open>What the server does around a handler.\<close>

datatype http_method = GET | POST | PUT | DELETE

definition handle ::
  "(string \<Rightarrow> string) \<Rightarrow> (pyval \<Rightarrow> string) \<Rightarrow> static_files \<Rightarrow> string \<Rightarrow> received \<Rightarrow> http_method \<Rightarrow> request \<Rightarrow> server \<Rightarrow>
     response option \<times> server" where
  "handle fr rp files token now m rq sv =
     (case (case m of GET \<Rightarrow> do_GET fr rp files now rq sv | POST \<Rightarrow> do_POST fr token now rq sv
            | _ \<Rightarrow> method_not_allowed sv) of
        (Inl x, sv1) \<Rightarrow> (None, report_to ''http_connection_error'' sv1)
      | (Inr r, sv1) \<Rightarrow> (Some r, sv1))"

end
