(* ===== verification/ServerProperties.thy ===== *)
theory ServerProperties
  imports Server AgentProperties DashboardProperties
begin

section \<open>Properties of the HTTP boundary\<close>

text \<open>
  What a request can change and what the answers say, and the sender and the monitor together.
\<close>

subsection \<open>Posting\<close>

definition post_reasons :: "string list" where
  "post_reasons = [''not_found'', ''unauthorized'', ''content_length_required'', ''invalid_content_length'',
     ''payload_too_large'', ''request_timeout'', ''invalid_body'', ''invalid_json'', ''unsupported_schema'', ''invalid_event'']"

text \<open>The ways a \<^verbatim>\<open>POST\<close> can go.\<close>

definition refused :: "server \<Rightarrow> handled \<Rightarrow> bool" where
  "refused sv h \<longleftrightarrow> sv_store (snd h) = sv_store sv \<and>
     (\<exists>reason status. reason \<in> set post_reasons \<and> 400 \<le> status \<and>
        fst h = rbind (dumps compact (error_body reason)) (\<lambda>t. Inr \<lparr>rp_status = status, rp_type = json_type, rp_body = t\<rparr>))"

lemma refused_reject:
  "reason \<in> set post_reasons \<Longrightarrow> 400 \<le> status \<Longrightarrow> sv_store sv1 = sv_store sv \<Longrightarrow> refused sv (reject_request status reason sv1)"
  unfolding refused_def reject_request_def send_json_def report_to_def by fastforce

lemma post_reason_in:
  "''not_found'' \<in> set post_reasons" "''unauthorized'' \<in> set post_reasons" "''payload_too_large'' \<in> set post_reasons"
  "''request_timeout'' \<in> set post_reasons" "''invalid_body'' \<in> set post_reasons" "''invalid_json'' \<in> set post_reasons"
  "''content_length_required'' \<in> set post_reasons" "''invalid_content_length'' \<in> set post_reasons"
  by (simp_all add: post_reasons_def)

lemma urlparse_raises: "urlparse u = Inl x \<Longrightarrow> x = ValueError ''Invalid IPv6 URL''"
  by (auto simp: urlparse_def Let_def split: prod.splits if_splits)

lemma rejected_reason:
  assumes "validate_event payload = Inl (ValidationError r)"
  shows "r \<in> set post_reasons"
proof -
  have "\<not> url_failure payload (ValidationError r)" using urlparse_raises unfolding url_failure_def by blast
  then have "stable_reason (ValidationError r)" using validate_event_Inl [OF assms] by blast
  then show ?thesis by (auto simp: stable_reason_def post_reasons_def)
qed

lemma content_length_Inl: "content_length rq = Inl (status, reason) \<Longrightarrow> reason \<in> set post_reasons \<and> 400 \<le> status"
  using post_reason_in by (auto simp: content_length_def split: option.splits if_splits)

lemma post_payload_cases:
  assumes "post_payload payload now sv = h"
  obtains (rejected) "refused sv h"
  | (raised) x where "h = (Inl x, sv)"
  | (accepted) e r notified s1 where "validate_event payload = Inr e" "ingest (sv_store sv) e now = (Inr (r, notified), s1)"
      "h = send_json 202 (accepted_body r) (sv\<lparr>sv_store := s1\<rparr>)"
proof (cases "validate_event payload")
  case (Inl x)
  show ?thesis
  proof (cases "\<exists>r. x = ValidationError r")
    case True
    then obtain r where x: "x = ValidationError r" by blast
    then have "refused sv (reject_request st r sv)" if "400 \<le> st" for st
      using rejected_reason Inl that by (intro refused_reject) simp_all
    moreover have "h = reject_request (if r = ''payload_too_large'' then 413 else 422) r sv"
      using assms Inl x by (simp add: post_payload_def)
    ultimately show ?thesis using rejected by simp
  next
    case False
    then show ?thesis using raised assms Inl by (auto simp: post_payload_def split: exn.splits)
  qed
next
  case (Inr e)
  obtain q s1 where i: "ingest (sv_store sv) e now = (q, s1)" by fastforce
  show ?thesis
  proof (cases q)
    case (Inl x)
    have "s1 = sv_store sv"
      using i Inl by (auto simp: ingest_def split: sum.splits option.splits prod.splits)
    then show ?thesis using raised [of x] assms Inr i Inl by (simp add: post_payload_def)
  next
    case res: (Inr p)
    obtain r notified where "p = (r, notified)" by fastforce
    then show ?thesis using accepted [OF Inr] assms i res Inr by (simp add: post_payload_def)
  qed
qed

lemma do_POST_cases:
  assumes "do_POST fr token now rq sv = h"
  obtains (rejected) "refused sv h"
  | (raised) x where "fst h = Inl x" "snd h = sv"
  | (accepted) n payload e r notified s1 where "authorized token rq" "content_length rq = Inr n" "n \<le> MAX_PAYLOAD_BYTES"
      "n \<le> length (rq_body rq)" "rbind (utf8_decode (take n (rq_body rq))) (json_loads fr) = Inr payload"
      "validate_event payload = Inr e" "ingest (sv_store sv) e now = (Inr (r, notified), s1)"
      "h = send_json 202 (accepted_body r) (sv\<lparr>sv_store := s1\<rparr>)"
proof (cases "urlsplit (rq_path rq)")
  case (Inl x)
  then show ?thesis using raised assms by (auto simp: do_POST_def)
next
  case (Inr u)
  have rej: "refused sv (reject_request st reason sv)" if "reason \<in> set post_reasons" "400 \<le> st" for st reason
    by (rule refused_reject [OF that refl])
  show ?thesis
  proof (cases "url_path u = ''/v1/events'' \<and> authorized token rq")
    case False
    have nf: "refused sv (send_json 404 (error_body ''not_found'') sv)"
      unfolding refused_def send_json_def using post_reason_in(1) by (intro conjI exI [of _ "''not_found''"] exI [of _ 404]) simp_all
    have un: "refused sv (reject_request 401 ''unauthorized'' (sv\<lparr>sv_discarded := k\<rparr>))" for k
      by (rule refused_reject) (use post_reason_in in simp_all)
    show ?thesis
    proof (cases "url_path u = ''/v1/events''")
      case True
      then have "h = reject_request 401 ''unauthorized'' (sv\<lparr>sv_discarded := sv_discarded sv + drain_small_declared_body rq\<rparr>)"
        using assms Inr False by (simp add: do_POST_def)
      then show ?thesis using rejected un by simp
    next
      case False
      then have "h = send_json 404 (error_body ''not_found'') sv" using assms Inr by (simp add: do_POST_def)
      then show ?thesis using rejected nf by simp
    qed
  next
    case ok: True
    show ?thesis
    proof (cases "content_length rq")
      case (Inl p)
      then show ?thesis
        using rejected rej content_length_Inl assms Inr ok by (cases p) (auto simp: do_POST_def)
    next
      case n: (Inr n)
      show ?thesis
      proof (cases "MAX_PAYLOAD_BYTES < n")
        case True
        then show ?thesis
          using rejected rej [OF post_reason_in(3), of 413] assms Inr ok n by (simp add: do_POST_def)
      next
        case small: False
        show ?thesis
        proof (cases "n \<le> length (rq_body rq)")
          case False
          then show ?thesis
            using rejected rej [OF post_reason_in(4), of 408] rej [OF post_reason_in(5), of 400] assms Inr ok n small
            by (simp add: do_POST_def read_body_def split: if_splits)
        next
          case True
          let ?j = "rbind (utf8_decode (take n (rq_body rq))) (json_loads fr)"
          show ?thesis
          proof (cases ?j)
            case (Inl x)
            then show ?thesis
              using rejected raised [of x] rej [OF post_reason_in(6), of 400] assms Inr ok n small True
              by (cases "value_error x") (auto simp: do_POST_def read_body_def)
          next
            case payload: (Inr payload)
            have "post_payload payload now sv = h"
              using assms Inr ok n small True payload by (simp add: do_POST_def read_body_def)
            then show ?thesis
            proof (cases rule: post_payload_cases)
              case rejected
              then show ?thesis by (rule that(1))
            next
              case (raised x)
              then show ?thesis using that(2) by simp
            next
              case (accepted e r notified s1)
              then show ?thesis using that(3) ok n small True payload by simp
            qed
          qed
        qed
      qed
    qed
  qed
qed

text \<open>
  C13: A \<^verbatim>\<open>POST\<close> changes the store only when it carries the exact bearer token and a complete, valid event
  of at most 16384 bytes, which is then ingested and answered 202; every other answer has a status
  from 400 on and a body that holds nothing but one of ten fixed reason codes.
\<close>

theorem post_changes_only_accepted:
  assumes "do_POST fr token now rq sv = (res, sv')"
  shows "(sv_store sv' \<noteq> sv_store sv \<longrightarrow>
      authorized token rq \<and> (\<exists>n payload e r notified.
        content_length rq = Inr n \<and> n \<le> 16384 \<and> n \<le> length (rq_body rq) \<and>
        rbind (utf8_decode (take n (rq_body rq))) (json_loads fr) = Inr payload \<and> validate_event payload = Inr e \<and>
        ingest (sv_store sv) e now = (Inr (r, notified), sv_store sv'))) \<and>
    (\<forall>resp. res = Inr resp \<longrightarrow> rp_status resp = 202 \<or>
       400 \<le> rp_status resp \<and> (\<exists>reason \<in> set post_reasons. dumps compact (error_body reason) = Inr (rp_body resp)))"
  using assms
proof (cases rule: do_POST_cases)
  case rejected
  then obtain reason status where r: "reason \<in> set post_reasons" "400 \<le> status" "sv_store sv' = sv_store sv"
    "res = rbind (dumps compact (error_body reason)) (\<lambda>t. Inr \<lparr>rp_status = status, rp_type = json_type, rp_body = t\<rparr>)"
    unfolding refused_def by auto
  then show ?thesis by (cases "dumps compact (error_body reason)") auto
next
  case (raised x)
  then show ?thesis by simp
next
  case (accepted n payload e r notified s1)
  have s: "sv_store sv' = s1" using accepted(8) by (simp add: send_json_def)
  have "res = Inr resp \<longrightarrow> rp_status resp = 202" for resp
    using accepted(8) by (auto simp: send_json_def rbind_Inr_iff)
  moreover have "n \<le> 16384" using accepted(3) by (simp add: MAX_PAYLOAD_BYTES_def)
  ultimately show ?thesis using accepted(1,2,4-7) s by blast
qed

theorem post_changes_only_accepted_witness:
  "\<exists>res sv'. do_POST (\<lambda>x. x) ''t'' AtOther \<lparr>rq_path = ''/v1/events'', rq_authorization = Some ''Bearer u'',
       rq_content_length = Some ''2'', rq_body = ''{}'', rq_silent = False\<rparr>
       \<lparr>sv_store = fresh_store, sv_reports = [], sv_discarded = 0\<rparr> = (res, sv') \<and> sv_store sv' = fresh_store"
proof -
  let ?rq = "\<lparr>rq_path = ''/v1/events'', rq_authorization = Some ''Bearer u'',
       rq_content_length = Some ''2'', rq_body = ''{}'', rq_silent = False\<rparr>"
  let ?sv = "\<lparr>sv_store = fresh_store, sv_reports = [], sv_discarded = 0\<rparr>"
  obtain res sv' where d: "do_POST (\<lambda>x. x) ''t'' AtOther ?rq ?sv = (res, sv')" by fastforce
  have "\<not> authorized ''t'' ?rq" by (simp add: authorized_def)
  then have "sv_store sv' = sv_store ?sv" using post_changes_only_accepted [OF d] by blast
  then show ?thesis using d by auto
qed

subsection \<open>The sender and the monitor\<close>

text \<open>The body that the sender makes of an event, as the monitor reads it.\<close>

lemma sent_body:
  assumes "validate_event event = Inr e" and "py_dicts event" and "dumps compact (json_payload (ev_payload e)) = Inr body"
  shows "utf8_decode body = Inr body" "json_loads fr body = Inr (json_payload (ev_payload e))"
    "validate_event (json_payload (ev_payload e)) = Inr e" "length body \<le> MAX_PAYLOAD_BYTES"
    "int_of_text 10 (int_text (int (length body))) = Some (int (length body))"
proof -
  let ?v = "json_payload (ev_payload e)"
  have c: "event_contract event" and e: "e = event_of event" using assms(1) by (auto simp: validate_event_iff)
  have v: "?v = rethaw event" using e by (simp add: event_of_def json_payload_freeze)
  have p: "json_plain ?v" using validated_event_value(1) [OF assms(1,2)] by (simp add: event_value_def)
  have "printable_text body" using printable_dumps(1) [OF p _ assms(3)] by simp
  then show "utf8_decode body = Inr body" using printable_ascii utf8_decode_ascii by blast
  show "json_loads fr body = Inr ?v" by (rule json_loads_dumps [OF p _ assms(3)]) simp
  have "event_contract ?v" using event_contract_rethaw [OF c] v by simp
  moreover have "event_of ?v = e" using e v by (simp add: event_of_def freeze_rethaw)
  ultimately show "validate_event ?v = Inr e" by (simp add: validate_event_iff)
  show len: "length body \<le> MAX_PAYLOAD_BYTES"
    using event_text [OF c] assms(3) v by (metis sum.inject(2))
  then have "fits_int64 (int (length body))" by (simp add: fits_int64_def MAX_PAYLOAD_BYTES_def)
  then show "int_of_text 10 (int_text (int (length body))) = Some (int (length body))" by (rule fits_digits)
qed

definition agent_request :: "string \<Rightarrow> string \<Rightarrow> bool \<Rightarrow> request" where
  "agent_request token body silent = \<lparr>rq_path = ''/v1/events'', rq_authorization = map_of (bearer_headers token body) ''Authorization'',
     rq_content_length = map_of (bearer_headers token body) ''Content-Length'', rq_body = body, rq_silent = silent\<rparr>"

lemma agent_request_understood_plain:
  assumes "validate_event event = Inr e" and "py_dicts event"
    and "dumps compact (json_payload (ev_payload e)) = Inr body" and "is_ascii_text token"
  shows "do_POST fr token now (agent_request token body silent) sv =
    (case ingest (sv_store sv) e now of
       (Inl x, s1) \<Rightarrow> (Inl x, sv\<lparr>sv_store := s1\<rparr>)
     | (Inr (r, notified), s1) \<Rightarrow> send_json 202 (accepted_body r) (sv\<lparr>sv_store := s1\<rparr>))"
proof -
  note b = sent_body [OF assms(1-3)]
  have "case urlsplit ''/v1/events'' of Inl x \<Rightarrow> False | Inr u \<Rightarrow> url_path u = ''/v1/events''" by code_simp
  then have u: "\<exists>u. urlsplit ''/v1/events'' = Inr u \<and> url_path u = ''/v1/events''" by (auto split: sum.splits)
  have "is_ascii_text (''Bearer '' @ token)" using assms(4) by (simp add: is_ascii_text_def code_def)
  then have "authorized token (agent_request token body silent)"
    using assms(4) by (simp add: authorized_def agent_request_def bearer_headers_def)
  moreover have "content_length (agent_request token body silent) = Inr (length body)"
    using b(5) by (simp add: content_length_def agent_request_def bearer_headers_def)
  moreover have "post_payload (json_payload (ev_payload e)) now sv =
      (case ingest (sv_store sv) e now of
         (Inl x, s1) \<Rightarrow> (Inl x, sv\<lparr>sv_store := s1\<rparr>)
       | (Inr (r, notified), s1) \<Rightarrow> send_json 202 (accepted_body r) (sv\<lparr>sv_store := s1\<rparr>))"
    unfolding post_payload_def b(3) sum.case by (rule refl)
  ultimately show ?thesis
    using u b(1,2,4) by (auto simp: do_POST_def agent_request_def read_body_def)
qed



text \<open>The monitor as the network of a sender: one request per attempt, which takes at most a millisecond.\<close>

definition post_over :: "(string \<Rightarrow> string) \<Rightarrow> string \<Rightarrow> received \<Rightarrow> string \<Rightarrow> headers \<Rightarrow> string \<Rightarrow> server \<Rightarrow> int res \<times> server" where
  "post_over fr token now endpoint hdrs body sv =
     (case urlsplit endpoint of
        Inl x \<Rightarrow> (Inl x, sv)
      | Inr u \<Rightarrow>
          (case do_POST fr token now \<lparr>rq_path = (if url_path u = [] then ''/'' else url_path u) @
               (if url_query u = [] then [] else ''?'' @ url_query u),
             rq_authorization = map_of hdrs ''Authorization'', rq_content_length = map_of hdrs ''Content-Length'',
             rq_body = body, rq_silent = True\<rparr> sv of
             (Inl x, sv1) \<Rightarrow> (Inl OSError, sv1)
           | (Inr r, sv1) \<Rightarrow> (Inr (rp_status r), sv1)))"

definition monitored :: "(string \<Rightarrow> string) \<Rightarrow> string \<Rightarrow> (int \<Rightarrow> received) \<Rightarrow> (int \<times> server) agent" where
  "monitored fr token now = \<lparr>a_clock = (\<lambda>w. (fst w, w)), a_sleep = (\<lambda>d w. (fst w + d, snd w)), a_report = (\<lambda>m w. w),
     a_transport = (\<lambda>e h b t w. case post_over fr token (now (fst w)) e h b (snd w) of
        (r, sv) \<Rightarrow> (r, (fst w + min t 1000000, sv)))\<rparr>"

lemma deliver_loop_success:
  assumes "deliver_loop ag send started budget attempts reason status w = (r, w')" and "dr_delivered r"
  shows "\<exists>t w0 st. send t w0 = (Inr st, w') \<and> 200 \<le> st \<and> st < 300"
  using assms
proof (induction "3 - attempts" arbitrary: attempts reason status w rule: less_induct)
  case less
  obtain now w1 where c: "a_clock ag w = (now, w1)" by fastforce
  obtain out w2 where send: "send (budget - (now - started)) w1 = (out, w2)" by fastforce
  obtain now2 w3 where c2: "a_clock ag w2 = (now2, w3)" by fastforce
  let ?next = "deliver_loop ag send started budget (attempts + 1) (failure_reason out)
      (case out of Inl x \<Rightarrow> status | Inr st \<Rightarrow> Some st) (a_sleep ag (min (2 ^ attempts * SECOND) (budget - (now2 - started))) w3)"
  have no: "\<not> dr_delivered (fst (give_up ag n rs st v))" for n rs st v by (simp add: give_up_def undelivered_def)
  have "success out \<and> w' = w2 \<or> \<not> MAX_RETRIES < attempts + 1 \<and> ?next = (r, w')"
    using less.prems deliver_loop_step [of ag w now w1 send budget started out w2 now2 w3 attempts reason status, OF c send c2] no
    by (auto simp: judge_cases split: if_splits) (metis fst_conv)+
  then show ?case
  proof
    assume "success out \<and> w' = w2"
    then show ?thesis using send by (auto simp: success_def split: sum.splits)
  next
    assume n: "\<not> MAX_RETRIES < attempts + 1 \<and> ?next = (r, w')"
    then have "3 - (attempts + 1) < 3 - attempts" by (auto simp: MAX_RETRIES_def)
    from less.hyps [OF this conjunct2 [OF n] less.prems(2)] show ?thesis .
  qed
qed

lemma ingested_logged:
  assumes "ingest s event at = (Inr (r, notified), s')" and "validate_event (thaw (ev_payload event)) = Inr event"
  shows "ev_id event \<in> set (map er_event_id (events (db s')))"
  using assms(1)
proof (cases rule: ingest_cases)
  case (duplicate e at' row)
  then have "row \<in> set (events (db s'))" "er_event_id row = ev_id event"
    using assms(2) by (auto dest: tbl_get_Some_in)
  then show ?thesis by force
next
  case (new e at' applied notified' d)
  obtain body where "events d = events (db s) @ [logged (db s) e at' body applied]"
    by (rule ingest_new_cases [OF new(4,3)]) blast
  then show ?thesis using new assms(2) by (simp add: logged_def)
qed simp

text \<open>
  What the sender reports delivered is in the monitor's log: over the monitor as its network, with
  any token, clock and number of attempts, a result \<^verbatim>\<open>delivered\<close> means that the store holds an event
  with the id of the event that was handed to \<^verbatim>\<open>deliver_event\<close>.
\<close>

lemma delivered_is_stored:
  assumes "deliver_event (monitored fr token now) event endpoint token' budget (t, sv) = (Inr r, (t', sv'))"
    and "dr_delivered r" and "py_dicts event"
  shows "\<exists>e. validate_event event = Inr e \<and> ev_id e \<in> set (map er_event_id (events (db (sv_store sv'))))"
proof -
  let ?ag = "monitored fr token now"
  obtain e body where v: "validate_event event = Inr e" "dumps compact (json_payload (ev_payload e)) = Inr body"
    using assms(1,2) by (auto simp: deliver_event_def undelivered_def split: sum.splits exn.splits)
  note b = sent_body [OF v(1) assms(3) v(2)]
  let ?send = "\<lambda>rem. a_transport ?ag endpoint (bearer_headers token' body) body (max 1000000 rem)"
  have "deliver_loop ?ag ?send (fst (a_clock ?ag (t, sv))) (min MAX_DELIVERY budget) 0 ''temporary_network_failure'' None
      (snd (a_clock ?ag (t, sv))) = (r, (t', sv'))"
    using assms(1,2) v by (auto simp: deliver_event_def Let_def undelivered_def split: prod.splits if_splits)
  from deliver_loop_success [OF this assms(2)] obtain rem w0 st where s: "?send rem w0 = (Inr st, (t', sv'))" "200 \<le> st" "st < 300"
    by blast
  obtain n0 sv0 where w0: "w0 = (n0, sv0)" by (cases w0)
  have p: "post_over fr token (now n0) endpoint (bearer_headers token' body) body sv0 = (Inr st, sv')"
    using s(1) w0 by (auto simp: monitored_def split: prod.splits)
  then obtain rq resp where d: "do_POST fr token (now n0) rq sv0 = (Inr resp, sv')" "rp_status resp = st" "rq_body rq = body"
    "rq_content_length rq = map_of (bearer_headers token' body) ''Content-Length''"
    by (auto simp: post_over_def split: sum.splits prod.splits)
  from d(1) show ?thesis
  proof (cases rule: do_POST_cases)
    case rejected
    then obtain reason status where "400 \<le> status"
      "Inr resp = rbind (dumps compact (error_body reason)) (\<lambda>t. Inr \<lparr>rp_status = status, rp_type = json_type, rp_body = t\<rparr>)"
      unfolding refused_def by auto
    then have "400 \<le> st" using d(2) by (cases "dumps compact (error_body reason)") auto
    then show ?thesis using s(3) by simp
  next
    case (raised x)
    then show ?thesis by simp
  next
    case (accepted n payload e' r' notified s1)
    have "n = length body" using accepted(2) d(4) b(5) by (auto simp: content_length_def bearer_headers_def)
    then have "payload = json_payload (ev_payload e)" using accepted(5) d(3) b(1) b(2) [of fr] by simp
    then have e': "e' = e" using accepted(6) b(3) by simp
    have "validate_event (thaw (ev_payload e)) = Inr e"
      using b(3) v(1) by (simp add: validate_event_iff event_of_def json_payload_freeze)
    then show ?thesis
      using ingested_logged [of "sv_store sv0" e "now n0" r' notified s1] accepted(7,8) e' v(1) by (simp add: send_json_def)
  qed
qed

lemma ingest1_watermark:
  "(case ingest_new empty_database finished_event ''2026-09-18T01:30:00Z'' of
      Inl x \<Rightarrow> False | Inr (_, _, d) \<Rightarrow> producer_watermark d finished_event = Some 4)"
  by code_simp

lemma accepted_dumps: "\<exists>t. dumps compact (accepted_body \<lparr>ir_event_id = i, ir_accepted = a, ir_duplicate = b,
    ir_projection_applied = c, ir_producer_watermark = Some 4\<rparr>) = Inr t"
  by (simp add: accepted_body_def obj_def watermark_value_def dump_int_def nat_digits.simps INT_MAX_STR_DIGITS_def)

lemma delivered_sample:
  "\<exists>r w'. deliver_event (monitored (\<lambda>x. x) ''secret'' (\<lambda>t. sample_time)) sample_finished ''http://monitor/v1/events'' ''secret''
       MAX_DELIVERY (0, \<lparr>sv_store = fresh_store, sv_reports = [], sv_discarded = 0\<rparr>) = (Inr r, w') \<and> dr_delivered r \<and>
     ev_id (event_of sample_finished) \<in> set (map er_event_id (events (db (sv_store (snd w')))))"
proof -
  let ?sv = "\<lparr>sv_store = fresh_store, sv_reports = [], sv_discarded = 0\<rparr>"
  let ?ag = "monitored (\<lambda>x. x) ''secret'' (\<lambda>t. sample_time)"
  obtain body where b: "dumps compact (json_payload (ev_payload (event_of sample_finished))) = Inr body" by (rule sample_body)
  have "is_ascii_text ''secret''" by code_simp
  note post = agent_request_understood_plain [OF sample_finished_valid sample_dicts_finished b this,
      where fr = "\<lambda>x. x" and now = sample_time and silent = True and sv = ?sv]
  obtain text' where tx: "do_POST (\<lambda>x. x) ''secret'' sample_time (agent_request ''secret'' body True) ?sv =
      (Inr \<lparr>rp_status = 202, rp_type = json_type, rp_body = text'\<rparr>, ?sv\<lparr>sv_store := store1\<rparr>)"
    using post store1_facts(5,6) ingest1_watermark accepted_dumps [of "ev_id finished_event" True False True]
    by (auto simp: finished_event_def send_json_def)
  have "case urlsplit ''http://monitor/v1/events'' of Inl x \<Rightarrow> False
    | Inr u \<Rightarrow> url_path u = ''/v1/events'' \<and> url_query u = []" by code_simp
  then have u: "\<exists>u. urlsplit ''http://monitor/v1/events'' = Inr u \<and> url_path u = ''/v1/events'' \<and> url_query u = []"
    by (auto split: sum.splits)
  have "post_over (\<lambda>x. x) ''secret'' sample_time ''http://monitor/v1/events'' (bearer_headers ''secret'' body) body ?sv =
      (Inr 202, ?sv\<lparr>sv_store := store1\<rparr>)"
    using u tx by (auto simp: post_over_def agent_request_def)
  then have d: "deliver_event ?ag sample_finished ''http://monitor/v1/events'' ''secret'' MAX_DELIVERY (0, ?sv) =
      (Inr \<lparr>dr_delivered = True, dr_attempts = 1, dr_reason = None, dr_http_status = Some 202\<rparr>, (1000000, ?sv\<lparr>sv_store := store1\<rparr>))"
    by (simp add: deliver_event_def sample_finished_valid b monitored_def deliver_loop.simps judge_def MAX_DELIVERY_def
        SECOND_def Let_def)
  from delivered_is_stored [OF d _ sample_dicts_finished] show ?thesis
    using d sample_finished_valid by simp
qed

end
