(* ===== verification/Disk.thy ===== *)
theory Disk
  imports PyBytes PyRegex PyValue
begin

section \<open>Calls that can fail\<close>

text \<open>
  What the components that keep files outside the outbox share: a state carries a script of
  outcomes, one for each call of the operating system that can fail, in the order in which the calls
  are made; when the script has run out, every call succeeds.  A statement about every script is a
  statement about failures at any point.  \<open>Fails x n\<close> raises \<open>x\<close>; a call on a directory tree has
  dealt with \<open>n\<close> of its files by then.
\<close>

datatype fault = Fine | Fails exn nat

text \<open>What \<^verbatim>\<open>except OSError\<close> catches: \<^verbatim>\<open>FileNotFoundError\<close> and \<^verbatim>\<open>TimeoutError\<close> are subclasses.\<close>

fun os_error :: "exn \<Rightarrow> bool" where
  "os_error OSError = True"
| "os_error FileNotFoundError = True"
| "os_error TimeoutError = True"
| "os_error _ = False"

fun next_fault :: "fault list \<Rightarrow> fault \<times> fault list" where
  "next_fault [] = (Fine, [])"
| "next_fault (f # fs) = (f, fs)"

text \<open>Statement after statement: an exception leaves the state as the failing statement left it.\<close>

definition sbind :: "'a res \<times> 's \<Rightarrow> ('a \<Rightarrow> 's \<Rightarrow> 'b res \<times> 's) \<Rightarrow> 'b res \<times> 's" where
  "sbind p f = (case p of (Inl x, s) \<Rightarrow> (Inl x, s) | (Inr a, s) \<Rightarrow> f a s)"

lemma sbind_simps [simp]:
  "sbind (Inl x, s) f = (Inl x, s)"
  "sbind (Inr a, s) f = f a s"
  by (simp_all add: sbind_def)

lemma sbind_Inr_iff [res_simps]:
  "sbind p f = (Inr b, s') \<longleftrightarrow> (\<exists>a s. p = (Inr a, s) \<and> f a s = (Inr b, s'))"
  by (cases p; cases "fst p") (auto simp: sbind_def)

lemma sbind_Inl_iff [res_simps]:
  "sbind p f = (Inl x, s') \<longleftrightarrow> p = (Inl x, s') \<or> (\<exists>a s. p = (Inr a, s) \<and> f a s = (Inl x, s'))"
  by (cases p; cases "fst p") (auto simp: sbind_def)

text \<open>A relation between states that every statement keeps is kept by their sequence.\<close>

lemma sbind_rel:
  assumes "sbind p f = (r, s')" and "R (snd p)" and "\<And>a s t. p = (Inr a, s) \<Longrightarrow> R s \<Longrightarrow> f a s = (r, t) \<Longrightarrow> R t"
  shows "R s'"
  using assms by (cases p; cases "fst p") (auto simp: sbind_def)

text \<open>\<^verbatim>\<open>"True"\<close> and \<^verbatim>\<open>"False"\<close>, as formatted strings show them.\<close>

definition bool_text :: "bool \<Rightarrow> string" where
  "bool_text b = (if b then ''True'' else ''False'')"

end
