(* ===== verification/Deploy.thy ===== *)
theory Deploy
  imports Disk
begin

section \<open>Deployment and rollback (\<^verbatim>\<open>deploy.py\<close>)\<close>

text \<open>
  Pinned revisions, the preflight battery, the release layout with its pointer file, the service
  adapter, \<^verbatim>\<open>deploy_release\<close> with its rollbacks, and the command.  The install root is a record of
  the release directories, the pointer file and the script of failing calls; probes, services and
  post-activation checks act on a world \<open>'w\<close> of the caller's.
\<close>

subsection \<open>Revisions\<close>

definition REASON_INVALID_REVISION :: string where
  "REASON_INVALID_REVISION = ''invalid_revision_identifier''"

definition revision_char :: "char \<Rightarrow> bool" where
  "revision_char c \<longleftrightarrow> is_alnum c \<or> c = CHR ''.'' \<or> c = CHR ''_'' \<or> c = CHR ''-''"

definition REVISION_PATTERN :: regex where
  "REVISION_PATTERN = token_re is_alnum revision_char 63"

text \<open>\<^verbatim>\<open>InvalidRevisionError\<close> is a \<^verbatim>\<open>ValueError\<close> with its reason; \<^verbatim>\<open>match\<close>, not \<^verbatim>\<open>fullmatch\<close>.\<close>

definition invalid_revision :: exn where
  "invalid_revision = ValueError REASON_INVALID_REVISION"

definition validate_revision :: "pyval \<Rightarrow> string res" where
  "validate_revision v =
     (case v of
        PStr s \<Rightarrow>
          if \<not> match_start REVISION_PATTERN s \<or> contains ''..'' s then Inl invalid_revision else Inr s
      | _ \<Rightarrow> Inl invalid_revision)"

subsection \<open>Preflight checks\<close>

record check_result =
  cr_name :: string
  cr_passed :: bool
  cr_reason :: string

definition checked :: "string \<Rightarrow> bool \<Rightarrow> string \<Rightarrow> check_result" where
  "checked name ok reason = \<lparr>cr_name = name, cr_passed = ok, cr_reason = (if ok then [] else reason)\<rparr>"

type_synonym preflight_report = "check_result list"

definition preflight_passed :: "preflight_report \<Rightarrow> bool" where
  "preflight_passed report = list_all cr_passed report"

definition failure_reasons :: "preflight_report \<Rightarrow> string list" where
  "failure_reasons report = map cr_reason (filter (\<lambda>c. \<not> cr_passed c) report)"

text \<open>A probe answers or raises.  The versions are pairs, compared as tuples.\<close>

type_synonym 'w probe = "'w \<Rightarrow> bool res \<times> 'w"

definition check_python_version :: "int \<times> int \<Rightarrow> int \<times> int \<Rightarrow> check_result" where
  "check_python_version version minimum =
     checked ''python_version''
       (fst minimum < fst version \<or> (fst minimum = fst version \<and> snd minimum \<le> snd version))
       ''unsupported_python_version''"

text \<open>
  \<open>info path\<close> is \<open>None\<close> when the path is not a file, and otherwise its size or the exception of
  \<^verbatim>\<open>stat\<close>; \<open>load\<close> is \<^verbatim>\<open>load_cert_chain\<close>, whose \<^verbatim>\<open>SSLError\<close> is an \<^verbatim>\<open>OSError\<close>.
\<close>

type_synonym file_info = "string \<Rightarrow> nat res option"

definition file_present :: "file_info \<Rightarrow> string \<Rightarrow> bool res" where
  "file_present info path =
     (case info path of None \<Rightarrow> Inr False | Some (Inl x) \<Rightarrow> Inl x | Some (Inr n) \<Rightarrow> Inr (0 < n))"

definition check_tls_certificate_file ::
  "file_info \<Rightarrow> (string \<Rightarrow> string \<Rightarrow> unit res) \<Rightarrow> string option \<Rightarrow> string option \<Rightarrow> check_result res" where
  "check_tls_certificate_file info load cert_path key_path =
     (case cert_path of
        None \<Rightarrow> Inr (checked ''tls_certificate'' False ''tls_certificate_file_missing'')
      | Some cert \<Rightarrow>
          rbind (file_present info cert) (\<lambda>ok.
            if \<not> ok then Inr (checked ''tls_certificate'' False ''tls_certificate_file_missing'')
            else case key_path of
              None \<Rightarrow> Inr (checked ''tls_certificate'' True [])
            | Some key \<Rightarrow>
                (case load cert key of
                   Inl x \<Rightarrow>
                     if os_error x then Inr (checked ''tls_certificate'' False ''tls_certificate_invalid'')
                     else Inl x
                 | Inr u \<Rightarrow> Inr (checked ''tls_certificate'' True []))))"

definition check_auth_credential_file :: "file_info \<Rightarrow> string option \<Rightarrow> check_result res" where
  "check_auth_credential_file info token_path =
     (case token_path of
        None \<Rightarrow> Inr (checked ''auth_credential'' False ''auth_credential_file_missing'')
      | Some path \<Rightarrow>
          rbind (file_present info path) (\<lambda>ok. Inr (checked ''auth_credential'' ok ''auth_credential_file_missing'')))"

text \<open>\<^verbatim>\<open>except Exception\<close>: a probe that raises has not passed.  The sleeper is given nanoseconds.\<close>

definition probe_passed :: "bool res \<Rightarrow> bool" where
  "probe_passed r = (case r of Inl x \<Rightarrow> False | Inr b \<Rightarrow> b)"

definition check_firewall_port :: "'w probe option \<Rightarrow> 'w \<Rightarrow> check_result \<times> 'w" where
  "check_firewall_port probe w =
     (case probe of
        None \<Rightarrow> (checked ''firewall'' False ''firewall_check_not_configured'', w)
      | Some p \<Rightarrow>
          (case p w of (r, w1) \<Rightarrow> (checked ''firewall'' (probe_passed r) ''firewall_port_blocked'', w1)))"

function host_loop :: "'w probe \<Rightarrow> (int \<Rightarrow> 'w \<Rightarrow> 'w) \<Rightarrow> int \<Rightarrow> int \<Rightarrow> 'w \<Rightarrow> bool \<times> 'w" where
  "host_loop p sleeper max_attempts attempt w =
     (if max_attempts < attempt then (False, w)
      else case p w of (r, w1) \<Rightarrow>
        if probe_passed r then (True, w1)
        else host_loop p sleeper max_attempts (attempt + 1)
          (if attempt < max_attempts then sleeper 1000000000 w1 else w1))"
  by pat_completeness auto
termination
  by (relation "measure (\<lambda>(p, sleeper, m, a, w). nat (m + 1 - a))") auto

declare host_loop.simps [simp del]

definition check_host_reachable ::
  "'w probe option \<Rightarrow> int \<Rightarrow> (int \<Rightarrow> 'w \<Rightarrow> 'w) \<Rightarrow> 'w \<Rightarrow> check_result \<times> 'w" where
  "check_host_reachable probe max_attempts sleeper w =
     (case probe of
        None \<Rightarrow> (checked ''host_reachable'' False ''host_reachability_check_not_configured'', w)
      | Some p \<Rightarrow>
          (case host_loop p sleeper max_attempts 1 w of
             (ok, w1) \<Rightarrow> (checked ''host_reachable'' ok ''monitor_host_unreachable'', w1)))"

record 'w preflight_env =
  pf_python_version :: "int \<times> int"
  pf_file_info :: file_info
  pf_load_cert_chain :: "string \<Rightarrow> string \<Rightarrow> unit res"
  pf_max_host_attempts :: int
  pf_sleeper :: "int \<Rightarrow> 'w \<Rightarrow> 'w"

definition MINIMUM_PYTHON_VERSION :: "int \<times> int" where
  "MINIMUM_PYTHON_VERSION = (3, 11)"

definition run_preflight ::
  "'w preflight_env \<Rightarrow> string option \<Rightarrow> string option \<Rightarrow> string option \<Rightarrow> 'w probe option \<Rightarrow> 'w probe option \<Rightarrow>
     'w \<Rightarrow> preflight_report res \<times> 'w" where
  "run_preflight env tls_cert tls_key auth_token firewall host w =
     (case check_tls_certificate_file (pf_file_info env) (pf_load_cert_chain env) tls_cert tls_key of
        Inl x \<Rightarrow> (Inl x, w)
      | Inr tls \<Rightarrow>
          (case check_auth_credential_file (pf_file_info env) auth_token of
             Inl x \<Rightarrow> (Inl x, w)
           | Inr auth \<Rightarrow>
               (case check_firewall_port firewall w of (fw, w1) \<Rightarrow>
                  (case check_host_reachable host (pf_max_host_attempts env) (pf_sleeper env) w1 of (hr, w2) \<Rightarrow>
                     (Inr [check_python_version (pf_python_version env) MINIMUM_PYTHON_VERSION, tls, auth, fw, hr],
                      w2)))))"

subsection \<open>The release layout\<close>

text \<open>
  The files of one directory, as pairs of a relative path and its bytes.  \<open>releases\<close> are the
  directories below \<^verbatim>\<open>releases/\<close> by name, \<open>pointer\<close> is the content of \<^verbatim>\<open>current-release.txt\<close>, and
  \<open>stray\<close> counts temporary pointer files that could not be removed.
\<close>

type_synonym release_tree = "(string \<times> string) list"

record install =
  releases :: "string \<Rightarrow> release_tree option"
  pointer :: "string option"
  stray :: nat
  faults :: "fault list"

definition set_release :: "string \<Rightarrow> release_tree option \<Rightarrow> install \<Rightarrow> install" where
  "set_release name t d = d\<lparr>releases := (releases d)(name := t)\<rparr>"

definition call :: "install \<Rightarrow> fault \<times> install" where
  "call d = (case next_fault (faults d) of (f, fs) \<Rightarrow> (f, d\<lparr>faults := fs\<rparr>))"

definition attempt :: "install \<Rightarrow> unit res \<times> install" where
  "attempt d = (case call d of (Fine, d1) \<Rightarrow> (Inr (), d1) | (Fails x n, d1) \<Rightarrow> (Inl x, d1))"

text \<open>\<^verbatim>\<open>shutil.rmtree\<close>: when it fails, the files that it had not come to are left.\<close>

definition remove_tree :: "string \<Rightarrow> install \<Rightarrow> unit res \<times> install" where
  "remove_tree name d =
     (case releases d name of
        None \<Rightarrow> (Inl FileNotFoundError, d)
      | Some t \<Rightarrow>
          (case call d of
             (Fine, d1) \<Rightarrow> (Inr (), set_release name None d1)
           | (Fails x n, d1) \<Rightarrow> (Inl x, set_release name (Some (drop n t)) d1)))"

text \<open>
  \<^verbatim>\<open>shutil.copytree\<close>: \<open>source\<close> is the directory to copy, or the exception of listing it; when the copy
  fails, the files that it had come to are there.
\<close>

definition copy_tree :: "release_tree res \<Rightarrow> string \<Rightarrow> install \<Rightarrow> unit res \<times> install" where
  "copy_tree source name d =
     (case source of
        Inl x \<Rightarrow> (Inl x, d)
      | Inr t \<Rightarrow>
          (case call d of
             (Fine, d1) \<Rightarrow> (Inr (), set_release name (Some t) d1)
           | (Fails x n, d1) \<Rightarrow> (Inl x, set_release name (Some (take n t)) d1)))"

definition rename_tree :: "string \<Rightarrow> string \<Rightarrow> install \<Rightarrow> unit res \<times> install" where
  "rename_tree src dst d =
     sbind (attempt d) (\<lambda>u d1. (Inr (), set_release src None (set_release dst (releases d1 src) d1)))"

definition release_path :: "string \<Rightarrow> string res" where
  "release_path revision = validate_revision (PStr revision)"

definition current_revision :: "install \<Rightarrow> string option res \<times> install" where
  "current_revision d =
     (case pointer d of
        None \<Rightarrow> (Inr None, d)
      | Some bytes \<Rightarrow>
          sbind (attempt d) (\<lambda>u d1.
            case read_text bytes of
              Inl x \<Rightarrow> (Inl x, d1)
            | Inr t \<Rightarrow> (Inr (if strip t = [] then None else Some (strip t)), d1)))"

definition release_exists :: "string \<Rightarrow> install \<Rightarrow> bool res" where
  "release_exists revision d = rbind (release_path revision) (\<lambda>name. Inr (releases d name \<noteq> None))"

definition staging_name :: "string \<Rightarrow> string \<Rightarrow> string" where
  "staging_name pid revision = ''.'' @ revision @ ''.staging-'' @ pid"

definition remove_existing :: "string \<Rightarrow> install \<Rightarrow> unit res \<times> install" where
  "remove_existing name d = (if releases d name \<noteq> None then remove_tree name d else (Inr (), d))"

definition stage_release ::
  "string \<Rightarrow> string \<Rightarrow> release_tree res \<Rightarrow> install \<Rightarrow> string res \<times> install" where
  "stage_release pid revision source d =
     (case release_path revision of
        Inl x \<Rightarrow> (Inl x, d)
      | Inr target \<Rightarrow>
          (let staging = staging_name pid revision in
           sbind (attempt d) (\<lambda>u d1.
           sbind (remove_existing staging d1) (\<lambda>u d2.
           sbind (copy_tree source staging d2) (\<lambda>u d3.
           sbind (remove_existing target d3) (\<lambda>u d4.
           sbind (rename_tree staging target d4) (\<lambda>u d5. (Inr target, d5))))))))"

text \<open>
  \<^verbatim>\<open>activate\<close>: the directory is made, a temporary file created, written and renamed over the pointer.
  \<open>discard_temp\<close> is the cleanup after a failure; what it raises itself replaces the first exception
  unless it is an \<^verbatim>\<open>OSError\<close>.
\<close>

definition discard_temp :: "exn \<Rightarrow> install \<Rightarrow> unit res \<times> install" where
  "discard_temp x d =
     (case attempt d of
        (Inr u, d1) \<Rightarrow> (Inl x, d1)
      | (Inl y, d1) \<Rightarrow> (Inl (if os_error y then x else y), d1\<lparr>stray := stray d1 + 1\<rparr>))"

definition activate :: "string \<Rightarrow> install \<Rightarrow> unit res \<times> install" where
  "activate revision d =
     (case release_exists revision d of
        Inl x \<Rightarrow> (Inl x, d)
      | Inr False \<Rightarrow> (Inl FileNotFoundError, d)
      | Inr True \<Rightarrow>
          sbind (attempt d) (\<lambda>u d1.
          sbind (attempt d1) (\<lambda>u d2.
            case sbind (attempt d2) (\<lambda>u d3. attempt d3) of
              (Inl x, d4) \<Rightarrow> discard_temp x d4
            | (Inr u, d4) \<Rightarrow> (Inr (), d4\<lparr>pointer := Some (utf8_encode revision)\<rparr>))))"

text \<open>A pointer that is gone when it is to be removed is no failure.\<close>

definition deactivate :: "install \<Rightarrow> unit res \<times> install" where
  "deactivate d =
     (case pointer d of
        None \<Rightarrow> (Inr (), d)
      | Some bytes \<Rightarrow>
          (case attempt d of
             (Inl x, d1) \<Rightarrow> if x = FileNotFoundError then (Inr (), d1\<lparr>pointer := None\<rparr>) else (Inl x, d1)
           | (Inr u, d1) \<Rightarrow> (Inr (), d1\<lparr>pointer := None\<rparr>)))"

subsection \<open>The service\<close>

record 'w service =
  svc_stop :: "'w probe"
  svc_start :: "'w probe"

text \<open>
  \<^verbatim>\<open>WindowsScServiceLifecycle\<close> over a runner of \<^verbatim>\<open>sc.exe\<close>, which gives a return code and two texts
  or raises.
\<close>

record sc_result =
  sc_returncode :: int
  sc_stdout :: string
  sc_stderr :: string

type_synonym 'w sc_runner = "string list \<Rightarrow> 'w \<Rightarrow> sc_result res \<times> 'w"

definition upper :: "char \<Rightarrow> char" where
  "upper c = (if is_lower c then char_of (code c - 32) else c)"

definition sc_status_of :: "sc_result res \<Rightarrow> string" where
  "sc_status_of r =
     (case r of
        Inl x \<Rightarrow> ''unknown''
      | Inr result \<Rightarrow>
          (let out = map upper (sc_stdout result @ [newline] @ sc_stderr result) in
           if sc_returncode result \<noteq> 0 \<and> \<not> contains ''STOPPED'' out then ''unknown''
           else if contains ''RUNNING'' out then ''running''
           else if contains ''STOPPED'' out then ''stopped'' else ''unknown''))"

definition sc_status :: "'w sc_runner \<Rightarrow> string \<Rightarrow> 'w \<Rightarrow> string \<times> 'w" where
  "sc_status runner name w = (case runner [''query'', name] w of (r, w1) \<Rightarrow> (sc_status_of r, w1))"

definition sc_invoke :: "'w sc_runner \<Rightarrow> string \<Rightarrow> string \<Rightarrow> 'w \<Rightarrow> bool \<times> 'w" where
  "sc_invoke runner name action w =
     (case runner [action, name] w of
        (r, w1) \<Rightarrow> ((case r of Inl x \<Rightarrow> False | Inr result \<Rightarrow> sc_returncode result = 0), w1))"

definition sc_change :: "'w sc_runner \<Rightarrow> string \<Rightarrow> string \<Rightarrow> string \<Rightarrow> 'w probe" where
  "sc_change runner name reached action w =
     (case sc_status runner name w of
        (st, w1) \<Rightarrow>
          if st = reached then (Inr True, w1)
          else (case sc_invoke runner name action w1 of (ok, w2) \<Rightarrow> (Inr ok, w2)))"

definition windows_service :: "'w sc_runner \<Rightarrow> string \<Rightarrow> 'w service" where
  "windows_service runner name =
     \<lparr>svc_stop = sc_change runner name ''stopped'' ''stop'',
      svc_start = sc_change runner name ''running'' ''start''\<rparr>"

subsection \<open>Deploying\<close>

record deploy_result =
  dp_revision :: string
  dp_success :: bool
  dp_rolled_back :: bool
  dp_restored :: "string option"
  dp_reason :: string

definition not_deployed :: "string \<Rightarrow> bool \<Rightarrow> string option \<Rightarrow> string \<Rightarrow> deploy_result" where
  "not_deployed revision rolled_back restored reason =
     \<lparr>dp_revision = revision, dp_success = False, dp_rolled_back = rolled_back, dp_restored = restored,
      dp_reason = reason\<rparr>"

definition deployed :: "string \<Rightarrow> deploy_result" where
  "deployed revision =
     \<lparr>dp_revision = revision, dp_success = True, dp_rolled_back = False, dp_restored = None, dp_reason = []\<rparr>"

text \<open>A post-activation check reads the installation and acts on the caller's world.\<close>

type_synonym 'w check = "install \<Rightarrow> 'w probe"

fun run_checks :: "(string \<times> 'w check) list \<Rightarrow> install \<Rightarrow> 'w \<Rightarrow> string option \<times> 'w" where
  "run_checks [] d w = (None, w)"
| "run_checks ((name, check) # rest) d w =
     (case check d w of
        (r, w1) \<Rightarrow> if probe_passed r then run_checks rest d w1 else (Some (name @ ''_failed''), w1))"

definition ask_service :: "('w service \<Rightarrow> 'w probe) \<Rightarrow> 'w service option \<Rightarrow> 'w \<Rightarrow> bool \<times> 'w" where
  "ask_service action service w =
     (case service of
        None \<Rightarrow> (True, w)
      | Some sv \<Rightarrow> (case action sv w of (r, w1) \<Rightarrow> (probe_passed r, w1)))"

text \<open>Staging and activation, and what restores the previous state when one of them fails.\<close>

definition stage_and_activate ::
  "string \<Rightarrow> string \<Rightarrow> release_tree res \<Rightarrow> install \<Rightarrow> unit res \<times> install" where
  "stage_and_activate pid revision source d =
     sbind (stage_release pid revision source d) (\<lambda>path d1. activate revision d1)"

definition deployment_failure_reason :: "exn \<Rightarrow> string" where
  "deployment_failure_reason x =
     (if x = FileNotFoundError then ''source_unavailable''
      else if os_error x then ''install_root_unwritable'' else ''deployment_failed'')"

definition restore_previous :: "string option \<Rightarrow> install \<Rightarrow> unit res \<times> install" where
  "restore_previous previous d =
     (case previous of
        None \<Rightarrow> deactivate d
      | Some p \<Rightarrow>
          (case release_exists p d of
             Inl x \<Rightarrow> (Inl x, d)
           | Inr there \<Rightarrow> if there then activate p d else (Inr (), d)))"

definition abandon_staging ::
  "string \<Rightarrow> string option \<Rightarrow> exn \<Rightarrow> 'w service option \<Rightarrow> install \<Rightarrow> 'w \<Rightarrow> deploy_result res \<times> install \<times> 'w" where
  "abandon_staging revision previous x service d w =
     (case restore_previous previous d of
        (Inl y, d1) \<Rightarrow> (Inl y, d1, w)
      | (Inr u, d1) \<Rightarrow>
          (Inr (not_deployed revision (previous \<noteq> None) previous (deployment_failure_reason x)), d1,
           snd (ask_service svc_start service w)))"

definition rollback_after_failure ::
  "string \<Rightarrow> string option \<Rightarrow> string \<Rightarrow> 'w service option \<Rightarrow> install \<Rightarrow> 'w \<Rightarrow> deploy_result res \<times> install \<times> 'w" where
  "rollback_after_failure revision previous reason service d w =
     (case previous of
        None \<Rightarrow>
          (case deactivate d of
             (Inl x, d1) \<Rightarrow> (Inl x, d1, w)
           | (Inr u, d1) \<Rightarrow> (Inr (not_deployed revision True None reason), d1, w))
      | Some p \<Rightarrow>
          (case release_exists p d of
             Inl x \<Rightarrow> (Inl x, d, w)
           | Inr False \<Rightarrow>
               (case deactivate d of
                  (Inl x, d1) \<Rightarrow> (Inl x, d1, w)
                | (Inr u, d1) \<Rightarrow> (Inr (not_deployed revision True None ''rollback_target_missing''), d1, w))
           | Inr True \<Rightarrow>
               (case activate p d of
                  (Inl x, d1) \<Rightarrow> (Inl x, d1, w)
                | (Inr u, d1) \<Rightarrow>
                    (Inr (not_deployed revision True (Some p) reason), d1,
                     snd (ask_service svc_start service w)))))"

definition deploy_stopped ::
  "string \<Rightarrow> string \<Rightarrow> release_tree res \<Rightarrow> (string \<times> 'w check) list \<Rightarrow> 'w service option \<Rightarrow>
     string option \<Rightarrow> install \<Rightarrow> 'w \<Rightarrow> deploy_result res \<times> install \<times> 'w" where
  "deploy_stopped pid revision source checks service previous d w =
     (case stage_and_activate pid revision source d of
        (Inl x, d1) \<Rightarrow> abandon_staging revision previous x service d1 w
      | (Inr u, d1) \<Rightarrow>
          (case run_checks checks d1 w of
             (Some reason, w1) \<Rightarrow> rollback_after_failure revision previous reason service d1 w1
           | (None, w1) \<Rightarrow>
               (case ask_service svc_start service w1 of
                  (False, w2) \<Rightarrow> rollback_after_failure revision previous ''service_start_failed'' service d1 w2
                | (True, w2) \<Rightarrow> (Inr (deployed revision), d1, w2))))"

definition deploy_release ::
  "string \<Rightarrow> string \<Rightarrow> release_tree res \<Rightarrow> preflight_report \<Rightarrow> (string \<times> 'w check) list \<Rightarrow>
     'w service option \<Rightarrow> install \<Rightarrow> 'w \<Rightarrow> deploy_result res \<times> install \<times> 'w" where
  "deploy_release pid revision source report checks service d w =
     (case validate_revision (PStr revision) of
        Inl x \<Rightarrow> (Inl x, d, w)
      | Inr pinned \<Rightarrow>
          (case current_revision d of
             (Inl x, d1) \<Rightarrow> (Inl x, d1, w)
           | (Inr previous, d1) \<Rightarrow>
               if \<not> preflight_passed report then
                 (Inr (not_deployed pinned False previous
                   (case failure_reasons report of [] \<Rightarrow> ''preflight_failed'' | reason # rest \<Rightarrow> reason)), d1, w)
               else
                 (case ask_service svc_stop service w of
                    (False, w1) \<Rightarrow> (Inr (not_deployed pinned False previous ''service_stop_failed''), d1, w1)
                  | (True, w1) \<Rightarrow> deploy_stopped pid pinned source checks service previous d1 w1)))"

text \<open>\<^verbatim>\<open>default_smoke_test\<close> over a runner of subprocesses, given the release's path.\<close>

definition smoke_command :: "string \<Rightarrow> string list" where
  "smoke_command python = [python, ''-m'', ''runner_observability'', ''--help'']"

definition default_smoke_test ::
  "(string list \<Rightarrow> string \<Rightarrow> string \<Rightarrow> 'w \<Rightarrow> int res \<times> 'w) \<Rightarrow> string \<Rightarrow> string \<Rightarrow> 'w \<Rightarrow> bool \<times> 'w" where
  "default_smoke_test run python path w =
     (case run (smoke_command python) path (path @ ''/src'') w of
        (r, w1) \<Rightarrow> ((case r of Inl x \<Rightarrow> False | Inr returncode \<Rightarrow> returncode = 0), w1))"

end
