(* ===== verification/DeployCommand.thy ===== *)
theory DeployCommand
  imports Deploy
begin

section \<open>The deployment command (\<^verbatim>\<open>main\<close> of \<^verbatim>\<open>deploy.py\<close>)\<close>

text \<open>
  The arguments as \<^verbatim>\<open>argparse\<close> returns them, the probes and adapters that a caller may inject, and
  what the command prints.  A printer that raises is not modelled.
\<close>

record deploy_options =
  op_tls_cert :: "string option"
  op_tls_key :: "string option"
  op_auth_token :: "string option"
  op_firewall :: "string option"
  op_host :: "string option"

datatype deploy_command =
    PreflightCommand deploy_options
  | InstallCommand string string string deploy_options "string option"

record 'w deploy_env =
  de_preflight :: "'w preflight_env"
  de_firewall_probe :: "'w probe option"
  de_host_probe :: "'w probe option"
  de_smoke_test :: "string \<Rightarrow> 'w check"
  de_service :: "'w service option"
  de_sc :: "'w sc_runner"
  de_source :: "string \<Rightarrow> release_tree res"
  de_pid :: string

definition probe_from_result :: "string option \<Rightarrow> 'w probe option" where
  "probe_from_result v =
     (if v = Some ''pass'' then Some (\<lambda>w. (Inr True, w))
      else if v = Some ''fail'' then Some (\<lambda>w. (Inr False, w)) else None)"

definition effective_probe :: "'w probe option \<Rightarrow> string option \<Rightarrow> 'w probe option" where
  "effective_probe injected v = (case injected of None \<Rightarrow> probe_from_result v | Some p \<Rightarrow> Some p)"

definition preflight_line :: "check_result \<Rightarrow> string" where
  "preflight_line c =
     ''  - '' @ cr_name c @ '': '' @ (if cr_passed c then ''PASS'' else ''FAIL'') @
     (if cr_reason c = [] then [] else '' reason='' @ cr_reason c)"

definition print_preflight :: "preflight_report \<Rightarrow> string list" where
  "print_preflight report =
     (''preflight passed='' @ bool_text (preflight_passed report)) # map preflight_line report"

definition preflight_of :: "'w deploy_env \<Rightarrow> deploy_options \<Rightarrow> 'w \<Rightarrow> preflight_report res \<times> 'w" where
  "preflight_of env op w =
     run_preflight (de_preflight env) (op_tls_cert op) (op_tls_key op) (op_auth_token op)
       (effective_probe (de_firewall_probe env) (op_firewall op))
       (effective_probe (de_host_probe env) (op_host op)) w"

definition preflight_main :: "'w deploy_env \<Rightarrow> deploy_options \<Rightarrow> 'w \<Rightarrow> int \<times> string list \<times> 'w" where
  "preflight_main env op w =
     (case preflight_of env op w of
        (Inl x, w1) \<Rightarrow> (1, [''preflight passed=False reason=unexpected_deploy_error''], w1)
      | (Inr report, w1) \<Rightarrow> ((if preflight_passed report then 0 else 1), print_preflight report, w1))"

definition failure_line :: "string \<Rightarrow> string \<Rightarrow> string \<Rightarrow> string" where
  "failure_line name revision reason =
     ''deploy command='' @ name @ '' revision='' @ revision @ '' success=False rolled_back=False reason='' @ reason"

definition result_line :: "string \<Rightarrow> deploy_result \<Rightarrow> string" where
  "result_line name r =
     ''deploy command='' @ name @ '' revision='' @ dp_revision r @ '' success='' @ bool_text (dp_success r) @
     '' rolled_back='' @ bool_text (dp_rolled_back r) @ '' reason='' @
     (if dp_reason r = [] then ''none'' else dp_reason r)"

definition raised_line :: "string \<Rightarrow> string \<Rightarrow> exn \<Rightarrow> string" where
  "raised_line name revision x =
     (if x = invalid_revision then failure_line name ''INVALID'' REASON_INVALID_REVISION
      else if x = FileNotFoundError then failure_line name revision ''source_unavailable''
      else if os_error x then failure_line name revision ''install_root_unwritable''
      else failure_line name revision ''unexpected_deploy_error'')"

text \<open>The injected smoke test gets the release's path, which is the validated revision.\<close>

definition smoke_check :: "'w deploy_env \<Rightarrow> string \<Rightarrow> 'w check" where
  "smoke_check env revision d w =
     (case release_path revision of Inl x \<Rightarrow> (Inl x, w) | Inr name \<Rightarrow> de_smoke_test env name d w)"

definition effective_service :: "'w deploy_env \<Rightarrow> string option \<Rightarrow> 'w service option" where
  "effective_service env service_name =
     (case de_service env of
        Some sv \<Rightarrow> Some sv
      | None \<Rightarrow>
          (case service_name of
             Some (c # cs) \<Rightarrow> Some (windows_service (de_sc env) (c # cs))
           | _ \<Rightarrow> None))"

text \<open>Only the preflight of an installation runs outside the handlers.\<close>

definition install_main ::
  "'w deploy_env \<Rightarrow> string \<Rightarrow> string \<Rightarrow> string \<Rightarrow> deploy_options \<Rightarrow> string option \<Rightarrow> install \<Rightarrow> 'w \<Rightarrow>
     int res \<times> string list \<times> install \<times> 'w" where
  "install_main env name revision source op service_name d w =
     (case preflight_of env op w of
        (Inl x, w1) \<Rightarrow> (Inl x, [], d, w1)
      | (Inr report, w1) \<Rightarrow>
          (case deploy_release (de_pid env) revision (de_source env source) report
              [(''smoke_test'', smoke_check env revision)] (effective_service env service_name) d w1 of
             (Inl x, d1, w2) \<Rightarrow> (Inr 1, print_preflight report @ [raised_line name revision x], d1, w2)
           | (Inr r, d1, w2) \<Rightarrow>
               (Inr (if dp_success r then 0 else 1), print_preflight report @ [result_line name r], d1, w2)))"

definition deploy_main ::
  "'w deploy_env \<Rightarrow> deploy_command \<Rightarrow> install \<Rightarrow> 'w \<Rightarrow> int res \<times> string list \<times> install \<times> 'w" where
  "deploy_main env cmd d w =
     (case cmd of
        PreflightCommand op \<Rightarrow> (case preflight_main env op w of (status, out, w1) \<Rightarrow> (Inr status, out, d, w1))
      | InstallCommand name revision source op service_name \<Rightarrow>
          install_main env name revision source op service_name d w)"

end
