(* ===== verification/DeployProperties.thy ===== *)
theory DeployProperties
  imports DeployCommand
begin

section \<open>What a deployment guarantees\<close>

text \<open>
  Effects of the calls on the installation, then the guarantees of \<^verbatim>\<open>deploy_release\<close>: other releases
  are never touched, a failure leaves the previous revision active, a success means what it says.
\<close>

named_theorems install_simps \<open>what each call changes of the installation\<close>

subsection \<open>Names\<close>

lemma validate_revision_Inr:
  "validate_revision v = Inr s \<longleftrightarrow> v = PStr s \<and> match_start REVISION_PATTERN s \<and> \<not> contains ''..'' s"
  by (auto simp: validate_revision_def split: pyval.splits if_splits)

lemma release_path_Inr: "release_path r = Inr s \<Longrightarrow> s = r"
  by (simp add: release_path_def validate_revision_Inr)

lemma REVISION_PATTERN_chars:
  assumes "match_start REVISION_PATTERN s"
  shows "s \<noteq> [] \<and> is_alnum (hd s) \<and> (\<forall>c \<in> set s. revision_char c \<or> c = newline)"
proof -
  have alnum: "is_alnum c \<Longrightarrow> revision_char c" for c by (simp add: revision_char_def)
  have full: "t \<noteq> [] \<and> is_alnum (hd t) \<and> (\<forall>c \<in> set t. revision_char c)"
    if "fullmatch REVISION_PATTERN t" for t
    using that alnum by (cases t) (auto simp: REVISION_PATTERN_def fullmatch_token_re list_all_iff)
  from assms consider "fullmatch REVISION_PATTERN s"
    | t where "s = t @ [newline]" "fullmatch REVISION_PATTERN t"
    unfolding REVISION_PATTERN_def match_start_token_re by blast
  then show ?thesis
  proof cases
    case 1
    with full show ?thesis by blast
  next
    case (2 t)
    with full [of t] show ?thesis by auto
  qed
qed

text \<open>A name below \<^verbatim>\<open>releases/\<close> that the code accepts has no path in it and does not start with a dot.\<close>

lemma not_revision_chars:
  "\<not> is_alnum (CHR ''.'')" "\<not> revision_char (CHR ''/'')" "\<not> revision_char (CHR 0x5C)" "\<not> revision_char carriage"
  "\<not> revision_char newline"
  by (code_simp)+

lemma release_name_plain:
  assumes "release_path r = Inr s"
  shows "hd s \<noteq> CHR ''.'' \<and> CHR ''/'' \<notin> set s \<and> CHR 0x5C \<notin> set s \<and> carriage \<notin> set s \<and> \<not> contains ''..'' s"
proof -
  have "CHR ''/'' \<noteq> newline" "CHR 0x5C \<noteq> newline" "carriage \<noteq> newline" by code_simp+
  then show ?thesis
    using assms REVISION_PATTERN_chars [of s] not_revision_chars
    unfolding release_path_def validate_revision_Inr by metis
qed

lemma staging_name_not_release: "release_path n = Inr n \<Longrightarrow> n \<noteq> staging_name pid r"
  using release_name_plain [of n n] by (auto simp: staging_name_def)

subsection \<open>Effects\<close>

lemma attempt_install [install_simps]:
  assumes "attempt d = (r, d')"
  shows "releases d' = releases d \<and> pointer d' = pointer d \<and> stray d' = stray d"
  using assms by (auto simp: attempt_def call_def split: prod.splits fault.splits)

lemma current_revision_install [install_simps]:
  assumes "current_revision d = (r, d')"
  shows "releases d' = releases d \<and> pointer d' = pointer d"
  using assms attempt_install
  by (auto simp: current_revision_def sbind_def split: option.splits prod.splits sum.splits)

lemma deactivate_install [install_simps]:
  assumes "deactivate d = (r, d')"
  shows "releases d' = releases d \<and> pointer d' = (if res_ok r then None else pointer d)"
  using assms attempt_install
  by (auto simp: deactivate_def split: option.splits prod.splits sum.splits if_splits)

lemma discard_temp_install:
  assumes "discard_temp x d = (r, d')"
  shows "releases d' = releases d \<and> pointer d' = pointer d \<and> \<not> res_ok r"
  using assms attempt_install by (auto simp: discard_temp_def split: prod.splits sum.splits if_splits)

lemma activate_install [install_simps]:
  assumes "activate r d = (res, d')"
  shows "releases d' = releases d \<and> pointer d' = (if res_ok res then Some (utf8_encode r) else pointer d) \<and>
    (res_ok res \<longrightarrow> release_exists r d = Inr True)"
  using assms
  by (auto simp: activate_def sbind_def split: sum.splits bool.splits prod.splits
      dest!: attempt_install discard_temp_install)

lemma set_release_install [install_simps]:
  "releases (set_release n t d) = (releases d)(n := t)" "pointer (set_release n t d) = pointer d"
  by (simp_all add: set_release_def)

text \<open>A call that writes only below the names in \<open>N\<close>, and not the pointer.\<close>

definition only_below :: "string set \<Rightarrow> install \<Rightarrow> install \<Rightarrow> bool" where
  "only_below N d d' \<longleftrightarrow> (\<forall>n. n \<notin> N \<longrightarrow> releases d' n = releases d n) \<and> pointer d' = pointer d"

lemma only_below_refl [simp]: "only_below N d d"
  by (simp add: only_below_def)

lemma only_below_trans: "only_below N a b \<Longrightarrow> only_below N b c \<Longrightarrow> only_below N a c"
  by (simp add: only_below_def)

lemma call_install: "call d = (f, d') \<Longrightarrow> releases d' = releases d \<and> pointer d' = pointer d"
  by (auto simp: call_def split: prod.splits)

lemma sbind_only_below:
  assumes "only_below N d (snd p)" and "\<And>a s. p = (Inr a, s) \<Longrightarrow> only_below N s (snd (f a s))"
  shows "only_below N d (snd (sbind p f))"
  using assms only_below_trans by (cases p; cases "fst p") (auto simp: sbind_def)

lemma attempt_only_below: "only_below N d (snd (attempt d))"
  using attempt_install [of d] by (cases "attempt d") (auto simp: only_below_def)

lemma remove_tree_only_below: "n \<in> N \<Longrightarrow> only_below N d (snd (remove_tree n d))"
  by (auto simp: remove_tree_def only_below_def install_simps split: option.splits prod.splits fault.splits
      dest!: call_install)

lemma remove_existing_only_below: "n \<in> N \<Longrightarrow> only_below N d (snd (remove_existing n d))"
  by (simp add: remove_existing_def remove_tree_only_below)

lemma copy_tree_only_below: "n \<in> N \<Longrightarrow> only_below N d (snd (copy_tree source n d))"
  by (auto simp: copy_tree_def only_below_def install_simps split: sum.splits prod.splits fault.splits
      dest!: call_install)

lemma rename_tree_only_below: "m \<in> N \<Longrightarrow> n \<in> N \<Longrightarrow> only_below N d (snd (rename_tree m n d))"
  unfolding rename_tree_def
  by (intro sbind_only_below attempt_only_below) (simp add: only_below_def install_simps)

lemmas tree_calls_only_below =
  sbind_only_below attempt_only_below remove_existing_only_below copy_tree_only_below rename_tree_only_below

lemma stage_release_only_below:
  assumes "stage_release pid r source d = (res, d')"
  shows "only_below {r, staging_name pid r} d d'"
proof (cases "release_path r")
  case (Inl x)
  then show ?thesis using assms by (simp add: stage_release_def)
next
  case (Inr target)
  then have t: "target = r" by (rule release_path_Inr)
  have "only_below {r, staging_name pid r} d (snd (stage_release pid r source d))"
    unfolding stage_release_def Inr sum.case Let_def t
    by (intro tree_calls_only_below) simp_all
  then show ?thesis using assms by simp
qed

lemma copy_tree_done:
  "copy_tree source n d = (Inr u, d') \<Longrightarrow> \<exists>t. source = Inr t \<and> releases d' n = Some t"
  by (auto simp: copy_tree_def install_simps split: sum.splits prod.splits fault.splits)

lemma stage_release_done:
  assumes "stage_release pid r source d = (Inr p, d')"
  shows "\<exists>t. source = Inr t \<and> releases d' r = Some t"
proof -
  obtain target where "release_path r = Inr target"
    using assms by (cases "release_path r") (auto simp: stage_release_def)
  moreover from this have "target = r" by (rule release_path_Inr)
  ultimately obtain d2 d3 d4 where
    c: "copy_tree source (staging_name pid r) d2 = (Inr (), d3)"
    and rm: "remove_existing r d3 = (Inr (), d4)"
    and mv: "rename_tree (staging_name pid r) r d4 = (Inr (), d')"
    using assms by (auto simp: stage_release_def Let_def sbind_Inr_iff)
  have ne: "staging_name pid r \<noteq> r" using arg_cong [where f = length] by (fastforce simp: staging_name_def)
  then have "releases d4 (staging_name pid r) = releases d3 (staging_name pid r)"
    using remove_existing_only_below [of r "{r}" d3] rm by (simp add: only_below_def)
  moreover have "releases d' r = releases d4 (staging_name pid r)"
    using mv ne by (auto simp: rename_tree_def sbind_Inr_iff install_simps dest: attempt_install)
  ultimately show ?thesis using copy_tree_done [OF c] by auto
qed

subsection \<open>The active revision\<close>

definition active :: "install \<Rightarrow> string option" where
  "active d =
     (case pointer d of
        None \<Rightarrow> None
      | Some bytes \<Rightarrow>
          (case read_text bytes of
             Inl x \<Rightarrow> None
           | Inr t \<Rightarrow> if strip t = [] then None else Some (strip t)))"

lemma active_pointer: "pointer d' = pointer d \<Longrightarrow> active d' = active d"
  by (simp add: active_def)

lemma strip_strip [simp]: "strip (strip s) = strip s"
proof (cases "strip s = []")
  case True
  have "strip [] = []" by (simp add: strip_def strip_chars_def lstrip_def rstrip_def)
  then show ?thesis by (simp only: True)
next
  case False
  let ?u = "dropWhile is_space s" and ?v = "dropWhile is_space (rev (dropWhile is_space s))"
  have v: "strip s = rev ?v" by (simp add: strip_def strip_chars_def lstrip_def rstrip_def)
  have "?v \<noteq> []" using False v by simp
  have "rev ?u = takeWhile is_space (rev ?u) @ ?v" by simp
  then have u: "?u = rev ?v @ rev (takeWhile is_space (rev ?u))" by (metis rev_append rev_rev_ident)
  then have "hd (rev ?v) = hd ?u" using \<open>?v \<noteq> []\<close> by (metis hd_append2 rev_is_Nil_conv)
  moreover have "?u \<noteq> []" using \<open>?v \<noteq> []\<close> by (metis dropWhile.simps(1) rev.simps(1))
  ultimately have "\<not> is_space (hd (rev ?v))" using hd_dropWhile by metis
  moreover have "\<not> is_space (last (rev ?v))" using hd_dropWhile [OF \<open>?v \<noteq> []\<close>] \<open>?v \<noteq> []\<close> by (simp add: last_rev)
  ultimately have "strip_chars is_space (rev ?v) = rev ?v" using \<open>?v \<noteq> []\<close> by (intro strip_chars_ends) simp_all
  then show ?thesis unfolding v by (simp only: strip_def)
qed

lemma current_revision_active:
  assumes "current_revision d = (Inr previous, d')"
  shows "previous = active d \<and> active d' = active d \<and> releases d' = releases d \<and> pointer d' = pointer d"
proof -
  have "previous = active d"
    using assms by (auto simp: current_revision_def active_def sbind_def split: option.splits prod.splits sum.splits)
  then show ?thesis using current_revision_install [OF assms] active_pointer by blast
qed

lemma active_stripped: "active d = Some p \<Longrightarrow> strip p = p \<and> p \<noteq> []"
  by (auto simp: active_def split: option.splits sum.splits if_splits)

lemma activate_active:
  assumes "activate p d = (Inr u, d')" and "strip p = p"
  shows "active d' = Some p"
proof -
  have a: "pointer d' = Some (utf8_encode p)" "release_exists p d = Inr True"
    using activate_install [OF assms(1)] by simp_all
  then have "release_path p = Inr p" using release_path_Inr by (auto simp: release_exists_def rbind_Inr_iff)
  then have "carriage \<notin> set p" "p \<noteq> []"
    using release_name_plain REVISION_PATTERN_chars by (auto simp: release_path_def validate_revision_Inr)
  then have "read_text (utf8_encode p) = Inr p"
    by (simp add: read_text_def utf8_decode_encode universal_newlines_id)
  then show ?thesis using a assms(2) \<open>p \<noteq> []\<close> by (simp add: active_def)
qed

lemma deactivate_active: "deactivate d = (Inr u, d') \<Longrightarrow> active d' = None"
  using deactivate_install [of d "Inr u"] by (simp add: active_def)

lemma stage_and_activate_pointer:
  assumes "stage_and_activate pid r source d = (res, d')"
  shows "pointer d' = (if res_ok res then Some (utf8_encode r) else pointer d)"
proof (cases "stage_release pid r source d")
  case (Pair s d1)
  have "pointer d1 = pointer d" using stage_release_only_below [OF Pair] by (simp add: only_below_def)
  then show ?thesis
    using assms Pair activate_install [of r d1 res d'] by (cases s) (auto simp: stage_and_activate_def)
qed

lemma restore_previous_active:
  assumes "restore_previous previous d = (Inr u, d')" and "active d = previous"
  shows "active d' = previous"
proof (cases previous)
  case None
  then show ?thesis using assms(1) by (simp add: restore_previous_def deactivate_active)
next
  case (Some p)
  then have "activate p d = (Inr u, d') \<or> d' = d"
    using assms(1) by (auto simp: restore_previous_def split: sum.splits if_splits)
  then show ?thesis using assms(2) Some activate_active active_stripped by metis
qed

subsection \<open>The cases of a deployment\<close>

lemma deploy_cases:
  assumes "deploy_release pid revision source report checks service d w = (Inr r, d', w')"
  obtains (refused) d1 reason where "current_revision d = (Inr (active d), d1)" "d' = d1"
      "r = not_deployed revision False (active d) reason"
  | (abandoned) d1 x d2 where "current_revision d = (Inr (active d), d1)"
      "stage_and_activate pid revision source d1 = (Inl x, d2)" "restore_previous (active d) d2 = (Inr (), d')"
      "r = not_deployed revision (active d \<noteq> None) (active d) (deployment_failure_reason x)"
  | (rolled_back) d1 d2 w1 reason where "current_revision d = (Inr (active d), d1)"
      "stage_and_activate pid revision source d1 = (Inr (), d2)"
      "rollback_after_failure revision (active d) reason service d2 w1 = (Inr r, d', w')"
  | (success) d1 w1 w2 where "preflight_passed report" "current_revision d = (Inr (active d), d1)"
      "stage_and_activate pid revision source d1 = (Inr (), d')" "r = deployed revision"
      "run_checks checks d' w1 = (None, w2)" "ask_service svc_start service w2 = (True, w')"
proof -
  obtain pinned where v: "validate_revision (PStr revision) = Inr pinned"
    using assms by (cases "validate_revision (PStr revision)") (auto simp: deploy_release_def)
  then have "pinned = revision" by (simp add: validate_revision_Inr)
  obtain previous d1 where c: "current_revision d = (Inr previous, d1)"
    using assms v by (auto simp: deploy_release_def split: prod.splits sum.splits)
  then have p: "previous = active d" using current_revision_active by blast
  note unfold = deploy_release_def v sum.case prod.case c p \<open>pinned = revision\<close>
  show thesis
  proof (cases "preflight_passed report")
    case False
    then have "d' = d1" "\<exists>reason. r = not_deployed revision False (active d) reason"
      using assms by (auto simp: unfold)
    then show thesis using refused c p by blast
  next
    case True
    obtain ok w1 where s: "ask_service svc_stop service w = (ok, w1)" by fastforce
    show thesis
    proof (cases ok)
      case False
      then have "d' = d1" "\<exists>reason. r = not_deployed revision False (active d) reason"
        using assms True s by (auto simp: unfold)
      then show thesis using refused c p by blast
    next
      case stopped: True
      have d: "deploy_stopped pid revision source checks service (active d) d1 w1 = (Inr r, d', w')"
        using assms True s stopped by (simp add: unfold)
      show thesis
      proof (cases "stage_and_activate pid revision source d1")
        case (Pair res d2)
        show thesis
        proof (cases res)
          case (Inl x)
          then show thesis
            using d Pair abandoned c p
            by (auto simp: deploy_stopped_def abandon_staging_def split: prod.splits sum.splits)
        next
          case (Inr u)
          then show thesis
            using d Pair rolled_back success c p True
            by (auto simp: deploy_stopped_def split: prod.splits option.splits bool.splits)
        qed
      qed
    qed
  qed
qed

text \<open>
  C32: A failed deployment leaves the previous revision active: whatever fails and whenever (preflight,
  the service, any step of staging and switching, a post-activation check), if \<^verbatim>\<open>deploy_release\<close>
  answers with a failure then the pointer names the revision that the result reports as restored; that
  is the revision that was active before, unless its directory is missing.
\<close>

theorem deploy_failure_restores:
  assumes "deploy_release pid revision source report checks service d w = (Inr r, d', w')"
    and "\<not> dp_success r"
  shows "active d' = dp_restored r \<and>
    (dp_restored r = active d \<or>
     dp_restored r = None \<and> dp_reason r = ''rollback_target_missing'' \<and>
     (\<exists>p. active d = Some p \<and> releases d' p = None))"
  using assms(1)
proof (cases rule: deploy_cases)
  case (refused d1 reason)
  then show ?thesis using current_revision_active [OF refused(1)] by (simp add: not_deployed_def)
next
  case (abandoned d1 x d2)
  have "active d2 = active d"
    using stage_and_activate_pointer [OF abandoned(2)] current_revision_active [OF abandoned(1)]
    by (simp add: active_def)
  then show ?thesis using restore_previous_active [OF abandoned(3)] abandoned(4) by (simp add: not_deployed_def)
next
  case (rolled_back d1 d2 w1 reason)
  show ?thesis
  proof (cases "active d")
    case None
    then show ?thesis
      using rolled_back(3) deactivate_active
      by (auto simp: rollback_after_failure_def not_deployed_def split: prod.splits sum.splits)
  next
    case (Some p)
    consider (missing) "release_exists p d2 = Inr False" "deactivate d2 = (Inr (), d')"
        "r = not_deployed revision True None ''rollback_target_missing''"
      | (there) "activate p d2 = (Inr (), d')" "r = not_deployed revision True (Some p) reason"
      using rolled_back(3) Some by (auto simp: rollback_after_failure_def split: prod.splits sum.splits bool.splits)
    then show ?thesis
    proof cases
      case missing
      then have "releases d2 p = None" using release_path_Inr by (auto simp: release_exists_def rbind_Inr_iff)
      then show ?thesis
        using missing Some deactivate_active [OF missing(2)] deactivate_install [OF missing(2)]
        by (simp add: not_deployed_def)
    next
      case there
      then show ?thesis
        using Some activate_active [OF there(1)] active_stripped [OF Some] by (simp add: not_deployed_def)
    qed
  qed
next
  case (success d1 w1 w2)
  then show ?thesis using assms(2) by (simp add: deployed_def)
qed

text \<open>A disk with an active release, and the second release that is to be deployed.\<close>

definition old_tree :: release_tree where
  "old_tree = [(''src/a.py'', ''old''), (''src/b.py'', ''old'')]"

definition new_tree :: release_tree where
  "new_tree = [(''src/a.py'', ''new'')]"

definition disk1 :: install where
  "disk1 = \<lparr>releases = (\<lambda>n. if n = ''v1'' then Some old_tree else None), pointer = Some ''v1'', stray = 0,
     faults = []\<rparr>"

definition passed_report :: preflight_report where
  "passed_report = [checked ''python_version'' True []]"

definition failing_check :: "unit check" where
  "failing_check d w = (Inr False, w)"

definition passing_check :: "unit check" where
  "passing_check d w = (Inr True, w)"

lemma disk1_plain [simp]: "validate_revision (PStr ''v1'') = Inr ''v1''" "validate_revision (PStr ''v2'') = Inr ''v2''"
  "active disk1 = Some ''v1''" "read_text ''v1'' = Inr ''v1''" "strip ''v1'' = ''v1''" "preflight_passed passed_report"
  "utf8_encode ''v1'' = ''v1''" "utf8_encode ''v2'' = ''v2''"
  by code_simp+

lemmas deploy_eval = deploy_release_def deploy_stopped_def current_revision_def attempt_def call_def ask_service_def
  stage_and_activate_def stage_release_def release_path_def remove_existing_def copy_tree_def set_release_def
  rename_tree_def remove_tree_def activate_def release_exists_def staging_name_def rollback_after_failure_def
  abandon_staging_def restore_previous_def deactivate_def probe_passed_def

lemma disk1_rollback:
  "deploy_release ''7'' ''v2'' (Inr new_tree) passed_report [(''smoke_test'', failing_check)] None disk1 () =
   (Inr (not_deployed ''v2'' True (Some ''v1'') ''smoke_test_failed''),
    disk1\<lparr>releases := (releases disk1)(''v2'' := Some new_tree)\<rparr>, ())"
  by (simp add: deploy_eval disk1_def failing_check_def fun_eq_iff)

theorem deploy_failure_restores_witness:
  "\<exists>d'. deploy_release ''7'' ''v2'' (Inr new_tree) passed_report [(''smoke_test'', failing_check)] None disk1 () =
     (Inr (not_deployed ''v2'' True (Some ''v1'') ''smoke_test_failed''), d', ()) \<and> active d' = Some ''v1''"
  using deploy_failure_restores [OF disk1_rollback] by (simp add: disk1_rollback not_deployed_def)

subsection \<open>Other releases\<close>

lemma current_revision_releases: "current_revision d = (r, d') \<Longrightarrow> releases d' = releases d"
  using current_revision_install by blast

lemma activate_releases: "activate p d = (r, d') \<Longrightarrow> releases d' = releases d"
  using activate_install by blast

lemma deactivate_releases: "deactivate d = (r, d') \<Longrightarrow> releases d' = releases d"
  using deactivate_install by blast

lemma restore_previous_releases: "restore_previous previous d = (r, d') \<Longrightarrow> releases d' = releases d"
  by (auto simp: restore_previous_def split: option.splits sum.splits if_splits
      dest: activate_releases deactivate_releases)

lemma abandon_staging_releases:
  "abandon_staging revision previous x service d w = (r, d', w') \<Longrightarrow> releases d' = releases d"
  by (auto simp: abandon_staging_def split: prod.splits sum.splits dest: restore_previous_releases)

lemma rollback_after_failure_releases:
  "rollback_after_failure revision previous reason service d w = (r, d', w') \<Longrightarrow> releases d' = releases d"
  by (auto simp: rollback_after_failure_def split: option.splits prod.splits sum.splits bool.splits
      dest: activate_releases deactivate_releases)

lemma stage_and_activate_releases:
  assumes "stage_and_activate pid revision source d = (r, d')"
    and "n \<noteq> revision" "n \<noteq> staging_name pid revision"
  shows "releases d' n = releases d n"
proof (cases "stage_release pid revision source d")
  case (Pair s d1)
  have "releases d1 n = releases d n"
    using stage_release_only_below [OF Pair] assms(2,3) by (simp add: only_below_def)
  then show ?thesis
    using assms(1) Pair by (cases s) (auto simp: stage_and_activate_def dest: activate_releases)
qed

text \<open>
  C33: A deployment never touches another release: with any outcome (success, failure or an exception that
  escapes) and whatever calls fail, the directory of every other revision holds exactly the files that it
  held, so that the release that was active can be restored.
\<close>

theorem deploy_keeps_other_releases:
  assumes "deploy_release pid revision source report checks service d w = (res, d', w')"
    and "release_path n = Inr n" and "n \<noteq> revision"
  shows "releases d' n = releases d n"
proof (cases "\<exists>d1 previous w1. deploy_stopped pid revision source checks service previous d1 w1 = (res, d', w') \<and>
    releases d1 = releases d")
  case True
  then obtain d1 previous w1 where
    s: "deploy_stopped pid revision source checks service previous d1 w1 = (res, d', w')" and
    r: "releases d1 = releases d" by blast
  obtain r2 d2 where a: "stage_and_activate pid revision source d1 = (r2, d2)" by fastforce
  have "releases d' = releases d2"
    using s a by (auto simp: deploy_stopped_def split: prod.splits sum.splits option.splits bool.splits
        dest: abandon_staging_releases rollback_after_failure_releases)
  then show ?thesis
    using stage_and_activate_releases [OF a assms(3) staging_name_not_release [OF assms(2)]] r by simp
next
  case False
  then show ?thesis
    using assms(1)
    by (auto simp: deploy_release_def validate_revision_Inr split: prod.splits sum.splits if_splits bool.splits
        dest: current_revision_releases)
qed

text \<open>Staging fails half-way through: the disk is full after one file, and the cleanup of later calls works.\<close>

theorem deploy_keeps_other_releases_witness:
  "\<exists>res d' w'. deploy_release ''7'' ''v2'' (Inr new_tree) passed_report [] None
     (disk1\<lparr>faults := [Fine, Fine, Fails OSError 1]\<rparr>) () = (res, d', w') \<and> releases d' ''v1'' = Some old_tree"
proof -
  obtain res d' w' where d: "deploy_release ''7'' ''v2'' (Inr new_tree) passed_report [] None
     (disk1\<lparr>faults := [Fine, Fine, Fails OSError 1]\<rparr>) () = (res, d', w')" by (metis surj_pair)
  have "release_path ''v1'' = Inr ''v1''" by (simp add: release_path_def)
  then show ?thesis
    using deploy_keeps_other_releases [OF d, of "''v1''"] d by (simp add: disk1_def)
qed

text \<open>
  C34: A deployment that reports success is complete: the preflight had passed, the pointer names the new
  revision, its directory holds exactly the files of the source, every post-activation check passed on
  that state, and a configured service said that it was started.
\<close>

theorem deploy_success_complete:
  assumes "deploy_release pid revision source report checks service d w = (Inr r, d', w')"
    and "dp_success r"
  shows "preflight_passed report \<and> pointer d' = Some (utf8_encode revision) \<and>
    (\<exists>t. source = Inr t \<and> releases d' revision = Some t) \<and>
    (\<exists>w1 w2. run_checks checks d' w1 = (None, w2) \<and> ask_service svc_start service w2 = (True, w'))"
  using assms(1)
proof (cases rule: deploy_cases)
  case (success d1 w1 w2)
  obtain p d2 where s: "stage_release pid revision source d1 = (Inr p, d2)" "activate revision d2 = (Inr (), d')"
    using success(3) by (auto simp: stage_and_activate_def sbind_Inr_iff)
  show ?thesis
    using success stage_release_done [OF s(1)] activate_releases [OF s(2)] stage_and_activate_pointer [OF success(3)]
    by auto
next
  case (rolled_back d1 d2 w1 reason)
  then show ?thesis
    using assms(2)
    by (auto simp: rollback_after_failure_def not_deployed_def split: option.splits prod.splits sum.splits bool.splits)
qed (use assms(2) in \<open>auto simp: not_deployed_def\<close>)

lemma disk1_success:
  "deploy_release ''7'' ''v2'' (Inr new_tree) passed_report [(''smoke_test'', passing_check)] None disk1 () =
   (Inr (deployed ''v2''),
    disk1\<lparr>releases := (releases disk1)(''v2'' := Some new_tree), pointer := Some ''v2''\<rparr>, ())"
  by (simp add: deploy_eval disk1_def passing_check_def fun_eq_iff)

theorem deploy_success_complete_witness:
  "\<exists>d'. deploy_release ''7'' ''v2'' (Inr new_tree) passed_report [(''smoke_test'', passing_check)] None disk1 () =
     (Inr (deployed ''v2''), d', ()) \<and> pointer d' = Some ''v2'' \<and> releases d' ''v2'' = Some new_tree"
  using deploy_success_complete [OF disk1_success] by (simp add: disk1_success deployed_def)

subsection \<open>Where a rollback does not restore\<close>

text \<open>
  Redeploying the active revision: its directory has been removed when the final rename fails, the
  result says that the revision was restored, and there is no directory for it.
\<close>

lemma redeploy_loses_active_release:
  "\<exists>d'. deploy_release ''7'' ''v1'' (Inr new_tree) passed_report [] None
      (disk1\<lparr>faults := [Fine, Fine, Fine, Fine, Fails OSError 0]\<rparr>) () =
      (Inr (not_deployed ''v1'' True (Some ''v1'') ''install_root_unwritable''), d', ()) \<and>
    releases d' ''v1'' = None"
  by (simp add: deploy_eval disk1_def not_deployed_def deployment_failure_reason_def)

text \<open>
  The pattern's \<^verbatim>\<open>$\<close> lets a newline at the end of a revision through; the pointer is then read back
  as another revision.
\<close>

lemma newline_revision_accepted: "validate_revision (PStr (''v2'' @ [newline])) = Inr (''v2'' @ [newline])"
  by code_simp

end
