(* ===== verification/AtomicFile.thy ===== *)
theory AtomicFile
  imports Disk JsonText
begin

section \<open>Files that are replaced as a whole\<close>

text \<open>
  The configurations, the producer state and the status of a heartbeat are written in the same way:
  the parent directory is made, a temporary file beside the target gets the JSON text, and a rename
  puts it in place (\<^verbatim>\<open>write_atomic\<close>, \<^verbatim>\<open>_save\<close>, \<^verbatim>\<open>_write_status_atomic\<close>).  The file system is the
  content of each path, the number of temporary files that could not be removed, and the script of
  failing calls.  Text files have no newline translation.
\<close>

record filesys =
  fs_files :: "string \<Rightarrow> string option"
  fs_stray :: nat
  fs_faults :: "fault list"

definition fs_call :: "filesys \<Rightarrow> unit res \<times> filesys" where
  "fs_call d =
     (case next_fault (fs_faults d) of
        (Fine, fs) \<Rightarrow> (Inr (), d\<lparr>fs_faults := fs\<rparr>)
      | (Fails x n, fs) \<Rightarrow> (Inl x, d\<lparr>fs_faults := fs\<rparr>))"

definition fs_put :: "string \<Rightarrow> string \<Rightarrow> filesys \<Rightarrow> filesys" where
  "fs_put path bytes d = d\<lparr>fs_files := (fs_files d)(path := Some bytes)\<rparr>"

text \<open>\<^verbatim>\<open>path.read_text(encoding="utf-8")\<close>.\<close>

definition read_file :: "string \<Rightarrow> filesys \<Rightarrow> string res \<times> filesys" where
  "read_file path d =
     (case fs_files d path of
        None \<Rightarrow> (Inl FileNotFoundError, d)
      | Some bytes \<Rightarrow> sbind (fs_call d) (\<lambda>u d1. (read_text bytes, d1)))"

text \<open>
  The \<^verbatim>\<open>finally\<close> block of a failed write: a temporary file that is gone is no failure, another exception
  of \<^verbatim>\<open>unlink\<close> takes the place of the first one.
\<close>

definition drop_temp :: "exn \<Rightarrow> filesys \<Rightarrow> unit res \<times> filesys" where
  "drop_temp x d =
     (case fs_call d of
        (Inr u, d1) \<Rightarrow> (Inl x, d1)
      | (Inl y, d1) \<Rightarrow>
          if y = FileNotFoundError then (Inl x, d1) else (Inl y, d1\<lparr>fs_stray := fs_stray d1 + 1\<rparr>))"

text \<open>
  \<open>wrap\<close> is the handler between the write and that block.  Making the directory is outside of it.
\<close>

definition atomic_write :: "(exn \<Rightarrow> exn) \<Rightarrow> string \<Rightarrow> string res \<Rightarrow> filesys \<Rightarrow> unit res \<times> filesys" where
  "atomic_write wrap path content d =
     sbind (fs_call d) (\<lambda>u d1.
       case fs_call d1 of
         (Inl x, d2) \<Rightarrow> (Inl (wrap x), d2)
       | (Inr u, d2) \<Rightarrow>
           (case content of
              Inl x \<Rightarrow> drop_temp (wrap x) d2
            | Inr bytes \<Rightarrow>
                (case sbind (fs_call d2) (\<lambda>u d3. fs_call d3) of
                   (Inl x, d4) \<Rightarrow> drop_temp (wrap x) d4
                 | (Inr u, d4) \<Rightarrow> (Inr (), fs_put path bytes d4))))"

text \<open>\<^verbatim>\<open>json.dump(value, file, ensure_ascii=True, sort_keys=True)\<close> and a newline.\<close>

definition json_line :: "pyval \<Rightarrow> string res" where
  "json_line v = rbind (dumps spaced (sort_keys v)) (\<lambda>t. Inr (t @ [newline]))"

subsection \<open>Dictionaries of settings\<close>

text \<open>\<^verbatim>\<open>values.update(raw)\<close>.\<close>

fun update_items :: "(pykey \<times> pyval) list \<Rightarrow> (pykey \<times> pyval) list \<Rightarrow> (pykey \<times> pyval) list" where
  "update_items values [] = values"
| "update_items values ((k, v) # kvs) = update_items (dict_set k v values) kvs"

definition known_keys :: "string list \<Rightarrow> pyval \<Rightarrow> bool" where
  "known_keys names raw \<longleftrightarrow> is_mapping raw \<and> list_all (\<lambda>(k, v). List.member (map KStr names) k) (items raw)"

text \<open>What \<^verbatim>\<open>except (OSError, UnicodeError, json.JSONDecodeError)\<close> catches.\<close>

definition unreadable :: "exn \<Rightarrow> bool" where
  "unreadable x \<longleftrightarrow> os_error x \<or> x = UnicodeError \<or> x = JSONDecodeError"

subsection \<open>All or nothing\<close>

lemma fs_call_files: "fs_call d = (r, d') \<Longrightarrow> fs_files d' = fs_files d"
  by (auto simp: fs_call_def split: prod.splits fault.splits)

lemma read_file_files: "read_file path d = (r, d') \<Longrightarrow> fs_files d' = fs_files d"
  by (auto simp: read_file_def sbind_def split: option.splits prod.splits sum.splits dest: fs_call_files)

lemma drop_temp_files: "drop_temp x d = (r, d') \<Longrightarrow> fs_files d' = fs_files d \<and> (\<exists>y. r = Inl y)"
  by (auto simp: drop_temp_def split: prod.splits sum.splits if_splits dest: fs_call_files)

lemma atomic_write_failed:
  assumes "atomic_write wrap path content d = (Inl x, d')"
  shows "fs_files d' = fs_files d"
  using assms
  by (auto simp: atomic_write_def sbind_def split: prod.splits sum.splits dest!: fs_call_files drop_temp_files)

lemma atomic_write_done:
  assumes "atomic_write wrap path content d = (Inr u, d')"
  shows "\<exists>bytes. content = Inr bytes \<and> fs_files d' = (fs_files d)(path := Some bytes)"
  using assms
  by (auto simp: atomic_write_def sbind_def fs_put_def split: prod.splits sum.splits dest!: fs_call_files drop_temp_files)

text \<open>
  The contract of such a file, for the components that keep a value in it: a write that reports no
  failure is what is read next, a write that fails leaves what was there.
\<close>

locale durable_cell =
  fixes save :: "'v \<Rightarrow> 's \<Rightarrow> unit res \<times> 's"
    and content :: "'s \<Rightarrow> 'v option"
  assumes saved: "save v s = (Inr u, s') \<Longrightarrow> content s' = Some v"
    and not_saved: "save v s = (Inl x, s') \<Longrightarrow> content s' = content s"
begin

lemma old_or_new:
  assumes "save v s = (r, s')"
  shows "content s' = Some v \<or> content s' = content s"
  using assms saved not_saved by (cases r) auto

lemma keeps:
  assumes "save v s = (r, s')" and "P (content s)" and "P (Some v)"
  shows "P (content s')"
  using old_or_new [OF assms(1)] assms(2,3) by auto

end

interpretation atomic_cell: durable_cell
  "\<lambda>bytes. atomic_write wrap path (Inr bytes)" "\<lambda>d. fs_files d path" for wrap path
  by unfold_locales (auto dest!: atomic_write_done atomic_write_failed)

subsection \<open>Reading back what was written\<close>

lemma json_line_plain:
  assumes "json_plain v"
  obtains bytes where "json_line v = Inr bytes" "read_text bytes = Inr bytes" "json_loads fr bytes = Inr (sort_keys v)"
proof -
  have p: "json_plain (sort_keys v)" using assms by (rule json_plain_sort_keys)
  obtain t where t: "dumps spaced (sort_keys v) = Inr t"
    using json_plain_dumps(1) [OF p] by (auto simp: res_ok_iff)
  have pr: "printable_text t"
    by (rule printable_dumps(1) [OF p std_layout_spaced t])
  have "is_ascii_text (t @ [newline])" "carriage \<notin> set (t @ [newline])"
    using printable_ascii [OF pr] by (auto simp: is_ascii_text_def newline_def carriage_def code_def)
  then have "read_text (t @ [newline]) = Inr (t @ [newline])" by (rule read_text_plain)
  moreover have "json_loads fr (t @ [newline]) = Inr (sort_keys v)"
    by (rule json_loads_dumps_newline [OF p _ t]) simp
  ultimately show ?thesis using that t by (simp add: json_line_def)
qed

end
