(* ===== verification/Heartbeat.thy ===== *)
theory Heartbeat
  imports AtomicFile AgentNet
begin

section \<open>The heartbeat producer (\<^verbatim>\<open>heartbeat.py\<close>)\<close>

text \<open>
  Configuration, persisted producer state, status file and the loop.  A \<^verbatim>\<open>HeartbeatConfigError\<close> and a
  \<^verbatim>\<open>HeartbeatStateError\<close> are \<open>ValidationError\<close>s with their reason: no call of the module lets another
  \<open>ValidationError\<close> through.  Times are nanoseconds, as in the agent.
\<close>

subsection \<open>Configuration\<close>

definition HEARTBEAT_EVENT_TYPE :: string where
  "HEARTBEAT_EVENT_TYPE = ''runner.heartbeat''"

definition DEFAULT_HEARTBEAT_INTERVAL_SECONDS :: int where
  "DEFAULT_HEARTBEAT_INTERVAL_SECONDS = 60"

definition DEFAULT_NETWORK_POLL_SECONDS :: int where
  "DEFAULT_NETWORK_POLL_SECONDS = 5"

definition HEARTBEAT_IDENTIFIER :: regex where
  "HEARTBEAT_IDENTIFIER = token_re is_alnum (\<lambda>c. is_alnum c \<or> one_of ''_.-'' c) 63"

text \<open>\<^verbatim>\<open>casefold\<close> of a path: the comparison is with an ASCII text that has no \<^verbatim>\<open>ss\<close>.\<close>

definition canonical_event_endpoint :: "string \<Rightarrow> string res" where
  "canonical_event_endpoint endpoint =
     rbind (urlsplit endpoint) (\<lambda>u.
       let path = rstrip (\<lambda>c. c = CHR ''/'') (url_path u);
           path' = (if map lower path = [] \<or> map lower path = ''/'' then ''/v1/events''
                    else if map lower path = ''/v1/events'' then ''/v1/events'' else path)
       in Inr (urlunsplit (url_scheme u) (url_netloc u) path' (url_query u) (url_fragment u)))"

record heartbeat_config =
  hc_endpoint :: string
  hc_token_file :: string
  hc_runner_id :: string
  hc_state_file :: string
  hc_producer_id :: string
  hc_service_name :: string
  hc_python_executable :: string
  hc_interval_seconds :: int
  hc_network_poll_seconds :: int
  hc_allow_insecure_http :: bool
  hc_outbox_dir :: "string option"

definition heartbeat_error :: "string \<Rightarrow> exn" where
  "heartbeat_error reason = ValidationError reason"

definition bad_heartbeat_config :: exn where
  "bad_heartbeat_config = heartbeat_error ''invalid_heartbeat_configuration''"

definition CONFIG_FIELDS :: "string list" where
  "CONFIG_FIELDS = [''endpoint'', ''token_file'', ''runner_id'', ''state_file'', ''producer_id'', ''service_name'',
     ''python_executable'', ''interval_seconds'', ''network_poll_seconds'', ''allow_insecure_http'', ''outbox_dir'']"

text \<open>\<^verbatim>\<open>isinstance(value, str) and value.strip()\<close>, and an integer that is not a boolean.\<close>

definition solid_text :: "pyval \<Rightarrow> string res" where
  "solid_text v = (case v of PStr s \<Rightarrow> if strip s = [] then Inl bad_heartbeat_config else Inr s | _ \<Rightarrow> Inl bad_heartbeat_config)"

definition seconds_between :: "int \<Rightarrow> pyval \<Rightarrow> int res" where
  "seconds_between most v =
     (case v of PInt n \<Rightarrow> if 1 \<le> n \<and> n \<le> most then Inr n else Inl bad_heartbeat_config | _ \<Rightarrow> Inl bad_heartbeat_config)"

definition optional_text :: "pyval \<Rightarrow> string option res" where
  "optional_text v = (case v of PNone \<Rightarrow> Inr None | _ \<Rightarrow> rbind (solid_text v) (\<lambda>s. Inr (Some s)))"

definition given :: "string option \<Rightarrow> bool" where
  "given v = (case v of None \<Rightarrow> False | Some s \<Rightarrow> s \<noteq> [])"

text \<open>
  The checks of the endpoint; \<open>allowed\<close> is the truth of \<^verbatim>\<open>allow_insecure_http\<close>, whatever its type.
\<close>

definition check_endpoint :: "string \<Rightarrow> bool \<Rightarrow> unit res" where
  "check_endpoint endpoint allowed =
     (case rbind (urlsplit endpoint) (\<lambda>u. rbind (url_port u) (\<lambda>p. Inr u)) of
        Inl x \<Rightarrow> Inl (heartbeat_error ''invalid_endpoint'')
      | Inr u \<Rightarrow>
          if url_scheme u \<noteq> ''http'' \<and> url_scheme u \<noteq> ''https'' \<or> \<not> given (hostname u) \<or>
             given (username u) \<or> given (password u)
          then Inl (heartbeat_error ''invalid_endpoint'')
          else if url_scheme u = ''http'' \<and> \<not> allowed then Inl (heartbeat_error ''insecure_endpoint'')
          else Inr ())"

definition check_runner_id :: "string \<Rightarrow> unit res" where
  "check_runner_id s = (if uuid_of_text s = None then Inl (heartbeat_error ''invalid_runner_id'') else Inr ())"

text \<open>\<^verbatim>\<open>cls(**values)\<close> with \<^verbatim>\<open>__post_init__\<close>, over the dictionary of all field values.\<close>

definition make_config :: "pyval \<Rightarrow> heartbeat_config res" where
  "make_config m =
     rbind (solid_text (pget m ''endpoint'')) (\<lambda>endpoint.
     rbind (solid_text (pget m ''token_file'')) (\<lambda>token_file.
     rbind (solid_text (pget m ''runner_id'')) (\<lambda>runner_id.
     rbind (solid_text (pget m ''state_file'')) (\<lambda>state_file.
     rbind (solid_text (pget m ''producer_id'')) (\<lambda>producer_id.
     rbind (solid_text (pget m ''service_name'')) (\<lambda>service_name.
     rbind (solid_text (pget m ''python_executable'')) (\<lambda>python.
     rbind (optional_text (pget m ''outbox_dir'')) (\<lambda>outbox_dir.
     rbind (check_endpoint endpoint (truthy (pget m ''allow_insecure_http''))) (\<lambda>u.
     rbind (check_runner_id runner_id) (\<lambda>u.
     if \<not> fullmatch HEARTBEAT_IDENTIFIER producer_id \<or> \<not> fullmatch HEARTBEAT_IDENTIFIER service_name
     then Inl bad_heartbeat_config
     else
     rbind (seconds_between 86400 (pget m ''interval_seconds'')) (\<lambda>interval.
     rbind (seconds_between 300 (pget m ''network_poll_seconds'')) (\<lambda>poll.
     case pget m ''allow_insecure_http'' of
       PBool b \<Rightarrow>
         Inr \<lparr>hc_endpoint = endpoint, hc_token_file = token_file, hc_runner_id = runner_id,
              hc_state_file = state_file, hc_producer_id = producer_id, hc_service_name = service_name,
              hc_python_executable = python, hc_interval_seconds = interval, hc_network_poll_seconds = poll,
              hc_allow_insecure_http = b, hc_outbox_dir = outbox_dir\<rparr>
     | _ \<Rightarrow> Inl bad_heartbeat_config))))))))))))"

definition config_defaults :: "string \<Rightarrow> (pykey \<times> pyval) list" where
  "config_defaults executable =
     [(KStr ''producer_id'', PStr ''runner-heartbeat''),
      (KStr ''service_name'', PStr ''RunnerObservabilityHeartbeat''),
      (KStr ''python_executable'', PStr executable),
      (KStr ''interval_seconds'', PInt DEFAULT_HEARTBEAT_INTERVAL_SECONDS),
      (KStr ''network_poll_seconds'', PInt DEFAULT_NETWORK_POLL_SECONDS),
      (KStr ''allow_insecure_http'', PBool False),
      (KStr ''outbox_dir'', PNone)]"

definition config_from_mapping :: "string \<Rightarrow> pyval \<Rightarrow> heartbeat_config res" where
  "config_from_mapping executable raw =
     (if \<not> known_keys CONFIG_FIELDS raw then Inl bad_heartbeat_config
      else
        (let values = PDict (update_items (config_defaults executable) (items raw)) in
         rbind (solid_text (pget values ''endpoint'')) (\<lambda>u.
         rbind (solid_text (pget values ''token_file'')) (\<lambda>u.
         rbind (solid_text (pget values ''runner_id'')) (\<lambda>u.
         rbind (solid_text (pget values ''state_file'')) (\<lambda>u. make_config values))))))"

definition config_from_json :: "(string \<Rightarrow> string) \<Rightarrow> string \<Rightarrow> string \<Rightarrow> filesys \<Rightarrow> heartbeat_config res \<times> filesys" where
  "config_from_json fr executable path d =
     (case read_file path d of
        (r, d1) \<Rightarrow>
          (case rbind r (json_loads fr) of
             Inl x \<Rightarrow> (Inl (if unreadable x then bad_heartbeat_config else x), d1)
           | Inr raw \<Rightarrow> (config_from_mapping executable raw, d1)))"

definition config_to_mapping :: "heartbeat_config \<Rightarrow> pyval" where
  "config_to_mapping c =
     obj ([(''endpoint'', PStr (hc_endpoint c)), (''token_file'', PStr (hc_token_file c)),
       (''runner_id'', PStr (hc_runner_id c)), (''state_file'', PStr (hc_state_file c)),
       (''producer_id'', PStr (hc_producer_id c)), (''service_name'', PStr (hc_service_name c)),
       (''python_executable'', PStr (hc_python_executable c)),
       (''interval_seconds'', PInt (hc_interval_seconds c)),
       (''network_poll_seconds'', PInt (hc_network_poll_seconds c)),
       (''allow_insecure_http'', PBool (hc_allow_insecure_http c))] @
       (case hc_outbox_dir c of None \<Rightarrow> [] | Some dir \<Rightarrow> [(''outbox_dir'', PStr dir)]))"

definition config_write_atomic :: "heartbeat_config \<Rightarrow> string \<Rightarrow> filesys \<Rightarrow> unit res \<times> filesys" where
  "config_write_atomic c path d =
     atomic_write (\<lambda>x. if os_error x \<or> x = TypeError then heartbeat_error ''config_file_unwritable'' else x)
       path (json_line (config_to_mapping c)) d"

subsection \<open>The producer state\<close>

record heartbeat_state =
  hs_runner_id :: string
  hs_producer_id :: string
  hs_producer_epoch :: string
  hs_next_sequence :: int

definition state_mapping :: "heartbeat_state \<Rightarrow> pyval" where
  "state_mapping st =
     obj [(''runner_id'', PStr (hs_runner_id st)), (''producer_id'', PStr (hs_producer_id st)),
       (''producer_epoch'', PStr (hs_producer_epoch st)), (''next_sequence'', PInt (hs_next_sequence st))]"

definition state_error :: "exn \<Rightarrow> exn" where
  "state_error x = (if os_error x then heartbeat_error ''state_file_unwritable'' else x)"

definition save_state :: "heartbeat_state \<Rightarrow> string \<Rightarrow> filesys \<Rightarrow> unit res \<times> filesys" where
  "save_state st path d = atomic_write state_error path (json_line (state_mapping st)) d"

text \<open>
  What a state file says: it belongs to another producer, it holds a state, or neither (\<open>Inr None\<close>),
  and a new epoch begins.  \<open>rp\<close> is \<^verbatim>\<open>str\<close> of a container or a float.
\<close>

definition identity_mismatch :: exn where
  "identity_mismatch = heartbeat_error ''state_identity_mismatch''"

definition other_identity :: "pyval \<Rightarrow> string \<Rightarrow> string \<Rightarrow> bool" where
  "other_identity raw key expected \<longleftrightarrow> is_mapping raw \<and> has_key raw key \<and> pget raw key \<noteq> PStr expected"

definition epoch_text :: "(pyval \<Rightarrow> string) \<Rightarrow> pyval \<Rightarrow> string" where
  "epoch_text rp raw = (if has_key raw ''producer_epoch'' then py_str rp (pget raw ''producer_epoch'') else [])"

definition state_of_raw :: "(pyval \<Rightarrow> string) \<Rightarrow> string \<Rightarrow> string \<Rightarrow> pyval \<Rightarrow> heartbeat_state option res" where
  "state_of_raw rp runner_id producer_id raw =
     (if other_identity raw ''runner_id'' runner_id \<or> other_identity raw ''producer_id'' producer_id
      then Inl identity_mismatch
      else if is_mapping raw \<and> fullmatch HEARTBEAT_IDENTIFIER (epoch_text rp raw) then
        (case pget raw ''next_sequence'' of
           PInt n \<Rightarrow>
             Inr (if 1 \<le> n
                  then Some \<lparr>hs_runner_id = runner_id, hs_producer_id = producer_id,
                             hs_producer_epoch = epoch_text rp raw, hs_next_sequence = n\<rparr>
                  else None)
         | _ \<Rightarrow> Inr None)
      else Inr None)"

definition load_raw :: "(string \<Rightarrow> string) \<Rightarrow> string res \<Rightarrow> pyval res" where
  "load_raw fr contents =
     (case rbind contents (json_loads fr) of
        Inl x \<Rightarrow> if unreadable x then Inr PNone else Inl x
      | Inr raw \<Rightarrow> Inr raw)"

definition new_state :: "string \<Rightarrow> string \<Rightarrow> string \<Rightarrow> heartbeat_state" where
  "new_state runner_id producer_id epoch =
     \<lparr>hs_runner_id = runner_id, hs_producer_id = producer_id, hs_producer_epoch = epoch, hs_next_sequence = 1\<rparr>"

text \<open>
  \<open>uuid n\<close> is the \<open>n\<close>th \<^verbatim>\<open>uuid4\<close> of the process, \<open>k\<close> the number of them that have been drawn.
\<close>

definition begin_epoch ::
  "(nat \<Rightarrow> string) \<Rightarrow> string \<Rightarrow> string \<Rightarrow> string \<Rightarrow> nat \<Rightarrow> filesys \<Rightarrow> heartbeat_state res \<times> nat \<times> filesys" where
  "begin_epoch uuid path runner_id producer_id k d =
     (case save_state (new_state runner_id producer_id (uuid k)) path d of
        (Inl x, d1) \<Rightarrow> (Inl x, k + 1, d1)
      | (Inr u, d1) \<Rightarrow> (Inr (new_state runner_id producer_id (uuid k)), k + 1, d1))"

definition load_state ::
  "(string \<Rightarrow> string) \<Rightarrow> (pyval \<Rightarrow> string) \<Rightarrow> (nat \<Rightarrow> string) \<Rightarrow> string \<Rightarrow> string \<Rightarrow> string \<Rightarrow> nat \<Rightarrow> filesys \<Rightarrow>
     heartbeat_state res \<times> nat \<times> filesys" where
  "load_state fr rp uuid path runner_id producer_id k d =
     (if fs_files d path = None then begin_epoch uuid path runner_id producer_id k d
      else case read_file path d of (contents, d1) \<Rightarrow>
        (case rbind (load_raw fr contents) (state_of_raw rp runner_id producer_id) of
           Inl x \<Rightarrow> (Inl x, k, d1)
         | Inr (Some st) \<Rightarrow> (Inr st, k, d1)
         | Inr None \<Rightarrow> begin_epoch uuid path runner_id producer_id k d1))"

definition reserve ::
  "heartbeat_state \<Rightarrow> string \<Rightarrow> filesys \<Rightarrow> (heartbeat_state \<times> int) res \<times> filesys" where
  "reserve st path d =
     (let next = st\<lparr>hs_next_sequence := hs_next_sequence st + 1\<rparr> in
      sbind (save_state next path d) (\<lambda>u d1. (Inr (next, hs_next_sequence st), d1)))"

end
