(* ===== verification/HeartbeatLoop.thy ===== *)
theory HeartbeatLoop
  imports Heartbeat
begin

section \<open>The heartbeat loop (\<^verbatim>\<open>HeartbeatLoop\<close>)\<close>

text \<open>
  \<open>'w\<close> is the world of the loop's callbacks: clock, network probe, delivery, stop event and wall clock.
  A \<open>heart\<close> is the object with the files it works on.
\<close>

record heart =
  ht_state :: "heartbeat_state option"
  ht_last_success :: "string option"
  ht_fs :: filesys
  ht_outbox :: outbox
  ht_uuids :: nat
  ht_messages :: "string list"

record 'w heart_env =
  he_clock :: "'w \<Rightarrow> int \<times> 'w"
  he_now :: "'w \<Rightarrow> string \<times> 'w"
  he_probe :: "string \<Rightarrow> int \<Rightarrow> 'w \<Rightarrow> bool res \<times> 'w"
  he_deliver :: "pyval \<Rightarrow> string \<Rightarrow> string \<Rightarrow> 'w \<Rightarrow> delivery_result res \<times> 'w"
  he_stop_set :: "'w \<Rightarrow> bool \<times> 'w"
  he_stop_wait :: "int \<Rightarrow> 'w \<Rightarrow> bool \<times> 'w"
  he_uuid :: "nat \<Rightarrow> string"
  he_float_text :: "string \<Rightarrow> string"
  he_str :: "pyval \<Rightarrow> string"
  he_io :: io

definition say :: "string \<Rightarrow> heart \<Rightarrow> heart" where
  "say message h = h\<lparr>ht_messages := ht_messages h @ [message]\<rparr>"

text \<open>\<^verbatim>\<open>Path(state_file).with_name(...)\<close>, for a path that ends in a file name; either separator of Windows.\<close>

definition with_name :: "string \<Rightarrow> string \<Rightarrow> string" where
  "with_name path name = rev (dropWhile (\<lambda>c. c \<noteq> CHR ''/'' \<and> c \<noteq> CHR 0x5C) (rev path)) @ name"

definition status_path :: "heartbeat_config \<Rightarrow> string" where
  "status_path c = with_name (hc_state_file c) ''heartbeat-status.json''"

definition load_last_success :: "'w heart_env \<Rightarrow> heartbeat_config \<Rightarrow> filesys \<Rightarrow> string option res \<times> filesys" where
  "load_last_success env c d =
     (case read_file (status_path c) d of
        (r, d1) \<Rightarrow>
          ((case rbind r (json_loads (he_float_text env)) of
              Inl x \<Rightarrow> if unreadable x then Inr None else Inl x
            | Inr raw \<Rightarrow>
                Inr (case pget raw ''last_success_at'' of PStr s \<Rightarrow> if s = [] then None else Some s | _ \<Rightarrow> None)), d1))"

text \<open>The delivery of a loop that is given none: the sender, to the loop's own endpoint.\<close>

definition default_deliver ::
  "'w agent \<Rightarrow> string \<Rightarrow> pyval \<Rightarrow> string \<Rightarrow> string \<Rightarrow> 'w \<Rightarrow> delivery_result res \<times> 'w" where
  "default_deliver ag event_endpoint event endpoint token w =
     deliver_event ag event event_endpoint token MAX_DELIVERY w"

text \<open>\<^verbatim>\<open>HeartbeatLoop(config)\<close> over the files as a process finds them; \<open>k\<close> counts the \<^verbatim>\<open>uuid4\<close>s drawn so far.\<close>

definition start_loop :: "'w heart_env \<Rightarrow> heartbeat_config \<Rightarrow> nat \<Rightarrow> outbox \<Rightarrow> filesys \<Rightarrow> heart res" where
  "start_loop env c k ob d =
     (case load_last_success env c d of
        (Inl x, d1) \<Rightarrow> Inl x
      | (Inr success, d1) \<Rightarrow>
          rbind (canonical_event_endpoint (hc_endpoint c)) (\<lambda>e.
            Inr \<lparr>ht_state = None, ht_last_success = success, ht_fs = d1, ht_outbox = ob, ht_uuids = k,
                 ht_messages = []\<rparr>))"

subsection \<open>Status\<close>

definition http_status_class :: "int option \<Rightarrow> string option" where
  "http_status_class status =
     (case status of None \<Rightarrow> None
      | Some n \<Rightarrow> if n < 100 \<or> 599 < n then None else Some (int_text (n div 100) @ ''xx''))"

definition SAFE_FAILURE_REASONS :: "string list" where
  "SAFE_FAILURE_REASONS = [''auth_credential_file_missing'', ''auth_credential_invalid'', ''state_identity_mismatch'',
     ''state_file_unwritable'', ''temporary_network_failure'', ''transport_failure'', ''temporary_http_failure'',
     ''rejected_http_response'', ''delivery_failed'']"

definition safe_failure_reason :: "string option \<Rightarrow> string" where
  "safe_failure_reason reason =
     (case reason of Some r \<Rightarrow> if List.member SAFE_FAILURE_REASONS r then r else ''delivery_failed''
      | None \<Rightarrow> ''delivery_failed'')"

definition optional_string :: "string option \<Rightarrow> pyval" where
  "optional_string v = (case v of None \<Rightarrow> PNone | Some s \<Rightarrow> PStr s)"

definition status_payload :: "heartbeat_config \<Rightarrow> delivery_result \<Rightarrow> string \<Rightarrow> string option \<Rightarrow> pyval" where
  "status_payload c result attempt_at last_success =
     obj [(''schema_version'', PInt 1), (''service_name'', PStr (hc_service_name c)),
       (''runner_id'', PStr (hc_runner_id c)), (''last_attempt_at'', PStr attempt_at),
       (''last_success_at'', optional_string last_success),
       (''last_result'', PStr (if dr_delivered result then ''success'' else ''failure'')),
       (''last_attempt_count'', PInt (dr_attempts result)),
       (''last_http_status_class'', optional_string (http_status_class (dr_http_status result))),
       (''last_failure_reason'',
         if dr_delivered result then PNone else PStr (safe_failure_reason (dr_reason result)))]"

definition record_status :: "heartbeat_config \<Rightarrow> delivery_result \<Rightarrow> string \<Rightarrow> heart \<Rightarrow> heart" where
  "record_status c result attempt_at h =
     (let h1 = (if dr_delivered result then h\<lparr>ht_last_success := Some attempt_at\<rparr> else h) in
      case atomic_write (\<lambda>x. x) (status_path c)
          (json_line (status_payload c result attempt_at (ht_last_success h1))) (ht_fs h1) of
        (Inl x, d) \<Rightarrow> say ''heartbeat_status_write_failed'' (h1\<lparr>ht_fs := d\<rparr>)
      | (Inr u, d) \<Rightarrow> h1\<lparr>ht_fs := d\<rparr>)"

subsection \<open>One heartbeat\<close>

text \<open>\<^verbatim>\<open>_flush_outbox\<close>: a drain that raises is reported and forgotten.\<close>

definition flush_outbox :: "'w heart_env \<Rightarrow> heartbeat_config \<Rightarrow> string \<Rightarrow> string \<Rightarrow> heart \<Rightarrow> 'w \<Rightarrow> heart \<times> 'w" where
  "flush_outbox env c endpoint token h w =
     (case hc_outbox_dir c of
        None \<Rightarrow> (h, w)
      | Some dir \<Rightarrow>
          (case drain (he_float_text env) (he_io env) default_limits
              \<lparr>read_clock = he_clock env, deliver = he_deliver env\<rparr> endpoint token (ht_outbox h) w of
             (Inl x, ob, w1) \<Rightarrow> (say ''heartbeat_outbox_flush_failed'' (h\<lparr>ht_outbox := ob\<rparr>), w1)
           | (Inr r, ob, w1) \<Rightarrow> (h\<lparr>ht_outbox := ob\<rparr>, w1)))"

definition reserve_from :: "heartbeat_config \<Rightarrow> heartbeat_state \<Rightarrow> heart \<Rightarrow> (heartbeat_state \<times> int) res \<times> heart" where
  "reserve_from c st h =
     (case reserve st (hc_state_file c) (ht_fs h) of
        (Inl x, d) \<Rightarrow> (Inl x, h\<lparr>ht_fs := d\<rparr>)
      | (Inr (next, n), d) \<Rightarrow> (Inr (next, n), h\<lparr>ht_state := Some next, ht_fs := d\<rparr>))"

text \<open>The state is loaded once per process, a sequence number reserved for each heartbeat.\<close>

definition reserve_next :: "'w heart_env \<Rightarrow> heartbeat_config \<Rightarrow> heart \<Rightarrow> (heartbeat_state \<times> int) res \<times> heart" where
  "reserve_next env c h =
     (case ht_state h of
        Some st \<Rightarrow> reserve_from c st h
      | None \<Rightarrow>
          (case load_state (he_float_text env) (he_str env) (he_uuid env) (hc_state_file c) (hc_runner_id c)
              (hc_producer_id c) (ht_uuids h) (ht_fs h) of
             (Inl x, k, d) \<Rightarrow> (Inl x, h\<lparr>ht_uuids := k, ht_fs := d\<rparr>)
           | (Inr st, k, d) \<Rightarrow> reserve_from c st (h\<lparr>ht_state := Some st, ht_uuids := k, ht_fs := d\<rparr>)))"

definition heartbeat_event :: "heartbeat_config \<Rightarrow> heartbeat_state \<Rightarrow> int \<Rightarrow> string \<Rightarrow> string \<Rightarrow> pyval" where
  "heartbeat_event c st n event_id occurred_at =
     obj [(''schema_version'', PInt 1), (''event_type'', PStr HEARTBEAT_EVENT_TYPE), (''event_id'', PStr event_id),
       (''runner_id'', PStr (hc_runner_id c)), (''producer_id'', PStr (hc_producer_id c)),
       (''producer_epoch'', PStr (hs_producer_epoch st)), (''producer_sequence'', PInt n),
       (''occurred_at'', PStr occurred_at)]"

definition failed_attempt ::
  "heartbeat_config \<Rightarrow> string \<Rightarrow> string \<Rightarrow> heart \<Rightarrow> 'w \<Rightarrow> delivery_result res \<times> heart \<times> 'w" where
  "failed_attempt c reason attempt_at h w =
     (Inr (undelivered 0 reason None),
      say (''heartbeat_delivery_failed reason='' @ reason) (record_status c (undelivered 0 reason None) attempt_at h), w)"

definition send_heartbeat ::
  "'w heart_env \<Rightarrow> heartbeat_config \<Rightarrow> string \<Rightarrow> string \<Rightarrow> string \<Rightarrow> heartbeat_state \<Rightarrow> int \<Rightarrow> heart \<Rightarrow> 'w \<Rightarrow>
     delivery_result res \<times> heart \<times> 'w" where
  "send_heartbeat env c endpoint token attempt_at st n h w =
     (case he_now env w of (occurred_at, w1) \<Rightarrow>
        (case he_deliver env (heartbeat_event c st n (he_uuid env (ht_uuids h)) occurred_at) endpoint token w1 of
           (Inl x, w2) \<Rightarrow> (Inl x, h\<lparr>ht_uuids := ht_uuids h + 1\<rparr>, w2)
         | (Inr result, w2) \<Rightarrow>
             (let h1 = record_status c result attempt_at (h\<lparr>ht_uuids := ht_uuids h + 1\<rparr>) in
              (Inr result,
               (if dr_delivered result then h1
                else say (''heartbeat_delivery_failed reason='' @ safe_failure_reason (dr_reason result)) h1), w2))))"

text \<open>The token file's bytes; an exception of reading it is one of those that \<^verbatim>\<open>read_token_file\<close> catches.\<close>

definition token_bytes :: "string \<Rightarrow> filesys \<Rightarrow> string option \<times> filesys" where
  "token_bytes path d =
     (case fs_files d path of
        None \<Rightarrow> (None, d)
      | Some bytes \<Rightarrow> (case fs_call d of (Inl x, d1) \<Rightarrow> (None, d1) | (Inr u, d1) \<Rightarrow> (Some bytes, d1)))"

text \<open>
  What has to be there before a heartbeat can be sent: the token and, after the outbox has been flushed,
  a reserved sequence number.  A \<^verbatim>\<open>CredentialFileError\<close> is handled like a \<^verbatim>\<open>HeartbeatStateError\<close>.
\<close>

definition prepare ::
  "'w heart_env \<Rightarrow> heartbeat_config \<Rightarrow> string \<Rightarrow> heart \<Rightarrow> 'w \<Rightarrow> (string \<times> heartbeat_state \<times> int) res \<times> heart \<times> 'w" where
  "prepare env c endpoint h w =
     (case token_bytes (hc_token_file c) (ht_fs h) of (bytes, d) \<Rightarrow>
        (case read_token_file bytes of
           Inl reason \<Rightarrow> (Inl (heartbeat_error reason), h\<lparr>ht_fs := d\<rparr>, w)
         | Inr token \<Rightarrow>
             (case flush_outbox env c endpoint token (h\<lparr>ht_fs := d\<rparr>) w of (h1, w1) \<Rightarrow>
                (case reserve_next env c h1 of
                   (Inl x, h2) \<Rightarrow> (Inl x, h2, w1)
                 | (Inr (st, n), h2) \<Rightarrow> (Inr (token, st, n), h2, w1)))))"

definition emit_once ::
  "'w heart_env \<Rightarrow> heartbeat_config \<Rightarrow> string \<Rightarrow> heart \<Rightarrow> 'w \<Rightarrow> delivery_result res \<times> heart \<times> 'w" where
  "emit_once env c endpoint h w =
     (case he_now env w of (attempt_at, w1) \<Rightarrow>
        (case prepare env c endpoint h w1 of
           (Inl x, h1, w2) \<Rightarrow>
             (case x of
                ValidationError reason \<Rightarrow> failed_attempt c reason attempt_at h1 w2
              | _ \<Rightarrow> (Inl x, h1, w2))
         | (Inr (token, st, n), h1, w2) \<Rightarrow> send_heartbeat env c endpoint token attempt_at st n h1 w2))"

subsection \<open>The schedule\<close>

text \<open>
  \<^verbatim>\<open>next_due += interval\<close> and then the loop that skips the times which have passed already.
\<close>

function skip_missed :: "int \<Rightarrow> int \<Rightarrow> int \<Rightarrow> int" where
  "skip_missed interval now due =
     (if due \<le> now \<and> 0 < interval then skip_missed interval now (due + interval) else due)"
  by pat_completeness auto
termination
  by (relation "measure (\<lambda>(i, n, d). nat (n + 1 - d))") auto

declare skip_missed.simps [simp del]

definition following_due :: "heartbeat_config \<Rightarrow> int \<Rightarrow> int \<Rightarrow> int" where
  "following_due c now due =
     skip_missed (hc_interval_seconds c * SECOND) now (due + hc_interval_seconds c * SECOND)"

text \<open>
  \<open>None\<close> is a loop that never ends; the result of \<^verbatim>\<open>run\<close> is its exit code or the exception of a
  heartbeat.
\<close>

partial_function (option) wait_for_network ::
  "'w heart_env \<Rightarrow> heartbeat_config \<Rightarrow> heart \<Rightarrow> 'w \<Rightarrow> (bool \<times> heart \<times> 'w) option" where
  "wait_for_network env c h w =
     (case he_stop_set env w of (stopped, w1) \<Rightarrow>
        if stopped then Some (False, h, w1)
        else (case he_probe env (hc_endpoint c) (hc_network_poll_seconds c * SECOND) w1 of (r, w2) \<Rightarrow>
          if r = Inr True then Some (True, h, w2)
          else (case he_stop_wait env (hc_network_poll_seconds c * SECOND) w2 of (stopped, w3) \<Rightarrow>
            if stopped then Some (False, say ''heartbeat_network_unavailable'' h, w3)
            else wait_for_network env c (say ''heartbeat_network_unavailable'' h) w3)))"

text \<open>One round of the loop of \<^verbatim>\<open>run\<close>: \<open>Inl\<close> ends it, \<open>Inr due\<close> is the next time to send at.\<close>

definition beat ::
  "'w heart_env \<Rightarrow> heartbeat_config \<Rightarrow> string \<Rightarrow> int \<Rightarrow> heart \<Rightarrow> 'w \<Rightarrow> (int res + int) \<times> heart \<times> 'w" where
  "beat env c endpoint due h w =
     (case emit_once env c endpoint h w of
        (Inl x, h1, w1) \<Rightarrow> (Inl (Inl x), h1, w1)
      | (Inr r, h1, w1) \<Rightarrow> (case he_clock env w1 of (now, w2) \<Rightarrow> (Inr (following_due c now due), h1, w2)))"

definition wait_until ::
  "'w heart_env \<Rightarrow> heartbeat_config \<Rightarrow> int \<Rightarrow> bool \<Rightarrow> heart \<Rightarrow> 'w \<Rightarrow> (bool \<times> heart \<times> 'w) option" where
  "wait_until env c due first h w =
     (case he_clock env w of (now, w1) \<Rightarrow>
        (case (if 0 < due - now then he_stop_wait env (due - now) w1 else (False, w1)) of (stopped, w2) \<Rightarrow>
           if stopped then Some (False, h, w2)
           else (case he_stop_set env w2 of (stopped, w3) \<Rightarrow>
             if stopped then Some (False, h, w3)
             else if first then Some (True, h, w3) else wait_for_network env c h w3)))"

definition first_due ::
  "'w heart_env \<Rightarrow> heartbeat_config \<Rightarrow> int option \<Rightarrow> heart \<Rightarrow> 'w \<Rightarrow> (int option \<times> heart \<times> 'w) option" where
  "first_due env c next_due h w =
     (case next_due of
        Some due \<Rightarrow> Some (Some due, h, w)
      | None \<Rightarrow>
          map_option (\<lambda>(up, h1, w1).
            if up then (case he_clock env w1 of (now, w2) \<Rightarrow> (Some now, h1, w2)) else (None, h1, w1))
            (wait_for_network env c h w))"

partial_function (option) run_loop ::
  "'w heart_env \<Rightarrow> heartbeat_config \<Rightarrow> string \<Rightarrow> int option \<Rightarrow> heart \<Rightarrow> 'w \<Rightarrow> (int res \<times> heart \<times> 'w) option" where
  "run_loop env c endpoint next_due h w =
     (case he_stop_set env w of (stopped, w1) \<Rightarrow>
        if stopped then Some (Inr 0, h, w1)
        else Option.bind (first_due env c next_due h w1) (\<lambda>(start, h1, w2).
          case start of
            None \<Rightarrow> Some (Inr 0, h1, w2)
          | Some due \<Rightarrow>
              Option.bind (wait_until env c due (Option.is_none next_due) h1 w2) (\<lambda>(go, h2, w3).
                if \<not> go then Some (Inr 0, h2, w3)
                else (case beat env c endpoint due h2 w3 of (next, h3, w4) \<Rightarrow>
                  (case next of
                     Inl r \<Rightarrow> Some (r, h3, w4)
                   | Inr due' \<Rightarrow> run_loop env c endpoint (Some due') h3 w4)))))"

text \<open>\<^verbatim>\<open>_probe_endpoint\<close> over a parametric connect.\<close>

definition probe_endpoint :: "(string \<Rightarrow> int \<Rightarrow> int \<Rightarrow> 'w \<Rightarrow> unit res \<times> 'w) \<Rightarrow> string \<Rightarrow> int \<Rightarrow> 'w \<Rightarrow> bool res \<times> 'w" where
  "probe_endpoint connect endpoint timeout w =
     (case urlsplit endpoint of
        Inl x \<Rightarrow> (Inl x, w)
      | Inr u \<Rightarrow>
          (case hostname u of
             None \<Rightarrow> (Inr False, w)
           | Some host \<Rightarrow>
               (case url_port u of
                  Inl x \<Rightarrow> (Inl x, w)
                | Inr p \<Rightarrow>
                    (let port = (case p of Some n \<Rightarrow> if n = 0 then (if url_scheme u = ''https'' then 443 else 80) else n
                                 | None \<Rightarrow> if url_scheme u = ''https'' then 443 else 80) in
                     case connect host port timeout w of
                       (Inl x, w1) \<Rightarrow> (if os_error x then Inr False else Inl x, w1)
                     | (Inr u, w1) \<Rightarrow> (Inr True, w1)))))"

end
