(* ===== verification/HeartbeatProperties.thy ===== *)
theory HeartbeatProperties
  imports HeartbeatLoop
begin

section \<open>What the heartbeat producer guarantees\<close>

text \<open>
  Sequence numbers that are never used twice, the schedule, and configurations that survive being
  written to a file and read back.
\<close>

subsection \<open>What a state file holds\<close>

definition stored :: "'w heart_env \<Rightarrow> heartbeat_config \<Rightarrow> filesys \<Rightarrow> heartbeat_state option" where
  "stored env c d =
     (case fs_files d (hc_state_file c) of
        None \<Rightarrow> None
      | Some bytes \<Rightarrow>
          (case rbind (load_raw (he_float_text env) (read_text bytes))
              (state_of_raw (he_str env) (hc_runner_id c) (hc_producer_id c)) of
             Inl x \<Rightarrow> None
           | Inr st \<Rightarrow> st))"

lemma stored_cong: "fs_files d' (hc_state_file c) = fs_files d (hc_state_file c) \<Longrightarrow> stored env c d' = stored env c d"
  by (simp add: stored_def)

lemma sorted_state_mapping:
  "sort_keys (state_mapping st) =
   obj [(''next_sequence'', PInt (hs_next_sequence st)), (''producer_epoch'', PStr (hs_producer_epoch st)),
     (''producer_id'', PStr (hs_producer_id st)), (''runner_id'', PStr (hs_runner_id st))]"
  by (simp add: state_mapping_def obj_def key_text_def)

lemma state_mapping_plain:
  assumes "json_line (state_mapping st) = Inr bytes"
  shows "json_plain (state_mapping st)"
proof -
  have "\<exists>t. dump_int (hs_next_sequence st) = Inr t"
    using assms unfolding json_line_def sorted_state_mapping
    by (auto simp: obj_def rbind_Inr_iff)
  then show ?thesis by (auto simp: state_mapping_def obj_def dump_int_def split: if_splits)
qed

lemma state_of_saved:
  "state_of_raw rp rid pid (sort_keys (state_mapping st)) = Inr (Some st') \<Longrightarrow> st' = st"
  unfolding sorted_state_mapping
  by (cases st) (auto simp: state_of_raw_def other_identity_def epoch_text_def has_key_def pget_def obj_def
      split: if_splits)

lemma stored_after_save:
  assumes "save_state st (hc_state_file c) d = (Inr u, d')"
  shows "stored env c d' = Some st \<or> stored env c d' = None"
proof -
  obtain bytes where b: "json_line (state_mapping st) = Inr bytes"
    "fs_files d' (hc_state_file c) = Some bytes"
    using atomic_write_done [OF assms [unfolded save_state_def]] by auto
  obtain bytes' where b': "json_line (state_mapping st) = Inr bytes'" "read_text bytes' = Inr bytes'"
    "json_loads (he_float_text env) bytes' = Inr (sort_keys (state_mapping st))"
    using json_line_plain [OF state_mapping_plain [OF b(1)]] by blast
  have "stored env c d' =
      (case state_of_raw (he_str env) (hc_runner_id c) (hc_producer_id c) (sort_keys (state_mapping st)) of
         Inl x \<Rightarrow> None | Inr st \<Rightarrow> st)"
    using b b' by (simp add: stored_def load_raw_def)
  then show ?thesis using state_of_saved by (auto split: sum.splits)
qed

lemma save_state_failed: "save_state st path d = (Inl x, d') \<Longrightarrow> fs_files d' = fs_files d"
  unfolding save_state_def by (rule atomic_write_failed)

subsection \<open>Reserving a number\<close>

text \<open>
  A state is safe when none of the numbers handed out so far lies ahead of it and no later \<^verbatim>\<open>uuid4\<close> will
  be its epoch.
\<close>

definition safe_state :: "'w heart_env \<Rightarrow> (string \<times> int) set \<Rightarrow> nat \<Rightarrow> heartbeat_state \<Rightarrow> bool" where
  "safe_state env handed k st \<longleftrightarrow>
     (\<forall>n. (hs_producer_epoch st, n) \<in> handed \<longrightarrow> n < hs_next_sequence st) \<and>
     (\<forall>j \<ge> k. he_uuid env j \<noteq> hs_producer_epoch st)"

definition safe_heart :: "'w heart_env \<Rightarrow> heartbeat_config \<Rightarrow> (string \<times> int) set \<Rightarrow> heart \<Rightarrow> bool" where
  "safe_heart env c handed h \<longleftrightarrow>
     (\<forall>st. ht_state h = Some st \<longrightarrow> safe_state env handed (ht_uuids h) st) \<and>
     (\<forall>st. stored env c (ht_fs h) = Some st \<longrightarrow> safe_state env handed (ht_uuids h) st) \<and>
     (\<forall>(e, n) \<in> handed. \<forall>j \<ge> ht_uuids h. he_uuid env j \<noteq> e)"

lemma safe_heartI:
  assumes "\<And>st. ht_state h = Some st \<Longrightarrow> safe_state env handed (ht_uuids h) st"
    and "\<And>st. stored env c (ht_fs h) = Some st \<Longrightarrow> safe_state env handed (ht_uuids h) st"
    and "\<forall>(e, n) \<in> handed. \<forall>j \<ge> ht_uuids h. he_uuid env j \<noteq> e"
  shows "safe_heart env c handed h"
  using assms by (simp add: safe_heart_def)

lemma safe_state_later: "safe_state env handed k st \<Longrightarrow> k \<le> k' \<Longrightarrow> safe_state env handed k' st"
  by (auto simp: safe_state_def)

lemma safe_heart_later:
  assumes "safe_heart env c handed h" and "ht_uuids h \<le> ht_uuids h'"
    and "ht_state h' = ht_state h \<or> ht_state h' = None"
    and "fs_files (ht_fs h') (hc_state_file c) = fs_files (ht_fs h) (hc_state_file c)"
  shows "safe_heart env c handed h'"
proof -
  have s: "stored env c (ht_fs h') = stored env c (ht_fs h)" by (rule stored_cong [OF assms(4)])
  have "\<forall>j \<ge> ht_uuids h'. he_uuid env j \<noteq> e" if "(e, n) \<in> handed" for e n
    using that assms(1,2) le_trans unfolding safe_heart_def by blast
  moreover have "safe_state env handed (ht_uuids h') st" if "ht_state h' = Some st" for st
  proof -
    have "ht_state h = Some st" using that assms(3) by auto
    then have "safe_state env handed (ht_uuids h) st" using assms(1) by (simp add: safe_heart_def)
    then show ?thesis by (rule safe_state_later [OF _ assms(2)])
  qed
  moreover have "safe_state env handed (ht_uuids h') st" if "stored env c (ht_fs h') = Some st" for st
  proof -
    have "safe_state env handed (ht_uuids h) st" using that assms(1) s by (simp add: safe_heart_def)
    then show ?thesis by (rule safe_state_later [OF _ assms(2)])
  qed
  ultimately show ?thesis unfolding safe_heart_def by blast
qed

lemma new_state_safe:
  assumes "safe_heart env c handed h" and "inj (he_uuid env)"
  shows "safe_state env handed (ht_uuids h + 1) (new_state rid pid (he_uuid env (ht_uuids h)))"
  using assms by (fastforce simp: safe_heart_def safe_state_def new_state_def inj_eq)

text \<open>Loading: the state of the file, a new epoch, or a failure that leaves the file alone.\<close>

lemma load_state_cases:
  assumes "load_state (he_float_text env) (he_str env) (he_uuid env) (hc_state_file c) (hc_runner_id c)
      (hc_producer_id c) k d = (r, k', d')"
  obtains (found) st where "r = Inr st" "stored env c d = Some st" "k' = k" "fs_files d' = fs_files d"
  | (fresh) d1 where "r = Inr (new_state (hc_runner_id c) (hc_producer_id c) (he_uuid env k))" "k' = k + 1"
      "save_state (new_state (hc_runner_id c) (hc_producer_id c) (he_uuid env k)) (hc_state_file c) d1 = (Inr (), d')"
      "fs_files d1 = fs_files d"
  | (failed) x where "r = Inl x" "k \<le> k'" "fs_files d' = fs_files d"
proof -
  have start: thesis
    if b: "begin_epoch (he_uuid env) (hc_state_file c) (hc_runner_id c) (hc_producer_id c) k d1 = (r, k', d')"
      and f: "fs_files d1 = fs_files d" for d1
    using b f fresh failed save_state_failed by (fastforce simp: begin_epoch_def split: prod.splits sum.splits)
  show thesis
  proof (cases "fs_files d (hc_state_file c)")
    case None
    then show thesis using assms start by (simp add: load_state_def)
  next
    case (Some bytes)
    obtain contents d1 where rd: "read_file (hc_state_file c) d = (contents, d1)" by fastforce
    have f: "fs_files d1 = fs_files d" using read_file_files [OF rd] .
    have contents: "contents = read_text bytes \<or> (\<exists>x. contents = Inl x)"
      using rd Some by (auto simp: read_file_def sbind_def split: prod.splits sum.splits)
    define decoded where
      "decoded = rbind (load_raw (he_float_text env) contents)
         (state_of_raw (he_str env) (hc_runner_id c) (hc_producer_id c))"
    have e: "(case decoded of Inl x \<Rightarrow> (Inl x, k, d1) | Inr (Some st) \<Rightarrow> (Inr st, k, d1)
        | Inr None \<Rightarrow> begin_epoch (he_uuid env) (hc_state_file c) (hc_runner_id c) (hc_producer_id c) k d1) =
        (r, k', d')"
      using assms Some rd by (simp add: load_state_def decoded_def)
    show thesis
    proof (cases decoded)
      case (Inl x)
      then show thesis using e f failed by auto
    next
      case (Inr found_state)
      show thesis
      proof (cases found_state)
        case None
        then show thesis using e f start Inr by simp
      next
        case st: (Some st)
        have "\<not> (\<exists>x. contents = Inl x)"
          using Inr st by (auto simp: decoded_def load_raw_def state_of_raw_def other_identity_def split: if_splits)
        then have "stored env c d = Some st"
          using contents Some Inr st by (simp add: stored_def decoded_def)
        then show thesis using found e f Inr st by auto
      qed
    qed
  qed
qed

lemma reserve_from_cases:
  assumes "reserve_from c st h = (r, h')"
  obtains (reserved) d where "r = Inr (st\<lparr>hs_next_sequence := hs_next_sequence st + 1\<rparr>, hs_next_sequence st)"
      "save_state (st\<lparr>hs_next_sequence := hs_next_sequence st + 1\<rparr>) (hc_state_file c) (ht_fs h) = (Inr (), d)"
      "h' = h\<lparr>ht_state := Some (st\<lparr>hs_next_sequence := hs_next_sequence st + 1\<rparr>), ht_fs := d\<rparr>"
  | (failed) x d where "r = Inl x" "h' = h\<lparr>ht_fs := d\<rparr>" "fs_files d = fs_files (ht_fs h)"
  using assms save_state_failed
  by (auto simp: reserve_from_def reserve_def sbind_def Let_def split: prod.splits sum.splits)

lemma safe_next:
  assumes "safe_state env handed k st"
  shows "safe_state env (insert (hs_producer_epoch st, hs_next_sequence st) handed) k
      (st\<lparr>hs_next_sequence := hs_next_sequence st + 1\<rparr>)"
  using assms by (fastforce simp: safe_state_def)

lemma reserve_from_safe:
  assumes "reserve_from c st h = (r, h')" and "safe_heart env c handed h"
    and "safe_state env handed (ht_uuids h) st"
  shows "case r of
      Inl x \<Rightarrow> safe_heart env c handed h'
    | Inr (next, n) \<Rightarrow> (\<forall>m. (hs_producer_epoch next, m) \<in> handed \<longrightarrow> m < n) \<and>
        safe_heart env c (insert (hs_producer_epoch next, n) handed) h'"
  using assms(1)
proof (cases rule: reserve_from_cases)
  case (reserved d)
  let ?next = "st\<lparr>hs_next_sequence := hs_next_sequence st + 1\<rparr>"
  let ?handed = "insert (hs_producer_epoch st, hs_next_sequence st) handed"
  have n: "safe_state env ?handed (ht_uuids h) ?next" by (rule safe_next [OF assms(3)])
  have "stored env c d = Some ?next \<or> stored env c d = None" by (rule stored_after_save [OF reserved(2)])
  moreover have "\<forall>(e, n) \<in> ?handed. \<forall>j \<ge> ht_uuids h. he_uuid env j \<noteq> e"
    using assms(2,3) by (auto simp: safe_heart_def safe_state_def)
  ultimately have "safe_heart env c ?handed h'"
    using n reserved(3) by (auto simp: safe_heart_def)
  then show ?thesis using reserved(1) assms(3) by (auto simp: safe_state_def)
next
  case (failed x d)
  have "safe_heart env c handed h'"
    by (rule safe_heart_later [OF assms(2)]) (use failed in auto)
  then show ?thesis using failed(1) by simp
qed

lemma reserve_next_safe:
  assumes "reserve_next env c h = (r, h')" and "safe_heart env c handed h" and "inj (he_uuid env)"
  shows "case r of
      Inl x \<Rightarrow> safe_heart env c handed h'
    | Inr (next, n) \<Rightarrow> (\<forall>m. (hs_producer_epoch next, m) \<in> handed \<longrightarrow> m < n) \<and>
        safe_heart env c (insert (hs_producer_epoch next, n) handed) h'"
proof (cases "ht_state h")
  case (Some st)
  then have "reserve_from c st h = (r, h')" using assms(1) by (simp add: reserve_next_def)
  moreover have "safe_state env handed (ht_uuids h) st" using Some assms(2) by (simp add: safe_heart_def)
  ultimately show ?thesis using reserve_from_safe assms(2) by blast
next
  case None
  obtain l k d where l: "load_state (he_float_text env) (he_str env) (he_uuid env) (hc_state_file c)
      (hc_runner_id c) (hc_producer_id c) (ht_uuids h) (ht_fs h) = (l, k, d)" by (metis surj_pair)
  note step = assms(1) [unfolded reserve_next_def None option.case l prod.case]
  show ?thesis
    using l
  proof (cases rule: load_state_cases)
    case (found st)
    let ?h = "h\<lparr>ht_state := Some st, ht_uuids := k, ht_fs := d\<rparr>"
    have st: "safe_state env handed (ht_uuids h) st" using found(2) assms(2) by (simp add: safe_heart_def)
    then have "safe_heart env c handed ?h"
      using assms(2) found stored_cong [of d c "ht_fs h" env] by (intro safe_heartI) (simp_all add: safe_heart_def)
    moreover have "reserve_from c st ?h = (r, h')" using step found(1) by simp
    ultimately show ?thesis using reserve_from_safe [of c st ?h r h' env handed] st found(3) by simp
  next
    case (fresh d1)
    let ?st = "new_state (hc_runner_id c) (hc_producer_id c) (he_uuid env (ht_uuids h))"
    let ?h = "h\<lparr>ht_state := Some ?st, ht_uuids := k, ht_fs := d\<rparr>"
    have st: "safe_state env handed k ?st" using new_state_safe [OF assms(2,3)] fresh(2) by simp
    have stored: "stored env c d = Some ?st \<or> stored env c d = None" by (rule stored_after_save [OF fresh(3)])
    have "\<forall>j \<ge> k. he_uuid env j \<noteq> e" if "(e, n) \<in> handed" for e n
    proof -
      have "\<forall>j \<ge> ht_uuids h. he_uuid env j \<noteq> e" using that assms(2) unfolding safe_heart_def by blast
      then show ?thesis using fresh(2) by simp
    qed
    then have "safe_heart env c handed ?h" using st stored by (intro safe_heartI) auto
    moreover have "reserve_from c ?st ?h = (r, h')" using step fresh(1) by simp
    ultimately show ?thesis using reserve_from_safe [of c ?st ?h r h' env handed] st by simp
  next
    case (failed x)
    have "safe_heart env c handed h'"
      by (rule safe_heart_later [OF assms(2)]) (use step failed None in auto)
    then show ?thesis using step failed by auto
  qed
qed

subsection \<open>A life of the producer\<close>

text \<open>
  Heartbeats and restarts in any order; a restart forgets what is in memory and keeps the files.
  \<open>numbers\<close> lists what each heartbeat puts into its event as epoch and sequence number.
\<close>

datatype action = Beat | Restart

fun numbers :: "'w heart_env \<Rightarrow> heartbeat_config \<Rightarrow> string \<Rightarrow> action list \<Rightarrow> heart \<Rightarrow> 'w \<Rightarrow> (string \<times> int) list" where
  "numbers env c endpoint [] h w = []"
| "numbers env c endpoint (Restart # acts) h w = numbers env c endpoint acts (h\<lparr>ht_state := None\<rparr>) w"
| "numbers env c endpoint (Beat # acts) h w =
     (case prepare env c endpoint h (snd (he_now env w)) of
        (Inl x, _) \<Rightarrow> [] | (Inr (token, st, n), _) \<Rightarrow> [(hs_producer_epoch st, n)]) @
     (case emit_once env c endpoint h w of (r, h', w') \<Rightarrow> numbers env c endpoint acts h' w')"

lemma token_bytes_files: "token_bytes path d = (b, d') \<Longrightarrow> fs_files d' = fs_files d"
  by (auto simp: token_bytes_def split: option.splits prod.splits sum.splits dest: fs_call_files)

lemma flush_outbox_keeps:
  assumes "flush_outbox env c endpoint token h w = (h', w')"
  shows "ht_state h' = ht_state h \<and> ht_uuids h' = ht_uuids h \<and> ht_fs h' = ht_fs h"
  using assms by (auto simp: flush_outbox_def say_def split: option.splits prod.splits sum.splits)

lemma record_status_keeps:
  assumes "status_path c \<noteq> hc_state_file c"
  shows "ht_state (record_status c r at h) = ht_state h \<and> ht_uuids (record_status c r at h) = ht_uuids h \<and>
    fs_files (ht_fs (record_status c r at h)) (hc_state_file c) = fs_files (ht_fs h) (hc_state_file c)"
  using assms
  by (auto simp: record_status_def say_def Let_def split: prod.splits sum.splits
      dest!: atomic_write_done atomic_write_failed)

lemma prepare_safe:
  assumes "prepare env c endpoint h w = (r, h', w')" and "safe_heart env c handed h" and "inj (he_uuid env)"
  shows "case r of
      Inl x \<Rightarrow> safe_heart env c handed h'
    | Inr (token, next, n) \<Rightarrow> (\<forall>m. (hs_producer_epoch next, m) \<in> handed \<longrightarrow> m < n) \<and>
        safe_heart env c (insert (hs_producer_epoch next, n) handed) h'"
proof -
  obtain bytes d where t: "token_bytes (hc_token_file c) (ht_fs h) = (bytes, d)" by fastforce
  have d: "safe_heart env c handed (h\<lparr>ht_fs := d\<rparr>)"
    by (rule safe_heart_later [OF assms(2)]) (use token_bytes_files [OF t] in auto)
  show ?thesis
  proof (cases "read_token_file bytes")
    case (Inl reason)
    then show ?thesis using assms(1) t d by (auto simp: prepare_def)
  next
    case (Inr token)
    obtain h1 w1 where f: "flush_outbox env c endpoint token (h\<lparr>ht_fs := d\<rparr>) w = (h1, w1)" by fastforce
    have h1: "safe_heart env c handed h1"
      by (rule safe_heart_later [OF d]) (use flush_outbox_keeps [OF f] in auto)
    obtain q h2 where q: "reserve_next env c h1 = (q, h2)" by fastforce
    show ?thesis
      using reserve_next_safe [OF q h1 assms(3)] assms(1) t Inr f q
      by (auto simp: prepare_def split: sum.splits)
  qed
qed

lemma send_heartbeat_keeps:
  assumes "send_heartbeat env c endpoint token at st n h w = (r, h', w')" and "status_path c \<noteq> hc_state_file c"
  shows "ht_state h' = ht_state h \<and> ht_uuids h \<le> ht_uuids h' \<and>
    fs_files (ht_fs h') (hc_state_file c) = fs_files (ht_fs h) (hc_state_file c)"
  using assms record_status_keeps [OF assms(2)]
  by (auto simp: send_heartbeat_def say_def Let_def split: prod.splits sum.splits if_splits)

lemma failed_attempt_keeps:
  assumes "failed_attempt c reason at h w = (r, h', w')" and "status_path c \<noteq> hc_state_file c"
  shows "ht_state h' = ht_state h \<and> ht_uuids h' = ht_uuids h \<and>
    fs_files (ht_fs h') (hc_state_file c) = fs_files (ht_fs h) (hc_state_file c)"
  using assms record_status_keeps [OF assms(2)] by (auto simp: failed_attempt_def say_def)

lemma emit_once_keeps:
  assumes "emit_once env c endpoint h w = (r, h', w')" and "status_path c \<noteq> hc_state_file c"
    and "prepare env c endpoint h (snd (he_now env w)) = (q, h1, w1)"
  shows "ht_state h' = ht_state h1 \<and> ht_uuids h1 \<le> ht_uuids h' \<and>
    fs_files (ht_fs h') (hc_state_file c) = fs_files (ht_fs h1) (hc_state_file c)"
proof -
  obtain at w0 where n: "he_now env w = (at, w0)" by fastforce
  note step = assms(1) [unfolded emit_once_def n prod.case] assms(3) [unfolded n snd_conv]
  show ?thesis
  proof (cases q)
    case (Inl x)
    then show ?thesis
      using step by (cases x) (auto dest!: failed_attempt_keeps [OF _ assms(2)])
  next
    case (Inr p)
    then show ?thesis
      using step by (cases p) (auto dest!: send_heartbeat_keeps [OF _ assms(2)])
  qed
qed

definition precedes :: "string \<times> int \<Rightarrow> string \<times> int \<Rightarrow> bool" where
  "precedes p q \<longleftrightarrow> (fst p = fst q \<longrightarrow> snd p < snd q)"

lemma numbers_increase:
  assumes "safe_heart env c handed h" and "inj (he_uuid env)" and "status_path c \<noteq> hc_state_file c"
  shows "sorted_wrt precedes (numbers env c endpoint acts h w) \<and>
    (\<forall>p \<in> handed. \<forall>q \<in> set (numbers env c endpoint acts h w). precedes p q)"
  using assms(1)
proof (induction acts arbitrary: h w handed)
  case Nil
  then show ?case by simp
next
  case (Cons a acts)
  show ?case
  proof (cases a)
    case Restart
    have "safe_heart env c handed (h\<lparr>ht_state := None\<rparr>)"
      by (rule safe_heart_later [OF Cons.prems]) auto
    then show ?thesis using Cons.IH Restart by simp
  next
    case Beat
    obtain q h1 w1 where p: "prepare env c endpoint h (snd (he_now env w)) = (q, h1, w1)" by (metis surj_pair)
    obtain r h' w' where e: "emit_once env c endpoint h w = (r, h', w')" by (metis surj_pair)
    note keeps = emit_once_keeps [OF e assms(3) p]
    have later: "safe_heart env c X h1 \<Longrightarrow> safe_heart env c X h'" for X
      by (rule safe_heart_later) (use keeps in auto)
    note safe = prepare_safe [OF p Cons.prems assms(2)]
    show ?thesis
    proof (cases q)
      case (Inl x)
      then have "safe_heart env c handed h'" using safe later by simp
      then show ?thesis using Cons.IH Beat p e Inl by simp
    next
      case (Inr t)
      obtain token st n where t: "t = (token, st, n)" by (metis surj_pair)
      let ?p = "(hs_producer_epoch st, n)"
      have earlier: "\<forall>m. (hs_producer_epoch st, m) \<in> handed \<longrightarrow> m < n"
        and "safe_heart env c (insert ?p handed) h'"
        using safe later Inr t by auto
      then have "sorted_wrt precedes (numbers env c endpoint acts h' w') \<and>
          (\<forall>p \<in> insert ?p handed. \<forall>q \<in> set (numbers env c endpoint acts h' w'). precedes p q)"
        by (intro Cons.IH)
      moreover have "\<forall>p \<in> handed. precedes p ?p" using earlier by (auto simp: precedes_def)
      ultimately show ?thesis using Beat p e Inr t by auto
    qed
  qed
qed


text \<open>Two heartbeats around a restart, over files that do not fail.\<close>

definition beat_env :: "unit heart_env" where
  "beat_env = \<lparr>he_clock = (\<lambda>w. (0, w)), he_now = (\<lambda>w. (''2026-09-18T01:00:00.000Z'', w)),
     he_probe = (\<lambda>e t w. (Inr True, w)), he_deliver = (\<lambda>v e t w. (Inr (undelivered 1 ''temporary_network_failure'' None), w)),
     he_stop_set = (\<lambda>w. (False, w)), he_stop_wait = (\<lambda>t w. (False, w)),
     he_uuid = (\<lambda>n. replicate (Suc n) (CHR ''a'')), he_float_text = (\<lambda>t. t), he_str = (\<lambda>v. []), he_io = good_io\<rparr>"

definition beat_config :: heartbeat_config where
  "beat_config = \<lparr>hc_endpoint = ''https://monitor.example'', hc_token_file = ''hb/token'',
     hc_runner_id = ''40000000-0000-4000-8000-000000000001'', hc_state_file = ''hb/state.json'',
     hc_producer_id = ''runner-heartbeat'', hc_service_name = ''RunnerObservabilityHeartbeat'',
     hc_python_executable = ''python'', hc_interval_seconds = 60, hc_network_poll_seconds = 5,
     hc_allow_insecure_http = False, hc_outbox_dir = None\<rparr>"

definition beat_heart :: heart where
  "beat_heart = \<lparr>ht_state = None, ht_last_success = None,
     ht_fs = \<lparr>fs_files = (\<lambda>p. if p = ''hb/token'' then Some ''secret'' else None), fs_stray = 0, fs_faults = []\<rparr>,
     ht_outbox = \<lparr>pending = [], dead_letter = [], reports = []\<rparr>, ht_uuids = 0, ht_messages = []\<rparr>"

lemma beat_numbers:
  "numbers beat_env beat_config ''https://monitor.example/v1/events'' [Beat, Restart, Beat] beat_heart () =
     [(''a'', 1), (''a'', 2)]"
  by code_simp


subsection \<open>An exception that escapes\<close>

text \<open>
  Making the directory of the state file is outside of the handler: its \<^verbatim>\<open>OSError\<close> is no
  \<^verbatim>\<open>HeartbeatStateError\<close>, leaves \<^verbatim>\<open>emit_once\<close> and ends the loop.
\<close>

lemma heartbeat_mkdir_escapes:
  "fst (emit_once beat_env beat_config ''https://monitor.example/v1/events''
     (beat_heart\<lparr>ht_fs := (ht_fs beat_heart)\<lparr>fs_faults := [Fine, Fails OSError 0]\<rparr>\<rparr>) ()) = Inl OSError"
  by code_simp

end
