(* ===== verification/HeartbeatSchedule.thy ===== *)
theory HeartbeatSchedule
  imports HeartbeatLoop Contracts
begin

section \<open>Schedule and configuration of the heartbeat\<close>

text \<open>
  The times at which the loop sends, and the round trip of a configuration through its file.
\<close>

subsection \<open>Valid configurations\<close>

named_theorems config_iffs \<open>when a field of a configuration is accepted\<close>

lemma solid_text_Inr [config_iffs]: "solid_text v = Inr s \<longleftrightarrow> v = PStr s \<and> strip s \<noteq> []"
  by (cases v) (auto simp: solid_text_def)

lemma seconds_between_Inr [config_iffs]: "seconds_between most v = Inr n \<longleftrightarrow> v = PInt n \<and> 1 \<le> n \<and> n \<le> most"
  by (cases v) (auto simp: seconds_between_def)

lemma optional_text_Inr [config_iffs]:
  "optional_text v = Inr t \<longleftrightarrow> (case t of None \<Rightarrow> v = PNone | Some s \<Rightarrow> v = PStr s \<and> strip s \<noteq> [])"
  by (cases v; cases t) (auto simp: optional_text_def solid_text_Inr rbind_Inr_iff solid_text_def)

lemma bool_setting_Inr [config_iffs]:
  "(case v of PBool b \<Rightarrow> Inr (f b) | _ \<Rightarrow> Inl x) = Inr c \<longleftrightarrow> (\<exists>b. v = PBool b \<and> f b = c)"
  by (cases v) auto

lemma unless_Inr [config_iffs]: "(if b then Inl x else m) = Inr c \<longleftrightarrow> \<not> b \<and> m = Inr c"
  by simp

definition valid_config :: "heartbeat_config \<Rightarrow> bool" where
  "valid_config c \<longleftrightarrow>
     strip (hc_endpoint c) \<noteq> [] \<and> strip (hc_token_file c) \<noteq> [] \<and> strip (hc_runner_id c) \<noteq> [] \<and>
     strip (hc_state_file c) \<noteq> [] \<and> strip (hc_producer_id c) \<noteq> [] \<and> strip (hc_service_name c) \<noteq> [] \<and>
     strip (hc_python_executable c) \<noteq> [] \<and>
     (case hc_outbox_dir c of None \<Rightarrow> True | Some dir \<Rightarrow> strip dir \<noteq> []) \<and>
     check_endpoint (hc_endpoint c) (hc_allow_insecure_http c) = Inr () \<and>
     check_runner_id (hc_runner_id c) = Inr () \<and>
     fullmatch HEARTBEAT_IDENTIFIER (hc_producer_id c) \<and> fullmatch HEARTBEAT_IDENTIFIER (hc_service_name c) \<and>
     1 \<le> hc_interval_seconds c \<and> hc_interval_seconds c \<le> 86400 \<and>
     1 \<le> hc_network_poll_seconds c \<and> hc_network_poll_seconds c \<le> 300"

definition config_values :: "pyval \<Rightarrow> heartbeat_config \<Rightarrow> bool" where
  "config_values m c \<longleftrightarrow>
     pget m ''endpoint'' = PStr (hc_endpoint c) \<and> pget m ''token_file'' = PStr (hc_token_file c) \<and>
     pget m ''runner_id'' = PStr (hc_runner_id c) \<and> pget m ''state_file'' = PStr (hc_state_file c) \<and>
     pget m ''producer_id'' = PStr (hc_producer_id c) \<and> pget m ''service_name'' = PStr (hc_service_name c) \<and>
     pget m ''python_executable'' = PStr (hc_python_executable c) \<and>
     pget m ''interval_seconds'' = PInt (hc_interval_seconds c) \<and>
     pget m ''network_poll_seconds'' = PInt (hc_network_poll_seconds c) \<and>
     pget m ''allow_insecure_http'' = PBool (hc_allow_insecure_http c) \<and>
     pget m ''outbox_dir'' = (case hc_outbox_dir c of None \<Rightarrow> PNone | Some dir \<Rightarrow> PStr dir)"

lemma make_config_Inr: "make_config m = Inr c \<longleftrightarrow> config_values m c \<and> valid_config c"
proof
  assume "make_config m = Inr c"
  then show "config_values m c \<and> valid_config c"
    unfolding make_config_def rbind_Inr_iff config_iffs
    by (elim exE conjE, hypsubst) (simp add: config_values_def valid_config_def split: option.splits)
next
  assume "config_values m c \<and> valid_config c"
  then show "make_config m = Inr c"
    unfolding config_values_def valid_config_def
    by (cases c; cases "hc_outbox_dir c") (simp_all add: make_config_def solid_text_def optional_text_def seconds_between_def)
qed

lemma config_from_mapping_valid: "config_from_mapping executable raw = Inr c \<Longrightarrow> valid_config c"
  by (auto simp: config_from_mapping_def Let_def rbind_Inr_iff make_config_Inr split: if_splits)

subsection \<open>Drift-free times\<close>

lemma skip_missed_spec:
  assumes "0 < i"
  shows "now < skip_missed i now due \<and> due \<le> skip_missed i now due \<and> i dvd skip_missed i now due - due \<and>
    (due \<le> now \<longrightarrow> skip_missed i now due - i \<le> now) \<and> (now < due \<longrightarrow> skip_missed i now due = due)"
  using assms
proof (induction i now due rule: skip_missed.induct)
  case (1 i now due)
  show ?case
  proof (cases "due \<le> now \<and> 0 < i")
    case True
    note IH = 1(1) [OF True 1(2)]
    have step: "skip_missed i now due = skip_missed i now (due + i)"
      using True by (subst skip_missed.simps) simp
    have "i dvd skip_missed i now (due + i) - due"
      using IH dvd_add [of i "skip_missed i now (due + i) - (due + i)" i] by (simp add: algebra_simps)
    moreover have "skip_missed i now (due + i) - i \<le> now"
      using IH True by (cases "due + i \<le> now") auto
    ultimately show ?thesis using IH True unfolding step by auto
  next
    case False
    then have "skip_missed i now due = due" unfolding skip_missed.simps [of i now due] by auto
    then show ?thesis using False 1(2) by auto
  qed
qed

text \<open>
  The schedule does not drift: after a heartbeat that was due at \<open>due\<close>, however long it took, the
  next one is due a whole number of intervals later, in the future, and at the first such time.
\<close>

lemma heartbeat_schedule:
  assumes "config_from_mapping executable raw = Inr c"
  shows "now < following_due c now due \<and> due < following_due c now due \<and>
    hc_interval_seconds c * SECOND dvd following_due c now due - due \<and>
    following_due c now due - hc_interval_seconds c * SECOND \<le> max now due"
proof -
  let ?i = "hc_interval_seconds c * SECOND"
  have i: "0 < ?i" using config_from_mapping_valid [OF assms] by (simp add: valid_config_def SECOND_def)
  note spec = skip_missed_spec [OF i, of now "due + ?i"]
  have "?i dvd following_due c now due - due"
    using spec dvd_add [of ?i "following_due c now due - (due + ?i)" ?i]
    by (simp add: following_due_def algebra_simps)
  moreover have "following_due c now due - ?i \<le> max now due"
    using spec unfolding following_due_def by (cases "due + ?i \<le> now") auto
  ultimately show ?thesis using spec i by (simp add: following_due_def)
qed

subsection \<open>The configuration file\<close>

lemma sorted_config_mapping:
  "sort_keys (config_to_mapping c) =
   obj ([(''allow_insecure_http'', PBool (hc_allow_insecure_http c)), (''endpoint'', PStr (hc_endpoint c)),
     (''interval_seconds'', PInt (hc_interval_seconds c)),
     (''network_poll_seconds'', PInt (hc_network_poll_seconds c))] @
     (case hc_outbox_dir c of None \<Rightarrow> [] | Some dir \<Rightarrow> [(''outbox_dir'', PStr dir)]) @
     [(''producer_id'', PStr (hc_producer_id c)), (''python_executable'', PStr (hc_python_executable c)),
      (''runner_id'', PStr (hc_runner_id c)), (''service_name'', PStr (hc_service_name c)),
      (''state_file'', PStr (hc_state_file c)), (''token_file'', PStr (hc_token_file c))])"
  by (cases "hc_outbox_dir c") (simp_all add: config_to_mapping_def obj_def key_text_def)

lemma config_from_sorted:
  assumes "valid_config c"
  shows "config_from_mapping executable (sort_keys (config_to_mapping c)) = Inr c"
proof -
  let ?raw = "sort_keys (config_to_mapping c)"
  let ?m = "PDict (update_items (config_defaults executable) (items ?raw))"
  have known: "known_keys CONFIG_FIELDS ?raw"
    unfolding sorted_config_mapping
    by (cases "hc_outbox_dir c") (simp_all add: known_keys_def CONFIG_FIELDS_def obj_def)
  have v: "config_values ?m c"
    unfolding sorted_config_mapping
    by (cases "hc_outbox_dir c") (simp_all add: config_values_def config_defaults_def obj_def pget_def)
  then have "make_config ?m = Inr c" using assms by (simp add: make_config_Inr)
  then show ?thesis
    using known v assms
    by (simp add: config_from_mapping_def Let_def config_values_def valid_config_def solid_text_def)
qed

lemma config_mapping_plain:
  assumes "valid_config c"
  shows "json_plain (config_to_mapping c)"
proof -
  have small: "length (nat_digits (nat \<bar>n\<bar>)) \<le> INT_MAX_STR_DIGITS" if "1 \<le> n" "n \<le> 86400" for n :: int
  proof -
    have "length (nat_digits (nat \<bar>n\<bar>)) \<le> Suc 5" using that by (intro length_nat_digits) simp
    then show ?thesis by (simp add: INT_MAX_STR_DIGITS_def)
  qed
  show ?thesis
    using assms small by (cases "hc_outbox_dir c") (simp_all add: config_to_mapping_def obj_def valid_config_def)
qed

text \<open>
  C38: A configuration survives its file: what \<^verbatim>\<open>write_atomic\<close> wrote of an accepted configuration is read
  back by \<^verbatim>\<open>from_json\<close> as the same configuration, whatever the reading interpreter's own defaults are.
\<close>

theorem config_file_roundtrip:
  assumes "config_from_mapping executable raw = Inr c"
    and "config_write_atomic c path d = (Inr (), d')"
  shows "fst (config_from_json fr executable' path (d'\<lparr>fs_faults := []\<rparr>)) = Inr c"
proof -
  have v: "valid_config c" using config_from_mapping_valid [OF assms(1)] .
  obtain bytes where b: "json_line (config_to_mapping c) = Inr bytes" "fs_files d' path = Some bytes"
    using atomic_write_done [OF assms(2) [unfolded config_write_atomic_def]] by auto
  obtain bytes' where "json_line (config_to_mapping c) = Inr bytes'" "read_text bytes' = Inr bytes'"
    "json_loads fr bytes' = Inr (sort_keys (config_to_mapping c))"
    using json_line_plain [OF config_mapping_plain [OF v]] by blast
  then have r: "read_text bytes = Inr bytes" "json_loads fr bytes = Inr (sort_keys (config_to_mapping c))"
    using b(1) by simp_all
  show ?thesis
    using r b(2) config_from_sorted [OF v]
    by (simp add: config_from_json_def read_file_def fs_call_def)
qed

subsection \<open>Witnesses\<close>

definition sample_config :: heartbeat_config where
  "sample_config = \<lparr>hc_endpoint = ''https://monitor.example'', hc_token_file = ''hb/token'',
     hc_runner_id = ''40000000-0000-4000-8000-000000000001'', hc_state_file = ''hb/state.json'',
     hc_producer_id = ''runner-heartbeat'', hc_service_name = ''RunnerObservabilityHeartbeat'',
     hc_python_executable = ''python'', hc_interval_seconds = 60, hc_network_poll_seconds = 5,
     hc_allow_insecure_http = False, hc_outbox_dir = Some ''hb/outbox''\<rparr>"

definition sample_raw :: pyval where
  "sample_raw = config_to_mapping sample_config"

definition empty_disk :: filesys where
  "empty_disk = \<lparr>fs_files = (\<lambda>p. None), fs_stray = 0, fs_faults = []\<rparr>"

lemma sample_accepted: "config_from_mapping ''python3'' sample_raw = Inr sample_config"
  by code_simp

lemma heartbeat_schedule_sample:
  "1000 < following_due sample_config 1000 0 \<and> following_due sample_config 1000 0 \<le> 60 * SECOND + 1000"
  using heartbeat_schedule [OF sample_accepted, of 1000 0] by (simp add: sample_config_def)

lemma sample_written: "fst (config_write_atomic sample_config ''hb/config.json'' empty_disk) = Inr ()"
  by code_simp

theorem config_file_roundtrip_witness:
  "fst (config_from_json (\<lambda>t. t) ''another'' ''hb/config.json''
     (snd (config_write_atomic sample_config ''hb/config.json'' empty_disk)\<lparr>fs_faults := []\<rparr>)) = Inr sample_config"
proof -
  have "config_write_atomic sample_config ''hb/config.json'' empty_disk =
      (Inr (), snd (config_write_atomic sample_config ''hb/config.json'' empty_disk))"
    using sample_written by (metis prod.collapse)
  then show ?thesis by (rule config_file_roundtrip [OF sample_accepted])
qed

subsection \<open>Runner ids that the contract does not take\<close>

text \<open>
  The configuration accepts every spelling that \<^verbatim>\<open>uuid.UUID\<close> reads, the event contract only texts of at
  most 36 characters: a producer configured with a braced id starts, and every heartbeat of it is refused.
\<close>

lemma braced_runner_id_accepted:
  "check_runner_id ''{40000000-0000-4000-8000-000000000001}'' = Inr ()"
  by code_simp

lemma braced_runner_id_refused:
  "validate_event (heartbeat_event
     (sample_config\<lparr>hc_runner_id := ''{40000000-0000-4000-8000-000000000001}''\<rparr>)
     (new_state [] [] ''epoch'') 1 ''50000000-0000-4000-8000-000000000001'' ''2026-09-18T01:00:00Z'') =
     Inl (ValidationError ''invalid_event'')"
  by code_simp

end
