(* ===== verification/Service.thy ===== *)
theory Service
  imports AtomicFile
begin

section \<open>The monitor as a Windows service (\<^verbatim>\<open>service.py\<close>)\<close>

text \<open>
  The configuration of the service, the command lines it builds, the supervisor of the monitor process
  and the handlers of the service class.  The Windows API, the child process and the log are operations
  on a world \<open>'w\<close>.  A \<^verbatim>\<open>ServiceConfigError\<close> is a \<open>ValidationError\<close> with its reason.
\<close>

subsection \<open>Configuration\<close>

record service_config =
  sc_service_name :: string
  sc_python_executable :: string
  sc_database :: string
  sc_token_file :: string
  sc_host :: string
  sc_port :: int
  sc_tls_cert :: "string option"
  sc_tls_key :: "string option"
  sc_release_root :: "string option"

definition SERVICE_FIELDS :: "string list" where
  "SERVICE_FIELDS = [''service_name'', ''python_executable'', ''database'', ''token_file'', ''host'', ''port'',
     ''tls_cert'', ''tls_key'', ''release_root'']"

definition bad_service_config :: exn where
  "bad_service_config = ValidationError ''invalid_service_configuration''"

definition service_defaults :: "string \<Rightarrow> (pykey \<times> pyval) list" where
  "service_defaults executable =
     [(KStr ''service_name'', PStr ''RunnerObservabilityMonitor''), (KStr ''python_executable'', PStr executable),
      (KStr ''database'', PStr ''runner-observability.sqlite''), (KStr ''token_file'', PStr []),
      (KStr ''host'', PStr ''0.0.0.0''), (KStr ''port'', PInt 8765), (KStr ''tls_cert'', PNone),
      (KStr ''tls_key'', PNone), (KStr ''release_root'', PNone)]"

definition service_text :: "pyval \<Rightarrow> string res" where
  "service_text v =
     (case v of PStr s \<Rightarrow> if strip s = [] then Inl bad_service_config else Inr s | _ \<Rightarrow> Inl bad_service_config)"

definition service_option :: "pyval \<Rightarrow> string option res" where
  "service_option v = (case v of PNone \<Rightarrow> Inr None | _ \<Rightarrow> rbind (service_text v) (\<lambda>s. Inr (Some s)))"

definition service_port :: "pyval \<Rightarrow> int res" where
  "service_port v =
     (case v of PInt n \<Rightarrow> if 1 \<le> n \<and> n \<le> 65535 then Inr n else Inl bad_service_config | _ \<Rightarrow> Inl bad_service_config)"

definition service_from_mapping :: "string \<Rightarrow> pyval \<Rightarrow> service_config res" where
  "service_from_mapping executable raw =
     (if \<not> known_keys SERVICE_FIELDS raw then Inl bad_service_config
      else
        (let m = PDict (update_items (service_defaults executable) (items raw)) in
         rbind (service_text (pget m ''service_name'')) (\<lambda>name.
         rbind (service_text (pget m ''python_executable'')) (\<lambda>python.
         rbind (service_text (pget m ''database'')) (\<lambda>database.
         rbind (service_text (pget m ''token_file'')) (\<lambda>token_file.
         rbind (service_text (pget m ''host'')) (\<lambda>host.
         rbind (service_port (pget m ''port'')) (\<lambda>port.
         rbind (service_option (pget m ''tls_cert'')) (\<lambda>cert.
         rbind (service_option (pget m ''tls_key'')) (\<lambda>key.
         rbind (service_option (pget m ''release_root'')) (\<lambda>root.
         if (cert = None) \<noteq> (key = None) then Inl (ValidationError ''tls_partial_configuration'')
         else Inr \<lparr>sc_service_name = name, sc_python_executable = python, sc_database = database,
                   sc_token_file = token_file, sc_host = host, sc_port = port, sc_tls_cert = cert,
                   sc_tls_key = key, sc_release_root = root\<rparr>)))))))))))"

definition service_from_json ::
  "(string \<Rightarrow> string) \<Rightarrow> string \<Rightarrow> string \<Rightarrow> filesys \<Rightarrow> service_config res \<times> filesys" where
  "service_from_json fr executable path d =
     (case read_file path d of
        (r, d1) \<Rightarrow>
          (case rbind r (json_loads fr) of
             Inl x \<Rightarrow> (Inl (if unreadable x then bad_service_config else x), d1)
           | Inr raw \<Rightarrow> (service_from_mapping executable raw, d1)))"

definition service_value :: "string option \<Rightarrow> pyval" where
  "service_value v = (case v of None \<Rightarrow> PNone | Some s \<Rightarrow> PStr s)"

definition service_to_mapping :: "service_config \<Rightarrow> pyval" where
  "service_to_mapping c =
     obj [(''service_name'', PStr (sc_service_name c)), (''python_executable'', PStr (sc_python_executable c)),
       (''database'', PStr (sc_database c)), (''token_file'', PStr (sc_token_file c)), (''host'', PStr (sc_host c)),
       (''port'', PInt (sc_port c)), (''tls_cert'', service_value (sc_tls_cert c)),
       (''tls_key'', service_value (sc_tls_key c)), (''release_root'', service_value (sc_release_root c))]"

definition service_write_atomic :: "service_config \<Rightarrow> string \<Rightarrow> filesys \<Rightarrow> unit res \<times> filesys" where
  "service_write_atomic c path d = atomic_write (\<lambda>x. x) path (json_line (service_to_mapping c)) d"

subsection \<open>Command lines\<close>

definition build_monitor_command :: "service_config \<Rightarrow> string list" where
  "build_monitor_command c =
     [sc_python_executable c, ''-m'', ''runner_observability'', ''serve'', ''--token-file'', sc_token_file c,
      ''--database'', sc_database c, ''--host'', sc_host c, ''--port'', int_text (sc_port c)] @
     (case (sc_tls_cert c, sc_tls_key c) of
        (Some cert, Some key) \<Rightarrow> [''--tls-cert'', cert, ''--tls-key'', key]
      | _ \<Rightarrow> [])"

text \<open>
  \<^verbatim>\<open>subprocess.list2cmdline\<close>: backslashes are doubled before a quotation mark, and before the closing
  one of an argument that is quoted.
\<close>

definition backslash :: char where
  "backslash = CHR 0x5C"

fun quote_chars :: "bool \<Rightarrow> nat \<Rightarrow> string \<Rightarrow> string" where
  "quote_chars quoted n [] =
     replicate n backslash @ (if quoted then replicate n backslash @ [CHR 0x22] else [])"
| "quote_chars quoted n (c # cs) =
     (if c = backslash then quote_chars quoted (n + 1) cs
      else if c = CHR 0x22 then replicate (2 * n) backslash @ [backslash, CHR 0x22] @ quote_chars quoted 0 cs
      else replicate n backslash @ c # quote_chars quoted 0 cs)"

definition quote_arg :: "string \<Rightarrow> string" where
  "quote_arg arg =
     (let quoted = (List.member arg (CHR '' '') \<or> List.member arg (CHR 0x09) \<or> arg = []) in
      (if quoted then [CHR 0x22] else []) @ quote_chars quoted 0 arg)"

definition list2cmdline :: "string list \<Rightarrow> string" where
  "list2cmdline args = join '' '' (map quote_arg args)"

definition build_service_bin_path :: "string \<Rightarrow> string \<Rightarrow> string" where
  "build_service_bin_path config_path python =
     list2cmdline [python, ''-m'', ''runner_observability.service'', ''run'', ''--config'', config_path]"

subsection \<open>The supervisor\<close>

text \<open>Times are nanoseconds.  \<^verbatim>\<open>TimeoutExpired\<close> is represented by \<open>TimeoutError\<close>, which is caught in the same places.\<close>

record 'w child =
  ch_poll :: "'w \<Rightarrow> int option \<times> 'w"
  ch_terminate :: "'w \<Rightarrow> unit res \<times> 'w"
  ch_wait :: "int \<Rightarrow> 'w \<Rightarrow> unit res \<times> 'w"
  ch_kill :: "'w \<Rightarrow> unit res \<times> 'w"

record 'w stop_event =
  se_is_set :: "'w \<Rightarrow> bool \<times> 'w"
  se_wait :: "int \<Rightarrow> 'w \<Rightarrow> bool \<times> 'w"

definition STOP_TIMEOUT :: int where
  "STOP_TIMEOUT = 10 * 1000000000"

definition POLL_INTERVAL :: int where
  "POLL_INTERVAL = 250 * 1000000"

definition end_and_wait :: "('w \<Rightarrow> unit res \<times> 'w) \<Rightarrow> 'w child \<Rightarrow> 'w \<Rightarrow> unit res \<times> 'w" where
  "end_and_wait action ch w = sbind (action w) (\<lambda>u w1. ch_wait ch STOP_TIMEOUT w1)"

definition stop_child :: "'w child \<Rightarrow> 'w \<Rightarrow> unit res \<times> 'w" where
  "stop_child ch w =
     (case ch_poll ch w of
        (Some status, w1) \<Rightarrow> (Inr (), w1)
      | (None, w1) \<Rightarrow>
          (case end_and_wait (ch_terminate ch) ch w1 of
             (Inr u, w2) \<Rightarrow> (Inr (), w2)
           | (Inl x, w2) \<Rightarrow>
               if \<not> os_error x then (Inl x, w2)
               else (case end_and_wait (ch_kill ch) ch w2 of
                  (Inr u, w3) \<Rightarrow> (Inr (), w3)
                | (Inl y, w3) \<Rightarrow> (if os_error y then Inr () else Inl y, w3))))"

definition stop_supervised :: "'w child option \<Rightarrow> 'w \<Rightarrow> unit res \<times> 'w" where
  "stop_supervised ch w = (case ch of None \<Rightarrow> (Inr (), w) | Some c \<Rightarrow> stop_child c w)"

definition stopped_code :: "'w child \<Rightarrow> 'w \<Rightarrow> int res \<times> 'w" where
  "stopped_code ch w =
     sbind (stop_child ch w) (\<lambda>u w1.
       case ch_poll ch w1 of (None, w2) \<Rightarrow> (Inr 0, w2) | (Some status, w2) \<Rightarrow> (Inr status, w2))"

partial_function (option) watch_child :: "'w child \<Rightarrow> 'w stop_event \<Rightarrow> 'w \<Rightarrow> (int res \<times> 'w) option" where
  "watch_child ch ev w =
     (case ch_poll ch w of (r, w1) \<Rightarrow>
        (case r of
           Some status \<Rightarrow> Some (Inr status, w1)
         | None \<Rightarrow>
             (case se_is_set ev w1 of (stop, w2) \<Rightarrow>
                if stop then Some (stopped_code ch w2)
                else (case se_wait ev POLL_INTERVAL w2 of (signalled, w3) \<Rightarrow> watch_child ch ev w3))))"

definition supervise ::
  "(string list \<Rightarrow> 'w \<Rightarrow> 'w child res \<times> 'w) \<Rightarrow> string list \<Rightarrow> 'w stop_event \<Rightarrow> 'w \<Rightarrow> (int res \<times> 'w) option" where
  "supervise popen command ev w =
     (case popen command w of
        (Inl x, w1) \<Rightarrow> Some (Inl x, w1)
      | (Inr ch, w1) \<Rightarrow> watch_child ch ev w1)"

subsection \<open>The service class\<close>

text \<open>
  \<open>wait_single handle ms\<close> says whether \<^verbatim>\<open>WaitForSingleObject\<close> returned \<^verbatim>\<open>WAIT_OBJECT_0\<close>; \<open>None\<close> is
  \<^verbatim>\<open>INFINITE\<close>.  The event was made by \<^verbatim>\<open>CreateEvent(None, 0, 0, None)\<close>: a successful wait resets it.
\<close>

record 'w service_api =
  sa_wait_single :: "int option \<Rightarrow> 'w \<Rightarrow> bool \<times> 'w"
  sa_set_event :: "'w \<Rightarrow> 'w"
  sa_report_stop_pending :: "'w \<Rightarrow> 'w"
  sa_log_error :: "string \<Rightarrow> 'w \<Rightarrow> unit res \<times> 'w"
  sa_dispatch :: "'w \<Rightarrow> unit res \<times> 'w"

definition win32_is_set :: "'w service_api \<Rightarrow> 'w \<Rightarrow> bool \<times> 'w" where
  "win32_is_set api w = sa_wait_single api (Some 0) w"

definition win32_wait :: "'w service_api \<Rightarrow> int option \<Rightarrow> 'w \<Rightarrow> bool \<times> 'w" where
  "win32_wait api timeout w =
     sa_wait_single api (case timeout of None \<Rightarrow> None | Some t \<Rightarrow> Some (max 0 (t div 1000000))) w"

definition win32_stop_event :: "'w service_api \<Rightarrow> 'w stop_event" where
  "win32_stop_event api = \<lparr>se_is_set = win32_is_set api, se_wait = (\<lambda>t. win32_wait api (Some t))\<rparr>"

definition log_service_reason :: "'w service_api \<Rightarrow> string \<Rightarrow> 'w \<Rightarrow> 'w" where
  "log_service_reason api reason w = snd (sa_log_error api reason w)"

definition monitor_svc_stop :: "'w service_api \<Rightarrow> 'w child option \<Rightarrow> 'w \<Rightarrow> unit res \<times> 'w" where
  "monitor_svc_stop api ch w =
     sbind (stop_supervised ch (sa_report_stop_pending api w)) (\<lambda>u w1. (Inr (), sa_set_event api w1))"

definition monitor_svc_do_run ::
  "'w service_api \<Rightarrow> (string list \<Rightarrow> 'w \<Rightarrow> 'w child res \<times> 'w) \<Rightarrow> service_config \<Rightarrow> 'w \<Rightarrow> (unit res \<times> 'w) option" where
  "monitor_svc_do_run api popen c w =
     map_option (\<lambda>(r, w1).
       case r of
         Inl x \<Rightarrow> if os_error x then (Inr (), log_service_reason api ''service_child_start_failed'' w1) else (Inl x, w1)
       | Inr status \<Rightarrow> (Inr (), if status \<noteq> 0 then log_service_reason api ''service_child_failed'' w1 else w1))
       (supervise popen (build_monitor_command c) (win32_stop_event api) w)"

text \<open>
  \<^verbatim>\<open>run_service\<close> and \<^verbatim>\<open>main\<close>: the exit code and what is printed to the error stream; \<open>api = None\<close> is a
  system without the Windows modules.
\<close>

definition run_service ::
  "'w service_api option \<Rightarrow> 'c res \<Rightarrow> 'w \<Rightarrow> int res \<times> string list \<times> 'w" where
  "run_service api config w =
     (case config of
        Inl x \<Rightarrow> (Inl x, [], w)
      | Inr c \<Rightarrow>
          (case api of
             None \<Rightarrow> (Inr 2, [''service failed reason=windows_service_unavailable''], w)
           | Some a \<Rightarrow>
               (case sa_dispatch a w of (Inl x, w1) \<Rightarrow> (Inl x, [], w1) | (Inr u, w1) \<Rightarrow> (Inr 0, [], w1))))"

definition service_main ::
  "'w service_api option \<Rightarrow> 'c res \<Rightarrow> 'w \<Rightarrow> int res \<times> string list \<times> 'w" where
  "service_main api config w =
     (case run_service api config w of
        (Inl (ValidationError reason), out, w1) \<Rightarrow> (Inr 2, out @ [''service failed reason='' @ reason], w1)
      | r \<Rightarrow> r)"

end
