(* ===== verification/Commands.thy ===== *)
theory Commands
  imports HeartbeatLoop Service Server
begin

section \<open>Service hosts and the command line\<close>

text \<open>
  \<^verbatim>\<open>heartbeat_service.py\<close>, the launcher \<^verbatim>\<open>runner_heartbeat_service.py\<close> and the dispatcher
  \<^verbatim>\<open>__main__.py\<close>: what each hands on to the components.
\<close>

subsection \<open>The heartbeat as a Windows service\<close>

definition build_heartbeat_service_bin_path :: "string \<Rightarrow> string \<Rightarrow> string \<Rightarrow> string \<Rightarrow> string" where
  "build_heartbeat_service_bin_path separator config_path python module_path =
     list2cmdline [python, module_path @ separator @ ''runner_heartbeat_service.py'']"

text \<open>The loop's stop event is the service's: the rest of its environment is the machine's.\<close>

definition service_heart_env :: "'w service_api \<Rightarrow> 'w heart_env \<Rightarrow> 'w heart_env" where
  "service_heart_env api env =
     env\<lparr>he_stop_set := win32_is_set api, he_stop_wait := (\<lambda>t. win32_wait api (Some t))\<rparr>"

definition heartbeat_svc_stop :: "'w service_api \<Rightarrow> 'w \<Rightarrow> 'w" where
  "heartbeat_svc_stop api w = sa_set_event api (sa_report_stop_pending api w)"

definition heartbeat_svc_do_run ::
  "'w service_api \<Rightarrow> 'w heart_env \<Rightarrow> heartbeat_config \<Rightarrow> string \<Rightarrow> heart \<Rightarrow> 'w \<Rightarrow> (heart \<times> 'w) option" where
  "heartbeat_svc_do_run api env c endpoint h w =
     map_option (\<lambda>(r, h1, w1).
       (h1, case r of Inl x \<Rightarrow> log_service_reason api ''heartbeat_service_failed'' w1 | Inr status \<Rightarrow> w1))
       (run_loop (service_heart_env api env) c endpoint None h w)"

text \<open>\<^verbatim>\<open>main\<close> of the heartbeat host is that of the monitor's, over its own configuration.\<close>

definition heartbeat_service_main ::
  "(string \<Rightarrow> string) \<Rightarrow> string \<Rightarrow> 'w service_api option \<Rightarrow> string \<Rightarrow> filesys \<Rightarrow> 'w \<Rightarrow> int res \<times> string list \<times> 'w" where
  "heartbeat_service_main fr executable api config_path d w =
     service_main api (fst (config_from_json fr executable config_path d)) w"

text \<open>
  The launcher: the components of its own resolved path, of which \<^verbatim>\<open>parents[3]\<close> drops the last four;
  \<open>KeyError\<close> stands for the \<^verbatim>\<open>IndexError\<close> of a path that is too short.
\<close>

definition managed_config_path :: "string list \<Rightarrow> string list res" where
  "managed_config_path file =
     (if length file < 5 then Inl KeyError else Inr (take (length file - 4) file @ [''heartbeat-config.json'']))"

definition launcher_arguments :: "string \<Rightarrow> string list \<Rightarrow> string list \<Rightarrow> string list res" where
  "launcher_arguments separator file argv =
     (if argv = [] then
        rbind (managed_config_path file) (\<lambda>path. Inr [''run'', ''--config'', join separator path])
      else Inr argv)"

subsection \<open>The command line\<close>


text \<open>The arguments that are handed on to the agent's own parser.\<close>

definition forwarded_arguments :: "agent_command \<Rightarrow> string list" where
  "forwarded_arguments cmd =
     (case cmd of
        Emit endpoint token event_json outbox_dir \<Rightarrow>
          [''emit'', ''--endpoint'', endpoint] @
          (case outbox_dir of None \<Rightarrow> [] | Some dir \<Rightarrow> [''--outbox-dir'', dir]) @
          [''--token'', token, ''--event-json'', event_json]
      | Flush endpoint token_file outbox_dir \<Rightarrow>
          [''flush'', ''--endpoint'', endpoint, ''--outbox-dir'', outbox_dir, ''--token-file'', token_file])"

text \<open>
  Serving up to the point where the server listens: \<open>Inr (Inl status)\<close> is an exit code with its message,
  \<open>Inr (Inr (token, tls, store))\<close> a server that runs until it is interrupted, and then exits with 0.
  \<open>sd_store_left_open\<close> says that a store was opened and not closed again.
\<close>

record serve_end =
  sd_message :: "string list"
  sd_store_left_open :: bool

definition serve_failed :: "string \<Rightarrow> serve_end" where
  "serve_failed reason = \<lparr>sd_message = [''serve failed reason='' @ reason], sd_store_left_open = False\<rparr>"

definition serve_token ::
  "(string \<Rightarrow> string option) \<Rightarrow> string option \<Rightarrow> string option \<Rightarrow> string + string" where
  "serve_token file token token_file =
     (case (token, token_file) of
        (None, None) \<Rightarrow> Inl ''auth_credential_missing''
      | (_, Some path) \<Rightarrow> read_token_file (file path)
      | (Some t, None) \<Rightarrow> Inr t)"

definition serve ::
  "(string \<Rightarrow> string option) \<Rightarrow> (string \<Rightarrow> store res) \<Rightarrow> (string \<Rightarrow> string \<Rightarrow> unit res) \<Rightarrow>
     string option \<Rightarrow> string option \<Rightarrow> string \<Rightarrow> string option \<Rightarrow> string option \<Rightarrow>
     (int res \<times> serve_end) + (string \<times> bool \<times> store)" where
  "serve file open_database load token token_file database cert key =
     (case serve_token file token token_file of
        Inl reason \<Rightarrow> Inl (Inr 2, serve_failed reason)
      | Inr bearer \<Rightarrow>
          if (cert = None) \<noteq> (key = None) then Inl (Inr 2, serve_failed ''tls_partial_configuration'')
          else (case open_database database of
            Inl x \<Rightarrow> Inl (Inl x, \<lparr>sd_message = [], sd_store_left_open = False\<rparr>)
          | Inr st \<Rightarrow>
              (case create_server load bearer cert key of
                 Inl (TlsFailure reason) \<Rightarrow> Inl (Inr 2, serve_failed reason)
               | Inl EmptyToken \<Rightarrow>
                   Inl (Inl (ValueError ''bearer_token must not be empty''),
                        \<lparr>sd_message = [], sd_store_left_open = True\<rparr>)
               | Inl (LoadRaised x) \<Rightarrow> Inl (Inl x, \<lparr>sd_message = [], sd_store_left_open = True\<rparr>)
               | Inr tls \<Rightarrow> Inr (bearer, tls, st))))"

end
