(* ===== verification/Onboarding.thy ===== *)
theory Onboarding
  imports Disk PyUrl
begin

section \<open>Onboarding checks (\<^verbatim>\<open>onboarding.py\<close>)\<close>

text \<open>
  The pure validations that the setup scripts rest on.  An \<^verbatim>\<open>OnboardingValidationError\<close> is a
  \<open>ValidationError\<close> with its reason.
\<close>

definition SAFE_REASON_CODES :: "string list" where
  "SAFE_REASON_CODES =
     [''already_present'', ''added'', ''certificate_key_pair_missing'', ''conflicting_hosts_mapping'',
      ''duplicate_hosts_mapping'', ''install_root_not_directory'', ''install_root_unreadable'',
      ''invalid_certificate_mode'', ''invalid_hosts_input'', ''invalid_hostname'', ''invalid_monitor_ip'',
      ''invalid_release_pointer'', ''non_empty_without_release_pointer'', ''release_pointer_not_file'',
      ''replaced'', ''self_signed_not_allowed'', ''unknown_error'', ''unsupported_certificate_mode'']"

definition safe_reason :: "string \<Rightarrow> string" where
  "safe_reason v = (if List.member SAFE_REASON_CODES v then v else ''unknown_error'')"

definition onboarding_error :: "string \<Rightarrow> exn" where
  "onboarding_error reason = ValidationError (safe_reason reason)"

subsection \<open>The install root\<close>

definition ONBOARDING_REVISION :: regex where
  "ONBOARDING_REVISION = token_re is_alnum (\<lambda>c. is_alnum c \<or> one_of ''._-'' c) 63"

record inspection =
  is_state :: string
  is_reason :: string
  is_revision :: "string option"

definition inspected :: "string \<Rightarrow> string \<Rightarrow> string option \<Rightarrow> inspection" where
  "inspected state reason revision = \<lparr>is_state = state, is_reason = reason, is_revision = revision\<rparr>"

text \<open>What the file system answers to each question about the root, or raises.\<close>

record root_facts =
  rf_exists :: "bool res"
  rf_is_dir :: "bool res"
  rf_pointer_exists :: "bool res"
  rf_pointer_is_file :: "bool res"
  rf_pointer_bytes :: "string res"
  rf_has_entries :: "bool res"

definition inspect_pointer :: "string \<Rightarrow> inspection" where
  "inspect_pointer t =
     (let revision = strip t in
      if \<not> fullmatch ONBOARDING_REVISION revision \<or> contains ''..'' revision
      then inspected ''inspect-before-use'' ''invalid_release_pointer'' None
      else inspected ''existing'' [] (Some revision))"

definition inspect_root :: "root_facts \<Rightarrow> inspection res" where
  "inspect_root q =
     rbind (rf_exists q) (\<lambda>there.
       if \<not> there then Inr (inspected ''new'' [] None)
       else rbind (rf_is_dir q) (\<lambda>dir.
         if \<not> dir then Inr (inspected ''inspect-before-use'' ''install_root_not_directory'' None)
         else rbind (rf_pointer_exists q) (\<lambda>pointer.
           if pointer then
             rbind (rf_pointer_is_file q) (\<lambda>file.
               if \<not> file then Inr (inspected ''inspect-before-use'' ''release_pointer_not_file'' None)
               else rbind (rbind (rf_pointer_bytes q) read_text) (\<lambda>t. Inr (inspect_pointer t)))
           else rbind (rf_has_entries q) (\<lambda>entries.
             Inr (if entries then inspected ''inspect-before-use'' ''non_empty_without_release_pointer'' None
                  else inspected ''new'' [] None)))))"

definition inspect_install_root :: "root_facts \<Rightarrow> inspection res" where
  "inspect_install_root q =
     (case inspect_root q of
        Inl x \<Rightarrow>
          if os_error x \<or> x = UnicodeError
          then Inr (inspected ''inspect-before-use'' ''install_root_unreadable'' None) else Inl x
      | Inr i \<Rightarrow> Inr i)"

subsection \<open>Addresses and certificate modes\<close>

text \<open>\<^verbatim>\<open>ipaddress.ip_address\<close> gives an \<^verbatim>\<open>IPv4Address\<close> exactly for the texts that \<open>ipv4_address\<close> reads.\<close>

definition unusable_address :: "int list \<Rightarrow> bool" where
  "unusable_address octets =
     (case octets of
        a # b # rest \<Rightarrow>
          a = 127 \<or> (224 \<le> a \<and> a \<le> 239) \<or> octets = [0, 0, 0, 0] \<or> 240 \<le> a \<or> (a = 169 \<and> b = 254)
      | _ \<Rightarrow> True)"

definition validate_monitor_ip :: "pyval \<Rightarrow> string res" where
  "validate_monitor_ip v =
     (case v of
        PStr s \<Rightarrow>
          if s = [] \<or> s \<noteq> strip s then Inl (onboarding_error ''invalid_monitor_ip'')
          else (case ipv4_address s of
            None \<Rightarrow> Inl (onboarding_error ''invalid_monitor_ip'')
          | Some octets \<Rightarrow>
              if unusable_address octets then Inl (onboarding_error ''invalid_monitor_ip'') else Inr s)
      | _ \<Rightarrow> Inl (onboarding_error ''invalid_monitor_ip''))"

definition SUPPORTED_CERTIFICATE_MODES :: "string list" where
  "SUPPORTED_CERTIFICATE_MODES = [''public-ca'', ''private-ca'', ''self-signed'', ''existing'']"

definition validate_certificate_mode :: "pyval \<Rightarrow> bool \<Rightarrow> bool \<Rightarrow> bool \<Rightarrow> unit res" where
  "validate_certificate_mode mode cert_present key_present allow_dev_self_signed =
     (case mode of
        PStr s \<Rightarrow>
          (let normalized = replace_all ''_'' ''-'' (map lower (strip s)) in
           if \<not> List.member SUPPORTED_CERTIFICATE_MODES normalized
           then Inl (onboarding_error ''unsupported_certificate_mode'')
           else if normalized = ''existing'' then Inr ()
           else if \<not> cert_present \<or> \<not> key_present then Inl (onboarding_error ''certificate_key_pair_missing'')
           else if normalized = ''self-signed'' \<and> \<not> allow_dev_self_signed
           then Inl (onboarding_error ''self_signed_not_allowed'')
           else Inr ())
      | _ \<Rightarrow> Inl (onboarding_error ''unsupported_certificate_mode''))"

subsection \<open>The hosts file\<close>

text \<open>
  \<^verbatim>\<open>splitlines(keepends=True)\<close> breaks at a line feed, a carriage return (with a line feed that follows), a
  vertical tab, a form feed, the three separators below the unit separator, and next line.
\<close>

definition is_break :: "char \<Rightarrow> bool" where
  "is_break c \<longleftrightarrow> (let n = code c in (10 \<le> n \<and> n \<le> 13) \<or> (28 \<le> n \<and> n \<le> 30) \<or> n = 133)"

fun splitlines :: "string \<Rightarrow> string list" where
  "splitlines [] = []"
| "splitlines (c # cs) =
     (if c = carriage \<and> cs \<noteq> [] \<and> hd cs = newline then [c, newline] # splitlines (tl cs)
      else if is_break c then [c] # splitlines cs
      else case splitlines cs of [] \<Rightarrow> [[c]] | line # rest \<Rightarrow> (c # line) # rest)"

text \<open>
  \<^verbatim>\<open>casefold\<close> of a Latin-1 text: upper-case letters become lower-case ones and sharp s is \<^verbatim>\<open>ss\<close>; the micro
  sign, which becomes a Greek letter outside the model's texts, can stay as it is for a comparison.
\<close>

definition casefold_char :: "char \<Rightarrow> string" where
  "casefold_char c =
     (let n = code c in
      if is_upper c \<or> (192 \<le> n \<and> n \<le> 222 \<and> n \<noteq> 215) then [char_of (n + 32)]
      else if n = 223 then ''ss'' else [c])"

definition casefold :: "string \<Rightarrow> string" where
  "casefold s = concat (map casefold_char s)"

definition line_tokens :: "string \<Rightarrow> string list" where
  "line_tokens line = split_ws (before (CHR ''#'') line)"

text \<open>The first matching token is not the address: no earlier token, the address included, matches.\<close>

definition line_matches :: "string \<Rightarrow> string list \<Rightarrow> bool" where
  "line_matches host tokens \<longleftrightarrow>
     tokens \<noteq> [] \<and> casefold (hd tokens) \<noteq> host \<and> list_ex (\<lambda>t. casefold t = host) (tl tokens)"

fun matching_lines :: "string \<Rightarrow> nat \<Rightarrow> string list \<Rightarrow> (nat \<times> string) list" where
  "matching_lines host i [] = []"
| "matching_lines host i (line # rest) =
     (let tokens = line_tokens line in
      if line_matches host tokens then (i, hd tokens) # matching_lines host (i + 1) rest
      else matching_lines host (i + 1) rest)"

record hosts_update =
  hu_contents :: string
  hu_changed :: bool
  hu_reason :: string

definition line_end :: "string \<Rightarrow> string" where
  "line_end line =
     (if ends_with [carriage, newline] line then [carriage, newline]
      else if ends_with [newline] line then [newline] else [])"

definition replaced_line :: "string \<Rightarrow> string \<Rightarrow> string" where
  "replaced_line ip line =
     (let stop = line_end line;
          body = take (length line - length stop) line;
          prefix = takeWhile is_space body
      in prefix @ join '' '' (ip # tl (split_ws body)) @ stop)"

definition upsert_hosts_mapping :: "string \<Rightarrow> string \<Rightarrow> string \<Rightarrow> bool \<Rightarrow> hosts_update res" where
  "upsert_hosts_mapping contents host monitor_ip replace_conflicting =
     (if strip host = [] then Inl (onboarding_error ''invalid_hosts_input'')
      else if list_ex is_space host \<or> List.member host (CHR ''#'') then Inl (onboarding_error ''invalid_hostname'')
      else rbind (validate_monitor_ip (PStr monitor_ip)) (\<lambda>ip.
        let file_lines = splitlines contents in
        case matching_lines (casefold host) 0 file_lines of
          [] \<Rightarrow>
            Inr \<lparr>hu_contents = contents @
                   (if contents = [] \<or> ends_with [newline] contents \<or> ends_with [carriage] contents
                    then [] else [newline]) @ ip @ [CHR 0x09] @ host @ [newline],
                 hu_changed = True, hu_reason = ''added''\<rparr>
        | [(i, address)] \<Rightarrow>
            if address = ip then Inr \<lparr>hu_contents = contents, hu_changed = False, hu_reason = ''already_present''\<rparr>
            else if \<not> replace_conflicting then Inl (onboarding_error ''conflicting_hosts_mapping'')
            else Inr \<lparr>hu_contents = concat (file_lines[i := replaced_line ip (file_lines ! i)]),
                      hu_changed = True, hu_reason = ''replaced''\<rparr>
        | _ \<Rightarrow> Inl (onboarding_error ''duplicate_hosts_mapping'')))"

text \<open>
  A line that ends in a bare carriage return loses it when its address is replaced, and runs into the
  next line.
\<close>

lemma replaced_line_loses_carriage_return:
  "upsert_hosts_mapping (''10.0.0.1 monitor'' @ [carriage] @ ''10.0.0.2 other'' @ [carriage]) ''monitor'' ''10.0.0.9'' True =
     Inr \<lparr>hu_contents = ''10.0.0.9 monitor10.0.0.2 other'' @ [carriage], hu_changed = True, hu_reason = ''replaced''\<rparr>"
  by code_simp

end
