(* ===== verification/Gate.thy ===== *)
theory Gate
  imports StoreQueries AgentNet AtomicFile
begin

section \<open>The local verification gate (\<^verbatim>\<open>gate.py\<close>)\<close>

text \<open>
  The fault drills over the store and the sender, the counts taken from the test suite's output, the
  report and the command.  SQLite, the subprocess, the temporary directory and the clocks are
  parameters; the report is a file of \<open>filesys\<close>.
\<close>

definition GATE_STATUS_NOT_READY :: string where
  "GATE_STATUS_NOT_READY = ''not-ready''"

definition DEFAULT_LIMITATIONS :: "string list" where
  "DEFAULT_LIMITATIONS =
     [''no_monitor_host_deployment_evidence'', ''no_runner_a_or_runner_b_deployment_evidence'',
      ''no_tls_auth_firewall_evidence'', ''no_real_github_actions_workflow_acceptance'',
      ''not_a_production_ready_decision'']"

definition SAMPLE_RUNNER_ID :: string where
  "SAMPLE_RUNNER_ID = ''40000000-0000-4000-8000-000000000001''"

definition SAMPLE_REPOSITORY :: string where
  "SAMPLE_REPOSITORY = ''acme/gate-drills''"

text \<open>The three sample numbers of the key are 1.\<close>

definition SAMPLE_JOB :: job_key where
  "SAMPLE_JOB = (SAMPLE_REPOSITORY, 1, 1, 1)"

definition SAMPLE_PRODUCER_EPOCH :: string where
  "SAMPLE_PRODUCER_EPOCH = ''2026-09-18T01''"

subsection \<open>Results\<close>

record drill_result =
  dl_capability :: string
  dl_passed :: bool
  dl_reasons :: "string list"

record suite_result =
  su_passed :: bool
  su_tests_run :: int
  su_failures :: int
  su_errors :: int

record gate_report =
  gr_generated_at :: string
  gr_suite :: suite_result
  gr_drills :: "drill_result list"
  gr_fail_open :: drill_result
  gr_status :: string
  gr_limitations :: "string list"

text \<open>\<^verbatim>\<open>__post_init__\<close>.\<close>

definition make_report :: "gate_report \<Rightarrow> gate_report res" where
  "make_report r =
     (if gr_status r \<noteq> GATE_STATUS_NOT_READY
      then Inl (ValueError ''GateReport.status must always be GATE_STATUS_NOT_READY'') else Inr r)"

definition local_gate_passed :: "gate_report \<Rightarrow> bool" where
  "local_gate_passed r \<longleftrightarrow> su_passed (gr_suite r) \<and> list_all dl_passed (gr_drills r) \<and> dl_passed (gr_fail_open r)"

definition drill :: "string \<Rightarrow> bool \<Rightarrow> string list \<Rightarrow> string \<Rightarrow> drill_result" where
  "drill capability passed reasons failure =
     \<lparr>dl_capability = capability, dl_passed = passed, dl_reasons = (if passed then reasons else [failure])\<rparr>"

subsection \<open>Sample events\<close>

definition sequence_uuid :: "int \<Rightarrow> string" where
  "sequence_uuid n = ''50000000-0000-4000-8000-'' @ zero_pad 12 (int_text n)"

text \<open>\<open>_iso\<close> of an aware moment.\<close>

definition gate_iso :: "datetime \<Rightarrow> string res" where
  "gate_iso t = rbind (astimezone 0 t) (\<lambda>u. Inr (replace_all ''+00:00'' ''Z'' (isoformat_utc (naive u))))"

definition sample_fields :: "string \<Rightarrow> string \<Rightarrow> int \<Rightarrow> string \<Rightarrow> (string \<times> pyval) list" where
  "sample_fields event_type event_id n occurred_at =
     [(''schema_version'', PInt 1), (''event_type'', PStr event_type), (''event_id'', PStr event_id),
      (''runner_id'', PStr SAMPLE_RUNNER_ID), (''producer_id'', PStr ''gate-drill''),
      (''producer_epoch'', PStr SAMPLE_PRODUCER_EPOCH), (''producer_sequence'', PInt n),
      (''occurred_at'', PStr occurred_at)]"

definition gate_job :: pyval where
  "gate_job =
     obj [(''repository'', PStr SAMPLE_REPOSITORY), (''workflow_run_id'', PInt 1), (''run_attempt'', PInt 1),
       (''job_id'', PInt 1), (''job_name'', PStr ''gate-drill''),
       (''run_url'', PStr (''https://github.com/'' @ SAMPLE_REPOSITORY @ ''/actions/runs/'' @ int_text 1))]"

definition sample_job_event :: "string \<Rightarrow> int \<Rightarrow> datetime \<Rightarrow> string option \<Rightarrow> validated_event res" where
  "sample_job_event event_type n now outcome =
     rbind (gate_iso now) (\<lambda>at.
       validate_event (obj (sample_fields event_type (sequence_uuid n) n at @ [(''job'', gate_job)] @
         (case outcome of None \<Rightarrow> [] | Some v \<Rightarrow> [(''outcome'', PStr v)]))))"

definition sample_runner_event :: "string \<Rightarrow> int \<Rightarrow> datetime \<Rightarrow> validated_event res" where
  "sample_runner_event event_type n now =
     rbind (gate_iso now) (\<lambda>at. validate_event (obj (sample_fields event_type (sequence_uuid (1000 + n)) n at)))"

definition sample_heartbeat_payload :: pyval where
  "sample_heartbeat_payload = obj (sample_fields ''runner.heartbeat'' (sequence_uuid 9999) 1 ''2026-09-18T01:00:00Z'')"

subsection \<open>Notifications (\<^verbatim>\<open>health.py\<close>)\<close>

definition notify_safely :: "(incident_row \<Rightarrow> 'w \<Rightarrow> unit res \<times> 'w) option \<Rightarrow> incident_row \<Rightarrow> 'w \<Rightarrow> 'w" where
  "notify_safely notifier incident w = (case notifier of None \<Rightarrow> w | Some f \<Rightarrow> snd (f incident w))"

definition refresh_and_notify ::
  "(incident_row \<Rightarrow> 'w \<Rightarrow> unit res \<times> 'w) option \<Rightarrow> store \<Rightarrow> datetime \<Rightarrow> 'w \<Rightarrow> store res \<times> 'w" where
  "refresh_and_notify notifier s now w =
     (case refresh_liveness s (AtMoment now) of
        (Inl x, s1) \<Rightarrow> (Inl x, w)
      | (Inr incs, s1) \<Rightarrow> (Inr s1, fold (notify_safely notifier) incs w))"

text \<open>\<^verbatim>\<open>PermissionError\<close> is an \<^verbatim>\<open>OSError\<close>.\<close>

definition denied_notifier :: "incident_row \<Rightarrow> 'w \<Rightarrow> unit res \<times> 'w" where
  "denied_notifier incident w = (Inl OSError, w)"

subsection \<open>Fault drills\<close>

text \<open>
  What SQLite answers: the integrity check of a database that is open, whether counting the events fails, and how
  many variables a statement may have.  On a closed connection every statement raises a
  \<^verbatim>\<open>DatabaseError\<close>.  \<open>d\<close> is the content of the database file.
\<close>

record sqlite =
  sq_float_text :: "string \<Rightarrow> string"
  sq_pragma :: "string list res"
  sq_count_fails :: bool
  sq_max_vars :: nat

definition gate_open :: "sqlite \<Rightarrow> database \<Rightarrow> store res" where
  "gate_open q d = open_store (sq_float_text q) (sq_pragma q) (sq_count_fails q) d"

definition gate_ingest :: "store \<Rightarrow> validated_event \<Rightarrow> datetime \<Rightarrow> store res" where
  "gate_ingest s e at = (case ingest s e (AtMoment at) of (Inl x, s1) \<Rightarrow> Inl x | (Inr r, s1) \<Rightarrow> Inr s1)"

definition store_with_job :: "sqlite \<Rightarrow> datetime \<Rightarrow> database \<Rightarrow> store res" where
  "store_with_job q now d =
     rbind (gate_open q d) (\<lambda>s. rbind (sample_job_event ''job.started'' 1 now None) (\<lambda>e. gate_ingest s e now))"

definition later :: "datetime \<Rightarrow> int \<Rightarrow> datetime res" where
  "later t seconds = moment_minus t (- (seconds * 1000000))"

definition drill_monitor_restart_recovers_projection :: "sqlite \<Rightarrow> datetime \<Rightarrow> database \<Rightarrow> drill_result res" where
  "drill_monitor_restart_recovers_projection q now d =
     rbind (store_with_job q now d) (\<lambda>s.
     rbind (gate_open q (db s)) (\<lambda>restarted.
     rbind (current_job restarted SAMPLE_JOB) (\<lambda>job.
       Inr (drill ''monitor_restart_recovery''
         ((case job of None \<Rightarrow> False | Some row \<Rightarrow> js_state row = ''running'') \<and> \<not> degraded restarted)
         [] ''restart_projection_mismatch''))))"

text \<open>The liveness of the sample runner and of the sample job, as both are compared.\<close>

definition both_live :: "string \<Rightarrow> store \<Rightarrow> job_row option \<Rightarrow> bool" where
  "both_live liveness s job \<longleftrightarrow>
     (case current_runner s SAMPLE_RUNNER_ID of None \<Rightarrow> False | Some row \<Rightarrow> rs_liveness row = liveness) \<and>
     (case job of None \<Rightarrow> False | Some row \<Rightarrow> js_liveness row = liveness)"

definition drill_runner_and_job_offline_then_recovery ::
  "sqlite \<Rightarrow> datetime \<Rightarrow> database \<Rightarrow> drill_result res" where
  "drill_runner_and_job_offline_then_recovery q started_at d =
     rbind (store_with_job q started_at d) (\<lambda>s.
     rbind (later started_at 601) (\<lambda>silent_at.
     rbind (fst (refresh_and_notify None s silent_at ())) (\<lambda>s1.
     rbind (current_job s1 SAMPLE_JOB) (\<lambda>job1.
     rbind (later started_at 602) (\<lambda>recovered_at.
     rbind (sample_job_event ''job.heartbeat'' 2 recovered_at None) (\<lambda>e.
     rbind (gate_ingest s1 e recovered_at) (\<lambda>s2.
     rbind (current_job s2 SAMPLE_JOB) (\<lambda>job2.
       Inr (drill ''offline_recovery''
         (both_live ''offline'' s1 job1 \<and> 1 \<le> length (incidents_of s1 True) \<and> both_live ''online'' s2 job2)
         [] ''offline_recovery_state_mismatch'')))))))))"

definition isolated_failure :: "string \<Rightarrow> bool \<Rightarrow> string \<Rightarrow> string \<Rightarrow> store \<Rightarrow> drill_result" where
  "isolated_failure capability noticed reason failure s =
     drill capability (noticed \<and> fst (health s) \<and> List.member (snd (health s)) reason) (snd (health s)) failure"

definition drill_sqlite_integrity_failure_is_isolated :: "sqlite \<Rightarrow> datetime \<Rightarrow> database \<Rightarrow> drill_result res" where
  "drill_sqlite_integrity_failure_is_isolated q now d =
     rbind (store_with_job q now d) (\<lambda>s.
       case check_integrity (Inl DatabaseError) s of (integrity_ok, s1) \<Rightarrow>
         Inr (isolated_failure ''sqlite_integrity_failure_isolated'' (\<not> integrity_ok) ''integrity_check_failed''
           ''sqlite_failure_not_isolated'' s1))"

definition drill_cleanup_failure_is_isolated :: "sqlite \<Rightarrow> datetime \<Rightarrow> database \<Rightarrow> drill_result res" where
  "drill_cleanup_failure_is_isolated q now d =
     rbind (store_with_job q now d) (\<lambda>s.
       case prune_history (sq_max_vars q) True s (AtMoment now) of
         (Inl x, s1) \<Rightarrow> Inl x
       | (Inr removed, s1) \<Rightarrow>
           Inr (isolated_failure ''cleanup_failure_isolated'' (removed = 0) ''cleanup_failed''
             ''cleanup_failure_not_isolated'' s1))"

definition drill_notification_failure_is_isolated :: "sqlite \<Rightarrow> datetime \<Rightarrow> database \<Rightarrow> drill_result res" where
  "drill_notification_failure_is_isolated q now d =
     rbind (gate_open q d) (\<lambda>s.
     rbind (sample_runner_event ''runner.heartbeat'' 1 now) (\<lambda>e.
     rbind (gate_ingest s e now) (\<lambda>s1.
     rbind (later now 601) (\<lambda>silent_at.
     rbind (fst (refresh_and_notify (Some denied_notifier) s1 silent_at ())) (\<lambda>s2.
       Inr (drill ''notification_failure_isolated''
         (case incidents_of s2 True of [i] \<Rightarrow> in_condition i = ''heartbeat_timeout'' | _ \<Rightarrow> False)
         [] ''notification_failure_lost_incident''))))))"

subsection \<open>The fail-open contract\<close>

text \<open>
  Two runs of the sender's command without an outbox: one against an endpoint that times out, on the
  fake clock, and one that is rejected, on the clock and sleep of the machine.
\<close>

definition simulated_timeout :: "int agent" where
  "simulated_timeout = \<lparr>a_clock = (\<lambda>t. (t, t)), a_sleep = (\<lambda>s t. t + s), a_report = (\<lambda>m t. t),
     a_transport = (\<lambda>e h b s t. (Inl TimeoutError, t))\<rparr>"

definition simulated_rejection :: "('w \<Rightarrow> int \<times> 'w) \<Rightarrow> (int \<Rightarrow> 'w \<Rightarrow> 'w) \<Rightarrow> 'w agent" where
  "simulated_rejection clock sleep = \<lparr>a_clock = clock, a_sleep = sleep, a_report = (\<lambda>m w. w),
     a_transport = (\<lambda>e h b s w. (Inr 401, w))\<rparr>"

definition gate_emit :: "(string \<Rightarrow> string) \<Rightarrow> 'w agent \<Rightarrow> string \<Rightarrow> 'w \<Rightarrow> int res \<times> 'w" where
  "gate_emit fr ag payload w =
     (case agent_main fr good_io ag 0 (\<lambda>f. None)
         (Emit ''http://monitor.invalid/v1/events'' ''gate-drill-token'' payload None)
         \<lparr>pending = [], dead_letter = [], reports = []\<rparr> w of
        (r, s, w1) \<Rightarrow> (r, w1))"

definition verify_fail_open_contract ::
  "(string \<Rightarrow> string) \<Rightarrow> ('w \<Rightarrow> int \<times> 'w) \<Rightarrow> (int \<Rightarrow> 'w \<Rightarrow> 'w) \<Rightarrow> 'w \<Rightarrow> drill_result res \<times> 'w" where
  "verify_fail_open_contract fr clock sleep w =
     (case dumps spaced sample_heartbeat_payload of
        Inl x \<Rightarrow> (Inl x, w)
      | Inr payload \<Rightarrow>
          (case gate_emit fr simulated_timeout payload 0 of
             (Inl x, t) \<Rightarrow> (Inl x, w)
           | (Inr timeout_code, t) \<Rightarrow>
               (case gate_emit fr (simulated_rejection clock sleep) payload w of
                  (Inl x, w1) \<Rightarrow> (Inl x, w1)
                | (Inr rejected_code, w1) \<Rightarrow>
                    (Inr (drill ''fail_open_contract'' (timeout_code = 0 \<and> rejected_code = 0)
                       [] ''fail_open_contract_violated''), w1))))"

end
