(* ===== verification/GateCommand.thy ===== *)
theory GateCommand
  imports Gate
begin

section \<open>The gate's report and command (\<^verbatim>\<open>gate.py\<close>)\<close>

text \<open>
  What is read from the output of the test suite, the texts of the two reports, and \<^verbatim>\<open>main\<close> with its
  crash handling.
\<close>

subsection \<open>The test suite\<close>

record completed =
  cp_returncode :: int
  cp_stdout :: string
  cp_stderr :: string

definition MIN_EXPECTED_TESTS_RUN :: int where
  "MIN_EXPECTED_TESTS_RUN = 100"

text \<open>The first position of a text at which \<open>f\<close> finds something: \<^verbatim>\<open>search\<close>.\<close>

fun search_first :: "(string \<Rightarrow> 'a option) \<Rightarrow> string \<Rightarrow> 'a option" where
  "search_first f [] = f []"
| "search_first f (c # cs) = (case f (c # cs) of Some a \<Rightarrow> Some a | None \<Rightarrow> search_first f cs)"

definition leading_digits :: "string \<Rightarrow> (string \<times> string) option" where
  "leading_digits s =
     (if takeWhile is_digit s = [] then None else Some (takeWhile is_digit s, dropWhile is_digit s))"

text \<open>The group of \<^verbatim>\<open>Ran (\d+) tests? in\<close>, and that of \<^verbatim>\<open>FAILED \(([^)]*)\)\<close>, at the head of a text.\<close>

definition summary_ran :: "string \<Rightarrow> string option" where
  "summary_ran s =
     (if \<not> starts_with ''Ran '' s then None
      else case leading_digits (drop 4 s) of
        None \<Rightarrow> None
      | Some (ds, rest) \<Rightarrow>
          if starts_with '' test in'' rest \<or> starts_with '' tests in'' rest then Some ds else None)"

definition summary_failed :: "string \<Rightarrow> string option" where
  "summary_failed s =
     (let r = drop 8 s in
      if starts_with ''FAILED ('' s \<and> List.member r (CHR '')'')
      then Some (takeWhile (\<lambda>c. c \<noteq> CHR '')'') r) else None)"

text \<open>\<^verbatim>\<open>findall\<close> of \<^verbatim>\<open>(failures|errors)=(\d+)\<close>.\<close>

definition failed_count :: "string \<Rightarrow> (string \<times> string \<times> string) option" where
  "failed_count s =
     (let key = (if starts_with ''failures='' s then ''failures'' else ''errors'') in
      if \<not> starts_with (key @ ''='') s then None
      else map_option (\<lambda>(ds, rest). (key, ds, rest)) (leading_digits (drop (length key + 1) s)))"

lemma failed_count_shorter: "failed_count s = Some (key, ds, rest) \<Longrightarrow> length rest < length s"
  by (auto simp: failed_count_def leading_digits_def Let_def split: if_splits
      intro!: le_less_trans [OF length_dropWhile_le])
    (cases s; simp)+

function failed_counts :: "string \<Rightarrow> (string \<times> string) list" where
  "failed_counts s =
     (case failed_count s of
        Some (key, ds, rest) \<Rightarrow> (key, ds) # failed_counts rest
      | None \<Rightarrow> (case s of [] \<Rightarrow> [] | c # cs \<Rightarrow> failed_counts cs))"
  by pat_completeness auto
termination
  by (relation "measure length") (auto dest: failed_count_shorter)

declare failed_counts.simps [simp del]

text \<open>\<^verbatim>\<open>int\<close> of digits: more of them than the interpreter converts are a \<^verbatim>\<open>ValueError\<close>.\<close>

definition int_of_digits :: "string \<Rightarrow> int res" where
  "int_of_digits ds =
     (case int_of_text 10 ds of None \<Rightarrow> Inl (ValueError ''Exceeds the limit for integer string conversion'')
      | Some n \<Rightarrow> Inr n)"

text \<open>The loop over the counts: a later count of the same name takes the place of an earlier one.\<close>

fun take_counts :: "(string \<times> string) list \<Rightarrow> int \<Rightarrow> int \<Rightarrow> (int \<times> int) res" where
  "take_counts [] failures errors = Inr (failures, errors)"
| "take_counts ((key, ds) # rest) failures errors =
     rbind (int_of_digits ds) (\<lambda>n.
       if key = ''failures'' then take_counts rest n errors else take_counts rest failures n)"

definition parse_suite_result :: "completed \<Rightarrow> suite_result res" where
  "parse_suite_result c =
     (let output = cp_stdout c @ [newline] @ cp_stderr c in
      rbind (case search_first summary_ran output of None \<Rightarrow> Inr (-1) | Some ds \<Rightarrow> int_of_digits ds) (\<lambda>tests_run.
      rbind (case search_first summary_failed output of None \<Rightarrow> Inr (0, 0)
             | Some counts \<Rightarrow> take_counts (failed_counts counts) 0 0) (\<lambda>(failures, errors).
        Inr \<lparr>su_passed = cp_returncode c = 0 \<and> MIN_EXPECTED_TESTS_RUN \<le> tests_run \<and> failures = 0 \<and> errors = 0,
             su_tests_run = tests_run, su_failures = failures, su_errors = errors\<rparr>)))"

record 'w gate_env =
  ge_sqlite :: sqlite
  ge_python :: string
  ge_environ :: "string \<Rightarrow> string option"
  ge_invoke :: "string list \<Rightarrow> (string \<Rightarrow> string option) \<Rightarrow> string \<Rightarrow> 'w \<Rightarrow> completed res \<times> 'w"
  ge_make_workdir :: "unit res"
  ge_drop_workdir :: "unit res"
  ge_now :: "'w \<Rightarrow> datetime \<times> 'w"
  ge_clock :: "'w \<Rightarrow> int \<times> 'w"
  ge_sleep :: "int \<Rightarrow> 'w \<Rightarrow> 'w"
  ge_type_name :: "exn \<Rightarrow> string"

definition run_local_suite :: "'w gate_env \<Rightarrow> string \<Rightarrow> 'w \<Rightarrow> suite_result res \<times> 'w" where
  "run_local_suite env repo_root w =
     (case ge_invoke env [ge_python env, ''-m'', ''unittest'', ''discover'', ''-s'', ''tests'']
         ((ge_environ env)(''PYTHONPATH'' \<mapsto> repo_root @ ''/src'')) repo_root w of
        (r, w1) \<Rightarrow> (rbind r parse_suite_result, w1))"

subsection \<open>The report\<close>

text \<open>A crash with its phase, or an exception outside of the phases.\<close>

datatype gate_failure = GateCrash string exn | Unexpected exn

definition in_phase :: "string \<Rightarrow> 'a res \<Rightarrow> gate_failure + 'a" where
  "in_phase phase r = (case r of Inl x \<Rightarrow> Inl (GateCrash phase x) | Inr a \<Rightarrow> Inr a)"

text \<open>A database file that is there for the first time.\<close>

definition fresh_database :: database where
  "fresh_database = \<lparr>events = [], runner_state = [], job_state = [], incidents = [], watermarks = [], monitor_meta = []\<rparr>"

definition run_drills :: "sqlite \<Rightarrow> datetime \<Rightarrow> drill_result list res" where
  "run_drills q now =
     rbind (drill_monitor_restart_recovers_projection q now fresh_database) (\<lambda>d1.
     rbind (drill_runner_and_job_offline_then_recovery q now fresh_database) (\<lambda>d2.
     rbind (drill_sqlite_integrity_failure_is_isolated q now fresh_database) (\<lambda>d3.
     rbind (drill_cleanup_failure_is_isolated q now fresh_database) (\<lambda>d4.
     rbind (drill_notification_failure_is_isolated q now fresh_database) (\<lambda>d5.
       Inr [d1, d2, d3, d4, d5])))))"

text \<open>The \<^verbatim>\<open>with\<close> block: an exception of removing the directory takes the place of the drills' result.\<close>

definition drills_in_workdir :: "'w gate_env \<Rightarrow> datetime \<Rightarrow> drill_result list res" where
  "drills_in_workdir env now =
     rbind (ge_make_workdir env) (\<lambda>u.
       case ge_drop_workdir env of Inl x \<Rightarrow> Inl x | Inr u \<Rightarrow> run_drills (ge_sqlite env) now)"

definition build_full_report :: "'w gate_env \<Rightarrow> string \<Rightarrow> 'w \<Rightarrow> (gate_failure + gate_report) \<times> 'w" where
  "build_full_report env repo_root w =
     (case ge_now env w of (now, w1) \<Rightarrow>
      case run_local_suite env repo_root w1 of (suite_run, w2) \<Rightarrow>
        (case in_phase ''automated_gate_suite'' suite_run of
           Inl f \<Rightarrow> (Inl f, w2)
         | Inr suite \<Rightarrow>
             (case in_phase ''isolated_fault_drills'' (drills_in_workdir env now) of
                Inl f \<Rightarrow> (Inl f, w2)
              | Inr drills \<Rightarrow>
                  (case verify_fail_open_contract (sq_float_text (ge_sqlite env)) (ge_clock env) (ge_sleep env) w2 of
                     (checked_run, w3) \<Rightarrow>
                       (case in_phase ''fail_open_contract'' checked_run of
                          Inl f \<Rightarrow> (Inl f, w3)
                        | Inr fail_open \<Rightarrow>
                            (case rbind (gate_iso now) (\<lambda>at.
                                make_report \<lparr>gr_generated_at = at, gr_suite = suite, gr_drills = drills,
                                  gr_fail_open = fail_open, gr_status = GATE_STATUS_NOT_READY,
                                  gr_limitations = DEFAULT_LIMITATIONS\<rparr>) of
                               Inl x \<Rightarrow> (Inl (Unexpected x), w3)
                             | Inr report \<Rightarrow> (Inr report, w3)))))))"

definition AUTOMATED_GATE_CAPABILITY_AREAS :: "string list" where
  "AUTOMATED_GATE_CAPABILITY_AREAS =
     [''schema_v1_validation'', ''event_store_projection_and_replay'', ''ten_minute_offline_liveness'',
      ''retention_and_history_filtering'', ''notification_dedupe_and_incident_lifecycle'',
      ''http_ingest_and_dashboard_boundary'', ''actions_run_url_passthrough'',
      ''pr_check_and_rebuild_stage_fallback_projection'', ''fail_open_agent_delivery_and_cli_contract'']"

definition verdict_text :: "bool \<Rightarrow> string" where
  "verdict_text passed = (if passed then ''PASS'' else ''FAIL'')"

definition drill_line :: "drill_result \<Rightarrow> string" where
  "drill_line d =
     ''- '' @ dl_capability d @ '': '' @ verdict_text (dl_passed d) @
     (if dl_reasons d = [] then [] else '' ('' @ join '', '' (dl_reasons d) @ '')'')"

definition lines_text :: "string list \<Rightarrow> string" where
  "lines_text ls = join [newline] ls @ [newline]"

definition report_head :: "string \<Rightarrow> string \<Rightarrow> string list" where
  "report_head generated_at status =
     [''# Local Verification Gate report (issue #5)'', [],
      ''Generated at (monitor-owned, UTC): '' @ generated_at, ''Status: '' @ status, []]"

definition render_report :: "gate_report \<Rightarrow> string" where
  "render_report r = lines_text
     (report_head (gr_generated_at r) (gr_status r) @
      [''This report is produced entirely by runner-independent local tests and'',
       ''isolated fault drills against throwaway SQLite databases. It contains no'',
       ''physical-runner, TLS/auth/firewall, or real-workflow evidence, and it is'',
       ''not a production-ready decision. That decision belongs solely to issue #6'',
       ''(HITL acceptance) -- see docs/canary-evidence-template.md.'', [],
       ''## Automated gate (full local suite)'',
       ''- result: '' @ verdict_text (su_passed (gr_suite r)),
       ''- tests_run: '' @ int_text (su_tests_run (gr_suite r)),
       ''- failures: '' @ int_text (su_failures (gr_suite r)),
       ''- errors: '' @ int_text (su_errors (gr_suite r)),
       ''- capability areas exercised:''] @
      map (\<lambda>area. ''  - '' @ area) AUTOMATED_GATE_CAPABILITY_AREAS @
      [[], ''## Isolated fault drills''] @ map drill_line (gr_drills r) @
      [[], ''## Fail-open contract'', drill_line (gr_fail_open r), [], ''## Known limitations''] @
      map (\<lambda>limitation. ''- '' @ limitation) (gr_limitations r) @
      [[], ''## HITL handoff'',
       ''Real-hardware, TLS/auth/firewall, and real-workflow acceptance evidence'',
       ''is owned exclusively by issue #6 (HITL). This report is not sufficient'',
       ''for, and does not attempt, a production-ready decision.'', [],
       ''## Next operator action'',
       ''Open issue #6 and run its HITL deployment/acceptance checklist against'',
       ''Monitor Host, Runner A, and Runner B using docs/canary-evidence-template.md.'', [],
       ''Overall local gate result: '' @ verdict_text (local_gate_passed r) @ '' (status remains `'' @ gr_status r @ ''`)''])"

definition render_crash_report :: "string \<Rightarrow> string \<Rightarrow> string \<Rightarrow> string" where
  "render_crash_report phase cause_type generated_at = lines_text
     (report_head generated_at GATE_STATUS_NOT_READY @
      [''## Gate run CRASHED -- no pass/fail evidence was produced'', ''- phase: '' @ phase,
       ''- error_type: '' @ cause_type, [],
       ''This run did not complete. Any report that existed before this run'',
       ''started has been removed; do not treat a prior run's report as'',
       ''evidence for this run. Diagnose the crash and re-run the gate.'', [],
       ''This crash report is not a production-ready decision either way --'',
       ''see issue #6 (HITL) for that decision.''])"

text \<open>
  \<^verbatim>\<open>write_text\<close>: opening the file empties it, and a write that fails leaves the part of the text that it
  had come to.
\<close>

definition write_report :: "string \<Rightarrow> string \<Rightarrow> filesys \<Rightarrow> unit res \<times> filesys" where
  "write_report path t d =
     sbind (fs_call d) (\<lambda>u d1.
       case next_fault (fs_faults d1) of
         (Fine, fs) \<Rightarrow> (Inr (), fs_put path (utf8_encode t) (d1\<lparr>fs_faults := fs\<rparr>))
       | (Fails x n, fs) \<Rightarrow> (Inl x, fs_put path (take n (utf8_encode t)) (d1\<lparr>fs_faults := fs\<rparr>)))"

subsection \<open>The command\<close>

text \<open>\<^verbatim>\<open>unlink(missing_ok=True)\<close> with its handler.\<close>

definition remove_report :: "string \<Rightarrow> filesys \<Rightarrow> unit res \<times> filesys" where
  "remove_report path d =
     (case fs_files d path of
        None \<Rightarrow> (Inr (), d)
      | Some old \<Rightarrow>
          (case fs_call d of
             (Inr u, d1) \<Rightarrow> (Inr (), d1\<lparr>fs_files := (fs_files d1)(path := None)\<rparr>)
           | (Inl x, d1) \<Rightarrow> (if os_error x then Inr () else Inl x, d1)))"

definition write_crash_report ::
  "'w gate_env \<Rightarrow> string \<Rightarrow> string \<Rightarrow> exn \<Rightarrow> filesys \<Rightarrow> 'w \<Rightarrow> unit res \<times> filesys \<times> 'w" where
  "write_crash_report env path phase x d w =
     (case ge_now env w of (now, w1) \<Rightarrow>
        (case gate_iso now of
           Inl y \<Rightarrow> (Inl y, d, w1)
         | Inr at \<Rightarrow>
             (case write_report path (render_crash_report phase (ge_type_name env x) at) d of
                (r, d1) \<Rightarrow> (r, d1, w1))))"

definition gate_line :: "string \<Rightarrow> string \<Rightarrow> string" where
  "gate_line status result = ''local_verification_gate status='' @ status @ '' result='' @ result"

definition GATE_EXIT_CRASHED :: int where
  "GATE_EXIT_CRASHED = 2"

definition crashed_run ::
  "'w gate_env \<Rightarrow> string \<Rightarrow> string \<Rightarrow> exn \<Rightarrow> filesys \<Rightarrow> 'w \<Rightarrow> int res \<times> string list \<times> filesys \<times> 'w" where
  "crashed_run env path phase x d w =
     (case write_crash_report env path phase x d w of
        (Inl y, d1, w1) \<Rightarrow> (Inl y, [], d1, w1)
      | (Inr u, d1, w1) \<Rightarrow>
          (Inr GATE_EXIT_CRASHED, [gate_line GATE_STATUS_NOT_READY (''CRASHED phase='' @ phase)], d1, w1))"

definition gate_main ::
  "'w gate_env \<Rightarrow> string \<Rightarrow> string \<Rightarrow> filesys \<Rightarrow> 'w \<Rightarrow> int res \<times> string list \<times> filesys \<times> 'w" where
  "gate_main env repo_root report_path d w =
     (case remove_report report_path d of
        (Inl x, d1) \<Rightarrow> (Inl x, [], d1, w)
      | (Inr u, d1) \<Rightarrow>
          (case build_full_report env repo_root w of
             (Inl (GateCrash phase x), w1) \<Rightarrow> crashed_run env report_path phase x d1 w1
           | (Inl (Unexpected x), w1) \<Rightarrow> crashed_run env report_path ''unexpected'' x d1 w1
           | (Inr report, w1) \<Rightarrow>
               (case write_report report_path (render_report report) d1 of
                  (Inl x, d2) \<Rightarrow> (Inl x, [], d2, w1)
                | (Inr u, d2) \<Rightarrow>
                    (Inr (if local_gate_passed report then 0 else 1),
                     [gate_line (gr_status report) (verdict_text (local_gate_passed report))], d2, w1))))"

end
