(* ===== verification/GateProperties.thy ===== *)
theory GateProperties
  imports GateCommand AgentProperties
begin

section \<open>Properties of the gate\<close>

text \<open>
  The fail-open check passes whatever the machine's clock does, and the exit code and the file that a run
  leaves say what the run found.
\<close>

subsection \<open>The fail-open contract\<close>

lemma sample_digits:
  "nat_digits 9999 = ''9999''" "nat_digits 1001 = ''1001''" "nat_digits 2 = ''2''" "nat_digits (Suc 0) = ''1''"
  by (simp_all add: nat_digits.simps digit_char_def char_of_def bit_iff_odd drop_bit_eq_div)

lemma sample_uuids:
  "sequence_uuid 9999 = ''50000000-0000-4000-8000-000000009999''"
  "sequence_uuid 1001 = ''50000000-0000-4000-8000-000000001001''"
  "sequence_uuid 1 = ''50000000-0000-4000-8000-000000000001''"
  "sequence_uuid 2 = ''50000000-0000-4000-8000-000000000002''"
  by (simp_all add: sequence_uuid_def zero_pad_def int_text_def sample_digits) (simp_all add: eval_nat_numeral)

lemma sample_heartbeat_text:
  "sample_heartbeat_payload = obj
     [(''schema_version'', PInt 1), (''event_type'', PStr ''runner.heartbeat''),
      (''event_id'', PStr ''50000000-0000-4000-8000-000000009999''),
      (''runner_id'', PStr ''40000000-0000-4000-8000-000000000001''), (''producer_id'', PStr ''gate-drill''),
      (''producer_epoch'', PStr ''2026-09-18T01''), (''producer_sequence'', PInt 1),
      (''occurred_at'', PStr ''2026-09-18T01:00:00Z'')]"
  by (simp add: sample_heartbeat_payload_def sample_fields_def sample_uuids SAMPLE_RUNNER_ID_def
      SAMPLE_PRODUCER_EPOCH_def)

lemma sample_heartbeat_contract: "event_contract sample_heartbeat_payload"
proof -
  have "small_payload sample_heartbeat_payload" "content_safe sample_heartbeat_payload"
    "envelope_contract sample_heartbeat_payload" "is_mapping sample_heartbeat_payload"
    "body_contract sample_heartbeat_payload (text_at sample_heartbeat_payload ''event_type'')"
    unfolding sample_heartbeat_text by code_simp+
  then show ?thesis by (simp add: event_contract_def)
qed

lemma sample_heartbeat_plain: "py_dicts sample_heartbeat_payload" "json_plain sample_heartbeat_payload"
  unfolding sample_heartbeat_text by code_simp+

text \<open>An event that the contract accepts is delivered or not, and never raises.\<close>

lemma deliver_accepted:
  assumes "event_contract p" and "py_dicts p"
  obtains r w' where "deliver_event ag p endpoint token budget w = (Inr r, w')"
proof -
  have v: "validate_event p = Inr (event_of p)" using assms(1) by (simp add: validate_event_iff)
  have "event_value (json_payload (ev_payload (event_of p)))" by (rule validated_event_value [OF v assms(2)])
  then obtain t where t: "dumps compact (json_payload (ev_payload (event_of p))) = Inr t"
    using json_plain_dumps(1) [of "json_payload (ev_payload (event_of p))"] by (auto simp: event_value_def res_ok_iff)
  show ?thesis
  proof (cases "fst (deliver_event ag p endpoint token budget w)")
    case (Inl x)
    then show ?thesis
      using v t by (auto simp: deliver_event_def Let_def split: prod.splits if_splits)
  next
    case (Inr r)
    then show ?thesis using that by (cases "deliver_event ag p endpoint token budget w") auto
  qed
qed

lemma gate_emit_accepted:
  assumes "event_contract p" and "py_dicts p" and "json_plain p" and "dumps spaced p = Inr t"
  obtains w' where "gate_emit fr ag t w = (Inr 0, w')"
proof -
  have "json_loads fr t = Inr p"
    by (rule json_loads_dumps [OF assms(3) std_layout_spaced assms(4)])
  moreover obtain r w' where
    "deliver_event ag p ''http://monitor.invalid/v1/events'' ''gate-drill-token'' MAX_DELIVERY w = (Inr r, w')"
    by (rule deliver_accepted [OF assms(1,2)])
  ultimately show ?thesis using that by (simp add: gate_emit_def agent_main_def)
qed

lemmas sample_heartbeat_emitted = gate_emit_accepted [OF sample_heartbeat_contract sample_heartbeat_plain]

text \<open>
  The gate's fail-open check always passes: whatever the clock and the sleep of the machine do, a
  sender whose endpoint times out and one that is rejected both end with the exit code 0.
\<close>

lemma fail_open_contract_passes:
  "fst (verify_fail_open_contract fr clock sleep w) =
     Inr \<lparr>dl_capability = ''fail_open_contract'', dl_passed = True, dl_reasons = []\<rparr>"
proof -
  obtain t where t: "dumps spaced sample_heartbeat_payload = Inr t"
    using json_plain_dumps(1) [OF sample_heartbeat_plain(2)] by (auto simp: res_ok_iff)
  obtain w1 where w1: "gate_emit fr simulated_timeout t 0 = (Inr 0, w1)"
    by (rule sample_heartbeat_emitted [OF t])
  obtain w2 where w2: "gate_emit fr (simulated_rejection clock sleep) t w = (Inr 0, w2)"
    by (rule sample_heartbeat_emitted [OF t])
  show ?thesis by (simp add: verify_fail_open_contract_def t w1 w2 drill_def)
qed

subsection \<open>The report of a run\<close>

lemma parse_suite_result_passed:
  assumes "parse_suite_result c = Inr s" and "su_passed s"
  shows "100 \<le> su_tests_run s \<and> su_failures s = 0 \<and> su_errors s = 0 \<and> cp_returncode c = 0"
  using assms by (auto simp: parse_suite_result_def Let_def res_simps MIN_EXPECTED_TESTS_RUN_def)

lemma write_report_done:
  assumes "write_report path t d = (Inr u, d')"
  shows "fs_files d' path = Some (utf8_encode t)"
proof -
  obtain d1 where "fs_call d = (Inr (), d1)" "(case next_fault (fs_faults d1) of
       (Fine, fs) \<Rightarrow> (Inr (), fs_put path (utf8_encode t) (d1\<lparr>fs_faults := fs\<rparr>))
     | (Fails x n, fs) \<Rightarrow> (Inl x, fs_put path (take n (utf8_encode t)) (d1\<lparr>fs_faults := fs\<rparr>))) = (Inr u, d')"
    using assms by (auto simp: write_report_def sbind_Inr_iff)
  then show ?thesis by (auto simp: fs_put_def split: prod.splits fault.splits)
qed

definition gate_phases :: "string list" where
  "gate_phases = [''automated_gate_suite'', ''isolated_fault_drills'', ''fail_open_contract'', ''unexpected'']"

lemma crashed_run_done:
  assumes "crashed_run env path phase x d w = (Inr status, out, d', w')"
  shows "status = 2 \<and> (\<exists>at. fs_files d' path = Some (utf8_encode (render_crash_report phase (ge_type_name env x) at)))"
  using assms
  by (auto simp: crashed_run_def write_crash_report_def GATE_EXIT_CRASHED_def
      split: prod.splits sum.splits dest!: write_report_done)

lemma build_full_report_parts:
  "build_full_report env root w = (Inr report, w') \<Longrightarrow>
     gr_status report = ''not-ready'' \<and>
     (\<exists>w2. run_local_suite env root (snd (ge_now env w)) = (Inr (gr_suite report), w2)) \<and>
     run_drills (ge_sqlite env) (fst (ge_now env w)) = Inr (gr_drills report)"
  by (auto simp: build_full_report_def in_phase_def make_report_def GATE_STATUS_NOT_READY_def res_simps
      drills_in_workdir_def split: prod.splits sum.splits if_splits)

lemma build_full_report_phase:
  "build_full_report env root w = (Inl (GateCrash phase x), w') \<Longrightarrow> phase \<in> set gate_phases"
  by (auto simp: build_full_report_def in_phase_def gate_phases_def split: prod.splits sum.splits)

lemma run_local_suite_passed:
  "run_local_suite env root w = (Inr s, w') \<Longrightarrow> su_passed s \<Longrightarrow> 100 \<le> su_tests_run s \<and> su_failures s = 0 \<and> su_errors s = 0"
  by (auto simp: run_local_suite_def res_simps split: prod.splits dest!: parse_suite_result_passed)


text \<open>A run whose test suite cannot be started, over the report of an earlier run.\<close>

definition broken_gate :: "unit gate_env" where
  "broken_gate = \<lparr>ge_sqlite = \<lparr>sq_float_text = (\<lambda>s. s), sq_pragma = Inr [''ok''], sq_count_fails = False, sq_max_vars = 999\<rparr>,
     ge_python = ''python'', ge_environ = (\<lambda>v. None), ge_invoke = (\<lambda>a e c w. (Inl FileNotFoundError, w)),
     ge_make_workdir = Inr (), ge_drop_workdir = Inr (), ge_now = (\<lambda>w. (\<lparr>naive = 63925203600000000, offset = Some 0\<rparr>, w)),
     ge_clock = (\<lambda>w. (0, w)), ge_sleep = (\<lambda>s w. w), ge_type_name = (\<lambda>x. ''FileNotFoundError'')\<rparr>"

definition old_report :: filesys where
  "old_report = \<lparr>fs_files = (\<lambda>p. if p = ''gate-report.md'' then Some ''PASS'' else None), fs_stray = 0, fs_faults = []\<rparr>"

lemma broken_gate_run:
  "(case gate_main broken_gate ''.'' ''gate-report.md'' old_report () of
      (r, out, d', w') \<Rightarrow> r = Inr 2 \<and> out = [''local_verification_gate status=not-ready result=CRASHED phase=automated_gate_suite''])"
  by code_simp


subsection \<open>A count that is overwritten\<close>

text \<open>
  \<^verbatim>\<open>expected failures=2\<close> in the summary of the suite also matches the pattern of the failures, and as it
  comes later it takes their place: a run with one error and no failure is reported with two failures.
\<close>

lemma expected_failures_counted:
  "parse_suite_result \<lparr>cp_returncode = 1, cp_stdout = [],
     cp_stderr = ''Ran 120 tests in 0.1s'' @ [newline] @ ''FAILED (errors=1, expected failures=2)''\<rparr> =
   Inr \<lparr>su_passed = False, su_tests_run = 120, su_failures = 2, su_errors = 1\<rparr>"
  by code_simp

end
