(* ===== verification/GateSamples.thy ===== *)
theory GateSamples
  imports GateProperties StoreProperties
begin

section \<open>The gate's sample events at any time\<close>

text \<open>
  The drills build their events around the time at which the gate runs.  Whatever that time is, the
  contract accepts them: the text of a moment matches no forbidden pattern and is a timestamp.
\<close>

subsection \<open>Texts that a pattern cannot match\<close>

text \<open>A pattern is blocked when every way through it needs a character outside of \<open>ok\<close>.\<close>

fun blocked :: "(char \<Rightarrow> bool) \<Rightarrow> regex \<Rightarrow> bool" where
  "blocked ok (Cls p) = (\<forall>c. ok c \<longrightarrow> \<not> p c)"
| "blocked ok (Seq a b) = (blocked ok a \<or> blocked ok b)"
| "blocked ok (Alt a b) = (blocked ok a \<and> blocked ok b)"
| "blocked ok _ = False"

lemma ends_suffix: "y \<in> set (ends r x) \<Longrightarrow> \<exists>w. snd x = w @ snd y"
proof (induction r arbitrary: x y)
  case (Seq a b)
  then obtain z where z: "z \<in> set (ends a x)" "y \<in> set (ends b z)" by (simp del: split_paired_Ex) blast
  obtain u where u: "snd x = u @ snd z" using Seq.IH(1) [OF z(1)] by blast
  obtain v where "snd z = v @ snd y" using Seq.IH(2) [OF z(2)] by blast
  then show ?case using u by simp
next
  case (Star r)
  have "\<exists>w. snd x = w @ snd y \<and> True"
    by (rule iterate_consumes [where P = "\<lambda>w. True" and f = "ends r"]) (use Star in simp_all)
  then show ?case by simp
next
  case (Upto n r)
  have "\<exists>w. snd x = w @ snd y \<and> True"
    by (rule iterate_consumes [where P = "\<lambda>w. True" and f = "ends r"]) (use Upto in simp_all)
  then show ?case by simp
next
  case (Cls p)
  then show ?case by (cases "snd x") (auto split: if_splits)
next
  case (Alt a b)
  then show ?case by (simp only: ends.simps set_append Un_iff) blast
qed (simp_all split: if_splits option.splits)

lemma blocked_ends: "blocked ok r \<Longrightarrow> list_all ok (snd x) \<Longrightarrow> ends r x = []"
proof (induction r arbitrary: x)
  case (Seq a b)
  show ?case
  proof (cases "blocked ok a")
    case True
    then show ?thesis using Seq by simp
  next
    case False
    then have "blocked ok b" using Seq.prems(1) by simp
    moreover have "list_all ok (snd y)" if "y \<in> set (ends a x)" for y
      using ends_suffix [OF that] Seq.prems(2) by auto
    ultimately show ?thesis using Seq.IH(2) by auto
  qed
qed (auto split: list.splits)

lemma blocked_search: "blocked ok r \<Longrightarrow> list_all ok s \<Longrightarrow> \<not> search r s"
  unfolding search_iff using blocked_ends by fastforce

subsection \<open>The text of a moment\<close>

definition stamp_char :: "char \<Rightarrow> bool" where
  "stamp_char c \<longleftrightarrow> is_digit c \<or> c \<in> {CHR ''-'', CHR ''T'', CHR '':'', CHR ''.'', CHR ''Z''}"

lemma lower_stamp: "lower (CHR ''T'') = CHR ''t''" "lower (CHR ''Z'') = CHR ''z''"
  "lower (CHR ''-'') = CHR ''-''" "lower (CHR '':'') = CHR '':''" "lower (CHR ''.'') = CHR ''.''"
  by code_simp+

lemma stamp_char_not:
  "stamp_char c \<Longrightarrow> lower c \<noteq> CHR ''b'' \<and> lower c \<noteq> CHR ''g'' \<and> c \<noteq> CHR ''/'' \<and> c \<noteq> CHR 0x5C"
proof -
  have "lower c = c \<and> c \<noteq> CHR ''b'' \<and> c \<noteq> CHR ''g'' \<and> c \<noteq> CHR ''/'' \<and> c \<noteq> CHR 0x5C" if "is_digit c"
    using that by (auto simp: lower_def is_upper_def is_digit_def between_def code_def)
  then show "stamp_char c \<Longrightarrow> ?thesis" by (auto simp: stamp_char_def lower_stamp)
qed

lemma stamp_safe:
  assumes "list_all stamp_char s"
  shows "safe_text s"
proof -
  have "blocked stamp_char SECRET_VALUE" "blocked stamp_char ABSOLUTE_PATH"
    using stamp_char_not by (simp_all add: SECRET_VALUE_def ABSOLUTE_PATH_def one_of_def)
  then show ?thesis using blocked_search assms by (simp add: safe_text_def)
qed

definition stamp :: "string \<Rightarrow> bool" where
  "stamp s \<longleftrightarrow> list_all stamp_char s \<and> s \<noteq> [] \<and> length s \<le> 35 \<and> aware_timestamp s"

text \<open>A moment as the gate has it: in UTC, within the years that Python has.\<close>

definition utc_moment :: "datetime \<Rightarrow> bool" where
  "utc_moment t \<longleftrightarrow> offset t = Some 0 \<and> in_range (naive t)"

lemma length_time_text: "length (time_text us) \<le> 15"
  by (simp add: time_text_def Let_def del: dec.simps)

lemma gate_iso_stamp:
  assumes "utc_moment t"
  obtains s where "gate_iso t = Inr s" "normalise_received_at (AtMoment t) = Inr s"
    "parse_received_at s = Inr t" "stamp s"
proof -
  obtain n where t: "t = \<lparr>naive = n, offset = Some 0\<rparr>" "in_range n"
    using assms by (cases t) (auto simp: utc_moment_def)
  obtain x where x: "replace_all ''+00:00'' ''Z'' (isoformat_utc n) = x @ ''Z''" "isoformat_utc n = x @ ''+00:00''"
    "replace_all ''Z'' ''+00:00'' (x @ ''Z'') = isoformat_utc n"
    by (rule isoformat_Z)
  have iso: "gate_iso t = Inr (x @ ''Z'')" "normalise_moment t = Inr (x @ ''Z'')"
    using t x(1) by (simp_all add: gate_iso_def normalise_moment_def astimezone_def instant_def)
  have parts: "x = date_text (n div DAY + 1) @ ''T'' @ time_text (n mod DAY)"
    using x(2) by (simp add: isoformat_utc_def)
  have "list_all stamp_char (x @ ''Z'')"
    using date_text_chars time_text_chars by (auto simp: parts list_all_iff stamp_char_def)
  moreover have "length (x @ ''Z'') \<le> 35"
    using parse_date_text(2) [OF in_range_parts(1,2) [OF t(2)]] length_time_text [of "n mod DAY"] by (simp add: parts)
  moreover have "fromisoformat (replace_all ''Z'' ''+00:00'' (x @ ''Z'')) = Some t"
    using fromisoformat_isoformat [OF t(2)] x(3) t(1) by simp
  ultimately show ?thesis
    using that [of "x @ ''Z''"] iso t(1)
    by (simp add: stamp_def aware_timestamp_def normalise_received_at_def parse_received_at_def)
qed


subsection \<open>A payload at another time\<close>

text \<open>The same payload with another text under \<^verbatim>\<open>occurred_at\<close>: the contract accepts it as well.\<close>

abbreviation at_time :: "(string \<times> pyval) list \<Rightarrow> (string \<times> pyval) list \<Rightarrow> string \<Rightarrow> pyval" where
  "at_time xs ys s \<equiv> obj (xs @ (''occurred_at'', PStr s) # ys)"

lemma items_obj_at: "items (at_time xs ys s) = items (obj xs) @ (KStr ''occurred_at'', PStr s) # items (obj ys)"
  by (simp add: obj_def)

lemma pget_at_time:
  "''occurred_at'' \<notin> fst ` set xs \<Longrightarrow> pget (at_time xs ys s) ''occurred_at'' = PStr s"
  "k \<noteq> ''occurred_at'' \<Longrightarrow> pget (at_time xs ys s) k = pget (at_time xs ys s') k"
  by (auto simp: map_add_def map_of_eq_None_iff [THEN iffD2] split: option.splits)

lemma exact_keys_at_time: "exact_keys (at_time xs ys s) ks = exact_keys (at_time xs ys s') ks"
  by (simp add: exact_keys_def items_obj_at)

lemma content_safe_items_append:
  "content_safe_items (kvs @ kvs') \<longleftrightarrow> content_safe_items kvs \<and> content_safe_items kvs'"
  by (induction kvs) auto

lemma content_safe_at_time:
  "content_safe (at_time xs ys s) \<Longrightarrow> safe_text s' \<Longrightarrow> content_safe (at_time xs ys s')"
  by (simp add: obj_def content_safe_items_append)

lemma length_join_amend:
  "length (join sep (us @ x # vs)) + length y = length (join sep (us @ y # vs)) + length x"
proof (induction us)
  case Nil
  then show ?case by (cases vs) simp_all
next
  case (Cons u us)
  then show ?case by (cases us) simp_all
qed

lemma dumps_items_append:
  "dumps_items fmt (kvs @ kvs') =
     rbind (dumps_items fmt kvs) (\<lambda>ts. rbind (dumps_items fmt kvs') (\<lambda>us. Inr (ts @ us)))"
proof (induction kvs)
  case Nil
  then show ?case by (cases "dumps_items fmt kvs'") simp_all
next
  case (Cons x kvs)
  obtain k v where x: "x = (k, v)" by (cases x)
  show ?case
    by (cases "dump_key fmt k"; cases "dumps fmt v"; cases "dumps_items fmt kvs"; cases "dumps_items fmt kvs'")
      (simp_all add: x Cons)
qed

lemma length_quote_stamp: "list_all stamp_char s \<Longrightarrow> length (quote s) = length s + 2"
proof -
  have "escape_char c = [c]" if "stamp_char c" for c
    using that by (auto simp: stamp_char_def escape_char_def code_def is_digit_def between_def)
  then have "list_all stamp_char s \<Longrightarrow> concat (map escape_char s) = s" by (induction s) auto
  then show "list_all stamp_char s \<Longrightarrow> ?thesis" by (simp add: quote_def)
qed

lemma dumps_at_time:
  assumes "dumps fmt (at_time xs ys s) = Inr t" and "list_all stamp_char s'"
  obtains t' where "dumps fmt (at_time xs ys s') = Inr t'" "length t' \<le> length t + length s'"
proof -
  obtain us vs kt where parts: "dumps_items fmt (items (obj xs)) = Inr us" "dumps_items fmt (items (obj ys)) = Inr vs"
    "kt = quote ''occurred_at'' @ key_sep fmt"
    and t: "t = ''{'' @ join (item_sep fmt) (us @ (kt @ quote s) # vs) @ ''}''"
    using assms(1) by (auto simp: obj_def dumps_items_append rbind_Inr_iff)
  have "dumps fmt (at_time xs ys s') = Inr (''{'' @ join (item_sep fmt) (us @ (kt @ quote s') # vs) @ ''}'')"
    using parts by (simp add: obj_def dumps_items_append)
  moreover have "length (''{'' @ join (item_sep fmt) (us @ (kt @ quote s') # vs) @ ''}'') \<le> length t + length s'"
  proof -
    have "2 \<le> length (quote s)" by (simp add: quote_def)
    then show ?thesis
      using length_join_amend [of "item_sep fmt" us "kt @ quote s'" vs "kt @ quote s"] length_quote_stamp [OF assms(2)]
      by (simp add: t)
  qed
  ultimately show ?thesis using that by blast
qed

lemma contract_at_time:
  assumes "event_contract (at_time xs ys s)" and "stamp s'" and "''occurred_at'' \<notin> fst ` set xs"
    and "dumps (compact\<lparr>allow_nan := False\<rparr>) (at_time xs ys s) = Inr t" and "length t + 35 \<le> MAX_PAYLOAD_BYTES"
  shows "event_contract (at_time xs ys s')"
proof -
  have s': "list_all stamp_char s'" "length s' \<le> 35" using assms(2) by (simp_all add: stamp_def)
  obtain t' where "dumps (compact\<lparr>allow_nan := False\<rparr>) (at_time xs ys s') = Inr t'" "length t' \<le> length t + length s'"
    by (rule dumps_at_time [OF assms(4) s'(1)])
  then have "small_payload (at_time xs ys s')" using assms(5) s'(2) by (simp add: small_payload_def)
  moreover have "content_safe (at_time xs ys s')"
    using assms(1) stamp_safe [OF s'(1)] content_safe_at_time by (auto simp: event_contract_def)
  moreover have get: "pget (at_time xs ys s') k = pget (at_time xs ys s) k" if "k \<noteq> ''occurred_at''" for k
    using that by (rule pget_at_time(2))
  moreover have "is_mapping (at_time xs ys s')" by (simp add: obj_def)
  moreover have "envelope_contract (at_time xs ys s')"
    using assms(1,2) pget_at_time(1) [OF assms(3)] exact_keys_at_time [where s = s' and s' = s]
    by (simp add: event_contract_def envelope_contract_def text_field_def int_field_def text_at_def get stamp_def
        del: pget_obj)
  moreover have "body_contract (at_time xs ys s') (text_at (at_time xs ys s') ''event_type'')"
  proof -
    have "body_contract (at_time xs ys s') ty = body_contract (at_time xs ys s) ty" for ty
      by (simp add: body_contract_def text_field_def get del: pget_obj)
    moreover have "text_at (at_time xs ys s') ''event_type'' = text_at (at_time xs ys s) ''event_type''"
      by (simp add: text_at_def get del: pget_obj)
    ultimately show ?thesis using assms(1) by (simp add: event_contract_def)
  qed
  ultimately show ?thesis by (simp add: event_contract_def)
qed

end
