(* ===== verification/GateDrills.thy ===== *)
theory GateDrills
  imports GateSamples
begin

section \<open>The gate's drills\<close>

text \<open>
  On a healthy SQLite every drill passes, whatever the time of the run is: the run of each drill
  through the store's operations, from the empty database on.
\<close>

subsection \<open>The sample events\<close>

definition job_sample :: "string \<Rightarrow> int \<Rightarrow> string \<Rightarrow> pyval" where
  "job_sample event_type n at = obj (sample_fields event_type (sequence_uuid n) n at @ [(''job'', gate_job)])"

definition runner_sample :: "string \<Rightarrow> pyval" where
  "runner_sample at = obj (sample_fields ''runner.heartbeat'' (sequence_uuid 1001) 1 at)"

lemma sample_job_event_eq:
  "gate_iso now = Inr s \<Longrightarrow> sample_job_event ty n now None = validate_event (job_sample ty n s)"
  by (simp add: sample_job_event_def job_sample_def)

lemma sample_runner_event_eq:
  "gate_iso now = Inr s \<Longrightarrow> sample_runner_event ''runner.heartbeat'' 1 now = validate_event (runner_sample s)"
  by (simp add: sample_runner_event_def runner_sample_def)

lemma sample_fields_at:
  "sample_fields ty eid n s @ ys =
     (butlast (sample_fields ty eid n [])) @ (''occurred_at'', PStr s) # ys"
  by (simp add: sample_fields_def)

text \<open>The contract at one time, and the room that the payload leaves.\<close>

definition roomy :: "pyval \<Rightarrow> bool" where
  "roomy p \<longleftrightarrow> is_mapping p \<and> content_safe p \<and> envelope_contract p \<and>
     body_contract p (text_at p ''event_type'') \<and> json_plain p \<and>
     (case dumps (compact\<lparr>allow_nan := False\<rparr>) p of Inl x \<Rightarrow> False | Inr t \<Rightarrow> length t + 35 \<le> MAX_PAYLOAD_BYTES)"

lemma roomy_contract: "roomy p \<Longrightarrow> event_contract p"
  by (auto simp: roomy_def event_contract_def small_payload_def split: sum.splits)

lemmas sample_texts = job_sample_def runner_sample_def sample_fields_def sample_uuids

lemma roomy_started: "roomy (job_sample ''job.started'' 1 ''2026-09-18T01:00:00Z'')"
  unfolding sample_texts by code_simp

lemma roomy_heartbeat: "roomy (job_sample ''job.heartbeat'' 2 ''2026-09-18T01:00:00Z'')"
  unfolding sample_texts by code_simp

lemma roomy_runner: "roomy (runner_sample ''2026-09-18T01:00:00Z'')"
  unfolding sample_texts by code_simp

lemma sample_contract:
  assumes "roomy (obj (sample_fields ty eid n ''2026-09-18T01:00:00Z'' @ ys))" and "stamp s"
  shows "event_contract (obj (sample_fields ty eid n s @ ys))"
proof -
  obtain t where t: "dumps (compact\<lparr>allow_nan := False\<rparr>) (obj (sample_fields ty eid n ''2026-09-18T01:00:00Z'' @ ys)) = Inr t"
    "length t + 35 \<le> MAX_PAYLOAD_BYTES"
    using assms(1) by (auto simp: roomy_def split: sum.splits)
  have "''occurred_at'' \<notin> fst ` set (butlast (sample_fields ty eid n []))" by (simp add: sample_fields_def)
  then show ?thesis
    using contract_at_time [OF roomy_contract [OF assms(1), unfolded sample_fields_at] assms(2) _
        t(1) [unfolded sample_fields_at] t(2)]
    by (simp add: sample_fields_at)
qed

lemma sample_contracts:
  assumes "stamp s"
  shows "event_contract (job_sample ''job.started'' 1 s)" "event_contract (job_sample ''job.heartbeat'' 2 s)"
    "event_contract (runner_sample s)"
  using sample_contract [OF roomy_started [unfolded job_sample_def] assms]
    sample_contract [OF roomy_heartbeat [unfolded job_sample_def] assms]
    sample_contract [where ys = "[]", simplified, OF roomy_runner [unfolded runner_sample_def] assms]
  by (simp_all add: job_sample_def runner_sample_def)


subsection \<open>Ingesting a sample event\<close>

text \<open>Payloads that \<open>freeze\<close> and \<open>thaw\<close> give back as they are.\<close>

lemma rethaw_sample [simp]:
  "rethaw (job_sample ty n s) = job_sample ty n s" "rethaw (runner_sample s) = runner_sample s"
  by (simp_all add: job_sample_def runner_sample_def sample_fields_def gate_job_def obj_def)

lemma small_digits: "length (nat_digits (Suc 0)) \<le> INT_MAX_STR_DIGITS" "length (nat_digits 2) \<le> INT_MAX_STR_DIGITS"
  by (simp_all add: sample_digits INT_MAX_STR_DIGITS_def)

lemma plain_sample:
  "n \<in> {1, 2} \<Longrightarrow> json_plain (job_sample ty n s)" "json_plain (runner_sample s)"
  by (auto simp: job_sample_def runner_sample_def sample_fields_def gate_job_def obj_def small_digits)

lemma sample_event_fields:
  "ev_type (event_of (job_sample ty n s)) = ty" "ev_id (event_of (job_sample ty n s)) = sequence_uuid n"
  "ev_runner_id (event_of (job_sample ty n s)) = SAMPLE_RUNNER_ID"
  "ev_producer_sequence (event_of (job_sample ty n s)) = n"
  "watermark_of (event_of (job_sample ty n s)) = (SAMPLE_RUNNER_ID, ''gate-drill'', SAMPLE_PRODUCER_EPOCH)"
  "event_job_key (event_of (job_sample ty n s)) = SAMPLE_JOB"
  "ev_payload (event_of (job_sample ty n s)) = freeze (job_sample ty n s)"
  "ev_type (event_of (runner_sample s)) = ''runner.heartbeat''"
  "ev_id (event_of (runner_sample s)) = sequence_uuid 1001"
  "ev_runner_id (event_of (runner_sample s)) = SAMPLE_RUNNER_ID"
  "ev_producer_sequence (event_of (runner_sample s)) = 1"
  "ev_payload (event_of (runner_sample s)) = freeze (runner_sample s)"
  by (simp_all add: job_sample_def runner_sample_def sample_fields_def event_of_def watermark_of_def
      event_job_key_def event_job_def gate_job_def SAMPLE_JOB_def Let_def text_at_def int_at_def
      pget_freeze)

lemma project_events:
  "project mi mw (d\<lparr>events := es\<rparr>) e at =
     (fst (project mi mw d e at), (snd (project mi mw d e at))\<lparr>events := es\<rparr>)"
  by (simp add: project_def Let_def upsert_runner_def upsert_job_def recover_resource_def advance_watermark_def
      runner_get_def)

definition accepts :: "database \<Rightarrow> validated_event \<Rightarrow> bool" where
  "accepts d e \<longleftrightarrow> runner_accepts d e \<and> ev_type e \<in> {''runner.heartbeat'', ''job.started'', ''job.heartbeat''} \<and>
     (ev_type e \<noteq> ''runner.heartbeat'' \<longrightarrow> job_accepts d e = Inr True \<and> \<not> older_attempt_than_runner_current d e)"

lemma accepts_events: "accepts (d\<lparr>events := es\<rparr>) e = accepts d e"
  by (simp add: accepts_def runner_accepts_def job_accepts_def older_attempt_than_runner_current_def
      watermark_get_def runner_get_def job_get_def)

lemma accepts_apply:
  assumes "accepts d e"
  shows "apply_event True True d e at = Inr (True, snd (project True True d e at))"
proof -
  have "fst (project True True d e at)" using assms by (auto simp: fst_project accepts_def lifecycle_types_def job_types_def)
  then have "project True True d e at = (True, snd (project True True d e at))" by (metis prod.collapse)
  then show ?thesis using assms by (auto simp: apply_event_def accepts_def job_types_def)
qed

lemma ingest_accepted:
  assumes p: "event_contract p" "rethaw p = p" "json_plain p" and at: "normalise_received_at (AtMoment now) = Inr s"
    and new: "tbl_get er_event_id (ev_id (event_of p)) (events (db st)) = None"
    and sq: "fits_int64 (ev_producer_sequence (event_of p))" and ok: "accepts (db st) (event_of p)"
  obtains row r where "ingest st (event_of p) (AtMoment now) =
      (Inr r, st\<lparr>db := (snd (project True True (db st) (event_of p) s))\<lparr>events := events (db st) @ [row]\<rparr>\<rparr>)"
    "er_event_id row = ev_id (event_of p)"
proof -
  let ?e = "event_of p"
  have th: "thaw (ev_payload ?e) = p" using p(2) by (simp add: event_of_def)
  obtain t where t: "dumps compact p = Inr t" using json_plain_dumps(1) [OF p(3)] by (auto simp: res_ok_iff)
  define x where "x = event_values (next_row_id (map er_row_id (events (db st)))) ?e s t"
  have key: "er_event_id x = ev_id ?e" by (simp add: x_def)
  let ?d1 = "(db st)\<lparr>events := events (db st) @ [x]\<rparr>"
  have ins: "insert_event (db st) ?e s = Inr ?d1" by (simp add: insert_event_def th t sq x_def)
  have app: "apply_event True True ?d1 ?e s = Inr (True, (snd (project True True (db st) ?e s))\<lparr>events := events (db st) @ [x]\<rparr>)"
    using accepts_apply [of ?d1 ?e s] ok by (simp add: accepts_events project_events)
  have "ev_type ?e \<noteq> ''runner.offline''" using ok by (auto simp: accepts_def)
  then have "ingest_new (db st) ?e s = Inr (True, [],
      (snd (project True True (db st) ?e s))\<lparr>events := events (db st) @ [x\<lparr>er_applied := True\<rparr>]\<rparr>)"
    using tbl_amend_snoc [of er_event_id x "events (db st)"] new key
    by (simp add: ingest_new_def ins app set_applied_def)
  moreover have "validate_event p = Inr ?e" using p(1) by (simp add: validate_event_iff)
  ultimately have "\<exists>r. ingest st ?e (AtMoment now) = (Inr r, st\<lparr>db := (snd (project True True (db st) ?e s))
      \<lparr>events := events (db st) @ [x\<lparr>er_applied := True\<rparr>]\<rparr>\<rparr>)"
    using at new by (simp add: ingest_def revalidated_def th)
  then show ?thesis using that [of _ "x\<lparr>er_applied := True\<rparr>"] key by auto
qed


lemma project_first:
  assumes "runner_state d = []" "job_state d = []" "incidents d = []" "ev_type e \<in> {''job.started'', ''runner.heartbeat''}"
  shows "runner_state (snd (project True True d e s)) = [runner_after None e s]"
    "job_state (snd (project True True d e s)) = (if ev_type e = ''job.started'' then [job_after e s] else [])"
    "incidents (snd (project True True d e s)) = []"
  using assms by (auto simp: project_def Let_def upsert_runner_def upsert_job_def recover_resource_def advance_watermark_def
      runner_get_def tbl_update_def job_types_def runner_after_def job_after_def event_outcome_def)

text \<open>A refresh that finds one silent runner, with its job or without.\<close>

lemma refresh_one:
  assumes "runner_state (db st) = [r]" "rs_liveness r = ''online''" "rs_last_received_at r = s"
    and "list_all (\<lambda>j. js_state j = ''running'' \<and> js_liveness j = ''online'' \<and> js_last_heartbeat_at j = Some s) (job_state (db st))"
    and "length (job_state (db st)) \<le> 1"
    and "incidents (db st) = []" and "normalise_received_at now = Inr cur" "parse_received_at cur = Inr t"
    and "moment_minus t (LIVENESS_TIMEOUT_SECONDS * 1000000) = Inr cutoff" and "stale cutoff s = Inr True"
  obtains n d where "refresh_liveness st now = (Inr n, st\<lparr>db := d\<rparr>)" "runner_state d = [mark_runner r]"
    "job_state d = map mark_job (job_state (db st))" "events d = events (db st)" "watermarks d = watermarks (db st)"
    "map (\<lambda>i. (in_condition i, in_active i)) (incidents d) =
      replicate (Suc (length (job_state (db st)))) (''heartbeat_timeout'', True)"
proof -
  have "job_state (db st) = [] \<or> (\<exists>j. job_state (db st) = [j])"
    using assms(5) by (cases "job_state (db st)") auto
  then show ?thesis
    using that assms
    by (auto simp: refresh_liveness_def stale_runners_def stale_jobs_def mark_runners.simps mark_jobs.simps
        open_incident_def incident_get_def Let_def tbl_amend_def tbl_update_def incident_key_def)
qed

subsection \<open>The store of the drills\<close>

definition healthy :: "sqlite \<Rightarrow> bool" where
  "healthy q \<longleftrightarrow> sq_pragma q = Inr [''ok''] \<and> \<not> sq_count_fails q"

lemma gate_open_fresh: "healthy q \<Longrightarrow> gate_open q fresh_database = Inr fresh_store"
  by (simp add: healthy_def gate_open_def open_store_def Let_def migrate_def fresh_database_def
      check_integrity_def discard_reason_def replay_if_projections_are_missing_def fresh_store_def empty_database_def)

lemma accepts_fresh:
  "accepts empty_database (event_of (job_sample ''job.started'' 1 s))"
  "accepts empty_database (event_of (runner_sample s))"
  by (simp_all add: accepts_def runner_accepts_def job_accepts_def older_attempt_than_runner_current_def
      sample_event_fields empty_database_def watermark_get_def runner_get_def job_get_def SAMPLE_JOB_def
      job_key_fits_def fits_int64_def Let_def)

text \<open>The store with the one event of a sample.\<close>

definition first_event :: "validated_event \<Rightarrow> string \<Rightarrow> store \<Rightarrow> bool" where
  "first_event e s st \<longleftrightarrow> degraded_reasons st = [] \<and>
     runner_state (db st) = [runner_after None e s] \<and>
     job_state (db st) = (if ev_type e = ''job.started'' then [job_after e s] else []) \<and>
     incidents (db st) = [] \<and> watermark_get (watermark_of e) (db st) = Some (ev_producer_sequence e) \<and>
     (\<exists>row. events (db st) = [row] \<and> er_event_id row = ev_id e) \<and>
     monitor_meta (db st) = monitor_meta empty_database"

lemma py_dicts_sample:
  "py_dicts (freeze (job_sample ty n s))" "py_dicts (freeze (runner_sample s))"
  by (simp_all add: job_sample_def runner_sample_def sample_fields_def gate_job_def obj_def)

lemma first_event_ready:
  assumes p: "event_contract p" "rethaw p = p" "json_plain p" "py_dicts (freeze p)"
    and at: "normalise_received_at (AtMoment now) = Inr s"
    and e: "accepts empty_database (event_of p)" "ev_type (event_of p) \<in> {''job.started'', ''runner.heartbeat''}"
      "ev_producer_sequence (event_of p) = 1"
  obtains st where "gate_ingest fresh_store (event_of p) now = Inr st" "first_event (event_of p) s st"
    "reachable fr st"
proof -
  obtain row r where ing: "ingest fresh_store (event_of p) (AtMoment now) = (Inr r, fresh_store\<lparr>db :=
      (snd (project True True empty_database (event_of p) s))\<lparr>events := [row]\<rparr>\<rparr>)"
    and row: "er_event_id row = ev_id (event_of p)"
    by (rule ingest_accepted [OF p(1-3) at, of fresh_store])
      (use e in \<open>simp_all add: fresh_store_def empty_database_def fits_int64_def\<close>)
  let ?st = "fresh_store\<lparr>db := (snd (project True True empty_database (event_of p) s))\<lparr>events := [row]\<rparr>\<rparr>"
  have "gate_ingest fresh_store (event_of p) now = Inr ?st" by (simp add: gate_ingest_def ing)
  moreover have "first_event (event_of p) s ?st"
    using e project_first [of empty_database "event_of p" s] row watermark_get_project [of _ True True empty_database "event_of p" s]
    by (auto simp: first_event_def fresh_store_def empty_database_def watermark_get_def lifecycle_types_def job_types_def)
  moreover have "monitor_step fr fresh_store ?st"
    by (rule step_ingest [OF _ ing]) (simp add: event_of_def p(4))
  then have "reachable fr ?st" unfolding reachable_def using steps_refl steps_step by metis
  ultimately show ?thesis by (rule that)
qed


definition drill_time :: "datetime \<Rightarrow> bool" where
  "drill_time now \<longleftrightarrow> offset now = Some 0 \<and> in_range (naive now - RETENTION_DAYS * DAY) \<and>
     in_range (naive now + 602000000)"

lemma drill_time_later:
  assumes "drill_time now" and "0 \<le> k" "k \<le> 602"
  shows "later now k = Inr \<lparr>naive = naive now + k * 1000000, offset = Some 0\<rparr>"
    and "utc_moment \<lparr>naive = naive now + k * 1000000, offset = Some 0\<rparr>"
proof -
  have "in_range (naive now + k * 1000000)"
    using assms by (auto simp: drill_time_def in_range_def RETENTION_DAYS_def DAY_def)
  then show "later now k = Inr \<lparr>naive = naive now + k * 1000000, offset = Some 0\<rparr>"
    "utc_moment \<lparr>naive = naive now + k * 1000000, offset = Some 0\<rparr>"
    using assms(1) by (simp_all add: later_def moment_minus_def utc_moment_def drill_time_def datetime.defs)
qed

lemma drill_time_now: "drill_time now \<Longrightarrow> utc_moment now"
  using drill_time_later(2) [of now 0] by (cases now) (simp add: drill_time_def)

lemma store_with_job_ready:
  assumes "healthy q" and "utc_moment now"
  obtains s st where "parse_received_at s = Inr now" "normalise_received_at (AtMoment now) = Inr s"
    "store_with_job q now fresh_database = Inr st"
    "first_event (event_of (job_sample ''job.started'' 1 s)) s st" "reachable (sq_float_text q) st"
proof -
  obtain s where s: "gate_iso now = Inr s" "normalise_received_at (AtMoment now) = Inr s"
    "parse_received_at s = Inr now" "stamp s" by (rule gate_iso_stamp [OF assms(2)])
  note c = sample_contracts(1) [OF s(4)]
  obtain st where "gate_ingest fresh_store (event_of (job_sample ''job.started'' 1 s)) now = Inr st"
    "first_event (event_of (job_sample ''job.started'' 1 s)) s st" "reachable (sq_float_text q) st"
    by (rule first_event_ready [OF c rethaw_sample(1) plain_sample(1) py_dicts_sample(1) s(2)])
      (simp_all add: accepts_fresh sample_event_fields)
  moreover have "sample_job_event ''job.started'' 1 now None = Inr (event_of (job_sample ''job.started'' 1 s))"
    using sample_job_event_eq [OF s(1)] c by (simp add: validate_event_iff)
  ultimately show ?thesis
    using that [OF s(3,2)] gate_open_fresh [OF assms(1)] by (simp add: store_with_job_def)
qed

lemma stale_after_601:
  assumes "drill_time now" and "parse_received_at s = Inr now"
    and "t = \<lparr>naive = naive now + 601000000, offset = Some 0\<rparr>"
  obtains cutoff where "moment_minus t (LIVENESS_TIMEOUT_SECONDS * 1000000) = Inr cutoff" "stale cutoff s = Inr True"
proof -
  have "in_range (naive now + 1000000)"
    using assms(1) by (auto simp: drill_time_def in_range_def RETENTION_DAYS_def DAY_def)
  then have "moment_minus t (LIVENESS_TIMEOUT_SECONDS * 1000000) = Inr \<lparr>naive = naive now + 1000000, offset = Some 0\<rparr>"
    by (simp add: assms(3) moment_minus_def LIVENESS_TIMEOUT_SECONDS_def add.commute)
  moreover have "stale \<lparr>naive = naive now + 1000000, offset = Some 0\<rparr> s = Inr True"
    using assms(1) by (simp add: stale_def assms(2) moment_less_def instant_def drill_time_def)
  ultimately show ?thesis by (rule that)
qed

lemma first_event_silent:
  assumes now: "drill_time now" and s: "parse_received_at s = Inr now" and e: "first_event e s st"
    and ty: "ev_type e \<in> {''job.started'', ''runner.heartbeat''}"
  obtains n d where "refresh_liveness st (AtMoment \<lparr>naive = naive now + 601000000, offset = Some 0\<rparr>) = (Inr n, st\<lparr>db := d\<rparr>)"
    "runner_state d = [mark_runner (runner_after None e s)]" "job_state d = map mark_job (job_state (db st))"
    "events d = events (db st)" "watermarks d = watermarks (db st)"
    "map (\<lambda>i. (in_condition i, in_active i)) (incidents d) =
      replicate (Suc (length (job_state (db st)))) (''heartbeat_timeout'', True)"
proof -
  let ?t = "\<lparr>naive = naive now + 601000000, offset = Some 0\<rparr>"
  have "utc_moment ?t" using drill_time_later(2) [OF now, of 601] by simp
  then obtain cur where cur: "normalise_received_at (AtMoment ?t) = Inr cur" "parse_received_at cur = Inr ?t"
    by (rule gate_iso_stamp)
  obtain cutoff where cutoff: "moment_minus ?t (LIVENESS_TIMEOUT_SECONDS * 1000000) = Inr cutoff" "stale cutoff s = Inr True"
    by (rule stale_after_601 [OF now s]) simp
  have r: "runner_state (db st) = [runner_after None e s]" "incidents (db st) = []"
    using e by (simp_all add: first_event_def)
  have live: "rs_liveness (runner_after None e s) = ''online''" "rs_last_received_at (runner_after None e s) = s"
    using ty by (auto simp: runner_after_def)
  have js: "list_all (\<lambda>j. js_state j = ''running'' \<and> js_liveness j = ''online'' \<and> js_last_heartbeat_at j = Some s) (job_state (db st))"
    "length (job_state (db st)) \<le> 1"
    using e by (auto simp: first_event_def job_after_def)
  show ?thesis
    by (rule refresh_one [OF r(1) live js r(2) cur cutoff]) (rule that)
qed


subsection \<open>The drills\<close>

lemma restart_drill:
  assumes "healthy q" and "drill_time now"
  shows "drill_monitor_restart_recovers_projection q now fresh_database = Inr (drill ''monitor_restart_recovery'' True [] f)"
proof -
  obtain s st where st: "store_with_job q now fresh_database = Inr st"
    "first_event (event_of (job_sample ''job.started'' 1 s)) s st" "reachable (sq_float_text q) st"
    by (rule store_with_job_ready [OF assms(1) drill_time_now [OF assms(2)]])
  let ?s0 = "\<lparr>db = db st, degraded_reasons = []\<rparr>"
  have "history_is_complete (db ?s0)" "migrate (db st) = db st"
    using st(2) by (simp_all add: first_event_def history_is_complete_def migrate_def empty_database_def)
  moreover obtain s1 where "replay (sq_float_text q) ?s0 = (Inr True, s1)" "restoring (db st) (db s1)"
    "degraded_reasons s1 = []"
    by (rule replay_restoring [of ?s0 "sq_float_text q"]) (use reachable_inv [OF st(3)] calculation in auto)
  ultimately have "gate_open q (db st) = Inr s1" "job_state (db s1) = job_state (db st)"
    "degraded_reasons s1 = []"
    using assms(1) st(2)
    by (auto simp: gate_open_def open_store_def Let_def healthy_def check_integrity_def discard_reason_def
        replay_if_projections_are_missing_def restoring_def first_event_def)
  then show ?thesis
    using st(1,2)
    by (simp add: drill_monitor_restart_recovers_projection_def current_job_def SAMPLE_JOB_def job_key_fits_def
        fits_int64_def job_get_def first_event_def sample_event_fields drill_def degraded_def job_after_def)
qed

lemma failure_drills:
  assumes "healthy q" and "drill_time now"
  shows "drill_sqlite_integrity_failure_is_isolated q now fresh_database =
      Inr (drill ''sqlite_integrity_failure_isolated'' True [''integrity_check_failed''] f)"
    "drill_cleanup_failure_is_isolated q now fresh_database =
      Inr (drill ''cleanup_failure_isolated'' True [''cleanup_failed''] f)"
proof -
  obtain s st where st: "parse_received_at s = Inr now" "normalise_received_at (AtMoment now) = Inr s"
    "store_with_job q now fresh_database = Inr st" "first_event (event_of (job_sample ''job.started'' 1 s)) s st"
    by (rule store_with_job_ready [OF assms(1) drill_time_now [OF assms(2)]])
  have bad: "degraded_reasons st = []" using st(4) by (simp add: first_event_def)
  show "drill_sqlite_integrity_failure_is_isolated q now fresh_database =
      Inr (drill ''sqlite_integrity_failure_isolated'' True [''integrity_check_failed''] f)"
    using bad by (simp add: drill_sqlite_integrity_failure_is_isolated_def st(3) check_integrity_def isolated_failure_def
        add_reason_def health_def degraded_def drill_def)
  have "moment_minus now (RETENTION_DAYS * DAY) = Inr (now\<lparr>naive := naive now - RETENTION_DAYS * DAY\<rparr>)"
    using assms(2) by (simp add: moment_minus_def drill_time_def)
  then show "drill_cleanup_failure_is_isolated q now fresh_database =
      Inr (drill ''cleanup_failure_isolated'' True [''cleanup_failed''] f)"
    using bad by (simp add: drill_cleanup_failure_is_isolated_def st(1-3) prune_history_def isolated_failure_def
        add_reason_def health_def degraded_def drill_def)
qed


lemma later_refresh:
  assumes "drill_time now" and "refresh_liveness st (AtMoment \<lparr>naive = naive now + 601000000, offset = Some 0\<rparr>) = (Inr n, s1)"
  obtains t where "later now 601 = Inr t" "fst (refresh_and_notify notifier st t w) = Inr s1"
  using that drill_time_later(1) [OF assms(1), of 601] assms(2) by (simp add: refresh_and_notify_def)

lemma notification_drill:
  assumes "healthy q" and "drill_time now"
  shows "drill_notification_failure_is_isolated q now fresh_database = Inr (drill ''notification_failure_isolated'' True [] f)"
proof -
  obtain s where s: "gate_iso now = Inr s" "normalise_received_at (AtMoment now) = Inr s"
    "parse_received_at s = Inr now" "stamp s" by (rule gate_iso_stamp [OF drill_time_now [OF assms(2)]])
  note c = sample_contracts(3) [OF s(4)]
  obtain st where st: "gate_ingest fresh_store (event_of (runner_sample s)) now = Inr st"
    "first_event (event_of (runner_sample s)) s st"
    by (rule first_event_ready [OF c rethaw_sample(2) plain_sample(2) py_dicts_sample(2) s(2)])
      (simp_all add: accepts_fresh sample_event_fields)
  obtain n d where d: "refresh_liveness st (AtMoment \<lparr>naive = naive now + 601000000, offset = Some 0\<rparr>) = (Inr n, st\<lparr>db := d\<rparr>)"
    "map (\<lambda>i. (in_condition i, in_active i)) (incidents d) =
      replicate (Suc (length (job_state (db st)))) (''heartbeat_timeout'', True)"
    by (rule first_event_silent [OF assms(2) s(3) st(2)]) (simp add: sample_event_fields)
  obtain t where t: "later now 601 = Inr t" "fst (refresh_and_notify (Some denied_notifier) st t ()) = Inr (st\<lparr>db := d\<rparr>)"
    by (rule later_refresh [OF assms(2) d(1)])
  have "job_state (db st) = []" using st(2) by (simp add: first_event_def sample_event_fields)
  then obtain i where "incidents d = [i]" "in_condition i = ''heartbeat_timeout''" "in_active i"
    using d(2) by auto
  moreover have "sample_runner_event ''runner.heartbeat'' 1 now = Inr (event_of (runner_sample s))"
    using sample_runner_event_eq [OF s(1)] c by (simp add: validate_event_iff)
  ultimately show ?thesis
    by (simp add: drill_notification_failure_is_isolated_def gate_open_fresh [OF assms(1)] st(1) t incidents_of_def drill_def)
qed

text \<open>The heartbeat that comes after the silence.\<close>

lemma heartbeat_accepted:
  assumes "first_event (event_of (job_sample ''job.started'' 1 s)) s st"
    and "runner_state d = [mark_runner (runner_after None (event_of (job_sample ''job.started'' 1 s)) s)]"
    and "job_state d = map mark_job (job_state (db st))" and "watermarks d = watermarks (db st)"
  shows "accepts d (event_of (job_sample ''job.heartbeat'' 2 s'))"
proof -
  have "watermark_get (SAMPLE_RUNNER_ID, ''gate-drill'', SAMPLE_PRODUCER_EPOCH) d = Some 1"
    using assms(1,4) by (simp add: first_event_def sample_event_fields watermark_get_def)
  moreover have "job_get SAMPLE_JOB d = Some (mark_job (job_after (event_of (job_sample ''job.started'' 1 s)) s))"
    using assms(1,3) by (simp add: first_event_def sample_event_fields job_get_def job_after_def)
  moreover have "\<not> older_attempt_than_runner_current d (event_of (job_sample ''job.heartbeat'' 2 s'))"
    using assms(2) by (simp add: older_attempt_than_runner_current_def runner_get_def Let_def runner_after_def
        sample_event_fields runner_values_def mark_runner_def event_job_def pget_freeze)
      (simp add: job_sample_def sample_fields_def gate_job_def int_at_def)
  ultimately show ?thesis
    by (simp add: accepts_def runner_accepts_def job_accepts_def sample_event_fields SAMPLE_JOB_def job_key_fits_def
        fits_int64_def job_after_def)
qed


lemma offline_drill:
  assumes "healthy q" and "drill_time now"
  shows "drill_runner_and_job_offline_then_recovery q now fresh_database = Inr (drill ''offline_recovery'' True [] f)"
proof -
  obtain s st where st: "parse_received_at s = Inr now" "store_with_job q now fresh_database = Inr st"
    "first_event (event_of (job_sample ''job.started'' 1 s)) s st"
    by (rule store_with_job_ready [OF assms(1) drill_time_now [OF assms(2)]])
  obtain n d where d: "refresh_liveness st (AtMoment \<lparr>naive = naive now + 601000000, offset = Some 0\<rparr>) = (Inr n, st\<lparr>db := d\<rparr>)"
    "runner_state d = [mark_runner (runner_after None (event_of (job_sample ''job.started'' 1 s)) s)]"
    "job_state d = map mark_job (job_state (db st))" "events d = events (db st)" "watermarks d = watermarks (db st)"
    "map (\<lambda>i. (in_condition i, in_active i)) (incidents d) =
      replicate (Suc (length (job_state (db st)))) (''heartbeat_timeout'', True)"
    by (rule first_event_silent [OF assms(2) st(1,3)]) (simp add: sample_event_fields)
  obtain t where t: "later now 601 = Inr t" "fst (refresh_and_notify None st t ()) = Inr (st\<lparr>db := d\<rparr>)"
    by (rule later_refresh [OF assms(2) d(1)])
  obtain i rest where "incidents d = i # rest" "in_active i" using d(6) by auto
  then have silent: "both_live ''offline'' (st\<lparr>db := d\<rparr>) (job_get SAMPLE_JOB d)" "incidents_of (st\<lparr>db := d\<rparr>) True \<noteq> []"
    using d(2,3) st(3)
    by (simp_all add: both_live_def current_runner_def runner_get_def job_get_def runner_after_def job_after_def
        first_event_def sample_event_fields incidents_of_def)
  let ?u = "\<lparr>naive = naive now + 602000000, offset = Some 0\<rparr>"
  have "utc_moment ?u" using drill_time_later(2) [OF assms(2), of 602] by simp
  then obtain s' where s': "gate_iso ?u = Inr s'" "normalise_received_at (AtMoment ?u) = Inr s'" "stamp s'"
    by (rule gate_iso_stamp)
  note c = sample_contracts(2) [OF s'(3)]
  let ?e = "event_of (job_sample ''job.heartbeat'' 2 s')"
  have new: "tbl_get er_event_id (ev_id ?e) (events (db (st\<lparr>db := d\<rparr>))) = None"
    using st(3) d(4) by (auto simp: first_event_def sample_event_fields sample_uuids)
  have ok: "accepts (db (st\<lparr>db := d\<rparr>)) ?e" using heartbeat_accepted [OF st(3) d(2,3,5)] by simp
  obtain row r where ing: "ingest (st\<lparr>db := d\<rparr>) ?e (AtMoment ?u) =
      (Inr r, st\<lparr>db := (snd (project True True d ?e s'))\<lparr>events := events d @ [row]\<rparr>\<rparr>)"
    by (rule ingest_accepted [OF c rethaw_sample(1) plain_sample(1) s'(2) new _ ok])
      (auto simp: sample_event_fields fits_int64_def)
  let ?s2 = "st\<lparr>db := (snd (project True True d ?e s'))\<lparr>events := events d @ [row]\<rparr>\<rparr>"
  have "runner_get SAMPLE_RUNNER_ID (db ?s2) = Some (runner_after (runner_get SAMPLE_RUNNER_ID d) ?e s')"
    "job_get SAMPLE_JOB (db ?s2) = Some (job_after ?e s')"
    using runner_get_project [of SAMPLE_RUNNER_ID True True d ?e s'] job_get_project [of SAMPLE_JOB True True d ?e s']
    by (simp_all add: runner_get_def job_get_def sample_event_fields lifecycle_types_def job_types_def)
  then have live: "both_live ''online'' ?s2 (job_get SAMPLE_JOB (db ?s2))"
    by (simp add: both_live_def current_runner_def runner_after_def job_after_def sample_event_fields)
  have key: "current_job x SAMPLE_JOB = Inr (job_get SAMPLE_JOB (db x))" for x
    by (simp add: current_job_def SAMPLE_JOB_def job_key_fits_def fits_int64_def)
  have u: "later now 602 = Inr ?u" using drill_time_later(1) [OF assms(2), of 602] by simp
  have e: "sample_job_event ''job.heartbeat'' 2 ?u None = Inr ?e"
    using sample_job_event_eq [OF s'(1)] c by (simp add: validate_event_iff)
  show ?thesis
    using silent live
    by (simp add: drill_runner_and_job_offline_then_recovery_def st(2) t u e gate_ingest_def ing key drill_def Suc_le_eq)
qed

text \<open>
  C40: On a healthy SQLite all five drills of the gate pass, for every time of the run: the restarted
  store rebuilds its projection, a silent runner and its job go offline and come back with the next
  heartbeat, and failures of the integrity check, of the cleanup and of the notifier each leave the
  store usable with the reason (or the incident) on record.
\<close>

theorem gate_drills_pass:
  assumes "sq_pragma q = Inr [''ok'']" and "\<not> sq_count_fails q"
    and "offset now = Some 0" and "in_range (naive now - RETENTION_DAYS * DAY)" and "in_range (naive now + 602 * 1000000)"
  shows "run_drills q now = Inr
    [\<lparr>dl_capability = ''monitor_restart_recovery'', dl_passed = True, dl_reasons = []\<rparr>,
     \<lparr>dl_capability = ''offline_recovery'', dl_passed = True, dl_reasons = []\<rparr>,
     \<lparr>dl_capability = ''sqlite_integrity_failure_isolated'', dl_passed = True, dl_reasons = [''integrity_check_failed'']\<rparr>,
     \<lparr>dl_capability = ''cleanup_failure_isolated'', dl_passed = True, dl_reasons = [''cleanup_failed'']\<rparr>,
     \<lparr>dl_capability = ''notification_failure_isolated'', dl_passed = True, dl_reasons = []\<rparr>]"
proof -
  have "healthy q" "drill_time now" using assms by (simp_all add: healthy_def drill_time_def)
  note drills = restart_drill [OF this] offline_drill [OF this] failure_drills [OF this] notification_drill [OF this]
  then show ?thesis by (simp add: run_drills_def drill_def)
qed

theorem gate_drills_pass_witness:
  "res_ok (run_drills (ge_sqlite broken_gate) \<lparr>naive = 63925203600000000, offset = Some 0\<rparr>)"
  using gate_drills_pass [of "ge_sqlite broken_gate" "\<lparr>naive = 63925203600000000, offset = Some 0\<rparr>"]
  by (simp add: broken_gate_def in_range_def RETENTION_DAYS_def DAY_def MAX_ORDINAL_def)

end
