(* ===== verification/EndToEnd.thy ===== *)
theory EndToEnd
  imports ServerProperties OutboxProperties
begin

section \<open>Sender, outbox and monitor together\<close>

text \<open>
  The outbox is drained over the monitor as the network of the sender.  First the log of the monitor
  as the evidence of a delivery, under any failure; then a monitor that works: one flush stores every
  queued event and leaves nothing valid in the outbox.
\<close>

subsection \<open>What no delivery undoes\<close>

text \<open>A predicate on the world that the four operations of a sender preserve.\<close>

definition preserves :: "('w \<Rightarrow> bool) \<Rightarrow> 'w agent \<Rightarrow> bool" where
  "preserves P ag \<longleftrightarrow> (\<forall>w. P w \<longrightarrow> P (snd (a_clock ag w)) \<and> (\<forall>d. P (a_sleep ag d w)) \<and>
     (\<forall>m. P (a_report ag m w)) \<and> (\<forall>e h b t. P (snd (a_transport ag e h b t w))))"

lemma preservesD:
  assumes "preserves P ag" and "P w"
  shows "a_clock ag w = (t, w') \<Longrightarrow> P w'" "P (a_sleep ag d w)" "P (a_report ag m w)"
    "a_transport ag e h b k w = (r, w') \<Longrightarrow> P w'"
  using assms by (auto simp: preserves_def dest!: spec [of _ w]) (metis snd_conv)+

lemma give_up_preserves: "preserves P ag \<Longrightarrow> P w \<Longrightarrow> P (snd (give_up ag n reason status w))"
  by (simp add: give_up_def preserves_def)

lemma deliver_loop_preserves:
  assumes "preserves P ag" and "P w"
  shows "P (snd (deliver_loop ag (\<lambda>t. a_transport ag ep h b (max 1000000 t)) started budget attempts reason status w))"
  using assms(2)
proof (induction "3 - attempts" arbitrary: attempts reason status w rule: less_induct)
  case less
  let ?send = "\<lambda>t. a_transport ag ep h b (max 1000000 t)"
  obtain now w1 where c: "a_clock ag w = (now, w1)" by fastforce
  obtain out w2 where send: "?send (budget - (now - started)) w1 = (out, w2)" by fastforce
  obtain now2 w3 where c2: "a_clock ag w2 = (now2, w3)" by fastforce
  have w1: "P w1" by (rule preservesD(1) [OF assms(1) less.prems c])
  have w2: "P w2" by (rule preservesD(4) [OF assms(1) w1 send])
  have w3: "P w3" by (rule preservesD(1) [OF assms(1) w2 c2])
  have again: "P (snd (deliver_loop ag ?send started budget k r st (a_sleep ag d w3)))"
    if "k = Suc attempts" "\<not> MAX_RETRIES < k" for k r st d
    by (rule less.hyps) (use that preservesD(2) [OF assms(1) w3] in \<open>auto simp: MAX_RETRIES_def\<close>)
  note up = give_up_preserves [OF assms(1)]
  show ?case
    unfolding deliver_loop_step [of ag w now w1 ?send budget started out w2 now2 w3 attempts reason status, OF c send c2]
    by (auto split: verdict.split intro!: again up [OF w1] up [OF w2] up [OF w3] w2)
qed

lemma deliver_event_preserves:
  assumes "preserves P ag" and "P w" and "deliver_event ag event endpoint token budget w = (r, w')"
  shows "P w'"
proof -
  obtain now w1 where c: "a_clock ag w = (now, w1)" by fastforce
  note w1 = preservesD(1) [OF assms(1,2) c]
  show ?thesis
    using assms(2,3) c w1 preservesD(3) [OF assms(1,2)]
      deliver_loop_preserves [OF assms(1) w1, of endpoint _ _ now "min MAX_DELIVERY budget"]
    by (auto simp: deliver_event_def Let_def split: sum.splits exn.splits prod.splits if_splits) (metis snd_conv)
qed


subsection \<open>The log of the monitor as evidence\<close>

definition log_ids :: "server \<Rightarrow> string set" where
  "log_ids sv = set (map er_event_id (events (db (sv_store sv))))"

lemma ingest_keeps_log:
  assumes "ingest s event at = (res, s')"
  shows "set (map er_event_id (events (db s))) \<subseteq> set (map er_event_id (events (db s')))"
  using assms
proof (cases rule: ingest_cases)
  case (new e at' applied notified d)
  obtain body where "events d = events (db s) @ [logged (db s) e at' body applied]"
    by (rule ingest_new_cases [OF new(4,3)]) blast
  then show ?thesis using new(5) by auto
qed simp_all

lemma do_POST_keeps_log:
  assumes "do_POST fr token now rq sv = (res, sv')"
  shows "log_ids sv \<subseteq> log_ids sv'"
  using assms
proof (cases rule: do_POST_cases)
  case rejected
  then show ?thesis by (simp add: refused_def log_ids_def)
next
  case (accepted n payload e r notified s1)
  then show ?thesis using ingest_keeps_log [OF accepted(7)] by (simp add: send_json_def log_ids_def)
qed simp

lemma post_over_keeps_log:
  "post_over fr token now endpoint hdrs body sv = (res, sv') \<Longrightarrow> log_ids sv \<subseteq> log_ids sv'"
  by (auto simp: post_over_def split: sum.splits prod.splits dest: do_POST_keeps_log)

lemma monitored_preserves_log: "preserves (\<lambda>w. i \<in> log_ids (snd w)) (monitored fr token now)"
  by (auto simp: preserves_def monitored_def split: prod.splits dest: post_over_keeps_log [THEN subsetD])

abbreviation monitor_drain ::
  "(string \<Rightarrow> string) \<Rightarrow> string \<Rightarrow> (int \<Rightarrow> received) \<Rightarrow> outbox_limits \<Rightarrow> (int option \<times> int \<times> server) drain_env" where
  "monitor_drain fr token now limits \<equiv> \<lparr>read_clock = bounded_clock (monitored fr token now),
     deliver = drain_delivery (monitored fr token now) limits\<rparr>"

lemma bounded_clock_monitored:
  "bounded_clock (monitored fr token now) (st, t, sv) = (t, (case st of None \<Rightarrow> Some t | Some u \<Rightarrow> Some u), t, sv)"
  by (simp add: bounded_clock_def monitored_def split: option.split)

lemma drain_delivery_monitored:
  "drain_delivery (monitored fr token now) limits event endpoint token' (Some u, t, sv) =
     (if max_drain_seconds limits - (t - u) \<le> 0
      then (Inr (undelivered 0 ''temporary_network_failure'' None), Some u, t, sv)
      else case deliver_event (monitored fr token now) event endpoint token' (max_drain_seconds limits - (t - u)) (t, sv) of
        (r, w2) \<Rightarrow> (r, Some u, w2))"
  by (simp add: drain_delivery_def bounded_clock_monitored Let_def)

lemma json_plain_dicts:
  shows "json_plain v \<Longrightarrow> py_dicts v"
    and "json_plain_list vs \<Longrightarrow> py_dicts_list vs"
    and "json_plain_items kvs \<Longrightarrow> py_dicts_items kvs"
  by (induction v and vs and kvs rule: json_plain_json_plain_list_json_plain_items.induct) auto

text \<open>A delivered event is in the log, and stays there.\<close>

interpretation monitor_log: drain_evidence "monitor_drain fr token now limits" endpoint token'
  "\<lambda>env w. env_id env \<in> log_ids (snd (snd w))"
  for fr token now limits endpoint token'
proof
  fix env w r w'
  assume ok: "envelope_ok env" and d: "deliver (monitor_drain fr token now limits) (env_event env) endpoint token' w = (Inr r, w')"
    "dr_delivered r"
  obtain st t sv where w: "w = (st, t, sv)" by (cases w)
  obtain u where u: "st = Some u" using d w by (cases st) (auto simp: drain_delivery_def)
  obtain t' sv' where del: "deliver_event (monitored fr token now) (env_event env) endpoint token'
      (max_drain_seconds limits - (t - u)) (t, sv) = (Inr r, (t', sv'))" "w' = (Some u, t', sv')"
    using d by (auto simp: w u drain_delivery_monitored undelivered_def split: if_splits prod.splits)
  have v: "event_value (env_event env)" using ok by (simp add: envelope_ok_def)
  then have "py_dicts (env_event env)" by (simp add: event_value_def json_plain_dicts)
  from delivered_is_stored [OF del(1) d(2) this]
  show "env_id env \<in> log_ids (snd (snd w'))"
    using event_value_validates(1) [OF v] by (simp add: del(2) env_id_def event_of_def log_ids_def)
next
  fix env w event res w'
  assume "env_id env \<in> log_ids (snd (snd w))" "deliver (monitor_drain fr token now limits) event endpoint token' w = (res, w')"
  then show "env_id env \<in> log_ids (snd (snd w'))"
    using deliver_event_preserves [OF monitored_preserves_log [of "env_id env" fr token now]]
    by (cases w; cases "fst w")
      (auto simp: drain_delivery_def bounded_clock_monitored Let_def split: if_splits prod.splits)
next
  fix env w k w'
  assume "env_id env \<in> log_ids (snd (snd w))" "read_clock (monitor_drain fr token now limits) w = (k, w')"
  then show "env_id env \<in> log_ids (snd (snd w'))" by (cases w) (auto simp: bounded_clock_monitored)
qed


text \<open>
  C3: Nothing is lost between the outbox and the monitor's log: whatever fails during a drain over the
  monitor, with any token, clock and limits, each valid queued event is afterwards still queued, kept
  as a dead letter, or an event of that id is in the monitor's log.
\<close>

theorem drained_is_stored:
  assumes "drain_outbox fr io (monitored fr' token now) limits endpoint token' s (t, sv) = (res, s', (t', sv'))"
  shows "\<forall>n b env. file_get PendingRoot n s = Some b \<and> parse_envelope fr False n b = Some env \<longrightarrow>
    file_get PendingRoot n s' = Some b \<or> dead_has fr (env_id env) s' \<or> env_id env \<in> log_ids sv'"
proof -
  obtain st where d: "drain fr io limits (monitor_drain fr' token now limits) endpoint token' s (None, t, sv) =
      (res, s', (st, t', sv'))"
    using assms by (auto simp: drain_outbox_def split: prod.splits)
  have k: "keeps fr (\<lambda>env. env_id env \<in> log_ids sv') s s'" using monitor_log.drain_keeps [OF d] by simp
  have "file_get PendingRoot n s' = Some b \<or> dead_has fr (env_id env) s' \<or> env_id env \<in> log_ids sv'"
    if f: "file_get PendingRoot n s = Some b" "parse_envelope fr False n b = Some env" for n b env
  proof -
    have "pending_valid fr n env s" using f by (auto simp: pending_valid_def)
    then consider "pending_valid fr n env s'" | "dead_has fr (env_id env) s'" | "env_id env \<in> log_ids sv'"
      using k unfolding keeps_def by blast
    then show ?thesis
    proof cases
      case 1
      then obtain b' where "file_get PendingRoot n s' = Some b'" by (auto simp: pending_valid_def)
      then show ?thesis using k f(1) by (auto simp: keeps_def)
    qed simp_all
  qed
  then show ?thesis by blast
qed

subsection \<open>A monitor that works\<close>

text \<open>SQLite can bind the numbers of an event, and the numbers of a store come from its events.\<close>

definition event_fits :: "pyval \<Rightarrow> bool" where
  "event_fits v \<longleftrightarrow> fits_int64 (int_at v ''producer_sequence'') \<and>
     (text_at v ''event_type'' \<in> set job_types \<longrightarrow> job_key_fits (event_job_key (event_of v)))"

definition marks_fit :: "database \<Rightarrow> bool" where
  "marks_fit d \<longleftrightarrow> (\<forall>k n. watermark_get k d = Some n \<longrightarrow> fits_int64 n)"

lemma marks_fit_cong: "watermarks d = watermarks d' \<Longrightarrow> marks_fit d = marks_fit d'"
  by (simp add: marks_fit_def watermark_get_def)

lemma ingest_new_marks:
  assumes "ingest_new d e at = Inr (applied, notified, d')" and "tbl_get er_event_id (ev_id e) (events d) = None"
    and "marks_fit d"
  shows "marks_fit d'"
proof (rule ingest_new_gets [OF assms(1,2)])
  fix d1 d2
  assume a: "apply_event True True d1 e at = Inr (applied, d2)" and w: "watermarks d1 = watermarks d" "watermarks d' = watermarks d2"
  have seq: "fits_int64 (ev_producer_sequence e)"
    using assms(1) by (auto simp: ingest_new_def rbind_Inr_iff insert_event_Inr)
  from a have "marks_fit d2"
  proof (cases rule: apply_event_cases)
    case rejected
    then show ?thesis using assms(3) marks_fit_cong [OF w(1)] by simp
  next
    case applied
    then show ?thesis
      using assms(3) marks_fit_cong [OF w(1)] seq by (auto simp: marks_fit_def watermark_get_project)
  qed
  then show ?thesis using marks_fit_cong [OF w(2)] by simp
qed

lemma ingest_marks:
  assumes "ingest s event at = (res, s')" and "marks_fit (db s)"
  shows "marks_fit (db s')"
  using assms(1) by (cases rule: ingest_cases) (use assms(2) ingest_new_marks in auto)

lemma reachable_marks_fit:
  assumes "reachable fr s"
  shows "marks_fit (db s)"
proof -
  have "monitor_steps fr s0 s \<Longrightarrow> store_inv (db s0) \<Longrightarrow> marks_fit (db s0) \<Longrightarrow> marks_fit (db s)" for s0
  proof (induction rule: monitor_steps.induct)
    case (steps_step s s' s'')
    have inv: "store_inv (db s')" using store_inv_steps steps_step by blast
    have marks: "marks_fit (db s')" using steps_step by blast
    from steps_step.hyps(2) inv show ?case
    proof (cases rule: monitor_step_db)
      case (ingested event at0 res)
      then show ?thesis using ingest_marks marks by blast
    next
      case (refreshed now inc)
      then show ?thesis
        using refresh_tables(1) [OF refreshed] inv marks by (simp add: store_inv_def marks_fit_def)
    next
      case replayed
      then show ?thesis using marks marks_fit_cong [of "db s''" "db s'"] by (simp add: restoring_def)
    next
      case (pruned ids)
      then show ?thesis using marks by (simp add: marks_fit_def pruned_gets)
    next
      case same
      then show ?thesis using marks by simp
    qed
  qed
  then show ?thesis
    using assms store_inv_fresh by (simp add: reachable_def fresh_store_def marks_fit_def empty_database_def watermark_get_def)
qed


text \<open>An event that fits is ingested, now or before.\<close>

lemma ingest_succeeds:
  assumes v: "event_value v" and fits: "event_fits v" and at: "normalise_received_at at0 = Inr at" and m: "marks_fit (db s)"
  obtains r notified s' where "ingest s (event_of v) at0 = (Inr (r, notified), s')" "marks_fit (db s')"
    "text_at v ''event_id'' \<in> set (map er_event_id (events (db s')))"
    "\<And>n. ir_producer_watermark r = Some n \<Longrightarrow> fits_int64 n"
proof -
  let ?e = "event_of v"
  have th: "thaw (ev_payload ?e) = v"
    using v by (simp add: event_value_def event_of_def rethaw_plain)
  have val: "validate_event (thaw (ev_payload ?e)) = Inr ?e" using event_value_validates(1) [OF v] by (simp add: th)
  have "ingest s ?e at0 \<noteq> (Inl x, s1)" for x s1
  proof (cases "tbl_get er_event_id (ev_id ?e) (events (db s))")
    case (Some row)
    then show ?thesis by (simp add: ingest_def revalidated_def val at)
  next
    case None
    obtain body where b: "dumps compact v = Inr body"
      using v json_plain_dumps(1) [of v] by (auto simp: event_value_def res_ok_iff)
    have seq: "fits_int64 (ev_producer_sequence ?e)" using fits by (simp add: event_fits_def event_of_def)
    obtain d1 where ins: "insert_event (db s) ?e at = Inr d1" using b seq by (simp add: insert_event_def th)
    have "apply_event True True d1 ?e at \<noteq> Inl y" for y
      using apply_event_Inl [of True True d1 ?e at y] fits
      by (auto simp: event_fits_def) (simp add: event_of_def)
    then obtain p where "apply_event True True d1 ?e at = Inr p" by (cases "apply_event True True d1 ?e at") auto
    then have "\<exists>q. ingest_new (db s) ?e at = Inr q"
      by (cases p; cases "fst p") (auto simp: ingest_new_def ins Let_def split_beta)
    then show ?thesis using None by (auto simp: ingest_def revalidated_def val at)
  qed
  then obtain r notified s' where i: "ingest s ?e at0 = (Inr (r, notified), s')" by (metis sum.exhaust surj_pair)
  have marks: "marks_fit (db s')" by (rule ingest_marks [OF i m])
  have "\<exists>d. marks_fit d \<and> ir_producer_watermark r = producer_watermark d ?e"
    using i m marks by (cases rule: ingest_cases) (auto simp: val)
  then have "\<And>n. ir_producer_watermark r = Some n \<Longrightarrow> fits_int64 n" by (metis marks_fit_def producer_watermark_def)
  then show ?thesis
    using that [OF i marks] ingested_logged [OF i val] by (simp add: event_of_def)
qed

lemma fits_dump_int: "fits_int64 n \<Longrightarrow> dump_int n = Inr (int_text n)"
proof -
  assume "fits_int64 n"
  then have "nat \<bar>n\<bar> < 10 ^ Suc 18" by (auto simp: fits_int64_def)
  then have "length (nat_digits (nat \<bar>n\<bar>)) \<le> Suc 18" by (rule length_nat_digits)
  then show ?thesis by (simp add: dump_int_def INT_MAX_STR_DIGITS_def)
qed

lemma accepted_body_text:
  assumes "\<And>n. ir_producer_watermark r = Some n \<Longrightarrow> fits_int64 n"
  obtains t where "dumps compact (accepted_body r) = Inr t"
  using that assms by (cases "ir_producer_watermark r") (simp_all add: accepted_body_def obj_def watermark_value_def fits_dump_int)

text \<open>The monitor answers 202, and the event is in its log.\<close>

definition events_url :: "string \<Rightarrow> bool" where
  "events_url endpoint \<longleftrightarrow>
     (case urlsplit endpoint of Inl x \<Rightarrow> False | Inr u \<Rightarrow> url_path u = ''/v1/events'' \<and> url_query u = [])"

lemma post_over_accepted:
  assumes v: "event_value v" "event_fits v" and b: "dumps compact v = Inr body" and at: "res_ok (normalise_received_at now)"
    and m: "marks_fit (db (sv_store sv))" and url: "events_url endpoint" and token: "is_ascii_text token"
  obtains sv' where "post_over fr token now endpoint (bearer_headers token body) body sv = (Inr 202, sv')"
    "marks_fit (db (sv_store sv'))" "text_at v ''event_id'' \<in> log_ids sv'"
proof -
  note val = event_value_validates [OF v(1)]
  obtain at where at': "normalise_received_at now = Inr at" using at by (auto simp: res_ok_iff)
  obtain r notified s' where i: "ingest (sv_store sv) (event_of v) now = (Inr (r, notified), s')" "marks_fit (db s')"
    "text_at v ''event_id'' \<in> set (map er_event_id (events (db s')))"
    "\<And>n. ir_producer_watermark r = Some n \<Longrightarrow> fits_int64 n"
    by (rule ingest_succeeds [OF v at' m]) blast
  obtain t where t: "dumps compact (accepted_body r) = Inr t" by (rule accepted_body_text [OF i(4)])
  have "py_dicts v" using v(1) by (simp add: event_value_def json_plain_dicts)
  from agent_request_understood_plain [OF val(1) this _ token, of body fr now True sv]
  have "do_POST fr token now (agent_request token body True) sv =
      (Inr \<lparr>rp_status = 202, rp_type = json_type, rp_body = t\<rparr>, sv\<lparr>sv_store := s'\<rparr>)"
    using b t by (simp add: val(2) i(1) send_json_def)
  then have "post_over fr token now endpoint (bearer_headers token body) body sv = (Inr 202, sv\<lparr>sv_store := s'\<rparr>)"
    using url by (auto simp: post_over_def events_url_def agent_request_def split: sum.splits)
  then show ?thesis using that i(2,3) by (simp add: log_ids_def)
qed

lemma deliver_accepted_at_once:
  assumes v: "event_value v" "event_fits v" and at: "\<And>t. res_ok (normalise_received_at (now t))"
    and m: "marks_fit (db (sv_store sv))" and url: "events_url endpoint" and token: "is_ascii_text token" and budget: "0 < budget"
  obtains sv' where "deliver_event (monitored fr token now) v endpoint token budget (t, sv) =
      (Inr \<lparr>dr_delivered = True, dr_attempts = 1, dr_reason = None, dr_http_status = Some 202\<rparr>, (t + 1000000, sv'))"
    "marks_fit (db (sv_store sv'))" "text_at v ''event_id'' \<in> log_ids sv'"
proof -
  note val = event_value_validates [OF v(1)]
  obtain body where b: "dumps compact v = Inr body"
    using v json_plain_dumps(1) [of v] by (auto simp: event_value_def res_ok_iff)
  obtain sv' where p: "post_over fr token (now t) endpoint (bearer_headers token body) body sv = (Inr 202, sv')"
    "marks_fit (db (sv_store sv'))" "text_at v ''event_id'' \<in> log_ids sv'"
    by (rule post_over_accepted [OF v b at m url token])
  have "\<not> min MAX_DELIVERY budget \<le> 0" using budget by (simp add: MAX_DELIVERY_def SECOND_def)
  then have "deliver_event (monitored fr token now) v endpoint token budget (t, sv) =
      (Inr \<lparr>dr_delivered = True, dr_attempts = 1, dr_reason = None, dr_http_status = Some 202\<rparr>, (t + 1000000, sv'))"
    by (simp add: deliver_event_def val b monitored_def deliver_loop.simps judge_def p(1) Let_def)
  then show ?thesis using that p(2,3) by blast
qed


subsection \<open>One flush\<close>

text \<open>What a drain with working files reads.\<close>

lemma read_envelope_tell [simp]: "read_envelope fr io d n (tell m s) = read_envelope fr io d n s"
  using file_get_cong [of "tell m s" s] by (simp add: read_envelope_def)

lemma read_envelope_remove:
  "n \<noteq> n' \<Longrightarrow> read_envelope fr io PendingRoot n (file_remove PendingRoot n' s) = read_envelope fr io PendingRoot n s"
  by (simp add: read_envelope_def file_get_remove)

lemma remove_frame [simp]:
  "dead_letter (file_remove PendingRoot n s) = dead_letter s"
  "pending (file_remove PendingRoot n s) = filter (\<lambda>f. fst f \<noteq> n) (pending s)"
  by (simp_all add: file_remove_def set_folder_def folder_files_def)

lemma scan_pending_spec:
  assumes "scan_pending fr good_io dead names s = (valid, corrupt, s')"
  shows "set valid = {(n, env). n \<in> set names \<and> stem n \<notin> set dead \<and> read_envelope fr good_io PendingRoot n s = Some env} \<and>
    dead_letter s' = dead_letter s \<and>
    pending s' = filter (\<lambda>f. \<not> (fst f \<in> set names \<and> stem (fst f) \<in> set dead)) (pending s) \<and>
    (\<forall>n. stem n \<notin> set dead \<longrightarrow> read_envelope fr good_io PendingRoot n s' = read_envelope fr good_io PendingRoot n s)"
  using assms
proof (induction names arbitrary: s valid corrupt)
  case (Cons name names)
  show ?case
  proof (cases "stem name \<in> set dead")
    case True
    then have scan: "scan_pending fr good_io dead names (file_remove PendingRoot name s) = (valid, corrupt, s')"
      using Cons.prems by (simp add: good_io_def)
    have r: "read_envelope fr good_io PendingRoot n (file_remove PendingRoot name s) = read_envelope fr good_io PendingRoot n s"
      if "stem n \<notin> set dead" for n
      by (rule read_envelope_remove) (use that True in auto)
    show ?thesis using Cons.IH [OF scan] r True by (auto intro!: filter_cong)
  next
    case False
    show ?thesis
    proof (cases "read_envelope fr good_io PendingRoot name s")
      case None
      obtain v c where scan: "scan_pending fr good_io dead names (tell ''outbox_corrupt_event'' s) = (v, c, s')" "valid = v"
        using Cons.prems False None by (auto split: prod.splits)
      show ?thesis using Cons.IH [OF scan(1)] scan(2) False None by (auto intro!: filter_cong)
    next
      case (Some env)
      obtain v c where scan: "scan_pending fr good_io dead names s = (v, c, s')" "valid = (name, env) # v"
        using Cons.prems False Some by (auto split: prod.splits)
      show ?thesis using Cons.IH [OF scan(1)] scan(2) False Some by (auto intro!: filter_cong)
    qed
  qed
qed simp


text \<open>The loop over events that all arrive: every one is removed, and takes a millisecond.\<close>

definition working :: "(int \<Rightarrow> received) \<Rightarrow> string \<Rightarrow> string \<Rightarrow> bool" where
  "working now endpoint token \<longleftrightarrow>
     (\<forall>t. res_ok (normalise_received_at (now t))) \<and> events_url endpoint \<and> is_ascii_text token"

definition remove_all :: "(string \<times> envelope) list \<Rightarrow> outbox \<Rightarrow> outbox" where
  "remove_all todo s = fold (\<lambda>p. file_remove PendingRoot (fst p)) todo s"

lemma remove_all_frame:
  "dead_letter (remove_all todo s) = dead_letter s \<and>
   pending (remove_all todo s) = filter (\<lambda>f. fst f \<notin> fst ` set todo) (pending s)"
  by (induction todo arbitrary: s) (auto simp: remove_all_def intro!: filter_cong)

lemma drain_loop_delivers:
  assumes "working now endpoint token"
    and "\<forall>(n, env) \<in> set todo. event_value (env_event env) \<and> event_fits (env_event env)"
    and "marks_fit (db (sv_store sv))" and "0 \<le> i" and "i + int (length todo) \<le> 100"
  shows "\<exists>sv'. drain_loop fr good_io default_limits (monitor_drain fr token now default_limits) endpoint token u i todo c s
        (Some u, u + i * 1000000, sv) =
      (Inr (c\<lparr>dn_delivered := dn_delivered c + length todo\<rparr>), remove_all todo s,
       (Some u, u + (i + int (length todo)) * 1000000, sv')) \<and>
    log_ids sv \<union> (env_id \<circ> snd) ` set todo \<subseteq> log_ids sv'"
  using assms(2-)
proof (induction todo arbitrary: i c s sv)
  case (Cons p rest)
  obtain name env where p: "p = (name, env)" by (cases p)
  have v: "event_value (env_event env)" "event_fits (env_event env)" using Cons.prems(1) p by auto
  have budget: "0 < max_drain_seconds default_limits - (u + i * 1000000 - u)"
    "max_drain_seconds default_limits - (u + (i + 1) * 1000000 - u) > 0" "\<not> max_drain_events default_limits \<le> i"
    using Cons.prems(4) by (auto simp: default_limits_def SECOND_def)
  obtain sv1 where d: "deliver_event (monitored fr token now) (env_event env) endpoint token
      (max_drain_seconds default_limits - (u + i * 1000000 - u)) (u + i * 1000000, sv) =
      (Inr \<lparr>dr_delivered = True, dr_attempts = 1, dr_reason = None, dr_http_status = Some 202\<rparr>, (u + i * 1000000 + 1000000, sv1))"
    "marks_fit (db (sv_store sv1))" "text_at (env_event env) ''event_id'' \<in> log_ids sv1"
    by (rule deliver_accepted_at_once [OF v _ Cons.prems(2) _ _ budget(1), of now endpoint token])
      (use assms(1) in \<open>auto simp: working_def\<close>)
  have mono: "log_ids sv \<subseteq> log_ids sv1"
    using deliver_event_preserves [OF monitored_preserves_log, of _ "(u + i * 1000000, sv)", OF _ d(1)] by auto
  have t: "u + i * 1000000 + 1000000 = u + (i + 1) * 1000000" by (simp add: algebra_simps)
  obtain sv' where rest: "drain_loop fr good_io default_limits (monitor_drain fr token now default_limits) endpoint token u (i + 1) rest
        (plus_delivered c) (file_remove PendingRoot name s) (Some u, u + (i + 1) * 1000000, sv1) =
      (Inr ((plus_delivered c)\<lparr>dn_delivered := dn_delivered (plus_delivered c) + length rest\<rparr>),
       remove_all rest (file_remove PendingRoot name s), (Some u, u + (i + 1 + int (length rest)) * 1000000, sv'))"
    "log_ids sv1 \<union> (env_id \<circ> snd) ` set rest \<subseteq> log_ids sv'"
    using Cons.IH [of sv1 "i + 1" "plus_delivered c" "file_remove PendingRoot name s"] Cons.prems d(2) by auto
  have "drain_loop fr good_io default_limits (monitor_drain fr token now default_limits) endpoint token u i (p # rest) c s
        (Some u, u + i * 1000000, sv) =
      drain_loop fr good_io default_limits (monitor_drain fr token now default_limits) endpoint token u (i + 1) rest
        (plus_delivered c) (file_remove PendingRoot name s) (Some u, u + (i + 1) * 1000000, sv1)"
    using budget d(1)
    by (simp add: p bounded_clock_monitored drain_delivery_monitored settle_def good_io_def t Let_def)
  moreover have "env_id env \<in> log_ids sv1" using d(3) by (simp add: env_id_def)
  ultimately show ?case
    using rest mono by (auto simp: p plus_delivered_def remove_all_def algebra_simps)
qed (auto simp: remove_all_def)


text \<open>The pending events of an outbox with working files, before and after they are removed.\<close>

lemma pending_events_spec:
  assumes "pending_events fr good_io s = (todo, corrupt, s')"
  defines "dead \<equiv> set (dead_letter_ids fr good_io s (fst (json_files good_io DeadLetterRoot s)))"
  shows "set todo = {(n, env). n \<in> fst ` set (pending s) \<and> ends_with ''.json'' n \<and> stem n \<notin> dead \<and>
      read_envelope fr good_io PendingRoot n s = Some env}"
    and "dead_letter s' = dead_letter s"
    and "pending s' = filter (\<lambda>f. \<not> (ends_with ''.json'' (fst f) \<and> stem (fst f) \<in> dead)) (pending s)"
    and "\<And>n. stem n \<notin> dead \<Longrightarrow> read_envelope fr good_io PendingRoot n s' = read_envelope fr good_io PendingRoot n s"
proof -
  let ?dn = "sort (filter (ends_with ''.json'') (map fst (dead_letter s)))"
  let ?pn = "sort (filter (ends_with ''.json'') (map fst (pending s)))"
  have dn: "json_files good_io DeadLetterRoot s = (?dn, s)" and pn: "json_files good_io PendingRoot s = (?pn, s)"
    by (simp_all add: json_files_def good_io_def folder_files_def)
  obtain valid where scan: "scan_pending fr good_io (dead_letter_ids fr good_io s ?dn) ?pn s = (valid, corrupt, s')"
    and todo: "todo = sort_key queue_order valid"
    using assms(1) dn pn by (auto simp: pending_events_def split: prod.splits)
  note spec = scan_pending_spec [OF scan]
  have dead: "dead = set (dead_letter_ids fr good_io s ?dn)" by (simp add: dead_def dn)
  show "set todo = {(n, env). n \<in> fst ` set (pending s) \<and> ends_with ''.json'' n \<and> stem n \<notin> dead \<and>
      read_envelope fr good_io PendingRoot n s = Some env}"
    using spec by (auto simp: todo dead)
  show "dead_letter s' = dead_letter s" using spec by simp
  show "pending s' = filter (\<lambda>f. \<not> (ends_with ''.json'' (fst f) \<and> stem (fst f) \<in> dead)) (pending s)"
    using spec by (auto simp: dead intro!: filter_cong)
  show "read_envelope fr good_io PendingRoot n s' = read_envelope fr good_io PendingRoot n s" if "stem n \<notin> dead" for n
    using spec that by (simp add: dead)
qed

lemma dead_letter_ids_cong:
  assumes "dead_letter s' = dead_letter s"
  shows "dead_letter_ids fr good_io s' (fst (json_files good_io DeadLetterRoot s')) =
    dead_letter_ids fr good_io s (fst (json_files good_io DeadLetterRoot s))"
  using assms by (simp add: dead_letter_ids_def json_files_def good_io_def folder_files_def read_envelope_def file_get_def)

lemma tbl_get_filter_name:
  "tbl_get fst n (filter (\<lambda>f. P (fst f)) fs) = (if P n then tbl_get fst n fs else None)"
  by (induction fs) auto

lemma pending_events_removed:
  assumes "pending_events fr good_io s = (todo, corrupt, s1)"
  shows "fst (pending_events fr good_io (remove_all todo s1)) = []"
proof -
  let ?s = "remove_all todo s1"
  obtain left c s2 where p: "pending_events fr good_io ?s = (left, c, s2)" by (metis prod_cases3)
  note before = pending_events_spec [OF assms] and after = pending_events_spec [OF p]
  have dl: "dead_letter ?s = dead_letter s" using before(2) remove_all_frame by simp
  have False if "(n, env) \<in> set left" for n env
  proof -
    have n: "n \<in> fst ` set (pending ?s)" "ends_with ''.json'' n" "read_envelope fr good_io PendingRoot n ?s = Some env"
      "stem n \<notin> set (dead_letter_ids fr good_io s (fst (json_files good_io DeadLetterRoot s)))"
      using that after(1) dead_letter_ids_cong [OF dl] by auto
    then have fresh: "n \<notin> fst ` set todo" "n \<in> fst ` set (pending s)"
      using remove_all_frame [of todo s1] before(3) by auto
    have "tbl_get fst n (pending ?s) = tbl_get fst n (pending s1)"
      using fresh(1) tbl_get_filter_name [of n "\<lambda>x. x \<notin> fst ` set todo"] by (simp add: remove_all_frame)
    then have "read_envelope fr good_io PendingRoot n ?s = read_envelope fr good_io PendingRoot n s1"
      by (simp add: read_envelope_def file_get_def folder_files_def)
    then have "(n, env) \<in> set todo" using n fresh(2) before(1,4) by simp
    then show False using fresh(1) by force
  qed
  then have "left = []" by (cases left) auto
  then show ?thesis by (simp add: p)
qed


lemma pending_item_event:
  assumes "pending_events fr good_io s = (todo, corrupt, s1)" and "(n, env) \<in> set todo"
  shows "event_value (env_event env)"
proof -
  have "read_envelope fr good_io PendingRoot n s = Some env"
    using pending_events_spec(1) [OF assms(1)] assms(2) by simp
  from pending_valid_ok [OF read_envelope_pending [OF this]] show ?thesis by (simp add: envelope_ok_def)
qed


text \<open>One queued event and a monitor with an empty database.\<close>

lemma sample_flush:
  "event_fits (sort_keys (json_payload (ev_payload (event_of sample_finished))))"
  "working (\<lambda>t. sample_time) ''http://monitor/v1/events'' ''secret''"
  "read_token_file (Some ''secret'') = Inr ''secret''"
proof -
  show "event_fits (sort_keys (json_payload (ev_payload (event_of sample_finished))))"
    "read_token_file (Some ''secret'') = Inr ''secret''" by code_simp+
  have "res_ok (normalise_received_at sample_time)" "events_url ''http://monitor/v1/events''" "is_ascii_text ''secret''"
    by code_simp+
  then show "working (\<lambda>t. sample_time) ''http://monitor/v1/events'' ''secret''" by (simp add: working_def)
qed

lemma outbox1_pending:
  "fst (pending_events (\<lambda>x. x) good_io outbox1) =
     [(json_name (ev_id (event_of sample_finished)), \<lparr>queued_at = sample_queue_time,
        env_event = sort_keys (json_payload (ev_payload (event_of sample_finished))), env_reason = None\<rparr>)]"
proof -
  let ?name = "json_name (ev_id (event_of sample_finished))"
  obtain r bytes where e: "enqueue (\<lambda>x. x) good_io default_limits 0 sample_finished (Some sample_queue_time) empty_outbox = (Inr r, outbox1)"
    and r: "eq_status r = ''queued''"
    and o1: "outbox1 = empty_outbox\<lparr>pending := [(?name, bytes)]\<rparr>"
    by (rule outbox1_facts)
  obtain e q b where w: "validate_event sample_finished = Inr e" "queued_timestamp 0 (Some sample_queue_time) = Some q"
    "file_get PendingRoot (json_name (ev_id e)) outbox1 = Some b"
    "queue_time q \<longrightarrow> parse_envelope (\<lambda>x. x) False (json_name (ev_id e)) b =
       Some \<lparr>queued_at = q, env_event = sort_keys (json_payload (ev_payload e)), env_reason = None\<rparr>"
    by (rule enqueue_written [OF e r sample_dicts_finished, where fr' = "\<lambda>x. x"])
  have "read_envelope (\<lambda>x. x) good_io PendingRoot ?name outbox1 = Some \<lparr>queued_at = sample_queue_time,
      env_event = sort_keys (json_payload (ev_payload (event_of sample_finished))), env_reason = None\<rparr>"
    using w sample_finished_valid sample_queue_time by (simp add: read_envelope_def good_io_def queue_time_def)
  then show ?thesis
    using ends_with_json_name by (simp add: pending_events_def json_files_def good_io_def folder_files_def o1
        empty_outbox_def dead_letter_ids_def)
qed


text \<open>The drain of that outbox, under a monitor with another token.\<close>

theorem drained_is_stored_witness:
  "\<exists>r s' t' sv'. drain_outbox (\<lambda>x. x) good_io (monitored (\<lambda>x. x) ''other'' (\<lambda>t. sample_time)) default_limits
      ''http://monitor/v1/events'' ''secret'' outbox1 (0, \<lparr>sv_store = fresh_store, sv_reports = [], sv_discarded = 0\<rparr>) =
      (r, s', (t', sv')) \<and>
    (\<forall>n b env. file_get PendingRoot n outbox1 = Some b \<and> parse_envelope (\<lambda>x. x) False n b = Some env \<longrightarrow>
       file_get PendingRoot n s' = Some b \<or> dead_has (\<lambda>x. x) (env_id env) s' \<or> env_id env \<in> log_ids sv')"
proof -
  obtain r s' t' sv' where d: "drain_outbox (\<lambda>x. x) good_io (monitored (\<lambda>x. x) ''other'' (\<lambda>t. sample_time)) default_limits
      ''http://monitor/v1/events'' ''secret'' outbox1 (0, \<lparr>sv_store = fresh_store, sv_reports = [], sv_discarded = 0\<rparr>) =
      (r, s', (t', sv'))" by (metis prod_cases4)
  from drained_is_stored [OF d] d show ?thesis by blast
qed
end
