(* ===== verification/Migration.thy ===== *)
theory Migration
  imports StoreReplay
begin

section \<open>Opening a database of an older version (\<^verbatim>\<open>store.py\<close>, \<^verbatim>\<open>_migrate\<close>)\<close>

text \<open>
  The database file as SQLite has it: tables with named columns, rows whose cells are found by column.
  \<open>migrate_tables\<close> is the script of \<^verbatim>\<open>_migrate\<close>, statement by statement, \<open>read_database\<close> what the
  typed tables of \<open>Schema\<close> are of it.  A file of an older version, which may lack whole tables and any
  of the columns that were added since, is read as the same rows with the defaults of those columns.
\<close>

subsection \<open>Tables\<close>

datatype sql_value = SqlNull | SqlInt int | SqlText string

type_synonym sql_row = "(string \<times> sql_value) list"

record sql_table =
  tb_columns :: "string list"
  tb_rows :: "sql_row list"

type_synonym sql_database = "(string \<times> sql_table) list"

definition update_table :: "string \<Rightarrow> (sql_table \<Rightarrow> sql_table) \<Rightarrow> sql_database \<Rightarrow> sql_database" where
  "update_table name f raw = map (\<lambda>(n, t). (n, if n = name then f t else t)) raw"

text \<open>The \<^verbatim>\<open>CREATE TABLE IF NOT EXISTS\<close> statements: names and columns.\<close>

definition events_columns :: "string list" where
  "events_columns = [''event_row_id'', ''event_id'', ''event_type'', ''runner_id'', ''producer_id'', ''producer_epoch'',
     ''producer_sequence'', ''occurred_at'', ''received_at'', ''payload_json'', ''projection_applied'']"

definition runner_state_columns :: "string list" where
  "runner_state_columns = [''runner_id'', ''producer_id'', ''producer_epoch'', ''producer_sequence'', ''liveness'',
     ''activity'', ''last_received_at'', ''last_heartbeat_at'', ''last_job_outcome'', ''last_event_id'',
     ''offline_reason'', ''current_repository'', ''current_workflow_run_id'', ''current_run_attempt'', ''current_job_id'']"

definition job_state_columns :: "string list" where
  "job_state_columns = [''repository'', ''workflow_run_id'', ''run_attempt'', ''job_id'', ''runner_id'', ''job_name'',
     ''run_url'', ''state'', ''outcome'', ''last_received_at'', ''last_event_id'', ''liveness'', ''last_heartbeat_at'',
     ''offline_reason'']"

definition incidents_columns :: "string list" where
  "incidents_columns = [''incident_id'', ''resource_kind'', ''resource_id'', ''condition'', ''active'', ''opened_at'',
     ''closed_at'', ''last_changed_at'']"

definition watermarks_columns :: "string list" where
  "watermarks_columns = [''runner_id'', ''producer_id'', ''producer_epoch'', ''producer_sequence'']"

definition meta_columns :: "string list" where
  "meta_columns = [''key'', ''value'']"

definition table_schemas :: "(string \<times> string list) list" where
  "table_schemas = [(''events'', events_columns), (''runner_state'', runner_state_columns),
     (''job_state'', job_state_columns), (''incidents'', incidents_columns),
     (''producer_watermarks'', watermarks_columns), (''monitor_meta'', meta_columns)]"

definition create_if_missing :: "string \<times> string list \<Rightarrow> sql_database \<Rightarrow> sql_database" where
  "create_if_missing schema raw =
     (case map_of raw (fst schema) of
        None \<Rightarrow> raw @ [(fst schema, \<lparr>tb_columns = snd schema, tb_rows = []\<rparr>)] | Some t \<Rightarrow> raw)"

text \<open>\<^verbatim>\<open>INSERT OR IGNORE INTO monitor_meta\<close>: \<^verbatim>\<open>key\<close> is the primary key.\<close>

definition meta_has :: "string \<Rightarrow> sql_table \<Rightarrow> bool" where
  "meta_has k t = list_ex (\<lambda>r. map_of r ''key'' = Some (SqlText k)) (tb_rows t)"

definition insert_or_ignore :: "string \<Rightarrow> string \<Rightarrow> sql_table \<Rightarrow> sql_table" where
  "insert_or_ignore k v t =
     (if meta_has k t then t else t\<lparr>tb_rows := tb_rows t @ [[(''key'', SqlText k), (''value'', SqlText v)]]\<rparr>)"

text \<open>\<^verbatim>\<open>_add_column_if_missing\<close>: the rows that are there read the default.\<close>

definition add_column :: "string \<Rightarrow> sql_value \<Rightarrow> sql_table \<Rightarrow> sql_table" where
  "add_column c v t =
     (if List.member (tb_columns t) c then t
      else \<lparr>tb_columns = tb_columns t @ [c], tb_rows = map (\<lambda>r. r @ [(c, v)]) (tb_rows t)\<rparr>)"

definition added_columns :: "((string \<times> string) \<times> sql_value) list" where
  "added_columns = [((''events'', ''projection_applied''), SqlInt 0), ((''runner_state'', ''offline_reason''), SqlNull),
     ((''runner_state'', ''current_repository''), SqlNull), ((''runner_state'', ''current_workflow_run_id''), SqlNull),
     ((''runner_state'', ''current_run_attempt''), SqlNull), ((''runner_state'', ''current_job_id''), SqlNull),
     ((''job_state'', ''liveness''), SqlText ''online''), ((''job_state'', ''last_heartbeat_at''), SqlNull),
     ((''job_state'', ''offline_reason''), SqlNull)]"

definition add_column_if_missing :: "(string \<times> string) \<times> sql_value \<Rightarrow> sql_database \<Rightarrow> sql_database" where
  "add_column_if_missing a raw = (case a of ((name, c), v) \<Rightarrow> update_table name (add_column c v) raw)"

definition migrate_tables :: "sql_database \<Rightarrow> sql_database" where
  "migrate_tables raw =
     fold add_column_if_missing added_columns
       (update_table ''monitor_meta'' (insert_or_ignore ''projection_history_complete'' ''1'')
         (fold create_if_missing table_schemas raw))"

subsection \<open>Migrating twice\<close>

definition up_to_date :: "sql_database \<Rightarrow> bool" where
  "up_to_date raw \<longleftrightarrow> fst ` set table_schemas \<subseteq> fst ` set raw \<and>
     (\<forall>t. (''monitor_meta'', t) \<in> set raw \<longrightarrow> meta_has ''projection_history_complete'' t) \<and>
     (\<forall>((name, c), v) \<in> set added_columns. \<forall>t. (name, t) \<in> set raw \<longrightarrow> c \<in> set (tb_columns t))"

lemma update_table_id: "(\<And>t. (name, t) \<in> set raw \<Longrightarrow> f t = t) \<Longrightarrow> update_table name f raw = raw"
  by (auto simp: update_table_def intro!: map_idI)

lemma up_to_date_migrate:
  assumes "up_to_date raw"
  shows "migrate_tables raw = raw"
proof -
  have "create_if_missing s raw = raw" if "s \<in> set table_schemas" for s
    using that assms by (force simp: create_if_missing_def up_to_date_def map_of_eq_None_iff split: option.splits)
  then have "fold create_if_missing ss raw = raw" if "set ss \<subseteq> set table_schemas" for ss
    using that by (induction ss) auto
  then have 1: "fold create_if_missing table_schemas raw = raw" by simp
  have 2: "update_table ''monitor_meta'' (insert_or_ignore ''projection_history_complete'' ''1'') raw = raw"
    using assms by (intro update_table_id) (auto simp: up_to_date_def insert_or_ignore_def)
  have "add_column_if_missing a raw = raw" if "a \<in> set added_columns" for a
    using that assms by (cases a; cases "fst a") (auto simp: add_column_if_missing_def add_column_def up_to_date_def intro!: update_table_id)
  then have "fold add_column_if_missing bs raw = raw" if "set bs \<subseteq> set added_columns" for bs
    using that by (induction bs) auto
  then show ?thesis by (simp add: migrate_tables_def 1 2)
qed

lemma map_of_update_table: "map_of (update_table name f raw) n = map_option (if n = name then f else id) (map_of raw n)"
  by (induction raw) (auto simp: update_table_def)

lemma set_update_table: "(n, t) \<in> set (update_table name f raw) \<longleftrightarrow> (\<exists>u. (n, u) \<in> set raw \<and> t = (if n = name then f u else u))"
  by (force simp: update_table_def)

lemma fst_update_table [simp]: "fst ` set (update_table name f raw) = fst ` set raw"
  by (force simp: update_table_def)

lemma fst_create: "fst ` set (fold create_if_missing ss raw) = fst ` set raw \<union> fst ` set ss"
  by (induction ss arbitrary: raw)
    (force simp: create_if_missing_def map_of_eq_None_iff split: option.splits dest!: map_of_SomeD)+

lemma fst_map_tables: "fst ` set (map (\<lambda>(n, t). (n, f n t)) raw) = fst ` set raw"
  by force

text \<open>The added columns, table by table.\<close>

definition add_columns :: "string \<Rightarrow> ((string \<times> string) \<times> sql_value) list \<Rightarrow> sql_table \<Rightarrow> sql_table" where
  "add_columns n bs t = fold (\<lambda>((m, c), v) u. if m = n then add_column c v u else u) bs t"

lemma fold_add_columns: "fold add_column_if_missing bs raw = map (\<lambda>(n, t). (n, add_columns n bs t)) raw"
  by (induction bs arbitrary: raw) (auto simp: add_columns_def add_column_if_missing_def update_table_def)

lemma set_add_columns: "set (tb_columns (add_columns n bs t)) = set (tb_columns t) \<union> {c. \<exists>v. ((n, c), v) \<in> set bs}"
proof (induction bs arbitrary: t)
  case (Cons b bs)
  obtain m c v where "b = ((m, c), v)" by (cases b; cases "fst b") auto
  then show ?case using Cons.IH [of "if m = n then add_column c v t else t"]
    by (auto simp: add_columns_def add_column_def)
qed (simp add: add_columns_def)

lemma migrate_up_to_date: "up_to_date (migrate_tables raw)"
proof -
  let ?m = "update_table ''monitor_meta'' (insert_or_ignore ''projection_history_complete'' ''1'')
      (fold create_if_missing table_schemas raw)"
  have m: "migrate_tables raw = map (\<lambda>(n, t). (n, add_columns n added_columns t)) ?m"
    by (simp add: migrate_tables_def fold_add_columns)
  have "fst ` set (migrate_tables raw) = fst ` set ?m" unfolding m by (rule fst_map_tables)
  then have "fst ` set table_schemas \<subseteq> fst ` set (migrate_tables raw)" using fst_create by simp
  moreover have "meta_has ''projection_history_complete'' t" if "(''monitor_meta'', t) \<in> set (migrate_tables raw)" for t
  proof -
    have "add_columns ''monitor_meta'' added_columns u = u" for u by (simp add: add_columns_def added_columns_def)
    then have "(''monitor_meta'', t) \<in> set ?m" using that unfolding m by auto
    then show ?thesis by (auto simp: set_update_table insert_or_ignore_def meta_has_def)
  qed
  moreover have "c \<in> set (tb_columns t)" if "((n, c), v) \<in> set added_columns" "(n, t) \<in> set (migrate_tables raw)" for n c v t
    using that unfolding m by (auto simp: set_add_columns)
  ultimately show ?thesis unfolding up_to_date_def by blast
qed

lemma migrate_idempotent: "migrate_tables (migrate_tables raw) = migrate_tables raw"
  by (rule up_to_date_migrate [OF migrate_up_to_date])

subsection \<open>Reading the tables\<close>

text \<open>\<open>None\<close> where a column is missing or holds a value of another type.\<close>

fun as_int :: "sql_value option \<Rightarrow> int option" where
  "as_int (Some (SqlInt n)) = Some n"
| "as_int _ = None"

fun as_flag :: "sql_value option \<Rightarrow> bool option" where
  "as_flag (Some (SqlInt n)) = Some (n \<noteq> 0)"
| "as_flag _ = None"

fun as_text :: "sql_value option \<Rightarrow> string option" where
  "as_text (Some (SqlText s)) = Some s"
| "as_text _ = None"

fun as_nullable_int :: "sql_value option \<Rightarrow> int option option" where
  "as_nullable_int (Some SqlNull) = Some None"
| "as_nullable_int v = map_option Some (as_int v)"

fun as_nullable_text :: "sql_value option \<Rightarrow> string option option" where
  "as_nullable_text (Some SqlNull) = Some None"
| "as_nullable_text v = map_option Some (as_text v)"

text \<open>A record is read field by field.\<close>

definition field :: "('a \<Rightarrow> 'b) option \<Rightarrow> 'a option \<Rightarrow> 'b option" where
  "field f x = Option.bind f (\<lambda>g. map_option g x)"

definition read_event :: "sql_row \<Rightarrow> event_row option" where
  "read_event r = field (field (field (field (field (field (field (field (field (field (field (Some event_row.make)
     (as_int (map_of r ''event_row_id''))) (as_text (map_of r ''event_id''))) (as_text (map_of r ''event_type'')))
     (as_text (map_of r ''runner_id''))) (as_text (map_of r ''producer_id''))) (as_text (map_of r ''producer_epoch'')))
     (as_int (map_of r ''producer_sequence''))) (as_text (map_of r ''occurred_at''))) (as_text (map_of r ''received_at'')))
     (as_text (map_of r ''payload_json''))) (as_flag (map_of r ''projection_applied''))"

definition read_runner :: "sql_row \<Rightarrow> runner_row option" where
  "read_runner r = field (field (field (field (field (field (field (field (field (field (field (field (field (field (field
     (Some runner_row.make)
     (as_text (map_of r ''runner_id''))) (as_text (map_of r ''producer_id''))) (as_text (map_of r ''producer_epoch'')))
     (as_int (map_of r ''producer_sequence''))) (as_text (map_of r ''liveness''))) (as_text (map_of r ''activity'')))
     (as_text (map_of r ''last_received_at''))) (as_nullable_text (map_of r ''last_heartbeat_at'')))
     (as_nullable_text (map_of r ''last_job_outcome''))) (as_text (map_of r ''last_event_id'')))
     (as_nullable_text (map_of r ''offline_reason''))) (as_nullable_text (map_of r ''current_repository'')))
     (as_nullable_int (map_of r ''current_workflow_run_id''))) (as_nullable_int (map_of r ''current_run_attempt'')))
     (as_nullable_int (map_of r ''current_job_id''))"

definition read_job :: "sql_row \<Rightarrow> job_row option" where
  "read_job r = field (field (field (field (field (field (field (field (field (field (field (field (field (field
     (Some job_row.make)
     (as_text (map_of r ''repository''))) (as_int (map_of r ''workflow_run_id''))) (as_int (map_of r ''run_attempt'')))
     (as_int (map_of r ''job_id''))) (as_text (map_of r ''runner_id''))) (as_text (map_of r ''job_name'')))
     (as_text (map_of r ''run_url''))) (as_text (map_of r ''state''))) (as_nullable_text (map_of r ''outcome'')))
     (as_text (map_of r ''last_received_at''))) (as_text (map_of r ''last_event_id''))) (as_text (map_of r ''liveness'')))
     (as_nullable_text (map_of r ''last_heartbeat_at''))) (as_nullable_text (map_of r ''offline_reason''))"

definition read_incident :: "sql_row \<Rightarrow> incident_row option" where
  "read_incident r = field (field (field (field (field (field (field (field (Some incident_row.make)
     (as_int (map_of r ''incident_id''))) (as_text (map_of r ''resource_kind''))) (as_text (map_of r ''resource_id'')))
     (as_text (map_of r ''condition''))) (as_flag (map_of r ''active''))) (as_text (map_of r ''opened_at'')))
     (as_nullable_text (map_of r ''closed_at''))) (as_text (map_of r ''last_changed_at''))"

definition read_watermark :: "sql_row \<Rightarrow> watermark_row option" where
  "read_watermark r = field (field (field (field (Some watermark_row.make)
     (as_text (map_of r ''runner_id''))) (as_text (map_of r ''producer_id''))) (as_text (map_of r ''producer_epoch'')))
     (as_int (map_of r ''producer_sequence''))"

definition read_meta :: "sql_row \<Rightarrow> (string \<times> string) option" where
  "read_meta r = field (field (Some Pair) (as_text (map_of r ''key''))) (as_text (map_of r ''value''))"

definition read_rows :: "(sql_row \<Rightarrow> 'a option) \<Rightarrow> sql_table option \<Rightarrow> 'a list option" where
  "read_rows f t = Option.bind t (\<lambda>u. those (map f (tb_rows u)))"

definition read_database :: "sql_database \<Rightarrow> database option" where
  "read_database raw = field (field (field (field (field (field (Some database.make)
     (read_rows read_event (map_of raw ''events''))) (read_rows read_runner (map_of raw ''runner_state'')))
     (read_rows read_job (map_of raw ''job_state''))) (read_rows read_incident (map_of raw ''incidents'')))
     (read_rows read_watermark (map_of raw ''producer_watermarks''))) (read_rows read_meta (map_of raw ''monitor_meta''))"

subsection \<open>The tables of a typed database\<close>

definition null_text :: "string option \<Rightarrow> sql_value" where
  "null_text v = (case v of None \<Rightarrow> SqlNull | Some s \<Rightarrow> SqlText s)"

definition null_int :: "int option \<Rightarrow> sql_value" where
  "null_int v = (case v of None \<Rightarrow> SqlNull | Some n \<Rightarrow> SqlInt n)"

definition flag :: "bool \<Rightarrow> sql_value" where
  "flag b = SqlInt (if b then 1 else 0)"

definition write_event :: "event_row \<Rightarrow> sql_value list" where
  "write_event r = [SqlInt (er_row_id r), SqlText (er_event_id r), SqlText (er_event_type r), SqlText (er_runner_id r),
     SqlText (er_producer_id r), SqlText (er_producer_epoch r), SqlInt (er_producer_sequence r), SqlText (er_occurred_at r),
     SqlText (er_received_at r), SqlText (er_payload_json r), flag (er_applied r)]"

definition write_runner :: "runner_row \<Rightarrow> sql_value list" where
  "write_runner r = [SqlText (rs_runner_id r), SqlText (rs_producer_id r), SqlText (rs_producer_epoch r),
     SqlInt (rs_producer_sequence r), SqlText (rs_liveness r), SqlText (rs_activity r), SqlText (rs_last_received_at r),
     null_text (rs_last_heartbeat_at r), null_text (rs_last_job_outcome r), SqlText (rs_last_event_id r),
     null_text (rs_offline_reason r), null_text (rs_current_repository r), null_int (rs_current_workflow_run_id r),
     null_int (rs_current_run_attempt r), null_int (rs_current_job_id r)]"

definition write_job :: "job_row \<Rightarrow> sql_value list" where
  "write_job r = [SqlText (js_repository r), SqlInt (js_workflow_run_id r), SqlInt (js_run_attempt r), SqlInt (js_job_id r),
     SqlText (js_runner_id r), SqlText (js_job_name r), SqlText (js_run_url r), SqlText (js_state r), null_text (js_outcome r),
     SqlText (js_last_received_at r), SqlText (js_last_event_id r), SqlText (js_liveness r), null_text (js_last_heartbeat_at r),
     null_text (js_offline_reason r)]"

definition write_incident :: "incident_row \<Rightarrow> sql_value list" where
  "write_incident i = [SqlInt (in_id i), SqlText (in_kind i), SqlText (in_resource i), SqlText (in_condition i),
     flag (in_active i), SqlText (in_opened_at i), null_text (in_closed_at i), SqlText (in_last_changed_at i)]"

definition write_watermark :: "watermark_row \<Rightarrow> sql_value list" where
  "write_watermark m = [SqlText (wm_runner_id m), SqlText (wm_producer_id m), SqlText (wm_producer_epoch m), SqlInt (wm_sequence m)]"

definition write_meta :: "string \<times> string \<Rightarrow> sql_value list" where
  "write_meta m = [SqlText (fst m), SqlText (snd m)]"

definition table_of :: "string list \<Rightarrow> sql_value list list \<Rightarrow> sql_table" where
  "table_of cols rows = \<lparr>tb_columns = cols, tb_rows = map (zip cols) rows\<rparr>"

definition write_database :: "database \<Rightarrow> sql_database" where
  "write_database d =
     [(''events'', table_of events_columns (map write_event (events d))),
      (''runner_state'', table_of runner_state_columns (map write_runner (runner_state d))),
      (''job_state'', table_of job_state_columns (map write_job (job_state d))),
      (''incidents'', table_of incidents_columns (map write_incident (incidents d))),
      (''producer_watermarks'', table_of watermarks_columns (map write_watermark (watermarks d))),
      (''monitor_meta'', table_of meta_columns (map write_meta (monitor_meta d)))]"

subsection \<open>A file of an older version\<close>

text \<open>The file without some tables and without some of the columns that were added later.\<close>

definition older_table :: "(string \<times> string) list \<Rightarrow> string \<Rightarrow> sql_table \<Rightarrow> sql_table" where
  "older_table dropped n t =
     \<lparr>tb_columns = filter (\<lambda>c. (n, c) \<notin> set dropped) (tb_columns t),
      tb_rows = map (filter (\<lambda>(c, v). (n, c) \<notin> set dropped)) (tb_rows t)\<rparr>"

definition older :: "string list \<Rightarrow> (string \<times> string) list \<Rightarrow> sql_database \<Rightarrow> sql_database" where
  "older gone dropped raw = map (\<lambda>(n, t). (n, older_table dropped n t)) (filter (\<lambda>(n, t). n \<notin> set gone) raw)"

text \<open>The typed rows with the defaults of the columns that were not there.\<close>

definition default_event :: "(string \<times> string) list \<Rightarrow> event_row \<Rightarrow> event_row" where
  "default_event dropped r = (if (''events'', ''projection_applied'') \<in> set dropped then r\<lparr>er_applied := False\<rparr> else r)"

definition unless_dropped :: "(string \<times> string) list \<Rightarrow> string \<Rightarrow> string \<Rightarrow> 'a option \<Rightarrow> 'a option" where
  "unless_dropped dropped n c v = (if (n, c) \<in> set dropped then None else v)"

definition default_runner :: "(string \<times> string) list \<Rightarrow> runner_row \<Rightarrow> runner_row" where
  "default_runner dropped r =
     r\<lparr>rs_offline_reason := unless_dropped dropped ''runner_state'' ''offline_reason'' (rs_offline_reason r),
       rs_current_repository := unless_dropped dropped ''runner_state'' ''current_repository'' (rs_current_repository r),
       rs_current_workflow_run_id := unless_dropped dropped ''runner_state'' ''current_workflow_run_id'' (rs_current_workflow_run_id r),
       rs_current_run_attempt := unless_dropped dropped ''runner_state'' ''current_run_attempt'' (rs_current_run_attempt r),
       rs_current_job_id := unless_dropped dropped ''runner_state'' ''current_job_id'' (rs_current_job_id r)\<rparr>"

definition default_job :: "(string \<times> string) list \<Rightarrow> job_row \<Rightarrow> job_row" where
  "default_job dropped r = r\<lparr>js_liveness := (if (''job_state'', ''liveness'') \<in> set dropped then ''online'' else js_liveness r),
     js_last_heartbeat_at := unless_dropped dropped ''job_state'' ''last_heartbeat_at'' (js_last_heartbeat_at r),
     js_offline_reason := unless_dropped dropped ''job_state'' ''offline_reason'' (js_offline_reason r)\<rparr>"

definition with_defaults :: "(string \<times> string) list \<Rightarrow> database \<Rightarrow> database" where
  "with_defaults dropped d = d\<lparr>events := map (default_event dropped) (events d),
     runner_state := map (default_runner dropped) (runner_state d), job_state := map (default_job dropped) (job_state d)\<rparr>"

text \<open>Looking up a table of the migrated file, and a cell of one of its rows.\<close>

lemma map_of_tables: "map_of (map (\<lambda>(n, t). (n, f n t)) raw) n = map_option (f n) (map_of raw n)"
  by (induction raw) auto

lemma map_of_create:
  "map_of (fold create_if_missing ss raw) n =
    (case map_of raw n of None \<Rightarrow> map_option (\<lambda>c. \<lparr>tb_columns = c, tb_rows = []\<rparr>) (map_of ss n) | Some t \<Rightarrow> Some t)"
proof (induction ss arbitrary: raw)
  case (Cons s ss)
  have "map_of (create_if_missing s raw) n =
      (case map_of raw n of None \<Rightarrow> if n = fst s then Some \<lparr>tb_columns = snd s, tb_rows = []\<rparr> else None | Some t \<Rightarrow> Some t)"
    by (auto simp: create_if_missing_def map_add_def split: option.splits)
  then show ?case using Cons.IH [of "create_if_missing s raw"] by (cases s) (auto split: option.splits)
qed (simp split: option.splits)

lemma map_of_migrate:
  "map_of (migrate_tables raw) n = map_option (\<lambda>t. add_columns n added_columns
       (if n = ''monitor_meta'' then insert_or_ignore ''projection_history_complete'' ''1'' t else t))
     (map_of (fold create_if_missing table_schemas raw) n)"
  by (cases "map_of (fold create_if_missing table_schemas raw) n")
    (simp_all add: migrate_tables_def fold_add_columns map_of_tables map_of_update_table)

lemma add_columns_cells:
  "\<exists>g. tb_rows (add_columns n bs t) = map g (tb_rows t) \<and>
     (\<forall>r c. map_of (g r) c = (case map_of r c of Some v \<Rightarrow> Some v
        | None \<Rightarrow> if c \<in> set (tb_columns t) then None else map_of bs (n, c)))"
proof (induction bs arbitrary: t)
  case Nil
  show ?case by (rule exI [of _ id]) (simp add: add_columns_def split: option.split)
next
  case (Cons b bs)
  obtain m c0 v0 where b: "b = ((m, c0), v0)" by (cases b; cases "fst b") auto
  let ?t = "if m = n then add_column c0 v0 t else t"
  obtain g where g: "tb_rows (add_columns n bs ?t) = map g (tb_rows ?t)"
    "\<And>r c. map_of (g r) c = (case map_of r c of Some v \<Rightarrow> Some v
        | None \<Rightarrow> if c \<in> set (tb_columns ?t) then None else map_of bs (n, c))"
    using Cons.IH [of ?t] by blast
  have step: "add_columns n (b # bs) t = add_columns n bs ?t" by (simp add: add_columns_def b)
  show ?case
  proof (cases "m = n \<and> c0 \<notin> set (tb_columns t)")
    case True
    then have "tb_rows (add_columns n (b # bs) t) = map (\<lambda>r. g (r @ [(c0, v0)])) (tb_rows t)"
      using g(1) by (simp add: step add_column_def)
    then show ?thesis
      using True g(2) by (intro exI [of _ "\<lambda>r. g (r @ [(c0, v0)])"]) (auto simp: b add_column_def map_add_def split: option.splits)
  next
    case False
    then have t: "?t = t" by (auto simp: add_column_def)
    then have "tb_rows (add_columns n (b # bs) t) = map g (tb_rows t)" using g(1) step by simp
    moreover have "map_of (g r) c = (case map_of r c of Some v \<Rightarrow> Some v
        | None \<Rightarrow> if c \<in> set (tb_columns t) then None else map_of (b # bs) (n, c))" for r c
      using False g(2) [of r c, unfolded t] by (auto simp: b split: option.splits)
    ultimately show ?thesis by blast
  qed
qed

lemma map_of_filter_columns:
  "map_of (filter (\<lambda>(c, v). P c) r) c = (if P c then map_of r c else None)"
  by (induction r) auto

lemma those_map: "(\<And>x. x \<in> set xs \<Longrightarrow> f x = Some (h x)) \<Longrightarrow> those (map f xs) = Some (map h xs)"
  by (induction xs) auto

lemma read_flag [simp]: "as_flag (Some (flag b)) = Some b"
  by (simp add: flag_def)

lemma read_nullable [simp]:
  "as_nullable_text (Some (null_text v)) = Some v" "as_nullable_int (Some (null_int n)) = Some n"
  by (simp_all add: null_text_def null_int_def split: option.split)

definition addable :: "(string \<times> string) list \<Rightarrow> bool" where
  "addable dropped \<longleftrightarrow> set dropped \<subseteq> set (map fst added_columns)"

text \<open>A row of the migrated file: the written cells, or the defaults.\<close>

definition older_row :: "string \<Rightarrow> (string \<times> string) list \<Rightarrow> string list \<Rightarrow> sql_value list \<Rightarrow> sql_row \<Rightarrow> bool" where
  "older_row n dropped cols vals r \<longleftrightarrow> (\<forall>c \<in> set cols. map_of r c =
     (if (n, c) \<in> set dropped then map_of added_columns (n, c) else map_of (zip cols vals) c))"

lemma older_cells:
  assumes "addable dropped" and "older_row n dropped cols vals r" and "List.member cols c"
  shows "map_of r c = (if List.member (map fst added_columns) (n, c) \<and> (n, c) \<in> set dropped
     then map_of added_columns (n, c) else map_of (zip cols vals) c)"
  using assms by (auto simp: addable_def older_row_def)

lemma read_older_event:
  "addable dropped \<Longrightarrow> older_row ''events'' dropped events_columns (write_event x) r \<Longrightarrow> read_event r = Some (default_event dropped x)"
  unfolding read_event_def field_def
  by (cases x) (auto simp: older_cells events_columns_def added_columns_def write_event_def default_event_def event_row.make_def intro: exI [of _ False])

lemma read_older_runner:
  "addable dropped \<Longrightarrow> older_row ''runner_state'' dropped runner_state_columns (write_runner x) r \<Longrightarrow> read_runner r = Some (default_runner dropped x)"
  unfolding read_runner_def field_def
  by (cases x) (simp add: older_cells runner_state_columns_def added_columns_def write_runner_def default_runner_def runner_row.make_def unless_dropped_def)

lemma read_older_job:
  "addable dropped \<Longrightarrow> older_row ''job_state'' dropped job_state_columns (write_job x) r \<Longrightarrow> read_job r = Some (default_job dropped x)"
  unfolding read_job_def field_def
  by (cases x) (simp add: older_cells job_state_columns_def added_columns_def write_job_def default_job_def job_row.make_def unless_dropped_def)

lemma read_older_incident:
  "addable dropped \<Longrightarrow> older_row ''incidents'' dropped incidents_columns (write_incident x) r \<Longrightarrow> read_incident r = Some (x)"
  unfolding read_incident_def field_def
  by (cases x) (simp add: older_cells incidents_columns_def added_columns_def write_incident_def incident_row.make_def)

lemma read_older_watermark:
  "addable dropped \<Longrightarrow> older_row ''producer_watermarks'' dropped watermarks_columns (write_watermark x) r \<Longrightarrow> read_watermark r = Some (x)"
  unfolding read_watermark_def field_def
  by (cases x) (simp add: older_cells watermarks_columns_def added_columns_def write_watermark_def watermark_row.make_def)

lemma read_older_meta:
  "addable dropped \<Longrightarrow> older_row ''monitor_meta'' dropped meta_columns (write_meta x) r \<Longrightarrow> read_meta r = Some (x)"
  unfolding read_meta_def field_def
  by (cases x) (simp add: older_cells meta_columns_def added_columns_def write_meta_def)

text \<open>The rows of one table.\<close>

lemma read_older_rows:
  assumes "\<And>x. length (w x) = length cols"
    and "\<And>x r. older_row n dropped cols (w x) r \<Longrightarrow> f r = Some (h x)"
  shows "read_rows f (Some (add_columns n added_columns (older_table dropped n (table_of cols (map w xs))))) = Some (map h xs)"
proof -
  let ?t = "older_table dropped n (table_of cols (map w xs))"
  let ?row = "\<lambda>x. filter (\<lambda>(c, v). (n, c) \<notin> set dropped) (zip cols (w x))"
  obtain g where g: "tb_rows (add_columns n added_columns ?t) = map g (tb_rows ?t)"
    "\<And>r c. map_of (g r) c = (case map_of r c of Some v \<Rightarrow> Some v
        | None \<Rightarrow> if c \<in> set (tb_columns ?t) then None else map_of added_columns (n, c))"
    using add_columns_cells [of n added_columns ?t] by blast
  have "older_row n dropped cols (w x) (g (?row x))" for x
    using map_of_zip_is_None [of cols "w x"] assms(1)
    by (auto simp: older_row_def g(2) map_of_filter_columns older_table_def table_of_def split: option.splits)
  then have "those (map (\<lambda>x. f (g (?row x))) xs) = Some (map h xs)" using assms(2) by (intro those_map) blast
  then show ?thesis by (simp add: read_rows_def g(1)) (simp add: older_table_def table_of_def comp_def)
qed

lemma read_older_table:
  assumes "map_of (write_database d) n = Some (table_of cols (map w xs))" and "map_of table_schemas n = Some cols"
    and "n \<in> set gone \<Longrightarrow> xs = []" and "n \<noteq> ''monitor_meta''"
    and "\<And>x. length (w x) = length cols" and "\<And>x r. older_row n dropped cols (w x) r \<Longrightarrow> f r = Some (h x)"
  shows "read_rows f (map_of (migrate_tables (older gone dropped (write_database d))) n) = Some (map h xs)"
proof -
  have raw: "map_of (older gone dropped (write_database d)) n =
      (if n \<in> set gone then None else Some (older_table dropped n (table_of cols (map w xs))))"
    using assms(1) map_of_filter_columns [of "\<lambda>n. n \<notin> set gone" "write_database d" n] by (simp add: older_def map_of_tables)
  have "read_rows f (Some (add_columns n added_columns \<lparr>tb_columns = cols, tb_rows = []\<rparr>)) = Some []"
    using add_columns_cells [of n added_columns "\<lparr>tb_columns = cols, tb_rows = []\<rparr>"] by (auto simp: read_rows_def)
  then show ?thesis
    using raw assms(2-4) read_older_rows [where w = w and n = n and f = f and h = h, OF assms(5,6)]
    by (auto simp: map_of_migrate map_of_create)
qed

text \<open>The marker table, which has no added columns.\<close>

lemma meta_has_written: "meta_has k (table_of meta_columns (map write_meta m)) \<longleftrightarrow> map_of m k \<noteq> None"
  by (auto simp: meta_has_def table_of_def list_ex_iff write_meta_def meta_columns_def map_of_eq_None_iff)

lemma insert_marker:
  "insert_or_ignore k v (table_of meta_columns (map write_meta m)) =
    table_of meta_columns (map write_meta (case map_of m k of None \<Rightarrow> m @ [(k, v)] | Some u \<Rightarrow> m))"
  by (auto simp: insert_or_ignore_def meta_has_written split: option.splits)
    (simp_all add: table_of_def write_meta_def meta_columns_def)

lemma older_meta: "addable dropped \<Longrightarrow> older_table dropped ''monitor_meta'' t = t"
proof -
  assume "addable dropped"
  then have "(''monitor_meta'', c) \<notin> set dropped" for c by (auto simp: addable_def added_columns_def)
  then have cells: "filter (\<lambda>(c, v). (''monitor_meta'', c) \<notin> set dropped) r = r"
    and columns: "filter (\<lambda>c. (''monitor_meta'', c) \<notin> set dropped) cs = cs" for r :: sql_row and cs
    by (auto simp: filter_id_conv)
  have "filter (\<lambda>(c, v). (''monitor_meta'', c) \<notin> set dropped) = (\<lambda>r :: sql_row. r)"
    using cells by (rule ext)
  then show ?thesis by (simp add: older_table_def columns)
qed

lemma read_older_marker:
  assumes "addable dropped" and "''monitor_meta'' \<in> set gone \<Longrightarrow> monitor_meta d = []"
  shows "read_rows read_meta (map_of (migrate_tables (older gone dropped (write_database d))) ''monitor_meta'') =
    Some (monitor_meta (migrate d))"
proof -
  let ?m = "\<lambda>m. case map_of m ''projection_history_complete'' of None \<Rightarrow> m @ [(''projection_history_complete'', ''1'')] | Some u \<Rightarrow> m"
  have raw: "map_of (fold create_if_missing table_schemas (older gone dropped (write_database d))) ''monitor_meta'' =
      Some (table_of meta_columns (map write_meta (monitor_meta d)))"
    using assms map_of_filter_columns [of "\<lambda>n. n \<notin> set gone" "write_database d" "''monitor_meta''"]
    by (simp add: older_def map_of_tables map_of_create older_meta)
      (simp add: write_database_def table_schemas_def table_of_def)
  have len: "length (write_meta x) = length meta_columns" for x by (simp add: write_meta_def meta_columns_def)
  have "read_rows read_meta (Some (add_columns ''monitor_meta'' added_columns
      (older_table dropped ''monitor_meta'' (table_of meta_columns (map write_meta (?m (monitor_meta d))))))) =
      Some (map (\<lambda>x. x) (?m (monitor_meta d)))"
    by (rule read_older_rows [OF len]) (rule read_older_meta [OF assms(1)])
  then show ?thesis
    by (simp add: map_of_migrate raw insert_marker older_meta [OF assms(1)] migrate_def split: option.splits)
qed


definition offline_runner :: runner_row where
  "offline_runner = runner_row.make ''r1'' ''p1'' ''e1'' 4 ''offline'' ''idle'' ''2026-01-01T00:00:00Z'' None None ''id1''
     (Some ''runner_offline'') (Some ''o/r'') (Some 7) (Some 1) (Some 9)"

definition offline_job :: job_row where
  "offline_job = job_row.make ''o/r'' 7 1 9 ''r1'' ''build'' ''https://host/o/r'' ''running'' None ''2026-01-01T00:00:00Z'' ''id1''
     ''offline'' None (Some ''heartbeat_timeout'')"

definition older_sample :: database where
  "older_sample = database.make [] [offline_runner] [offline_job] [] [watermark_row.make ''r1'' ''p1'' ''e1'' 4] []"


end
