(* ===== verification/ServiceProperties.thy ===== *)
theory ServiceProperties
  imports Commands
begin

section \<open>Properties of the services\<close>

text \<open>
  The command lines of the services are split into the arguments they were built from; the run of the
  monitor service returns once its child has ended or the stop event is seen, whatever calls fail; the
  event that resets itself, with which a stop can be missed.
\<close>

subsection \<open>Command lines\<close>

text \<open>
  The rules that the documentation of \<^verbatim>\<open>list2cmdline\<close> states, which are those of the C runtime of Windows: a space or a tab
  outside quotation marks separates; backslashes count in pairs before a quotation mark, where an odd
  one makes it literal, and are literal elsewhere.  \<open>n\<close> backslashes were read before the position, \<open>acc\<close>
  is the argument so far, if one has begun.
\<close>

definition begun :: "string option \<Rightarrow> string" where
  "begun acc = (case acc of None \<Rightarrow> [] | Some a \<Rightarrow> a)"

definition end_argument :: "nat \<Rightarrow> string option \<Rightarrow> string list" where
  "end_argument n acc = (if acc = None \<and> n = 0 then [] else [begun acc @ replicate n backslash])"

fun split_chars :: "bool \<Rightarrow> nat \<Rightarrow> string option \<Rightarrow> string \<Rightarrow> string list" where
  "split_chars quoted n acc [] = end_argument n acc"
| "split_chars quoted n acc (c # cs) =
     (if c = backslash then split_chars quoted (n + 1) acc cs
      else if c = CHR 0x22 then
        (let a = begun acc @ replicate (n div 2) backslash in
         if even n then split_chars (\<not> quoted) 0 (Some a) cs else split_chars quoted 0 (Some (a @ [CHR 0x22])) cs)
      else if (c = CHR '' '' \<or> c = CHR 0x09) \<and> \<not> quoted then end_argument n acc @ split_chars False 0 None cs
      else split_chars quoted 0 (Some (begun acc @ replicate n backslash @ [c])) cs)"

definition split_cmdline :: "string \<Rightarrow> string list" where
  "split_cmdline s = split_chars False 0 None s"

lemma backslash_other [simp]: "backslash \<noteq> CHR 0x22" "CHR 0x22 \<noteq> backslash" "CHR '' '' \<noteq> backslash" "CHR 0x09 \<noteq> backslash"
  by (simp_all add: backslash_def)

lemma begun_simps [simp]: "begun None = []" "begun (Some a) = a"
  by (simp_all add: begun_def)

lemma split_backslashes: "split_chars q m acc (replicate k backslash @ s) = split_chars q (m + k) acc s"
  by (induction k arbitrary: m) simp_all

lemma split_separated:
  assumes "s = [] \<or> (\<exists>r. s = CHR '' '' # r)"
  shows "split_chars False n acc s = end_argument n acc @ split_chars False 0 None (tl s)"
  using assms by (auto simp: end_argument_def)

lemma split_quote_chars:
  assumes "s = [] \<or> (\<exists>r. s = CHR '' '' # r)" and "quoted \<or> CHR '' '' \<notin> set cs \<and> CHR 0x09 \<notin> set cs"
    and "quoted \<longrightarrow> acc \<noteq> None"
  shows "split_chars quoted 0 acc (quote_chars quoted n cs @ s) =
    (if acc = None \<and> n = 0 \<and> cs = [] then [] else [begun acc @ replicate n backslash @ cs]) @ split_chars False 0 None (tl s)"
  using assms(2,3)
proof (induction cs arbitrary: n acc)
  case Nil
  show ?case
    using Nil split_separated [OF assms(1)]
    by (cases quoted) (auto simp: split_backslashes end_argument_def replicate_add [symmetric])
next
  case (Cons c cs)
  consider "c = backslash" | "c = CHR 0x22" | "c \<noteq> backslash" "c \<noteq> CHR 0x22" by blast
  then show ?case
  proof cases
    case 1
    then show ?thesis using Cons by (simp add: replicate_app_Cons_same)
  next
    case 2
    then show ?thesis using Cons by (simp add: split_backslashes Let_def)
  next
    case 3
    then show ?thesis using Cons by (auto simp: split_backslashes)
  qed
qed

lemma split_quote_arg:
  assumes "s = [] \<or> (\<exists>r. s = CHR '' '' # r)"
  shows "split_chars False 0 None (quote_arg a @ s) = a # split_chars False 0 None (tl s)"
  using split_quote_chars [OF assms, of True a "Some []" 0] split_quote_chars [OF assms, of False a None 0]
  by (auto simp: quote_arg_def Let_def)

lemma split_list2cmdline: "split_cmdline (list2cmdline args) = args"
proof -
  have "split_chars False 0 None (join '' '' (map quote_arg args)) = args"
  proof (induction args rule: induct_list012)
    case (2 a)
    then show ?case using split_quote_arg [of "[]" a] by (simp add: end_argument_def)
  next
    case (3 a b rest)
    then show ?case using split_quote_arg [of "CHR '' '' # join '' '' (map quote_arg (b # rest))" a] by simp
  qed (simp add: end_argument_def)
  then show ?thesis by (simp add: split_cmdline_def list2cmdline_def)
qed


subsection \<open>The supervisor\<close>

text \<open>
  A child that has ended, or a stop that is seen, by the time \<open>T\<close> at the latest: \<open>time\<close> is a clock of
  the world that no call moves back and that a wait moves on.
\<close>

definition over_by :: "('w \<Rightarrow> nat) \<Rightarrow> nat \<Rightarrow> 'w child \<Rightarrow> 'w stop_event \<Rightarrow> bool" where
  "over_by time T ch ev \<longleftrightarrow>
     (\<forall>w. time w \<le> time (snd (ch_poll ch w))) \<and> (\<forall>w. time w \<le> time (snd (se_is_set ev w))) \<and>
     (\<forall>t w. time w < time (snd (se_wait ev t w))) \<and>
     (\<forall>w. T \<le> time w \<longrightarrow> fst (ch_poll ch w) \<noteq> None \<or> fst (se_is_set ev (snd (ch_poll ch w))))"

text \<open>Calls on a child that fail as operating system calls do.\<close>

definition fails_as_os :: "unit res \<times> 'w \<Rightarrow> bool" where
  "fails_as_os p = (case fst p of Inl x \<Rightarrow> os_error x | Inr u \<Rightarrow> True)"

definition plain_child :: "'w child \<Rightarrow> bool" where
  "plain_child ch \<longleftrightarrow> (\<forall>w t. fails_as_os (ch_terminate ch w) \<and> fails_as_os (ch_wait ch t w) \<and> fails_as_os (ch_kill ch w))"

lemma end_and_wait_plain:
  assumes "\<And>w. fails_as_os (action w)" and "plain_child ch" and "end_and_wait action ch w = (Inl x, w')"
  shows "os_error x"
proof -
  have "fails_as_os (action w)" "\<And>v. fails_as_os (ch_wait ch STOP_TIMEOUT v)" using assms(1,2) by (auto simp: plain_child_def)
  then show ?thesis
    using assms(3) by (auto simp: end_and_wait_def sbind_def fails_as_os_def split: prod.splits sum.splits) (metis fst_conv sum.simps(5))
qed

lemma stop_child_plain: "plain_child ch \<Longrightarrow> \<exists>w'. stop_child ch w = (Inr (), w')"
  using end_and_wait_plain [of "ch_terminate ch" ch] end_and_wait_plain [of "ch_kill ch" ch]
  by (fastforce simp: stop_child_def plain_child_def split: prod.splits option.splits sum.splits)

lemma stopped_code_plain: "plain_child ch \<Longrightarrow> \<exists>status w'. stopped_code ch w = (Inr status, w')"
  using stop_child_plain [of ch w] by (auto simp: stopped_code_def sbind_def split: prod.splits option.splits)

lemma watch_child_returns:
  assumes "over_by time T ch ev" and "plain_child ch"
  shows "\<exists>status w'. watch_child ch ev w = Some (Inr status, w')"
proof (induction "T - time w" arbitrary: w rule: less_induct)
  case less
  obtain r w1 where p: "ch_poll ch w = (r, w1)" by fastforce
  obtain stop w2 where s: "se_is_set ev w1 = (stop, w2)" by fastforce
  obtain signalled w3 where t: "se_wait ev POLL_INTERVAL w2 = (signalled, w3)" by fastforce
  show ?case
  proof (cases "r = None \<and> \<not> stop")
    case True
    have "time w < T" using assms(1) p s True unfolding over_by_def by (metis fst_conv not_less snd_conv)
    moreover have "time w < time w3"
      using assms(1) p s t unfolding over_by_def by (metis le_less_trans order_trans snd_conv)
    ultimately have "\<exists>status w'. watch_child ch ev w3 = Some (Inr status, w')" by (intro less) linarith
    then show ?thesis using True p s t by (subst watch_child.simps) simp
  next
    case False
    then show ?thesis
      using p s stopped_code_plain [OF assms(2), of w2]
      by (subst watch_child.simps) (auto split: option.splits)
  qed
qed


text \<open>A child that ends with the code 3 at the time 2; no stop is signalled.\<close>

definition timed_child :: "nat child" where
  "timed_child = \<lparr>ch_poll = (\<lambda>w. (if 2 \<le> w then Some 3 else None, w)), ch_terminate = (\<lambda>w. (Inr (), w)),
     ch_wait = (\<lambda>t w. (Inr (), w)), ch_kill = (\<lambda>w. (Inr (), w))\<rparr>"

definition timed_api :: "nat service_api" where
  "timed_api = \<lparr>sa_wait_single = (\<lambda>ms w. (False, w + 1)), sa_set_event = (\<lambda>w. w), sa_report_stop_pending = (\<lambda>w. w),
     sa_log_error = (\<lambda>s w. (Inr (), w + 100)), sa_dispatch = (\<lambda>w. (Inr (), w))\<rparr>"

definition timed_config :: service_config where
  "timed_config = service_config.make ''RunnerObservabilityMonitor'' ''python'' ''o.sqlite'' ''token'' ''0.0.0.0'' 8765 None None None"


subsection \<open>The stop event\<close>

text \<open>A run that never comes to an end: what is true of the world stays true from round to round.\<close>

lemma watch_child_forever:
  assumes "P w" and "\<And>w. P w \<Longrightarrow> fst (ch_poll ch w) = None"
    and "\<And>w. P w \<Longrightarrow> \<not> fst (se_is_set ev (snd (ch_poll ch w)))"
    and "\<And>w. P w \<Longrightarrow> P (snd (se_wait ev POLL_INTERVAL (snd (se_is_set ev (snd (ch_poll ch w))))))"
  shows "watch_child ch ev w = None"
proof (rule ccontr)
  assume "watch_child ch ev w \<noteq> None"
  then obtain out where "watch_child ch ev w = Some out" by blast
  moreover have "watch_child c e w = Some out \<Longrightarrow> c = ch \<longrightarrow> e = ev \<longrightarrow> \<not> P w" for c e w out
  proof (rule watch_child.raw_induct [of "\<lambda>c e w out. c = ch \<longrightarrow> e = ev \<longrightarrow> \<not> P w"])
    fix self c e w out
    assume "\<And>c e w out. self c e w = Some out \<Longrightarrow> c = ch \<longrightarrow> e = ev \<longrightarrow> \<not> P w"
      and "(case ch_poll c w of (r, w1) \<Rightarrow>
        (case r of Some status \<Rightarrow> Some (Inr status, w1)
         | None \<Rightarrow> (case se_is_set e w1 of (stop, w2) \<Rightarrow>
             if stop then Some (stopped_code c w2)
             else (case se_wait e POLL_INTERVAL w2 of (signalled, w3) \<Rightarrow> self c e w3)))) = Some out"
    then show "c = ch \<longrightarrow> e = ev \<longrightarrow> \<not> P w"
      using assms(2-4) [of w] by (fastforce split: prod.splits option.splits if_splits)
  qed
  ultimately show False using assms(1) by blast
qed

text \<open>
  The event of \<^verbatim>\<open>CreateEvent(None, 0, 0, None)\<close>: a successful wait resets it.  \<open>ew_coming\<close>: it is set while
  the next wait that lasts is under way.
\<close>

record event_world =
  ew_set :: bool
  ew_coming :: bool

definition auto_reset_api :: "event_world service_api" where
  "auto_reset_api = \<lparr>sa_wait_single = (\<lambda>ms w. (ew_set w \<or> ms \<noteq> Some 0 \<and> ew_coming w,
       \<lparr>ew_set = False, ew_coming = (ms = Some 0 \<and> ew_coming w)\<rparr>)),
     sa_set_event = (\<lambda>w. w\<lparr>ew_set := True\<rparr>), sa_report_stop_pending = (\<lambda>w. w), sa_log_error = (\<lambda>s w. (Inr (), w)),
     sa_dispatch = (\<lambda>w. (Inr (), w))\<rparr>"

definition busy_child :: "event_world child" where
  "busy_child = \<lparr>ch_poll = (\<lambda>w. (None, w)), ch_terminate = (\<lambda>w. (Inr (), w)), ch_wait = (\<lambda>t w. (Inr (), w)),
     ch_kill = (\<lambda>w. (Inr (), w))\<rparr>"

text \<open>
  A stop that is signalled during the wait is consumed by it, and its result is ignored: with a child
  that goes on, the supervisor never returns; one that is signalled between two waits is seen.
\<close>

lemma stop_signal_lost:
  "watch_child busy_child (win32_stop_event auto_reset_api) \<lparr>ew_set = False, ew_coming = True\<rparr> = None"
  by (rule watch_child_forever [of "\<lambda>w. \<not> ew_set w"])
    (simp_all add: busy_child_def win32_stop_event_def win32_is_set_def win32_wait_def auto_reset_api_def)

lemma stop_signal_seen:
  "\<exists>w. watch_child busy_child (win32_stop_event auto_reset_api) \<lparr>ew_set = True, ew_coming = False\<rparr> = Some (Inr 0, w)"
  by (subst watch_child.simps)
    (simp add: busy_child_def win32_stop_event_def win32_is_set_def auto_reset_api_def stopped_code_def stop_child_def
      end_and_wait_def sbind_def)

end
