(* ===== verification/Divergences.thy ===== *)
theory Divergences
  imports QueryProperties Commands
begin

section \<open>Behaviours to know of\<close>

text \<open>
  Runs on which the code does something that its comments, its documents or its callers do not expect:
  retention that is stuck, runners listed by the text of their times, a server that leaves the store
  open.
\<close>

subsection \<open>Retention\<close>

text \<open>The moment before which \<^verbatim>\<open>prune_history\<close> removes.\<close>

definition retention_cutoff :: "received \<Rightarrow> datetime res" where
  "retention_cutoff now = rbind (normalise_received_at now) (\<lambda>cur. rbind (parse_received_at cur) (\<lambda>t.
     moment_minus t (RETENTION_DAYS * DAY)))"

lemma prune_history_over_limit:
  assumes "retention_cutoff now = Inr c" and "expired_ids c (db s) = Inr ids" and "max_vars < length ids"
  shows "prune_history max_vars False s now = (Inr 0, add_reason ''cleanup_failed'' s)"
  using assms by (auto simp: prune_history_def retention_cutoff_def)

lemma stale_later:
  assumes "stale c body = Inr b" and "instant c \<le> instant c'" and "offset c = None \<longleftrightarrow> offset c' = None"
  shows "\<exists>b'. stale c' body = Inr b' \<and> (b \<longrightarrow> b')"
  using assms by (cases "parse_received_at body") (auto simp: stale_def moment_less_def split: if_splits)

lemma filter_res_mono:
  assumes "filter_res p xs = Inr ys" and "\<And>x b. p x = Inr b \<Longrightarrow> \<exists>b'. q x = Inr b' \<and> (b \<longrightarrow> b')"
  shows "\<exists>zs. filter_res q xs = Inr zs \<and> length ys \<le> length zs"
  using assms(1)
proof (induction xs arbitrary: ys)
  case (Cons x xs)
  then obtain b us where 1: "p x = Inr b" "filter_res p xs = Inr us" "ys = (if b then x # us else us)"
    by (auto simp: rbind_Inr_iff)
  from Cons.IH [OF 1(2)] obtain vs where 2: "filter_res q xs = Inr vs" "length us \<le> length vs" by blast
  from assms(2) [OF 1(1)] obtain b' where 3: "q x = Inr b'" "b \<longrightarrow> b'" by blast
  show ?case using 1(3) 2 3 by auto
qed simp

text \<open>
  Once more rows have expired than SQLite takes variables in one statement, every later cleanup fails
  too, and \<^verbatim>\<open>cleanup_failed\<close> stays: the expired rows only become more.
\<close>

lemma prune_history_stuck:
  assumes "retention_cutoff now = Inr c" and "expired_ids c (db s) = Inr ids" and "max_vars < length ids"
    and "retention_cutoff now' = Inr c'" and "instant c \<le> instant c'" and "offset c = None \<longleftrightarrow> offset c' = None"
  shows "prune_history max_vars False (add_reason ''cleanup_failed'' s) now' =
    (Inr 0, add_reason ''cleanup_failed'' s)"
proof -
  obtain rows where rows: "filter_res (\<lambda>r. stale c (er_received_at r)) (events (db s)) = Inr rows" "ids = map er_row_id rows"
    using assms(2) by (auto simp: expired_ids_def rbind_Inr_iff)
  from filter_res_mono [OF rows(1), of "\<lambda>r. stale c' (er_received_at r)"]
  obtain rows' where "filter_res (\<lambda>r. stale c' (er_received_at r)) (events (db s)) = Inr rows'" "length rows \<le> length rows'"
    using stale_later [OF _ assms(5,6)] by blast
  then show ?thesis
    using assms(3) rows(2)
    by (subst prune_history_over_limit [OF assms(4), of _ "map er_row_id rows'"])
      (auto simp: expired_ids_def add_reason_def)
qed

subsection \<open>The order of the runners\<close>

definition listed_runner :: "string \<Rightarrow> string \<Rightarrow> runner_row" where
  "listed_runner name received = runner_row.make name ''p'' ''e'' 1 ''online'' ''idle'' received None None ''i'' None None None None None"

text \<open>The runner that was heard of half a second later comes second.\<close>

lemma list_runners_by_text:
  "map rs_runner_id (list_runners \<lparr>db = database.make []
     [listed_runner ''earlier'' ''2026-01-01T00:00:00Z'', listed_runner ''later'' ''2026-01-01T00:00:00.500000Z''] [] [] [] [],
     degraded_reasons = []\<rparr>) = [''earlier'', ''later'']"
  by code_simp

lemma list_runners_times:
  "rbind (parse_received_at ''2026-01-01T00:00:00Z'') (\<lambda>a. rbind (parse_received_at ''2026-01-01T00:00:00.500000Z'') (\<lambda>b.
     moment_less a b)) = Inr True"
  by code_simp

subsection \<open>The command line\<close>

text \<open>An empty token passes the check for a missing one; the exception leaves the store open.\<close>

lemma serve_empty_token:
  "open_database path = Inr st \<Longrightarrow> serve file open_database load (Some '''') None path None None =
    Inl (Inl (ValueError ''bearer_token must not be empty''), \<lparr>sd_message = [], sd_store_left_open = True\<rparr>)"
  by (simp add: serve_def serve_token_def create_server_def)

end
