(* ===== verification/Spec2Isabelle.thy ===== *)
theory Spec2Isabelle
  imports StoreProperties QueryProperties OutboxProperties AgentProperties AgentThreads DashboardProperties
    ServerProperties DeployProperties HeartbeatProperties HeartbeatSchedule Commands Onboarding GateDrills
    EndToEnd Migration ServiceProperties Divergences
begin

text \<open>
  Runner observability: a telemetry monitor for GitHub Actions runners, the agents that send to it, and
  the commands that install and check both.  Everything under \<^verbatim>\<open>src/runner_observability\<close> is modelled,
  and the launcher \<^verbatim>\<open>src/runner_heartbeat_service.py\<close>.

  How the parts interact.  A sender (\<^verbatim>\<open>agent.py\<close>) validates an event (\<^verbatim>\<open>contracts.py\<close>), queues it in a
  directory of files (\<^verbatim>\<open>outbox.py\<close>) and posts it to the monitor (\<^verbatim>\<open>server.py\<close>), which validates it again
  and hands it to the event store (\<^verbatim>\<open>store.py\<close>).  The store appends it to its log, applies it to the
  projections (\<^verbatim>\<open>projection.py\<close>) and opens or closes incidents (\<^verbatim>\<open>health.py\<close>); the dashboard
  (\<^verbatim>\<open>dashboard.py\<close>) and the history read them.  A heartbeat producer (\<^verbatim>\<open>heartbeat.py\<close>) is a sender that
  numbers its own events; \<^verbatim>\<open>service.py\<close> and \<^verbatim>\<open>heartbeat_service.py\<close> run the monitor and the producer as
  Windows services; \<^verbatim>\<open>deploy.py\<close> installs releases, \<^verbatim>\<open>onboarding.py\<close> checks a machine's settings, and
  \<^verbatim>\<open>gate.py\<close> drills the store and the sender and reports.

  The theories, in the order in which they build on each other.

  \<^item> The language: \<open>Prelude\<close> (exceptions, the result type \<open>'a res\<close> with \<open>rbind\<close>, the fact collection
    \<open>res_simps\<close>, keyed tables as the locale \<open>keyed_table\<close>), \<open>PyText\<close> (texts, integers as text), \<open>PyRegex\<close>
    (the matcher behind the patterns), \<open>PyValue\<close> and \<open>PyJson\<close> (values, \<^verbatim>\<open>json.dumps\<close> and \<^verbatim>\<open>json.loads\<close> with
    their round trip), \<open>PyTime\<close> and \<open>PyTimeText\<close> (\<^verbatim>\<open>datetime\<close>, ISO texts and their round trip), \<open>PyUrl\<close>,
    \<open>PyBytes\<close> (UTF-8), \<open>PyNet\<close> (HTTP pieces).
  \<^item> \<open>Contracts\<close>: \<^verbatim>\<open>validate_event\<close> with every helper, and the declarative \<open>event_contract\<close> that it
    decides.
  \<^item> \<open>Schema\<close>, \<open>Health\<close>, \<open>Projection\<close>, \<open>Store\<close>, \<open>StoreReplay\<close>, \<open>StoreQueries\<close>: the tables as lists of
    records, incidents, \<^verbatim>\<open>apply_event\<close>, ingestion and liveness, replay, retention and opening, the queries.
    \<open>Migration\<close> has the tables by column names, as the script that opens a database file makes them.
    \<open>EventLog\<close> says what a row of the log stores; \<open>Monitor\<close> has the invariant \<open>store_inv\<close> and the step
    relation \<open>monitor_step\<close>, kept by every operation; \<open>StoreSteps\<close>, \<open>StoreProperties\<close> and
    \<open>QueryProperties\<close> the properties over reachable stores.
  \<^item> \<open>Outbox\<close>, \<open>JsonText\<close>, \<open>OutboxFiles\<close>, \<open>OutboxEnqueue\<close>, \<open>OutboxDrain\<close>, \<open>OutboxProperties\<close>: the durable
    outbox over two directories of files in which each operation can fail.
  \<^item> \<open>Agent\<close>, \<open>AgentNet\<close>, \<open>AgentProperties\<close>: delivery with retries and budgets, the command, the transport
    over a parametric socket interface; \<open>AgentThreads\<close>: the threads of a call with a deadline as a step
    relation.
  \<^item> \<open>Dashboard\<close>, \<open>DashboardProperties\<close>, \<open>Server\<close>, \<open>ServerProperties\<close>: the views, the request handlers, the
    request of the sender as the server reads it.
  \<^item> \<open>EndToEnd\<close>: the outbox drained over the monitor (the locale \<open>drain_evidence\<close> on the log of the store).
  \<^item> \<open>Disk\<close>, \<open>Deploy\<close>, \<open>DeployCommand\<close>, \<open>DeployProperties\<close>: calls that fail by a script, preflight, releases
    with the pointer file, rollback.
  \<^item> \<open>AtomicFile\<close>, \<open>Heartbeat\<close>, \<open>HeartbeatLoop\<close>, \<open>HeartbeatProperties\<close>, \<open>HeartbeatSchedule\<close>: files that are
    replaced as a whole (the locale \<open>durable_cell\<close>), configuration, producer state, the loop.
  \<^item> \<open>Service\<close>, \<open>Commands\<close>, \<open>Onboarding\<close>, \<open>Gate\<close>, \<open>GateCommand\<close>, \<open>GateProperties\<close>, \<open>GateSamples\<close>,
    \<open>GateDrills\<close>: the remaining commands; \<open>ServiceProperties\<close> has the properties of the services.
  \<^item> \<open>Divergences\<close>: runs that do what the code's own documents do not expect.

  How code becomes definitions.  A function that may raise returns \<open>exn + 'a\<close>; one that changes state takes
  the state and returns the next one, also with an exception, so that what a failing call leaves behind is
  visible.  Strings are lists of characters, of which the model has the first 256 code points; reading a
  text with another one is the result \<open>WideText\<close>, which is no exception of Python and is caught nowhere.
  Integers are unbounded as in Python; where SQLite binds them, \<open>fits_int64\<close> bounds them.  Times are
  nanoseconds, moments are microseconds since the year 1.  What the code is given (clocks, sockets,
  probes, subprocesses, failures of files and of SQLite) is a parameter: a record of functions over a world
  of the caller's, or a script of outcomes that is consumed call by call.

  What is proved, by group.  Contracts: acceptance is exactly the contract, stable under storing, and leaves
  no forbidden content.  Store: ingestion is idempotent and atomic, watermarks never move back, finished
  jobs are final, liveness marks exactly what is silent, open incidents belong to offline resources,
  replay rebuilds the projections, retention keeps what is recent, a database of an older version opens as
  the current one.  Outbox and sender: queued events are
  pending, limits hold, a drain loses nothing and ends in its budget, the transport returns, the command
  fails open.  Server: only an authorised and valid request changes the store, a delivered event is in the
  log.  Dashboard: only approved phase names, the latest progress.  Deployment: a failed one leaves the
  revision that it reports, others are never touched, a successful one is complete.  Heartbeat: sequence
  numbers strictly increase over crashes and restarts, the schedule does not drift, a configuration
  survives its file.  Services: the run of the monitor service returns, the command lines are split into what
  they were built from.  Gate: on a healthy SQLite every drill passes, and the exit code and the report say
  what the run found.

  Loops.  Loops that always end are recursive functions with a measure (\<open>deliver_loop\<close>: three attempts;
  \<open>skip_missed\<close>: the distance to now; \<open>host_loop\<close>: the attempts left).  Loops that may run for ever
  (\<open>http_transport\<close>, \<open>wait_for_network\<close>, \<open>run_loop\<close>, \<open>watch_child\<close>) are \<open>partial_function (option)\<close>, where
  \<open>None\<close> is not returning; that the transport returns is a property of its own.  No fuel is used.

  Not modelled: argument parsing, logging and printing to a terminal, the accept loop and TLS of the socket
  server, threads other than those of the sender's deadline, the recursion limit of the interpreter, texts
  beyond the first 256 code points, newline translation
  of Windows text files; the PowerShell scripts, the browser code of the dashboard page and the build copies.
\<close>

end
